(* ===== verification/Prelude.thy ===== *)
theory Prelude
  imports Main "HOL-Library.Word" "HOL-Library.Char_ord" "HOL-Library.List_Lexorder"
    "HOL-Library.Multiset" "HOL-Library.Sublist" "HOL-Library.AList"
begin

text \<open>
  What every component shares: instants and durations, Go's 64-bit \<open>int\<close>, errors as
  values, the functions of package \<open>strings\<close> the code calls, Go maps as association
  lists, and the generic lemmas on them.

  Conventions. A Go \<open>string\<close> or \<open>[]byte\<close> is a \<^typ>\<open>string\<close>, one \<^typ>\<open>char\<close> per byte.
  Case mapping and white space are those of ASCII: bytes above 127 have no case and are
  not blank. A \<open>time.Time\<close> is the number of nanoseconds since Go's zero time
  (0001-01-01 UTC), so the zero value is \<open>0\<close>; a \<open>time.Duration\<close> is a number of
  nanoseconds. An \<open>error\<close> result is an \<^typ>\<open>'e option\<close> with \<open>None\<close> for \<open>nil\<close>; a pair
  \<open>(T, error)\<close> is a sum with the error on the left.
\<close>

named_theorems go_simps "unfoldings of the small Go library functions"

section \<open>Time\<close>

type_synonym time = int
type_synonym duration = int

definition zeroTime :: time where "zeroTime = 0"

definition IsZero :: "time \<Rightarrow> bool" where
  "IsZero t \<longleftrightarrow> t = zeroTime"

definition Before :: "time \<Rightarrow> time \<Rightarrow> bool" where
  "Before t u \<longleftrightarrow> t < u"

definition After :: "time \<Rightarrow> time \<Rightarrow> bool" where
  "After t u \<longleftrightarrow> t > u"

definition Second :: duration where "Second = 1000000000"
definition Minute :: duration where "Minute = 60 * Second"
definition Hour :: duration where "Hour = 60 * Minute"

text \<open>Seconds from Go's zero time to the Unix epoch.\<close>

definition unixEpochSeconds :: int where "unixEpochSeconds = 62135596800"

definition Unix :: "time \<Rightarrow> int" where
  "Unix t = t div Second - unixEpochSeconds"

lemmas time_defs [go_simps] =
  zeroTime_def IsZero_def Before_def After_def Second_def Minute_def Hour_def

section \<open>Go's int\<close>

text \<open>A value of Go's \<open>int\<close>/\<open>int64\<close> is an \<^typ>\<open>int\<close>; where the code's arithmetic can
  leave the 64-bit range, \<open>wrap64\<close> writes the wrap-around out.\<close>

definition wrap64 :: "int \<Rightarrow> int" where
  "wrap64 x = signed_take_bit 63 x"

lemma wrap64_bounds: "- (2 ^ 63) \<le> wrap64 x \<and> wrap64 x < 2 ^ 63"
  unfolding wrap64_def
  using signed_take_bit_int_greater_eq_minus_exp [of 63 x]
    signed_take_bit_int_less_exp [of 63 x] by simp

lemma wrap64_id: "- (2 ^ 63) \<le> x \<Longrightarrow> x < 2 ^ 63 \<Longrightarrow> wrap64 x = x"
  unfolding wrap64_def by (rule signed_take_bit_int_eq_self) simp_all

section \<open>Errors\<close>

text \<open>Every error value the modelled code creates, compares or wraps. \<open>ErrIO\<close> stands for
  the failures of the file system, the database and the random source; \<open>ErrMsg\<close> for
  errors made from a message alone.\<close>

datatype err =
    ErrNotFound
  | ErrConflict
  | ErrIO string
  | ErrMsg string
  | ErrInvalidCredentials
  | ErrAccountLocked
  | ErrTOTPNotEnabled
  | ErrTOTPAlreadyEnabled
  | ErrNoPendingTOTP
  | ErrTOTPInvalidCode
  | ErrInvalidHash
  | ErrNoImage
  | ErrUnavailable
  | ErrSessionFailed

definition io_error :: "err \<Rightarrow> bool" where
  "io_error e \<longleftrightarrow> (case e of ErrIO _ \<Rightarrow> True | _ \<Rightarrow> False)"

lemma io_error_simps [simp]:
  "io_error (ErrIO m)" "\<not> io_error ErrNotFound" "\<not> io_error ErrConflict"
  by (simp_all add: io_error_def)

text \<open>\<open>if err != nil { return err }\<close>.\<close>

definition and_then :: "err + 'a \<Rightarrow> ('a \<Rightarrow> err + 'c) \<Rightarrow> err + 'c" where
  "and_then x f = (case x of Inl e \<Rightarrow> Inl e | Inr v \<Rightarrow> f v)"

lemma and_then_simps [simp]: "and_then (Inl e) f = Inl e" "and_then (Inr v) f = f v"
  by (simp_all add: and_then_def)

section \<open>Strings\<close>

definition lower_char :: "char \<Rightarrow> char" where
  "lower_char c = (if CHR ''A'' \<le> c \<and> c \<le> CHR ''Z'' then char_of (of_char c + 32 :: nat) else c)"

definition upper_char :: "char \<Rightarrow> char" where
  "upper_char c = (if CHR ''a'' \<le> c \<and> c \<le> CHR ''z'' then char_of (of_char c - 32 :: nat) else c)"

definition ToLower :: "string \<Rightarrow> string" where
  "ToLower = map lower_char"

definition ToUpper :: "string \<Rightarrow> string" where
  "ToUpper = map upper_char"

definition EqualFold :: "string \<Rightarrow> string \<Rightarrow> bool" where
  "EqualFold s t \<longleftrightarrow> ToLower s = ToLower t"

definition HasPrefix :: "string \<Rightarrow> string \<Rightarrow> bool" where
  "HasPrefix s p \<longleftrightarrow> take (length p) s = p"

definition HasSuffix :: "string \<Rightarrow> string \<Rightarrow> bool" where
  "HasSuffix s p \<longleftrightarrow> HasPrefix (rev s) (rev p)"

definition TrimPrefix :: "string \<Rightarrow> string \<Rightarrow> string" where
  "TrimPrefix s p = (if HasPrefix s p then drop (length p) s else s)"

definition TrimSuffix :: "string \<Rightarrow> string \<Rightarrow> string" where
  "TrimSuffix s p = (if HasSuffix s p then take (length s - length p) s else s)"

text \<open>\<open>strings.Trim(s, cutset)\<close>.\<close>

definition Trim :: "string \<Rightarrow> string \<Rightarrow> string" where
  "Trim s cutset = rev (dropWhile (\<lambda>c. c \<in> set cutset) (rev (dropWhile (\<lambda>c. c \<in> set cutset) s)))"

definition spaces :: string where
  "spaces = [CHR '' '', CHR 0x09, CHR 0x0A, CHR 0x0B, CHR 0x0C, CHR 0x0D]"

definition TrimSpace :: "string \<Rightarrow> string" where
  "TrimSpace s = Trim s spaces"

fun Contains :: "string \<Rightarrow> string \<Rightarrow> bool" where
  "Contains [] p = (p = [])"
| "Contains (c # s) p = (HasPrefix (c # s) p \<or> Contains s p)"

text \<open>\<open>strings.Split(s, sep)\<close> for a one-byte separator.\<close>

fun Split :: "string \<Rightarrow> char \<Rightarrow> string list" where
  "Split [] sep = [[]]"
| "Split (c # s) sep =
     (if c = sep then [] # Split s sep
      else (case Split s sep of [] \<Rightarrow> [[c]] | p # ps \<Rightarrow> (c # p) # ps))"

fun Join :: "string list \<Rightarrow> string \<Rightarrow> string" where
  "Join [] sep = []"
| "Join [s] sep = s"
| "Join (s # t # ss) sep = s @ sep @ Join (t # ss) sep"

text \<open>\<open>strings.IndexByte\<close>, with \<open>None\<close> for \<open>-1\<close>.\<close>

fun IndexByte :: "string \<Rightarrow> char \<Rightarrow> nat option" where
  "IndexByte [] c = None"
| "IndexByte (d # s) c = (if d = c then Some 0 else map_option Suc (IndexByte s c))"

fun digits_nat :: "nat \<Rightarrow> string" where
  "digits_nat n = (if n < 10 then [char_of (48 + n)] else digits_nat (n div 10) @ [char_of (48 + n mod 10)])"

declare digits_nat.simps [simp del]

text \<open>\<open>strconv.Itoa\<close>.\<close>

definition Itoa :: "int \<Rightarrow> string" where
  "Itoa i = (if i < 0 then CHR ''-'' # digits_nat (nat (- i)) else digits_nat (nat i))"

definition is_digit :: "char \<Rightarrow> bool" where
  "is_digit c \<longleftrightarrow> CHR ''0'' \<le> c \<and> c \<le> CHR ''9''"

lemma EqualFold_refl [simp]: "EqualFold s s"
  by (simp add: EqualFold_def)

lemma EqualFold_sym: "EqualFold s t \<longleftrightarrow> EqualFold t s"
  by (auto simp: EqualFold_def)

lemma EqualFold_trans: "EqualFold s t \<Longrightarrow> EqualFold t u \<Longrightarrow> EqualFold s u"
  by (simp add: EqualFold_def)

lemma HasPrefix_prefix: "HasPrefix s p \<longleftrightarrow> prefix p s"
  unfolding HasPrefix_def prefix_def
  by (metis append_eq_conv_conj append_take_drop_id)

lemma HasPrefix_append [simp]: "HasPrefix (p @ s) p"
  by (simp add: HasPrefix_def)

lemma Split_not_Nil [simp]: "Split s sep \<noteq> []"
  by (induction s) (auto split: list.splits)

lemma Split_no_sep: "sep \<notin> set s \<Longrightarrow> Split s sep = [s]"
  by (induction s) auto

lemma Split_append: "sep \<notin> set s \<Longrightarrow> Split (s @ sep # t) sep = s # Split t sep"
  by (induction s) auto

section \<open>Go maps\<close>

text \<open>A Go map is an association list with distinct keys. Iteration visits the entries in
  list order; as Go leaves the order open, results that depend on it are stated up to it.\<close>

type_synonym 'v gomap = "(string \<times> 'v) list"

abbreviation map_get :: "'v gomap \<Rightarrow> string \<Rightarrow> 'v option" where
  "map_get m k \<equiv> map_of m k"

definition map_set :: "string \<Rightarrow> 'v \<Rightarrow> 'v gomap \<Rightarrow> 'v gomap" where
  "map_set k v m = AList.update k v m"

definition map_del :: "string \<Rightarrow> 'v gomap \<Rightarrow> 'v gomap" where
  "map_del k m = filter (\<lambda>(k', _). k' \<noteq> k) m"

definition map_vals :: "'v gomap \<Rightarrow> 'v list" where
  "map_vals m = map snd m"

definition map_wf :: "'v gomap \<Rightarrow> bool" where
  "map_wf m \<longleftrightarrow> distinct (map fst m)"

lemma map_of_map_set [simp]: "map_of (map_set k v m) = (map_of m)(k \<mapsto> v)"
  by (simp add: map_set_def update_conv')

lemma map_of_map_del [simp]: "map_of (map_del k m) = (map_of m)(k := None)"
  by (induction m) (auto simp: map_del_def fun_eq_iff)

lemma map_of_filter_val:
  "map_wf m \<Longrightarrow> map_of (filter (\<lambda>(_, v). P v) m) = (\<lambda>k. case map_of m k of None \<Rightarrow> None | Some v \<Rightarrow> if P v then Some v else None)"
  unfolding map_wf_def
proof (induction m)
  case (Cons kv m)
  obtain k v where [simp]: "kv = (k, v)" by (cases kv)
  from Cons.prems have k: "map_of m k = None" by (simp add: map_of_eq_None_iff)
  with Cons show ?case by (auto simp: fun_eq_iff)
qed auto

lemma map_wf_set [simp, intro]: "map_wf m \<Longrightarrow> map_wf (map_set k v m)"
  by (simp add: map_wf_def map_set_def distinct_update)

lemma map_wf_filter [simp, intro]: "map_wf m \<Longrightarrow> map_wf (filter P m)"
  by (simp add: map_wf_def distinct_map_filter)

lemma map_wf_del [simp, intro]: "map_wf m \<Longrightarrow> map_wf (map_del k m)"
  by (simp add: map_del_def)

lemma map_wf_Nil [simp]: "map_wf []"
  by (simp add: map_wf_def)

lemma set_map_vals: "map_wf m \<Longrightarrow> set (map_vals m) = ran (map_of m)"
  by (force simp: map_wf_def map_vals_def ran_def)

lemma map_wf_in: "map_wf m \<Longrightarrow> (k, v) \<in> set m \<longleftrightarrow> map_of m k = Some v"
  by (simp add: map_wf_def)

text \<open>The first value, in iteration order, that satisfies a test.\<close>

definition map_find :: "('v \<Rightarrow> bool) \<Rightarrow> 'v gomap \<Rightarrow> 'v option" where
  "map_find P m = find P (map_vals m)"

lemma map_find_None: "map_wf m \<Longrightarrow> map_find P m = None \<longleftrightarrow> (\<forall>v \<in> ran (map_of m). \<not> P v)"
  by (auto simp: map_find_def find_None_iff set_map_vals)

lemma map_find_Some: "map_wf m \<Longrightarrow> map_find P m = Some v \<Longrightarrow> v \<in> ran (map_of m) \<and> P v"
  unfolding map_find_def using set_map_vals [of m] by (auto simp: find_Some_iff)

lemma set_map_filter: "set (List.map_filter f l) = {y. \<exists>x \<in> set l. f x = Some y}"
  by (induction l) (auto simp: map_filter_simps split: option.splits)

section \<open>Byte order and prefixes\<close>

lemma prefix_le: "prefix p k \<Longrightarrow> p \<le> (k :: string)"
proof (induction p arbitrary: k)
  case (Cons c p)
  then show ?case by (cases k) auto
qed simp

text \<open>The keys with a given prefix are consecutive in byte order.\<close>

lemma prefix_convex: "p \<le> k1 \<Longrightarrow> k1 \<le> k2 \<Longrightarrow> prefix p k2 \<Longrightarrow> prefix p (k1 :: string)"
proof (induction p arbitrary: k1 k2)
  case (Cons c p)
  from Cons.prems(1) obtain d k1' where k1: "k1 = d # k1'" by (cases k1) auto
  from Cons.prems(3) obtain k2' where k2: "k2 = c # k2'" by (cases k2) auto
  from Cons.prems(1,2) have "c = d \<and> p \<le> k1' \<and> k1' \<le> k2'"
    by (auto simp: k1 k2)
  with Cons k1 k2 show ?case by auto
qed simp

lemma seek_prefix_filter:
  assumes "sorted_wrt (<) (map fst es)"
  shows "takeWhile (\<lambda>(k, _). HasPrefix k p) (dropWhile (\<lambda>(k, _). k < p) es)
       = filter (\<lambda>(k, _). HasPrefix k p) es"
  using assms
proof (induction es)
  case (Cons e es)
  obtain k v where e: "e = (k, v)" by (cases e)
  have above: "k < k'" if "(k', v') \<in> set es" for k' v'
    using Cons.prems that by (force simp: e)
  show ?case
  proof (cases "k < p")
    case True
    then have "\<not> HasPrefix k p" using prefix_le [of p k] by (auto simp: HasPrefix_prefix)
    with True Cons show ?thesis by (simp add: e)
  next
    case False
    then have drop: "dropWhile (\<lambda>(k, _). k < p) es = es"
      using above by (cases es) (force simp: dropWhile_eq_self_iff)+
    show ?thesis
    proof (cases "HasPrefix k p")
      case True
      with False drop Cons show ?thesis by (simp add: e)
    next
      case nop: False
      have "\<not> HasPrefix k' p" if "(k', v') \<in> set es" for k' v'
        using prefix_convex [of p k k'] above [OF that] False nop
        by (force simp: HasPrefix_prefix not_less)
      then have "filter (\<lambda>(k, _). HasPrefix k p) es = []"
        by (auto simp: filter_empty_conv)
      with False nop show ?thesis by (simp add: e)
    qed
  qed
qed simp

end
