(* ===== verification/Models.thy ===== *)
theory Models
  imports Prelude
begin

text \<open>
  The persisted records of \<open>internal/store\<close> (\<open>models.go\<close>, \<open>dvr_models.go\<close>,
  \<open>media_models.go\<close>), field by field. A field keeps its Go name behind a letter for its
  struct. \<open>CommunityRating\<close>, which the code only copies, is the bit pattern of its
  \<open>float64\<close>.
\<close>

section \<open>Accounts and sessions\<close>

record User =
  uID :: string
  uName :: string
  uPasswordHash :: string
  uIsAdmin :: bool
  uCreatedAt :: time
  uLastLoginAt :: time
  uFailedLoginAttempts :: int
  uLockedUntil :: time
  uTOTPEnabled :: bool
  uTOTPSecret :: string
  uPendingTOTPSecret :: string
  uRecoveryCodeHashes :: "string list"

record Session =
  sID :: string
  sUserID :: string
  sTokenHash :: string
  sClient :: string
  sDevice :: string
  sDeviceID :: string
  sAppVersion :: string
  sRemoteAddr :: string
  sCreatedAt :: time
  sLastActivity :: time

section \<open>Libraries and media items\<close>

record Library =
  lID :: string
  lName :: string
  lType :: string
  lPath :: string
  lItemCount :: int
  lCreatedAt :: time
  lScannedAt :: time

record MediaStreamInfo =
  iIndex :: int
  iType :: string
  iCodec :: string
  iLanguage :: string
  iChannels :: int
  iWidth :: int
  iHeight :: int
  iIsDefault :: bool
  iTitle :: string

record SubtitleTrack =
  bPath :: string
  bLanguage :: string
  bCodec :: string
  bFormat :: string
  bForced :: bool
  bTitle :: string

record MediaItem =
  mID :: string
  mLibraryID :: string
  mParentID :: string
  mName :: string
  mSortName :: string
  mType :: string
  mMediaType :: string
  mPath :: string
  mContainer :: string
  mProductionYear :: int
  mSizeBytes :: int
  mDateCreated :: time
  mChildCount :: int
  mSeriesID :: string
  mSeriesName :: string
  mSeasonID :: string
  mIndexNumber :: int
  mParentIndexNumber :: int
  mArtistID :: string
  mAlbumID :: string
  mAlbum :: string
  mAlbumArtist :: string
  mArtists :: "string list"
  mRunTimeTicks :: int
  mWidth :: int
  mHeight :: int
  mVideoCodec :: string
  mAudioCodec :: string
  mBitrate :: int
  mStreams :: "MediaStreamInfo list"
  mSubtitles :: "SubtitleTrack list"
  mOverview :: string
  mCommunityRating :: "64 word"
  mGenres :: "string list"
  mPrimaryImagePath :: string
  mPrimaryImageTag :: string
  mBackdropImagePath :: string
  mBackdropImageTag :: string

record UserItemData =
  dUserID :: string
  dItemID :: string
  dPlaybackPositionTicks :: int
  dPlayCount :: int
  dPlayed :: bool
  dIsFavorite :: bool
  dLastPlayedAt :: time

section \<open>DVR\<close>

record Recording =
  rID :: string
  rChannelID :: string
  rChannelName :: string
  rProgramID :: string
  rName :: string
  rPath :: string
  rStartAt :: time
  rEndAt :: time
  rStatus :: string
  rCreatedAt :: time
  rSeriesTimerID :: string

record SeriesTimer =
  tID :: string
  tChannelID :: string
  tChannelName :: string
  tName :: string
  tRecordAnyChannel :: bool
  tCreatedAt :: time

definition RecScheduled :: string where "RecScheduled = ''scheduled''"
definition RecRecording :: string where "RecRecording = ''recording''"
definition RecCompleted :: string where "RecCompleted = ''completed''"
definition RecFailed :: string where "RecFailed = ''failed''"
definition RecCancelled :: string where "RecCancelled = ''cancelled''"

lemmas rec_status_defs =
  RecScheduled_def RecRecording_def RecCompleted_def RecFailed_def RecCancelled_def

lemma rec_status_distinct [simp]:
  "RecScheduled \<noteq> RecRecording" "RecScheduled \<noteq> RecCompleted" "RecScheduled \<noteq> RecFailed"
  "RecScheduled \<noteq> RecCancelled" "RecRecording \<noteq> RecScheduled" "RecRecording \<noteq> RecCompleted"
  "RecRecording \<noteq> RecFailed" "RecRecording \<noteq> RecCancelled" "RecCompleted \<noteq> RecScheduled"
  "RecCompleted \<noteq> RecRecording" "RecCompleted \<noteq> RecFailed" "RecCompleted \<noteq> RecCancelled"
  "RecFailed \<noteq> RecScheduled" "RecFailed \<noteq> RecRecording" "RecFailed \<noteq> RecCompleted"
  "RecFailed \<noteq> RecCancelled" "RecCancelled \<noteq> RecScheduled" "RecCancelled \<noteq> RecRecording"
  "RecCancelled \<noteq> RecCompleted" "RecCancelled \<noteq> RecFailed"
  by (simp_all add: rec_status_defs)

end
