(* ===== verification/StoreSpec.thy ===== *)
theory StoreSpec
  imports Models
begin

text \<open>
  The persistence contract. \<open>Store\<close> is the Go interface of \<open>internal/store/store.go\<close>: a
  dictionary of operations over an implementation's state \<^typ>\<open>'s\<close>; the operations that
  read the clock take the instant as an argument. \<open>absstore\<close> is what a store holds,
  \<open>spec_*\<close> is what each mutation means on it, and the locales \<open>user_store\<close>, \<open>session_store\<close>,
  \<open>library_store\<close>, \<open>userdata_store\<close> and \<open>recording_store\<close> state what a client of that part
  of the interface may rely on. Every law holds while the implementation's invariant does;
  a mutation either has its effect, or reports an I/O error and has its effect or none.
\<close>

section \<open>The interface\<close>

record 's Store =
  ServerID :: "'s \<Rightarrow> string"
  CreateUser :: "User \<Rightarrow> 's \<Rightarrow> err option \<times> 's"
  GetUserByID :: "string \<Rightarrow> 's \<Rightarrow> err + User"
  GetUserByName :: "string \<Rightarrow> 's \<Rightarrow> err + User"
  ListUsers :: "'s \<Rightarrow> err + User list"
  UpdateUser :: "User \<Rightarrow> 's \<Rightarrow> err option \<times> 's"
  CountUsers :: "'s \<Rightarrow> err + nat"
  CreateSession :: "Session \<Rightarrow> 's \<Rightarrow> err option \<times> 's"
  GetSessionByTokenHash :: "string \<Rightarrow> 's \<Rightarrow> err + Session"
  DeleteSession :: "string \<Rightarrow> 's \<Rightarrow> err option \<times> 's"
  TouchSession :: "time \<Rightarrow> string \<Rightarrow> 's \<Rightarrow> err option \<times> 's"
  CreateLibrary :: "Library \<Rightarrow> 's \<Rightarrow> err option \<times> 's"
  GetLibrary :: "string \<Rightarrow> 's \<Rightarrow> err + Library"
  GetLibraryByPath :: "string \<Rightarrow> 's \<Rightarrow> err + Library"
  ListLibraries :: "'s \<Rightarrow> err + Library list"
  DeleteLibrary :: "string \<Rightarrow> 's \<Rightarrow> err option \<times> 's"
  GetItem :: "string \<Rightarrow> 's \<Rightarrow> err + MediaItem"
  ListItemsByLibrary :: "string \<Rightarrow> 's \<Rightarrow> err + MediaItem list"
  ListItemsByParent :: "string \<Rightarrow> 's \<Rightarrow> err + MediaItem list"
  AllItems :: "'s \<Rightarrow> err + MediaItem list"
  ReplaceLibraryItems :: "time \<Rightarrow> string \<Rightarrow> MediaItem list \<Rightarrow> 's \<Rightarrow> err option \<times> 's"
  GetUserItemData :: "string \<Rightarrow> string \<Rightarrow> 's \<Rightarrow> err + UserItemData"
  UpsertUserItemData :: "UserItemData \<Rightarrow> 's \<Rightarrow> err option \<times> 's"
  ListUserItemData :: "string \<Rightarrow> 's \<Rightarrow> err + UserItemData list"
  CreateRecording :: "Recording \<Rightarrow> 's \<Rightarrow> err option \<times> 's"
  GetRecording :: "string \<Rightarrow> 's \<Rightarrow> err + Recording"
  ListRecordings :: "'s \<Rightarrow> err + Recording list"
  UpdateRecording :: "Recording \<Rightarrow> 's \<Rightarrow> err option \<times> 's"
  DeleteRecording :: "string \<Rightarrow> 's \<Rightarrow> err option \<times> 's"
  CreateSeriesTimer :: "SeriesTimer \<Rightarrow> 's \<Rightarrow> err option \<times> 's"
  GetSeriesTimer :: "string \<Rightarrow> 's \<Rightarrow> err + SeriesTimer"
  ListSeriesTimers :: "'s \<Rightarrow> err + SeriesTimer list"
  DeleteSeriesTimer :: "string \<Rightarrow> 's \<Rightarrow> err option \<times> 's"
  CloseStore :: "'s \<Rightarrow> err option \<times> 's"

section \<open>What a store holds\<close>

definition NUL :: char where "NUL = CHR 0x00"

definition no_nul :: "string \<Rightarrow> bool" where
  "no_nul s \<longleftrightarrow> NUL \<notin> set s"

text \<open>The composite key of a user/item pair; both stores use it.\<close>

definition userDataKey :: "string \<Rightarrow> string \<Rightarrow> string" where
  "userDataKey userID itemID = userID @ [NUL] @ itemID"

record absstore =
  aUsers :: "string \<rightharpoonup> User"
  aSessions :: "string \<rightharpoonup> Session"
  aLibraries :: "string \<rightharpoonup> Library"
  aItems :: "string \<rightharpoonup> MediaItem"
  aUserData :: "string \<rightharpoonup> UserItemData"
  aRecordings :: "string \<rightharpoonup> Recording"
  aSeriesTimers :: "string \<rightharpoonup> SeriesTimer"

text \<open>The entries of a map whose value passes a test.\<close>

definition map_where :: "('v \<Rightarrow> bool) \<Rightarrow> ('k \<rightharpoonup> 'v) \<Rightarrow> ('k \<rightharpoonup> 'v)" where
  "map_where P m = (\<lambda>k. case m k of None \<Rightarrow> None | Some v \<Rightarrow> if P v then Some v else None)"

text \<open>A list of the values of a map, one per key, in some order.\<close>

definition enumerates :: "'v list \<Rightarrow> ('k \<rightharpoonup> 'v) \<Rightarrow> bool" where
  "enumerates vs m \<longleftrightarrow> (\<exists>ks. distinct ks \<and> set ks = dom m \<and> map Some vs = map m ks)"

definition lookup_or :: "'v option \<Rightarrow> err + 'v" where
  "lookup_or x = (case x of None \<Rightarrow> Inl ErrNotFound | Some v \<Rightarrow> Inr v)"

text \<open>A search by value: some stored value that passes the test, \<open>ErrNotFound\<close> if none does.\<close>

definition search_ok :: "('v \<Rightarrow> bool) \<Rightarrow> ('k \<rightharpoonup> 'v) \<Rightarrow> err + 'v \<Rightarrow> bool" where
  "search_ok P m r \<longleftrightarrow>
     (case r of Inr v \<Rightarrow> v \<in> ran m \<and> P v
      | Inl e \<Rightarrow> e = ErrNotFound \<and> (\<forall>v \<in> ran m. \<not> P v))"

section \<open>What the mutations mean\<close>

definition spec_CreateUser :: "User \<Rightarrow> absstore \<Rightarrow> err + absstore" where
  "spec_CreateUser u a =
     (if \<exists>v \<in> ran (aUsers a). EqualFold (uName v) (uName u) then Inl ErrConflict
      else Inr (a\<lparr>aUsers := (aUsers a)(uID u \<mapsto> u)\<rparr>))"

definition spec_UpdateUser :: "User \<Rightarrow> absstore \<Rightarrow> err + absstore" where
  "spec_UpdateUser u a =
     (if aUsers a (uID u) = None then Inl ErrNotFound
      else Inr (a\<lparr>aUsers := (aUsers a)(uID u \<mapsto> u)\<rparr>))"

definition spec_CreateSession :: "Session \<Rightarrow> absstore \<Rightarrow> err + absstore" where
  "spec_CreateSession x a = Inr (a\<lparr>aSessions := (aSessions a)(sID x \<mapsto> x)\<rparr>)"

definition spec_DeleteSession :: "string \<Rightarrow> absstore \<Rightarrow> err + absstore" where
  "spec_DeleteSession k a =
     (if aSessions a k = None then Inl ErrNotFound
      else Inr (a\<lparr>aSessions := (aSessions a)(k := None)\<rparr>))"

definition spec_TouchSession :: "time \<Rightarrow> string \<Rightarrow> absstore \<Rightarrow> err + absstore" where
  "spec_TouchSession now k a =
     (case aSessions a k of None \<Rightarrow> Inl ErrNotFound
      | Some x \<Rightarrow> Inr (a\<lparr>aSessions := (aSessions a)(k \<mapsto> x\<lparr>sLastActivity := now\<rparr>)\<rparr>))"

definition spec_CreateLibrary :: "Library \<Rightarrow> absstore \<Rightarrow> err + absstore" where
  "spec_CreateLibrary l a =
     (if \<exists>v \<in> ran (aLibraries a). lPath v = lPath l then Inl ErrConflict
      else Inr (a\<lparr>aLibraries := (aLibraries a)(lID l \<mapsto> l)\<rparr>))"

definition drop_library_items :: "string \<Rightarrow> (string \<rightharpoonup> MediaItem) \<Rightarrow> (string \<rightharpoonup> MediaItem)" where
  "drop_library_items lib m = map_where (\<lambda>it. mLibraryID it \<noteq> lib) m"

definition spec_DeleteLibrary :: "string \<Rightarrow> absstore \<Rightarrow> err + absstore" where
  "spec_DeleteLibrary k a =
     (if aLibraries a k = None then Inl ErrNotFound
      else Inr (a\<lparr>aLibraries := (aLibraries a)(k := None),
                  aItems := drop_library_items k (aItems a)\<rparr>))"

definition add_items :: "string \<Rightarrow> MediaItem list \<Rightarrow> (string \<rightharpoonup> MediaItem) \<Rightarrow> (string \<rightharpoonup> MediaItem)" where
  "add_items lib its m = fold (\<lambda>it m. m(mID it \<mapsto> it\<lparr>mLibraryID := lib\<rparr>)) its m"

definition spec_ReplaceLibraryItems :: "time \<Rightarrow> string \<Rightarrow> MediaItem list \<Rightarrow> absstore \<Rightarrow> err + absstore" where
  "spec_ReplaceLibraryItems now k its a =
     (case aLibraries a k of None \<Rightarrow> Inl ErrNotFound
      | Some l \<Rightarrow> Inr (a\<lparr>aItems := add_items k its (drop_library_items k (aItems a)),
          aLibraries := (aLibraries a)(k \<mapsto> l\<lparr>lItemCount := int (length its), lScannedAt := now\<rparr>)\<rparr>))"

definition spec_UpsertUserItemData :: "UserItemData \<Rightarrow> absstore \<Rightarrow> err + absstore" where
  "spec_UpsertUserItemData d a =
     Inr (a\<lparr>aUserData := (aUserData a)(userDataKey (dUserID d) (dItemID d) \<mapsto> d)\<rparr>)"

definition spec_CreateRecording :: "Recording \<Rightarrow> absstore \<Rightarrow> err + absstore" where
  "spec_CreateRecording x a = Inr (a\<lparr>aRecordings := (aRecordings a)(rID x \<mapsto> x)\<rparr>)"

definition spec_UpdateRecording :: "Recording \<Rightarrow> absstore \<Rightarrow> err + absstore" where
  "spec_UpdateRecording x a =
     (if aRecordings a (rID x) = None then Inl ErrNotFound
      else Inr (a\<lparr>aRecordings := (aRecordings a)(rID x \<mapsto> x)\<rparr>))"

definition spec_DeleteRecording :: "string \<Rightarrow> absstore \<Rightarrow> err + absstore" where
  "spec_DeleteRecording k a =
     (if aRecordings a k = None then Inl ErrNotFound
      else Inr (a\<lparr>aRecordings := (aRecordings a)(k := None)\<rparr>))"

definition spec_CreateSeriesTimer :: "SeriesTimer \<Rightarrow> absstore \<Rightarrow> err + absstore" where
  "spec_CreateSeriesTimer x a = Inr (a\<lparr>aSeriesTimers := (aSeriesTimers a)(tID x \<mapsto> x)\<rparr>)"

definition spec_DeleteSeriesTimer :: "string \<Rightarrow> absstore \<Rightarrow> err + absstore" where
  "spec_DeleteSeriesTimer k a =
     (if aSeriesTimers a k = None then Inl ErrNotFound
      else Inr (a\<lparr>aSeriesTimers := (aSeriesTimers a)(k := None)\<rparr>))"

text \<open>An implementation's answer \<open>r\<close> and next contents \<open>a'\<close> against the meaning \<open>sp\<close>.\<close>

definition refines :: "err + absstore \<Rightarrow> absstore \<Rightarrow> err option \<Rightarrow> absstore \<Rightarrow> bool" where
  "refines sp a r a' \<longleftrightarrow>
     (case sp of
        Inl e \<Rightarrow> r = Some e \<and> a' = a
      | Inr b \<Rightarrow> (case r of None \<Rightarrow> a' = b | Some e \<Rightarrow> io_error e \<and> (a' = a \<or> a' = b)))"

text \<open>A new item set publishes no item of another library and no item twice, and its IDs
  are free of the separator.\<close>

definition items_ok :: "string \<Rightarrow> MediaItem list \<Rightarrow> absstore \<Rightarrow> bool" where
  "items_ok lib its a \<longleftrightarrow>
     no_nul lib \<and> distinct (map mID its) \<and>
     (\<forall>it \<in> set its. no_nul (mID it) \<and> no_nul (mParentID it) \<and>
        (\<forall>old. aItems a (mID it) = Some old \<longrightarrow> mLibraryID old = lib))"

text \<open>A new session has an ID and a token no stored session has.\<close>

definition session_fresh :: "Session \<Rightarrow> absstore \<Rightarrow> bool" where
  "session_fresh x a \<longleftrightarrow>
     aSessions a (sID x) = None \<and> (\<forall>y \<in> ran (aSessions a). sTokenHash y \<noteq> sTokenHash x)"

lemma enumerates_set: "enumerates vs m \<Longrightarrow> set vs = ran m"
proof -
  assume "enumerates vs m"
  then obtain ks where ks: "set ks = dom m" "map Some vs = map m ks"
    by (auto simp: enumerates_def)
  have "Some ` set vs = m ` dom m"
    using ks by (metis image_set)
  then show ?thesis by (force simp: ran_def dom_def image_iff set_eq_iff)
qed

lemma enumerates_length: "enumerates vs m \<Longrightarrow> length vs = card (dom m)"
  unfolding enumerates_def by (metis distinct_card length_map)

lemma enumerates_map_vals: "map_wf m \<Longrightarrow> enumerates (map_vals m) (map_of m)"
  unfolding enumerates_def map_vals_def map_wf_def
  by (rule exI [of _ "map fst m"]) (auto simp: dom_map_of_conv_image_fst)

text \<open>One call of a mutation: the invariant holds after it, and it refines its meaning.\<close>

definition step_ok :: "('s \<Rightarrow> absstore) \<Rightarrow> ('s \<Rightarrow> bool) \<Rightarrow> err + absstore \<Rightarrow> absstore \<Rightarrow> err option \<times> 's \<Rightarrow> bool" where
  "step_ok af iv sp a p \<longleftrightarrow> iv (snd p) \<and> refines sp a (fst p) (af (snd p))"

lemma step_okD:
  "step_ok af iv sp a p \<Longrightarrow> p = (r, s') \<Longrightarrow> iv s' \<and> refines sp a r (af s')"
  by (simp add: step_ok_def)

lemma step_ok_inv: "step_ok af iv sp a p \<Longrightarrow> iv (snd p)"
  by (simp add: step_ok_def)

lemma step_ok_nil: "step_ok af iv sp a (None, s') \<Longrightarrow> sp = Inr (af s') \<and> iv s'"
  by (auto simp: step_ok_def refines_def split: sum.splits)

lemma step_ok_err: "iv s \<Longrightarrow> step_ok af iv (Inl e) (af s) (Some e, s)"
  by (simp add: step_ok_def refines_def)

lemma refinesI_err: "sp = Inl e \<Longrightarrow> refines sp a (Some e) a"
  by (simp add: refines_def)

lemma refines_io: "refines (Inr b) a (Some (ErrIO m)) a"
  by (simp add: refines_def)

lemma refines_ok: "refines (Inr b) a None b"
  by (simp add: refines_def)

lemma refines_cases:
  assumes "refines sp a r a'"
  obtains (rejected) e where "sp = Inl e" "r = Some e" "a' = a"
  | (applied) b where "sp = Inr b" "r = None" "a' = b"
  | (failed) b e where "sp = Inr b" "r = Some e" "io_error e" "a' = a \<or> a' = b"
  using assms by (auto simp: refines_def split: sum.splits option.splits)

section \<open>The contract, part by part\<close>

locale store_base =
  fixes S :: "'s Store" and abs :: "'s \<Rightarrow> absstore" and inv :: "'s \<Rightarrow> bool"

locale user_store = store_base +
  assumes CreateUser_ref: "inv s \<Longrightarrow> step_ok abs inv (spec_CreateUser u (abs s)) (abs s) (CreateUser S u s)"
    and UpdateUser_ref: "inv s \<Longrightarrow> step_ok abs inv (spec_UpdateUser u (abs s)) (abs s) (UpdateUser S u s)"
    and GetUserByID_ref: "inv s \<Longrightarrow> GetUserByID S k s = lookup_or (aUsers (abs s) k)"
    and GetUserByName_ref: "inv s \<Longrightarrow>
      search_ok (\<lambda>u. EqualFold (uName u) name) (aUsers (abs s)) (GetUserByName S name s)"
    and ListUsers_ref: "inv s \<Longrightarrow> \<exists>l. ListUsers S s = Inr l \<and> enumerates l (aUsers (abs s))"
    and CountUsers_ref: "inv s \<Longrightarrow> CountUsers S s = Inr (card (dom (aUsers (abs s))))"
    and user_key: "inv s \<Longrightarrow> aUsers (abs s) k = Some u \<Longrightarrow> uID u = k"

locale session_store = store_base +
  assumes CreateSession_ref: "inv s \<Longrightarrow> session_fresh x (abs s) \<Longrightarrow> step_ok abs inv (spec_CreateSession x (abs s)) (abs s) (CreateSession S x s)"
    and DeleteSession_ref: "inv s \<Longrightarrow> step_ok abs inv (spec_DeleteSession k (abs s)) (abs s) (DeleteSession S k s)"
    and TouchSession_ref: "inv s \<Longrightarrow> step_ok abs inv (spec_TouchSession now k (abs s)) (abs s) (TouchSession S now k s)"
    and GetSessionByTokenHash_ref: "inv s \<Longrightarrow>
      search_ok (\<lambda>x. sTokenHash x = h) (aSessions (abs s)) (GetSessionByTokenHash S h s)"
    and session_key: "inv s \<Longrightarrow> aSessions (abs s) k = Some x \<Longrightarrow> sID x = k"

locale library_store = store_base +
  assumes CreateLibrary_ref: "inv s \<Longrightarrow> step_ok abs inv (spec_CreateLibrary l (abs s)) (abs s) (CreateLibrary S l s)"
    and DeleteLibrary_ref: "inv s \<Longrightarrow> step_ok abs inv (spec_DeleteLibrary k (abs s)) (abs s) (DeleteLibrary S k s)"
    and ReplaceLibraryItems_ref: "inv s \<Longrightarrow> items_ok k its (abs s) \<Longrightarrow>
      step_ok abs inv (spec_ReplaceLibraryItems now k its (abs s)) (abs s) (ReplaceLibraryItems S now k its s)"
    and GetLibrary_ref: "inv s \<Longrightarrow> GetLibrary S k s = lookup_or (aLibraries (abs s) k)"
    and GetLibraryByPath_ref: "inv s \<Longrightarrow>
      search_ok (\<lambda>l. lPath l = path) (aLibraries (abs s)) (GetLibraryByPath S path s)"
    and ListLibraries_ref: "inv s \<Longrightarrow> \<exists>l. ListLibraries S s = Inr l \<and> enumerates l (aLibraries (abs s))"
    and GetItem_ref: "inv s \<Longrightarrow> GetItem S k s = lookup_or (aItems (abs s) k)"
    and ListItemsByLibrary_ref: "inv s \<Longrightarrow> \<exists>l. ListItemsByLibrary S lib s = Inr l \<and>
      enumerates l (map_where (\<lambda>it. mLibraryID it = lib) (aItems (abs s)))"
    and ListItemsByParent_ref: "inv s \<Longrightarrow> \<exists>l. ListItemsByParent S p s = Inr l \<and>
      enumerates l (map_where (\<lambda>it. mParentID it = p) (aItems (abs s)))"
    and AllItems_ref: "inv s \<Longrightarrow> \<exists>l. AllItems S s = Inr l \<and> enumerates l (aItems (abs s))"

locale userdata_store = store_base +
  assumes GetUserItemData_ref: "inv s \<Longrightarrow>
      GetUserItemData S u i s = lookup_or (aUserData (abs s) (userDataKey u i))"
    and UpsertUserItemData_ref: "inv s \<Longrightarrow> no_nul (dUserID d) \<Longrightarrow> no_nul (dItemID d) \<Longrightarrow>
      step_ok abs inv (spec_UpsertUserItemData d (abs s)) (abs s) (UpsertUserItemData S d s)"
    and ListUserItemData_ref: "inv s \<Longrightarrow> \<exists>l. ListUserItemData S u s = Inr l \<and>
      enumerates l (map_where (\<lambda>d. dUserID d = u) (aUserData (abs s)))"
    and userdata_key: "inv s \<Longrightarrow> aUserData (abs s) k = Some d \<Longrightarrow> k = userDataKey (dUserID d) (dItemID d)"

locale recording_store = store_base +
  assumes CreateRecording_ref: "inv s \<Longrightarrow> step_ok abs inv (spec_CreateRecording x (abs s)) (abs s) (CreateRecording S x s)"
    and UpdateRecording_ref: "inv s \<Longrightarrow> step_ok abs inv (spec_UpdateRecording x (abs s)) (abs s) (UpdateRecording S x s)"
    and DeleteRecording_ref: "inv s \<Longrightarrow> step_ok abs inv (spec_DeleteRecording k (abs s)) (abs s) (DeleteRecording S k s)"
    and GetRecording_ref: "inv s \<Longrightarrow> GetRecording S k s = lookup_or (aRecordings (abs s) k)"
    and ListRecordings_ref: "inv s \<Longrightarrow> \<exists>l. ListRecordings S s = Inr l \<and> enumerates l (aRecordings (abs s))"
    and recording_key: "inv s \<Longrightarrow> aRecordings (abs s) k = Some x \<Longrightarrow> rID x = k"
    and CreateSeriesTimer_ref: "inv s \<Longrightarrow> step_ok abs inv (spec_CreateSeriesTimer y (abs s)) (abs s) (CreateSeriesTimer S y s)"
    and DeleteSeriesTimer_ref: "inv s \<Longrightarrow> step_ok abs inv (spec_DeleteSeriesTimer k (abs s)) (abs s) (DeleteSeriesTimer S k s)"
    and GetSeriesTimer_ref: "inv s \<Longrightarrow> GetSeriesTimer S k s = lookup_or (aSeriesTimers (abs s) k)"
    and ListSeriesTimers_ref: "inv s \<Longrightarrow> \<exists>l. ListSeriesTimers S s = Inr l \<and> enumerates l (aSeriesTimers (abs s))"

end
