(* ===== verification/JsonStore.thy ===== *)
theory JsonStore
  imports StoreSpec
begin

text \<open>
  The JSON store of \<open>internal/store/jsonstore.go\<close>: seven maps in memory, written to disk as
  a whole by every mutation (temporary file, then rename). A Go map is an association list;
  \<open>delete\<close> and assignment act on it, and a stored pointer that the code mutates in place is an
  entry that is replaced. The disk is part of the state: the datastore file and its temporary
  file hold a whole snapshot or a torn one, and \<open>jEnv\<close> lists what the environment lets
  each coming flush do (every flush succeeds once the list is used up). The locks make each
  method one atomic step. The theory ends with the interpretation of every part of the
  store contract.
\<close>

section \<open>State\<close>

record persisted =
  pVersion :: int
  pServerID :: string
  pUsers :: "User gomap"
  pSessions :: "Session gomap"
  pLibraries :: "Library gomap"
  pItems :: "MediaItem gomap"
  pUserData :: "UserItemData gomap"
  pRecordings :: "Recording gomap"
  pSeriesTimers :: "SeriesTimer gomap"

text \<open>A file of the data directory: a complete encoding or a partly written one.\<close>

datatype diskfile = Whole persisted | Torn

datatype flush_outcome = FlushOk | FailEncode | FailWrite | FailRename

record jsonStore =
  jServerID :: string
  jUsers :: "User gomap"
  jSessions :: "Session gomap"
  jLibraries :: "Library gomap"
  jItems :: "MediaItem gomap"
  jUserData :: "UserItemData gomap"
  jRecordings :: "Recording gomap"
  jSeriesTimers :: "SeriesTimer gomap"
  jDisk :: "diskfile option"
  jTmp :: "diskfile option"
  jEnv :: "flush_outcome list"

definition schemaVersion :: int where "schemaVersion = 1"

definition snapshot :: "jsonStore \<Rightarrow> persisted" where
  "snapshot s = \<lparr>pVersion = schemaVersion, pServerID = jServerID s, pUsers = jUsers s,
     pSessions = jSessions s, pLibraries = jLibraries s, pItems = jItems s,
     pUserData = jUserData s, pRecordings = jRecordings s, pSeriesTimers = jSeriesTimers s\<rparr>"

definition flushLocked :: "jsonStore \<Rightarrow> err option \<times> jsonStore" where
  "flushLocked s =
     (let out = (case jEnv s of [] \<Rightarrow> FlushOk | o1 # _ \<Rightarrow> o1); s1 = s\<lparr>jEnv := tl (jEnv s)\<rparr> in
      case out of
        FailEncode \<Rightarrow> (Some (ErrIO ''store: encoding datastore''), s1)
      | FailWrite \<Rightarrow> (Some (ErrIO ''store: writing datastore''), s1\<lparr>jTmp := Some Torn\<rparr>)
      | FailRename \<Rightarrow> (Some (ErrIO ''store: committing datastore''), s1\<lparr>jTmp := Some (Whole (snapshot s))\<rparr>)
      | FlushOk \<Rightarrow> (None, s1\<lparr>jTmp := None, jDisk := Some (Whole (snapshot s))\<rparr>))"

text \<open>\<open>load\<close>: a missing file is a fresh install, a torn one does not parse. A nil map in the
  file keeps the empty map made by \<open>OpenJSON\<close>.\<close>

definition load :: "jsonStore \<Rightarrow> err option \<times> jsonStore" where
  "load s =
     (case jDisk s of
        None \<Rightarrow> (None, s)
      | Some Torn \<Rightarrow> (Some (ErrIO ''store: parsing datastore''), s)
      | Some (Whole p) \<Rightarrow> (None, s\<lparr>jServerID := pServerID p, jUsers := pUsers p,
          jSessions := pSessions p, jLibraries := pLibraries p, jItems := pItems p,
          jUserData := pUserData p, jRecordings := pRecordings p, jSeriesTimers := pSeriesTimers p\<rparr>))"

text \<open>\<open>OpenJSON\<close>: \<open>mkdirOk\<close> tells whether the data directory could be made, \<open>newID\<close> what
  the random source yields; the files and \<open>env\<close> are the environment's.\<close>

definition OpenJSON :: "bool \<Rightarrow> string option \<Rightarrow> diskfile option \<Rightarrow> diskfile option \<Rightarrow> flush_outcome list \<Rightarrow> err + jsonStore" where
  "OpenJSON mkdirOk newID disk tmp env =
     (if \<not> mkdirOk then Inl (ErrIO ''store: creating data dir'')
      else
        let s = \<lparr>jServerID = [], jUsers = [], jSessions = [], jLibraries = [], jItems = [],
                 jUserData = [], jRecordings = [], jSeriesTimers = [],
                 jDisk = disk, jTmp = tmp, jEnv = env\<rparr>
        in case load s of
             (Some e, _) \<Rightarrow> Inl e
           | (None, s1) \<Rightarrow>
               if jServerID s1 = [] then
                 (case newID of
                    None \<Rightarrow> Inl (ErrIO ''security: reading random bytes'')
                  | Some ident \<Rightarrow>
                      (case flushLocked (s1\<lparr>jServerID := ident\<rparr>) of
                         (Some e, _) \<Rightarrow> Inl e
                       | (None, s2) \<Rightarrow> Inr s2))
               else Inr s1)"

section \<open>Operations\<close>

text \<open>\<open>v, ok := m[k]; if !ok return ErrNotFound\<close>, and the scan for the first match.\<close>

definition get_or :: "'v gomap \<Rightarrow> string \<Rightarrow> err + 'v" where
  "get_or m k = (case map_get m k of None \<Rightarrow> Inl ErrNotFound | Some v \<Rightarrow> Inr v)"

definition find_or :: "('v \<Rightarrow> bool) \<Rightarrow> 'v gomap \<Rightarrow> err + 'v" where
  "find_or P m = (case map_find P m of None \<Rightarrow> Inl ErrNotFound | Some v \<Rightarrow> Inr v)"

definition json_ServerID :: "jsonStore \<Rightarrow> string" where
  "json_ServerID s = jServerID s"

definition json_CreateUser :: "User \<Rightarrow> jsonStore \<Rightarrow> err option \<times> jsonStore" where
  "json_CreateUser u s =
     (if \<exists>existing \<in> set (map_vals (jUsers s)). EqualFold (uName existing) (uName u)
      then (Some ErrConflict, s)
      else flushLocked (s\<lparr>jUsers := map_set (uID u) u (jUsers s)\<rparr>))"

definition json_GetUserByID :: "string \<Rightarrow> jsonStore \<Rightarrow> err + User" where
  "json_GetUserByID k s = get_or (jUsers s) k"

definition json_GetUserByName :: "string \<Rightarrow> jsonStore \<Rightarrow> err + User" where
  "json_GetUserByName name s = find_or (\<lambda>u. EqualFold (uName u) name) (jUsers s)"

definition json_ListUsers :: "jsonStore \<Rightarrow> err + User list" where
  "json_ListUsers s = Inr (map_vals (jUsers s))"

definition json_UpdateUser :: "User \<Rightarrow> jsonStore \<Rightarrow> err option \<times> jsonStore" where
  "json_UpdateUser u s =
     (if map_get (jUsers s) (uID u) = None then (Some ErrNotFound, s)
      else flushLocked (s\<lparr>jUsers := map_set (uID u) u (jUsers s)\<rparr>))"

definition json_CountUsers :: "jsonStore \<Rightarrow> err + nat" where
  "json_CountUsers s = Inr (length (jUsers s))"

definition json_CreateSession :: "Session \<Rightarrow> jsonStore \<Rightarrow> err option \<times> jsonStore" where
  "json_CreateSession x s = flushLocked (s\<lparr>jSessions := map_set (sID x) x (jSessions s)\<rparr>)"

definition json_GetSessionByTokenHash :: "string \<Rightarrow> jsonStore \<Rightarrow> err + Session" where
  "json_GetSessionByTokenHash h s = find_or (\<lambda>x. sTokenHash x = h) (jSessions s)"

definition json_DeleteSession :: "string \<Rightarrow> jsonStore \<Rightarrow> err option \<times> jsonStore" where
  "json_DeleteSession k s =
     (if map_get (jSessions s) k = None then (Some ErrNotFound, s)
      else flushLocked (s\<lparr>jSessions := map_del k (jSessions s)\<rparr>))"

definition json_TouchSession :: "time \<Rightarrow> string \<Rightarrow> jsonStore \<Rightarrow> err option \<times> jsonStore" where
  "json_TouchSession now k s =
     (case map_get (jSessions s) k of
        None \<Rightarrow> (Some ErrNotFound, s)
      | Some x \<Rightarrow> flushLocked (s\<lparr>jSessions := map_set k (x\<lparr>sLastActivity := now\<rparr>) (jSessions s)\<rparr>))"

definition json_CreateLibrary :: "Library \<Rightarrow> jsonStore \<Rightarrow> err option \<times> jsonStore" where
  "json_CreateLibrary l s =
     (if \<exists>existing \<in> set (map_vals (jLibraries s)). lPath existing = lPath l
      then (Some ErrConflict, s)
      else flushLocked (s\<lparr>jLibraries := map_set (lID l) l (jLibraries s)\<rparr>))"

definition json_GetLibrary :: "string \<Rightarrow> jsonStore \<Rightarrow> err + Library" where
  "json_GetLibrary k s = get_or (jLibraries s) k"

definition json_GetLibraryByPath :: "string \<Rightarrow> jsonStore \<Rightarrow> err + Library" where
  "json_GetLibraryByPath path s = find_or (\<lambda>l. lPath l = path) (jLibraries s)"

definition json_ListLibraries :: "jsonStore \<Rightarrow> err + Library list" where
  "json_ListLibraries s = Inr (map_vals (jLibraries s))"

text \<open>The loop that deletes every item of a library.\<close>

definition drop_items :: "string \<Rightarrow> MediaItem gomap \<Rightarrow> MediaItem gomap" where
  "drop_items lib m = filter (\<lambda>(_, it). mLibraryID it \<noteq> lib) m"

definition json_DeleteLibrary :: "string \<Rightarrow> jsonStore \<Rightarrow> err option \<times> jsonStore" where
  "json_DeleteLibrary k s =
     (if map_get (jLibraries s) k = None then (Some ErrNotFound, s)
      else flushLocked (s\<lparr>jLibraries := map_del k (jLibraries s),
                          jItems := drop_items k (jItems s)\<rparr>))"

definition json_GetItem :: "string \<Rightarrow> jsonStore \<Rightarrow> err + MediaItem" where
  "json_GetItem k s = get_or (jItems s) k"

definition json_ListItemsByLibrary :: "string \<Rightarrow> jsonStore \<Rightarrow> err + MediaItem list" where
  "json_ListItemsByLibrary lib s = Inr (filter (\<lambda>it. mLibraryID it = lib) (map_vals (jItems s)))"

definition json_ListItemsByParent :: "string \<Rightarrow> jsonStore \<Rightarrow> err + MediaItem list" where
  "json_ListItemsByParent p s = Inr (filter (\<lambda>it. mParentID it = p) (map_vals (jItems s)))"

definition json_AllItems :: "jsonStore \<Rightarrow> err + MediaItem list" where
  "json_AllItems s = Inr (map_vals (jItems s))"

definition put_items :: "string \<Rightarrow> MediaItem list \<Rightarrow> MediaItem gomap \<Rightarrow> MediaItem gomap" where
  "put_items lib its m = fold (\<lambda>it m. map_set (mID it) (it\<lparr>mLibraryID := lib\<rparr>) m) its m"

definition json_ReplaceLibraryItems :: "time \<Rightarrow> string \<Rightarrow> MediaItem list \<Rightarrow> jsonStore \<Rightarrow> err option \<times> jsonStore" where
  "json_ReplaceLibraryItems now lib its s =
     (case map_get (jLibraries s) lib of
        None \<Rightarrow> (Some ErrNotFound, s)
      | Some l \<Rightarrow> flushLocked (s\<lparr>jItems := put_items lib its (drop_items lib (jItems s)),
            jLibraries := map_set lib (l\<lparr>lItemCount := int (length its), lScannedAt := now\<rparr>) (jLibraries s)\<rparr>))"

definition json_GetUserItemData :: "string \<Rightarrow> string \<Rightarrow> jsonStore \<Rightarrow> err + UserItemData" where
  "json_GetUserItemData u i s = get_or (jUserData s) (userDataKey u i)"

definition json_UpsertUserItemData :: "UserItemData \<Rightarrow> jsonStore \<Rightarrow> err option \<times> jsonStore" where
  "json_UpsertUserItemData d s =
     flushLocked (s\<lparr>jUserData := map_set (userDataKey (dUserID d) (dItemID d)) d (jUserData s)\<rparr>)"

definition json_ListUserItemData :: "string \<Rightarrow> jsonStore \<Rightarrow> err + UserItemData list" where
  "json_ListUserItemData u s = Inr (filter (\<lambda>d. dUserID d = u) (map_vals (jUserData s)))"

definition json_CreateRecording :: "Recording \<Rightarrow> jsonStore \<Rightarrow> err option \<times> jsonStore" where
  "json_CreateRecording x s = flushLocked (s\<lparr>jRecordings := map_set (rID x) x (jRecordings s)\<rparr>)"

definition json_GetRecording :: "string \<Rightarrow> jsonStore \<Rightarrow> err + Recording" where
  "json_GetRecording k s = get_or (jRecordings s) k"

definition json_ListRecordings :: "jsonStore \<Rightarrow> err + Recording list" where
  "json_ListRecordings s = Inr (map_vals (jRecordings s))"

definition json_UpdateRecording :: "Recording \<Rightarrow> jsonStore \<Rightarrow> err option \<times> jsonStore" where
  "json_UpdateRecording x s =
     (if map_get (jRecordings s) (rID x) = None then (Some ErrNotFound, s)
      else flushLocked (s\<lparr>jRecordings := map_set (rID x) x (jRecordings s)\<rparr>))"

definition json_DeleteRecording :: "string \<Rightarrow> jsonStore \<Rightarrow> err option \<times> jsonStore" where
  "json_DeleteRecording k s =
     (if map_get (jRecordings s) k = None then (Some ErrNotFound, s)
      else flushLocked (s\<lparr>jRecordings := map_del k (jRecordings s)\<rparr>))"

definition json_CreateSeriesTimer :: "SeriesTimer \<Rightarrow> jsonStore \<Rightarrow> err option \<times> jsonStore" where
  "json_CreateSeriesTimer x s = flushLocked (s\<lparr>jSeriesTimers := map_set (tID x) x (jSeriesTimers s)\<rparr>)"

definition json_GetSeriesTimer :: "string \<Rightarrow> jsonStore \<Rightarrow> err + SeriesTimer" where
  "json_GetSeriesTimer k s = get_or (jSeriesTimers s) k"

definition json_ListSeriesTimers :: "jsonStore \<Rightarrow> err + SeriesTimer list" where
  "json_ListSeriesTimers s = Inr (map_vals (jSeriesTimers s))"

definition json_DeleteSeriesTimer :: "string \<Rightarrow> jsonStore \<Rightarrow> err option \<times> jsonStore" where
  "json_DeleteSeriesTimer k s =
     (if map_get (jSeriesTimers s) k = None then (Some ErrNotFound, s)
      else flushLocked (s\<lparr>jSeriesTimers := map_del k (jSeriesTimers s)\<rparr>))"

definition json_Close :: "jsonStore \<Rightarrow> err option \<times> jsonStore" where
  "json_Close s = flushLocked s"

text \<open>The methods as the interface's dictionary.\<close>

definition json_store :: "jsonStore Store" where
  "json_store = \<lparr>ServerID = json_ServerID,
     CreateUser = json_CreateUser, GetUserByID = json_GetUserByID,
     GetUserByName = json_GetUserByName, ListUsers = json_ListUsers,
     UpdateUser = json_UpdateUser, CountUsers = json_CountUsers,
     CreateSession = json_CreateSession, GetSessionByTokenHash = json_GetSessionByTokenHash,
     DeleteSession = json_DeleteSession, TouchSession = json_TouchSession,
     CreateLibrary = json_CreateLibrary, GetLibrary = json_GetLibrary,
     GetLibraryByPath = json_GetLibraryByPath, ListLibraries = json_ListLibraries,
     DeleteLibrary = json_DeleteLibrary, GetItem = json_GetItem,
     ListItemsByLibrary = json_ListItemsByLibrary, ListItemsByParent = json_ListItemsByParent,
     AllItems = json_AllItems, ReplaceLibraryItems = json_ReplaceLibraryItems,
     GetUserItemData = json_GetUserItemData, UpsertUserItemData = json_UpsertUserItemData,
     ListUserItemData = json_ListUserItemData, CreateRecording = json_CreateRecording,
     GetRecording = json_GetRecording, ListRecordings = json_ListRecordings,
     UpdateRecording = json_UpdateRecording, DeleteRecording = json_DeleteRecording,
     CreateSeriesTimer = json_CreateSeriesTimer, GetSeriesTimer = json_GetSeriesTimer,
     ListSeriesTimers = json_ListSeriesTimers, DeleteSeriesTimer = json_DeleteSeriesTimer,
     CloseStore = json_Close\<rparr>"

section \<open>Abstraction and invariant\<close>

definition json_abs :: "jsonStore \<Rightarrow> absstore" where
  "json_abs s = \<lparr>aUsers = map_of (jUsers s), aSessions = map_of (jSessions s),
     aLibraries = map_of (jLibraries s), aItems = map_of (jItems s),
     aUserData = map_of (jUserData s), aRecordings = map_of (jRecordings s),
     aSeriesTimers = map_of (jSeriesTimers s)\<rparr>"

text \<open>Every value is stored under its own key.\<close>

definition keyed :: "('v \<Rightarrow> string) \<Rightarrow> 'v gomap \<Rightarrow> bool" where
  "keyed f m \<longleftrightarrow> map_wf m \<and> (\<forall>(k, v) \<in> set m. f v = k)"

definition json_inv :: "jsonStore \<Rightarrow> bool" where
  "json_inv s \<longleftrightarrow> keyed uID (jUsers s) \<and> keyed sID (jSessions s) \<and> map_wf (jLibraries s) \<and>
     keyed mID (jItems s) \<and> keyed (\<lambda>d. userDataKey (dUserID d) (dItemID d)) (jUserData s) \<and>
     keyed rID (jRecordings s) \<and> keyed tID (jSeriesTimers s)"

lemma keyed_wf [simp, dest]: "keyed f m \<Longrightarrow> map_wf m"
  by (simp add: keyed_def)

lemma keyed_get: "keyed f m \<Longrightarrow> map_of m k = Some v \<Longrightarrow> f v = k"
  by (auto simp: keyed_def dest: map_of_SomeD)

lemma keyedI: "map_wf m \<Longrightarrow> (\<And>k v. map_of m k = Some v \<Longrightarrow> f v = k) \<Longrightarrow> keyed f m"
  by (auto simp: keyed_def map_wf_def)

lemma keyed_Nil [simp]: "keyed f []"
  by (simp add: keyed_def)

lemma keyed_set [simp, intro]: "keyed f m \<Longrightarrow> f v = k \<Longrightarrow> keyed f (map_set k v m)"
  by (rule keyedI) (auto dest: keyed_get split: if_splits)

lemma keyed_touch: "keyed sID m \<Longrightarrow> map_of m k = Some x \<Longrightarrow> keyed sID (map_set k (x\<lparr>sLastActivity := now\<rparr>) m)"
  using keyed_get [of sID m k x] by auto

lemma keyed_filter [intro]: "keyed f m \<Longrightarrow> keyed f (filter P m)"
  by (auto simp: keyed_def)

lemma keyed_del [intro]: "keyed f m \<Longrightarrow> keyed f (map_del k m)"
  by (auto simp: map_del_def)

lemma keyed_drop_items [simp, intro]: "keyed mID m \<Longrightarrow> keyed mID (drop_items lib m)"
  by (auto simp: drop_items_def)

lemma keyed_put_items [simp, intro]: "keyed mID m \<Longrightarrow> keyed mID (put_items lib its m)"
  unfolding put_items_def by (induction its arbitrary: m) (auto intro!: keyed_set)

lemma map_of_drop_items: "map_wf m \<Longrightarrow> map_of (drop_items lib m) = drop_library_items lib (map_of m)"
  by (simp add: drop_items_def drop_library_items_def map_where_def map_of_filter_val)

lemma map_of_put_items: "map_of (put_items lib its m) = add_items lib its (map_of m)"
  unfolding put_items_def add_items_def by (induction its arbitrary: m) auto

lemma flushLocked_frame:
  assumes "flushLocked s = (r, s')"
  shows "json_abs s' = json_abs s \<and> json_inv s' = json_inv s \<and> (\<forall>e. r = Some e \<longrightarrow> io_error e)"
  using assms
  by (auto simp: flushLocked_def json_abs_def json_inv_def Let_def split: flush_outcome.splits)

lemma json_flush_ok:
  assumes "json_inv s1" "json_abs s1 = b"
  shows "step_ok json_abs json_inv (Inr b) a (flushLocked s1)"
  using flushLocked_frame [of s1 "fst (flushLocked s1)" "snd (flushLocked s1)"] assms
  by (auto simp: step_ok_def refines_def split: option.splits)

lemma get_or_lookup: "get_or m k = lookup_or (map_of m k)"
  by (simp add: get_or_def lookup_or_def)

lemma find_or_search: "map_wf m \<Longrightarrow> search_ok P (map_of m) (find_or P m)"
  by (auto simp: find_or_def search_ok_def map_find_None split: option.splits dest: map_find_Some)

lemma filter_enumerates: "map_wf m \<Longrightarrow> enumerates (filter P (map_vals m)) (map_where P (map_of m))"
proof -
  assume m: "map_wf m"
  have "filter P (map_vals m) = map_vals (filter (\<lambda>(_, v). P v) m)"
    by (simp add: map_vals_def filter_map o_def case_prod_unfold)
  then show ?thesis
    using enumerates_map_vals [OF map_wf_filter [OF m], of "\<lambda>(_, v). P v"]
    by (simp add: map_of_filter_val [OF m] map_where_def)
qed

lemma length_map_wf: "map_wf m \<Longrightarrow> length m = card (dom (map_of m))"
  using enumerates_length [OF enumerates_map_vals] by (simp add: map_vals_def)

lemmas json_ops =
  json_CreateUser_def json_UpdateUser_def json_CreateSession_def json_DeleteSession_def
  json_TouchSession_def json_CreateLibrary_def json_DeleteLibrary_def
  json_ReplaceLibraryItems_def json_UpsertUserItemData_def json_CreateRecording_def
  json_UpdateRecording_def json_DeleteRecording_def json_CreateSeriesTimer_def
  json_DeleteSeriesTimer_def json_Close_def

lemmas json_specs =
  spec_CreateUser_def spec_UpdateUser_def spec_CreateSession_def spec_DeleteSession_def
  spec_TouchSession_def spec_CreateLibrary_def spec_DeleteLibrary_def
  spec_ReplaceLibraryItems_def spec_UpsertUserItemData_def spec_CreateRecording_def
  spec_UpdateRecording_def spec_DeleteRecording_def spec_CreateSeriesTimer_def
  spec_DeleteSeriesTimer_def

lemma json_inv_wf:
  assumes "json_inv s"
  shows "map_wf (jUsers s)" "map_wf (jSessions s)" "map_wf (jLibraries s)" "map_wf (jItems s)"
    "map_wf (jUserData s)" "map_wf (jRecordings s)" "map_wf (jSeriesTimers s)"
  using assms by (auto simp: json_inv_def)



section \<open>The store contract holds\<close>

lemma json_store_sel [simp]:
  "ServerID json_store = json_ServerID"
  "CreateUser json_store = json_CreateUser" "GetUserByID json_store = json_GetUserByID"
  "GetUserByName json_store = json_GetUserByName" "ListUsers json_store = json_ListUsers"
  "UpdateUser json_store = json_UpdateUser" "CountUsers json_store = json_CountUsers"
  "CreateSession json_store = json_CreateSession"
  "GetSessionByTokenHash json_store = json_GetSessionByTokenHash"
  "DeleteSession json_store = json_DeleteSession" "TouchSession json_store = json_TouchSession"
  "CreateLibrary json_store = json_CreateLibrary" "GetLibrary json_store = json_GetLibrary"
  "GetLibraryByPath json_store = json_GetLibraryByPath"
  "ListLibraries json_store = json_ListLibraries" "DeleteLibrary json_store = json_DeleteLibrary"
  "GetItem json_store = json_GetItem" "ListItemsByLibrary json_store = json_ListItemsByLibrary"
  "ListItemsByParent json_store = json_ListItemsByParent" "AllItems json_store = json_AllItems"
  "ReplaceLibraryItems json_store = json_ReplaceLibraryItems"
  "GetUserItemData json_store = json_GetUserItemData"
  "UpsertUserItemData json_store = json_UpsertUserItemData"
  "ListUserItemData json_store = json_ListUserItemData"
  "CreateRecording json_store = json_CreateRecording" "GetRecording json_store = json_GetRecording"
  "ListRecordings json_store = json_ListRecordings"
  "UpdateRecording json_store = json_UpdateRecording"
  "DeleteRecording json_store = json_DeleteRecording"
  "CreateSeriesTimer json_store = json_CreateSeriesTimer"
  "GetSeriesTimer json_store = json_GetSeriesTimer"
  "ListSeriesTimers json_store = json_ListSeriesTimers"
  "DeleteSeriesTimer json_store = json_DeleteSeriesTimer" "CloseStore json_store = json_Close"
  by (simp_all add: json_store_def)

lemma json_abs_sel [simp]:
  "aUsers (json_abs s) = map_of (jUsers s)" "aSessions (json_abs s) = map_of (jSessions s)"
  "aLibraries (json_abs s) = map_of (jLibraries s)" "aItems (json_abs s) = map_of (jItems s)"
  "aUserData (json_abs s) = map_of (jUserData s)"
  "aRecordings (json_abs s) = map_of (jRecordings s)"
  "aSeriesTimers (json_abs s) = map_of (jSeriesTimers s)"
  by (simp_all add: json_abs_def)

lemma json_abs_upd [simp]:
  "json_abs (s\<lparr>jUsers := m1\<rparr>) = (json_abs s)\<lparr>aUsers := map_of m1\<rparr>"
  "json_abs (s\<lparr>jSessions := m2\<rparr>) = (json_abs s)\<lparr>aSessions := map_of m2\<rparr>"
  "json_abs (s\<lparr>jLibraries := m3\<rparr>) = (json_abs s)\<lparr>aLibraries := map_of m3\<rparr>"
  "json_abs (s\<lparr>jItems := m4\<rparr>) = (json_abs s)\<lparr>aItems := map_of m4\<rparr>"
  "json_abs (s\<lparr>jUserData := m5\<rparr>) = (json_abs s)\<lparr>aUserData := map_of m5\<rparr>"
  "json_abs (s\<lparr>jRecordings := m6\<rparr>) = (json_abs s)\<lparr>aRecordings := map_of m6\<rparr>"
  "json_abs (s\<lparr>jSeriesTimers := m7\<rparr>) = (json_abs s)\<lparr>aSeriesTimers := map_of m7\<rparr>"
  by (simp_all add: json_abs_def)

text \<open>Every mutation is a rejection that changes nothing, or one flush of the new contents.\<close>

lemma json_step_ok:
  assumes s: "json_inv s"
  shows "step_ok json_abs json_inv (spec_CreateUser u (json_abs s)) (json_abs s) (json_CreateUser u s)"
    and "step_ok json_abs json_inv (spec_UpdateUser u (json_abs s)) (json_abs s) (json_UpdateUser u s)"
    and "step_ok json_abs json_inv (spec_CreateSession x (json_abs s)) (json_abs s) (json_CreateSession x s)"
    and "step_ok json_abs json_inv (spec_DeleteSession k (json_abs s)) (json_abs s) (json_DeleteSession k s)"
    and "step_ok json_abs json_inv (spec_TouchSession now k (json_abs s)) (json_abs s) (json_TouchSession now k s)"
    and "step_ok json_abs json_inv (spec_CreateLibrary l (json_abs s)) (json_abs s) (json_CreateLibrary l s)"
    and "step_ok json_abs json_inv (spec_DeleteLibrary k (json_abs s)) (json_abs s) (json_DeleteLibrary k s)"
    and "step_ok json_abs json_inv (spec_ReplaceLibraryItems now k its (json_abs s)) (json_abs s) (json_ReplaceLibraryItems now k its s)"
    and "step_ok json_abs json_inv (spec_UpsertUserItemData d (json_abs s)) (json_abs s) (json_UpsertUserItemData d s)"
    and "step_ok json_abs json_inv (spec_CreateRecording y (json_abs s)) (json_abs s) (json_CreateRecording y s)"
    and "step_ok json_abs json_inv (spec_UpdateRecording y (json_abs s)) (json_abs s) (json_UpdateRecording y s)"
    and "step_ok json_abs json_inv (spec_DeleteRecording k (json_abs s)) (json_abs s) (json_DeleteRecording k s)"
    and "step_ok json_abs json_inv (spec_CreateSeriesTimer z (json_abs s)) (json_abs s) (json_CreateSeriesTimer z s)"
    and "step_ok json_abs json_inv (spec_DeleteSeriesTimer k (json_abs s)) (json_abs s) (json_DeleteSeriesTimer k s)"
  using s json_inv_wf [OF s]
  by (auto simp: json_ops json_specs set_map_vals map_of_drop_items map_of_put_items json_inv_def
      split: option.splits intro!: step_ok_err json_flush_ok keyed_set keyed_touch)

interpretation json_users: user_store json_store json_abs json_inv
proof (unfold_locales, goal_cases)
  case (3 s k) then show ?case by (simp add: json_GetUserByID_def get_or_lookup)
next
  case (4 s name) then show ?case by (simp add: json_GetUserByName_def find_or_search json_inv_wf)
next
  case (5 s) then show ?case by (simp add: json_ListUsers_def enumerates_map_vals json_inv_wf)
next
  case (6 s) then show ?case by (simp add: json_CountUsers_def length_map_wf json_inv_wf)
next
  case (7 s k u) then show ?case by (auto simp: json_inv_def dest: keyed_get)
qed (simp_all add: json_step_ok)

interpretation json_sessions: session_store json_store json_abs json_inv
proof (unfold_locales, goal_cases)
  case (4 s h) then show ?case by (simp add: json_GetSessionByTokenHash_def find_or_search json_inv_wf)
next
  case (5 s k x) then show ?case by (auto simp: json_inv_def dest: keyed_get)
qed (simp_all add: json_step_ok)

interpretation json_libraries: library_store json_store json_abs json_inv
proof (unfold_locales, goal_cases)
  case (4 s k) then show ?case by (simp add: json_GetLibrary_def get_or_lookup)
next
  case (5 s path) then show ?case by (simp add: json_GetLibraryByPath_def find_or_search json_inv_wf)
next
  case (6 s) then show ?case by (simp add: json_ListLibraries_def enumerates_map_vals json_inv_wf)
next
  case (7 s k) then show ?case by (simp add: json_GetItem_def get_or_lookup)
next
  case (8 s lib) then show ?case by (simp add: json_ListItemsByLibrary_def filter_enumerates json_inv_wf)
next
  case (9 s p) then show ?case by (simp add: json_ListItemsByParent_def filter_enumerates json_inv_wf)
next
  case (10 s) then show ?case by (simp add: json_AllItems_def enumerates_map_vals json_inv_wf)
qed (simp_all add: json_step_ok)

interpretation json_userdata: userdata_store json_store json_abs json_inv
proof (unfold_locales, goal_cases)
  case (1 s u i) then show ?case by (simp add: json_GetUserItemData_def get_or_lookup)
next
  case (3 s u) then show ?case by (simp add: json_ListUserItemData_def filter_enumerates json_inv_wf)
next
  case (4 s k d) then show ?case by (auto simp: json_inv_def dest: keyed_get)
qed (simp_all add: json_step_ok)

interpretation json_recordings: recording_store json_store json_abs json_inv
proof (unfold_locales, goal_cases)
  case (4 s k) then show ?case by (simp add: json_GetRecording_def get_or_lookup)
next
  case (5 s) then show ?case by (simp add: json_ListRecordings_def enumerates_map_vals json_inv_wf)
next
  case (6 s k x) then show ?case by (auto simp: json_inv_def dest: keyed_get)
next
  case (9 s k) then show ?case by (simp add: json_GetSeriesTimer_def get_or_lookup)
next
  case (10 s) then show ?case by (simp add: json_ListSeriesTimers_def enumerates_map_vals json_inv_wf)
qed (simp_all add: json_step_ok)

end
