(* ===== verification/BoltStore.thy ===== *)
theory BoltStore
  imports StoreSpec
begin

text \<open>
  The embedded store of \<open>internal/store/boltstore.go\<close>. The bbolt library is not part of the
  repository: its bucket operations, and the JSON encoding of the records, are the fields of
  an \<open>engine\<close> that every definition takes as an argument; \<open>engine_ok\<close> names what the code
  relies on (a bucket is a map whose cursor visits the keys in byte order, a deletion inside a
  write transaction succeeds, decoding undoes encoding). Buckets have an arbitrary type \<open>'bk\<close>
  and their values an arbitrary type \<open>'b\<close>. A write transaction is a function on the eleven
  buckets; \<open>db_update\<close> commits its result or leaves the database as it was.
\<close>

section \<open>The engine\<close>

record 'bk boltTx =
  txMeta :: 'bk
  txUsers :: 'bk
  txSessions :: 'bk
  txLibraries :: 'bk
  txItems :: 'bk
  txUserData :: 'bk
  txRecordings :: 'bk
  txSeriesTimers :: 'bk
  txSessionToken :: 'bk
  txItemLibrary :: 'bk
  txItemParent :: 'bk

record ('bk, 'b) engine =
  bb_empty :: 'bk
  bb_get :: "'bk \<Rightarrow> string \<Rightarrow> 'b option"
  bb_put :: "string \<Rightarrow> 'b \<Rightarrow> 'bk \<Rightarrow> 'bk option"
  bb_delete :: "string \<Rightarrow> 'bk \<Rightarrow> 'bk option"
  bb_cursor :: "'bk \<Rightarrow> (string \<times> 'b) list"
  bb_commit :: "'bk boltTx \<Rightarrow> 'bk boltTx \<Rightarrow> bool"
  enc_str :: "string \<Rightarrow> 'b"
  dec_str :: "'b \<Rightarrow> string"
  enc_User :: "User \<Rightarrow> 'b option"
  dec_User :: "'b \<Rightarrow> User option"
  enc_Session :: "Session \<Rightarrow> 'b option"
  dec_Session :: "'b \<Rightarrow> Session option"
  enc_Library :: "Library \<Rightarrow> 'b option"
  dec_Library :: "'b \<Rightarrow> Library option"
  enc_Item :: "MediaItem \<Rightarrow> 'b option"
  dec_Item :: "'b \<Rightarrow> MediaItem option"
  enc_UserData :: "UserItemData \<Rightarrow> 'b option"
  dec_UserData :: "'b \<Rightarrow> UserItemData option"
  enc_Recording :: "Recording \<Rightarrow> 'b option"
  dec_Recording :: "'b \<Rightarrow> Recording option"
  enc_Series :: "SeriesTimer \<Rightarrow> 'b option"
  dec_Series :: "'b \<Rightarrow> SeriesTimer option"

record 'bk boltStore =
  boltDB :: "'bk boltTx"
  boltServerID :: string

definition encode :: "('v \<Rightarrow> 'b option) \<Rightarrow> 'v \<Rightarrow> err + 'b" where
  "encode enc v = (case enc v of None \<Rightarrow> Inl (ErrIO ''store: encoding record'') | Some d \<Rightarrow> Inr d)"

definition decode :: "('b \<Rightarrow> 'v option) \<Rightarrow> 'b \<Rightarrow> err + 'v" where
  "decode dec d = (case dec d of None \<Rightarrow> Inl (ErrIO ''store: decoding record'') | Some v \<Rightarrow> Inr v)"

definition Put :: "('bk, 'b) engine \<Rightarrow> string \<Rightarrow> 'b \<Rightarrow> 'bk \<Rightarrow> err + 'bk" where
  "Put E k d b = (case bb_put E k d b of None \<Rightarrow> Inl (ErrIO ''bolt: put'') | Some b' \<Rightarrow> Inr b')"

definition Delete :: "('bk, 'b) engine \<Rightarrow> string \<Rightarrow> 'bk \<Rightarrow> err + 'bk" where
  "Delete E k b = (case bb_delete E k b of None \<Rightarrow> Inl (ErrIO ''bolt: delete'') | Some b' \<Rightarrow> Inr b')"

text \<open>\<open>encode\<close> followed by \<open>Put\<close>, as every record is written.\<close>

definition put_record :: "('bk, 'b) engine \<Rightarrow> ('v \<Rightarrow> 'b option) \<Rightarrow> string \<Rightarrow> 'v \<Rightarrow> 'bk \<Rightarrow> err + 'bk" where
  "put_record E enc k v b = and_then (encode enc v) (\<lambda>d. Put E k d b)"

text \<open>\<open>v := b.Get(k); if v == nil return ErrNotFound; decode(v)\<close>.\<close>

definition get_record :: "('bk, 'b) engine \<Rightarrow> ('b \<Rightarrow> 'v option) \<Rightarrow> 'bk \<Rightarrow> string \<Rightarrow> err + 'v" where
  "get_record E dec b k = (case bb_get E b k of None \<Rightarrow> Inl ErrNotFound | Some d \<Rightarrow> decode dec d)"

text \<open>A \<open>ForEach\<close> that decodes every value, and one that stops decoding at the first match.\<close>

fun decode_all :: "('b \<Rightarrow> 'v option) \<Rightarrow> (string \<times> 'b) list \<Rightarrow> err + 'v list" where
  "decode_all dec [] = Inr []"
| "decode_all dec ((k, d) # es) =
     and_then (decode dec d) (\<lambda>v. and_then (decode_all dec es) (\<lambda>vs. Inr (v # vs)))"

fun decode_find :: "('b \<Rightarrow> 'v option) \<Rightarrow> ('v \<Rightarrow> bool) \<Rightarrow> (string \<times> 'b) list \<Rightarrow> err + 'v" where
  "decode_find dec P [] = Inl ErrNotFound"
| "decode_find dec P ((k, d) # es) =
     and_then (decode dec d) (\<lambda>v. if P v then Inr v else decode_find dec P es)"

definition idxKey :: "string \<Rightarrow> string \<Rightarrow> string" where
  "idxKey a b = a @ [NUL] @ b"

definition idxPrefix :: "string \<Rightarrow> string" where
  "idxPrefix a = a @ [NUL]"

text \<open>The entries \<open>forEachPrefix\<close> visits: the cursor seeks to the first key not below the
  prefix and moves on while keys begin with it.\<close>

definition forEachPrefix :: "('bk, 'b) engine \<Rightarrow> 'bk \<Rightarrow> string \<Rightarrow> (string \<times> 'b) list" where
  "forEachPrefix E b p =
     takeWhile (\<lambda>(k, _). HasPrefix k p) (dropWhile (\<lambda>(k, _). k < p) (bb_cursor E b))"

definition db_update :: "('bk, 'b) engine \<Rightarrow> ('bk boltTx \<Rightarrow> err + 'bk boltTx) \<Rightarrow> 'bk boltStore \<Rightarrow> err option \<times> 'bk boltStore" where
  "db_update E f s =
     (case f (boltDB s) of
        Inl e \<Rightarrow> (Some e, s)
      | Inr tx \<Rightarrow> if bb_commit E (boltDB s) tx then (None, s\<lparr>boltDB := tx\<rparr>)
                 else (Some (ErrIO ''bolt: commit''), s))"

definition metaServerID :: string where "metaServerID = ''server_id''"

text \<open>\<open>OpenBolt\<close> on the buckets the file holds (\<open>None\<close>: the file cannot be opened). Its
  transaction creates missing buckets, here present and empty, and the server ID.\<close>

definition OpenBolt :: "('bk, 'b) engine \<Rightarrow> bool \<Rightarrow> 'bk boltTx option \<Rightarrow> string option \<Rightarrow> err + 'bk boltStore" where
  "OpenBolt E mkdirOk db newID =
     (if \<not> mkdirOk then Inl (ErrIO ''store: creating data dir'')
      else case db of
        None \<Rightarrow> Inl (ErrIO ''store: opening datastore'')
      | Some tx \<Rightarrow>
          (case bb_get E (txMeta tx) metaServerID of
             Some v \<Rightarrow> if bb_commit E tx tx then Inr \<lparr>boltDB = tx, boltServerID = dec_str E v\<rparr>
                       else Inl (ErrIO ''store: initializing datastore'')
           | None \<Rightarrow>
               (case newID of
                  None \<Rightarrow> Inl (ErrIO ''store: initializing datastore'')
                | Some ident \<Rightarrow>
                    (case Put E metaServerID (enc_str E ident) (txMeta tx) of
                       Inl e \<Rightarrow> Inl (ErrIO ''store: initializing datastore'')
                     | Inr b \<Rightarrow>
                         if bb_commit E tx (tx\<lparr>txMeta := b\<rparr>)
                         then Inr \<lparr>boltDB = tx\<lparr>txMeta := b\<rparr>, boltServerID = ident\<rparr>
                         else Inl (ErrIO ''store: initializing datastore'')))))"

definition bolt_ServerID :: "'bk boltStore \<Rightarrow> string" where
  "bolt_ServerID s = boltServerID s"

definition bolt_Close :: "'bk boltStore \<Rightarrow> err option \<times> 'bk boltStore" where
  "bolt_Close s = (None, s)"

section \<open>Users\<close>

definition bolt_CreateUser :: "('bk, 'b) engine \<Rightarrow> User \<Rightarrow> 'bk boltStore \<Rightarrow> err option \<times> 'bk boltStore" where
  "bolt_CreateUser E u = db_update E (\<lambda>tx.
     and_then (decode_all (dec_User E) (bb_cursor E (txUsers tx))) (\<lambda>existing.
     if \<exists>x \<in> set existing. EqualFold (uName x) (uName u) then Inl ErrConflict
     else and_then (put_record E (enc_User E) (uID u) u (txUsers tx)) (\<lambda>b. Inr (tx\<lparr>txUsers := b\<rparr>))))"

definition bolt_GetUserByID :: "('bk, 'b) engine \<Rightarrow> string \<Rightarrow> 'bk boltStore \<Rightarrow> err + User" where
  "bolt_GetUserByID E k s = get_record E (dec_User E) (txUsers (boltDB s)) k"

definition bolt_GetUserByName :: "('bk, 'b) engine \<Rightarrow> string \<Rightarrow> 'bk boltStore \<Rightarrow> err + User" where
  "bolt_GetUserByName E name s =
     decode_find (dec_User E) (\<lambda>u. EqualFold (uName u) name) (bb_cursor E (txUsers (boltDB s)))"

definition bolt_ListUsers :: "('bk, 'b) engine \<Rightarrow> 'bk boltStore \<Rightarrow> err + User list" where
  "bolt_ListUsers E s = decode_all (dec_User E) (bb_cursor E (txUsers (boltDB s)))"

definition bolt_UpdateUser :: "('bk, 'b) engine \<Rightarrow> User \<Rightarrow> 'bk boltStore \<Rightarrow> err option \<times> 'bk boltStore" where
  "bolt_UpdateUser E u = db_update E (\<lambda>tx.
     if bb_get E (txUsers tx) (uID u) = None then Inl ErrNotFound
     else and_then (put_record E (enc_User E) (uID u) u (txUsers tx)) (\<lambda>b. Inr (tx\<lparr>txUsers := b\<rparr>)))"

definition bolt_CountUsers :: "('bk, 'b) engine \<Rightarrow> 'bk boltStore \<Rightarrow> err + nat" where
  "bolt_CountUsers E s = Inr (length (bb_cursor E (txUsers (boltDB s))))"

section \<open>Sessions\<close>

definition bolt_CreateSession :: "('bk, 'b) engine \<Rightarrow> Session \<Rightarrow> 'bk boltStore \<Rightarrow> err option \<times> 'bk boltStore" where
  "bolt_CreateSession E x = db_update E (\<lambda>tx.
     and_then (put_record E (enc_Session E) (sID x) x (txSessions tx)) (\<lambda>b.
     and_then (Put E (sTokenHash x) (enc_str E (sID x)) (txSessionToken tx)) (\<lambda>i.
     Inr (tx\<lparr>txSessions := b, txSessionToken := i\<rparr>))))"

definition bolt_GetSessionByTokenHash :: "('bk, 'b) engine \<Rightarrow> string \<Rightarrow> 'bk boltStore \<Rightarrow> err + Session" where
  "bolt_GetSessionByTokenHash E h s =
     (case bb_get E (txSessionToken (boltDB s)) h of
        None \<Rightarrow> Inl ErrNotFound
      | Some i \<Rightarrow> get_record E (dec_Session E) (txSessions (boltDB s)) (dec_str E i))"

definition bolt_DeleteSession :: "('bk, 'b) engine \<Rightarrow> string \<Rightarrow> 'bk boltStore \<Rightarrow> err option \<times> 'bk boltStore" where
  "bolt_DeleteSession E k = db_update E (\<lambda>tx.
     and_then (get_record E (dec_Session E) (txSessions tx) k) (\<lambda>x.
     and_then (Delete E k (txSessions tx)) (\<lambda>b.
     and_then (Delete E (sTokenHash x) (txSessionToken tx)) (\<lambda>i.
     Inr (tx\<lparr>txSessions := b, txSessionToken := i\<rparr>)))))"

definition bolt_TouchSession :: "('bk, 'b) engine \<Rightarrow> time \<Rightarrow> string \<Rightarrow> 'bk boltStore \<Rightarrow> err option \<times> 'bk boltStore" where
  "bolt_TouchSession E now k = db_update E (\<lambda>tx.
     and_then (get_record E (dec_Session E) (txSessions tx) k) (\<lambda>x.
     and_then (put_record E (enc_Session E) k (x\<lparr>sLastActivity := now\<rparr>) (txSessions tx)) (\<lambda>b.
     Inr (tx\<lparr>txSessions := b\<rparr>))))"

section \<open>Libraries\<close>

definition bolt_CreateLibrary :: "('bk, 'b) engine \<Rightarrow> Library \<Rightarrow> 'bk boltStore \<Rightarrow> err option \<times> 'bk boltStore" where
  "bolt_CreateLibrary E l = db_update E (\<lambda>tx.
     and_then (decode_all (dec_Library E) (bb_cursor E (txLibraries tx))) (\<lambda>existing.
     if \<exists>x \<in> set existing. lPath x = lPath l then Inl ErrConflict
     else and_then (put_record E (enc_Library E) (lID l) l (txLibraries tx)) (\<lambda>b. Inr (tx\<lparr>txLibraries := b\<rparr>))))"

definition bolt_GetLibrary :: "('bk, 'b) engine \<Rightarrow> string \<Rightarrow> 'bk boltStore \<Rightarrow> err + Library" where
  "bolt_GetLibrary E k s = get_record E (dec_Library E) (txLibraries (boltDB s)) k"

definition bolt_GetLibraryByPath :: "('bk, 'b) engine \<Rightarrow> string \<Rightarrow> 'bk boltStore \<Rightarrow> err + Library" where
  "bolt_GetLibraryByPath E path s =
     decode_find (dec_Library E) (\<lambda>l. lPath l = path) (bb_cursor E (txLibraries (boltDB s)))"

definition bolt_ListLibraries :: "('bk, 'b) engine \<Rightarrow> 'bk boltStore \<Rightarrow> err + Library list" where
  "bolt_ListLibraries E s = decode_all (dec_Library E) (bb_cursor E (txLibraries (boltDB s)))"

text \<open>The loop of \<open>deleteLibraryItems\<close> over the collected item IDs; a failed deletion from the
  parent index is ignored.\<close>

fun delete_items :: "('bk, 'b) engine \<Rightarrow> string \<Rightarrow> string list \<Rightarrow> 'bk boltTx \<Rightarrow> err + 'bk boltTx" where
  "delete_items E lib [] tx = Inr tx"
| "delete_items E lib (k # ks) tx =
     (let byParent = (case bb_get E (txItems tx) k of
          None \<Rightarrow> txItemParent tx
        | Some d \<Rightarrow> (case dec_Item E d of
              None \<Rightarrow> txItemParent tx
            | Some it \<Rightarrow> (case bb_delete E (idxKey (mParentID it) k) (txItemParent tx) of
                  None \<Rightarrow> txItemParent tx | Some b \<Rightarrow> b)))
      in and_then (Delete E k (txItems tx)) (\<lambda>items.
         and_then (Delete E (idxKey lib k) (txItemLibrary tx)) (\<lambda>byLib.
         delete_items E lib ks (tx\<lparr>txItems := items, txItemLibrary := byLib, txItemParent := byParent\<rparr>))))"

definition deleteLibraryItems :: "('bk, 'b) engine \<Rightarrow> string \<Rightarrow> 'bk boltTx \<Rightarrow> err + 'bk boltTx" where
  "deleteLibraryItems E lib tx =
     (let prefix = idxPrefix lib;
          itemIDs = map (\<lambda>(k, _). drop (length prefix) k) (forEachPrefix E (txItemLibrary tx) prefix)
      in delete_items E lib itemIDs tx)"

definition bolt_DeleteLibrary :: "('bk, 'b) engine \<Rightarrow> string \<Rightarrow> 'bk boltStore \<Rightarrow> err option \<times> 'bk boltStore" where
  "bolt_DeleteLibrary E k = db_update E (\<lambda>tx.
     if bb_get E (txLibraries tx) k = None then Inl ErrNotFound
     else and_then (Delete E k (txLibraries tx)) (\<lambda>b.
       deleteLibraryItems E k (tx\<lparr>txLibraries := b\<rparr>)))"

section \<open>Media items\<close>

definition bolt_GetItem :: "('bk, 'b) engine \<Rightarrow> string \<Rightarrow> 'bk boltStore \<Rightarrow> err + MediaItem" where
  "bolt_GetItem E k s = get_record E (dec_Item E) (txItems (boltDB s)) k"

fun collect_items :: "('bk, 'b) engine \<Rightarrow> 'bk \<Rightarrow> nat \<Rightarrow> (string \<times> 'b) list \<Rightarrow> err + MediaItem list" where
  "collect_items E items plen [] = Inr []"
| "collect_items E items plen ((k, _) # es) =
     (case bb_get E items (drop plen k) of
        None \<Rightarrow> collect_items E items plen es
      | Some d \<Rightarrow> and_then (decode (dec_Item E) d) (\<lambda>it.
          and_then (collect_items E items plen es) (\<lambda>its. Inr (it # its))))"

definition listItemsByIndex :: "('bk, 'b) engine \<Rightarrow> 'bk \<Rightarrow> string \<Rightarrow> 'bk boltStore \<Rightarrow> err + MediaItem list" where
  "listItemsByIndex E index dim s =
     (let prefix = idxPrefix dim
      in collect_items E (txItems (boltDB s)) (length prefix) (forEachPrefix E index prefix))"

definition bolt_ListItemsByLibrary :: "('bk, 'b) engine \<Rightarrow> string \<Rightarrow> 'bk boltStore \<Rightarrow> err + MediaItem list" where
  "bolt_ListItemsByLibrary E lib s = listItemsByIndex E (txItemLibrary (boltDB s)) lib s"

definition bolt_ListItemsByParent :: "('bk, 'b) engine \<Rightarrow> string \<Rightarrow> 'bk boltStore \<Rightarrow> err + MediaItem list" where
  "bolt_ListItemsByParent E p s = listItemsByIndex E (txItemParent (boltDB s)) p s"

definition bolt_AllItems :: "('bk, 'b) engine \<Rightarrow> 'bk boltStore \<Rightarrow> err + MediaItem list" where
  "bolt_AllItems E s = decode_all (dec_Item E) (bb_cursor E (txItems (boltDB s)))"

fun insert_items :: "('bk, 'b) engine \<Rightarrow> string \<Rightarrow> MediaItem list \<Rightarrow> 'bk boltTx \<Rightarrow> err + 'bk boltTx" where
  "insert_items E lib [] tx = Inr tx"
| "insert_items E lib (it # its) tx =
     (let clone = it\<lparr>mLibraryID := lib\<rparr>
      in and_then (put_record E (enc_Item E) (mID clone) clone (txItems tx)) (\<lambda>items.
         and_then (Put E (idxKey lib (mID clone)) (enc_str E []) (txItemLibrary tx)) (\<lambda>byLib.
         and_then (Put E (idxKey (mParentID clone) (mID clone)) (enc_str E []) (txItemParent tx)) (\<lambda>byParent.
         insert_items E lib its (tx\<lparr>txItems := items, txItemLibrary := byLib, txItemParent := byParent\<rparr>)))))"

definition bolt_ReplaceLibraryItems :: "('bk, 'b) engine \<Rightarrow> time \<Rightarrow> string \<Rightarrow> MediaItem list \<Rightarrow> 'bk boltStore \<Rightarrow> err option \<times> 'bk boltStore" where
  "bolt_ReplaceLibraryItems E now lib its = db_update E (\<lambda>tx.
     and_then (get_record E (dec_Library E) (txLibraries tx) lib) (\<lambda>l.
     and_then (deleteLibraryItems E lib tx) (\<lambda>tx1.
     and_then (insert_items E lib its tx1) (\<lambda>tx2.
     and_then (put_record E (enc_Library E) lib
         (l\<lparr>lItemCount := int (length its), lScannedAt := now\<rparr>) (txLibraries tx2)) (\<lambda>b.
     Inr (tx2\<lparr>txLibraries := b\<rparr>))))))"

section \<open>Per-user item data\<close>

definition bolt_GetUserItemData :: "('bk, 'b) engine \<Rightarrow> string \<Rightarrow> string \<Rightarrow> 'bk boltStore \<Rightarrow> err + UserItemData" where
  "bolt_GetUserItemData E u i s = get_record E (dec_UserData E) (txUserData (boltDB s)) (idxKey u i)"

definition bolt_UpsertUserItemData :: "('bk, 'b) engine \<Rightarrow> UserItemData \<Rightarrow> 'bk boltStore \<Rightarrow> err option \<times> 'bk boltStore" where
  "bolt_UpsertUserItemData E d = db_update E (\<lambda>tx.
     and_then (put_record E (enc_UserData E) (idxKey (dUserID d) (dItemID d)) d (txUserData tx)) (\<lambda>b.
     Inr (tx\<lparr>txUserData := b\<rparr>)))"

definition bolt_ListUserItemData :: "('bk, 'b) engine \<Rightarrow> string \<Rightarrow> 'bk boltStore \<Rightarrow> err + UserItemData list" where
  "bolt_ListUserItemData E u s =
     decode_all (dec_UserData E) (forEachPrefix E (txUserData (boltDB s)) (idxPrefix u))"

section \<open>Recordings and series timers\<close>

definition bolt_CreateRecording :: "('bk, 'b) engine \<Rightarrow> Recording \<Rightarrow> 'bk boltStore \<Rightarrow> err option \<times> 'bk boltStore" where
  "bolt_CreateRecording E x = db_update E (\<lambda>tx.
     and_then (put_record E (enc_Recording E) (rID x) x (txRecordings tx)) (\<lambda>b. Inr (tx\<lparr>txRecordings := b\<rparr>)))"

definition bolt_GetRecording :: "('bk, 'b) engine \<Rightarrow> string \<Rightarrow> 'bk boltStore \<Rightarrow> err + Recording" where
  "bolt_GetRecording E k s = get_record E (dec_Recording E) (txRecordings (boltDB s)) k"

definition bolt_ListRecordings :: "('bk, 'b) engine \<Rightarrow> 'bk boltStore \<Rightarrow> err + Recording list" where
  "bolt_ListRecordings E s = decode_all (dec_Recording E) (bb_cursor E (txRecordings (boltDB s)))"

definition bolt_UpdateRecording :: "('bk, 'b) engine \<Rightarrow> Recording \<Rightarrow> 'bk boltStore \<Rightarrow> err option \<times> 'bk boltStore" where
  "bolt_UpdateRecording E x = db_update E (\<lambda>tx.
     if bb_get E (txRecordings tx) (rID x) = None then Inl ErrNotFound
     else and_then (put_record E (enc_Recording E) (rID x) x (txRecordings tx)) (\<lambda>b. Inr (tx\<lparr>txRecordings := b\<rparr>)))"

definition bolt_DeleteRecording :: "('bk, 'b) engine \<Rightarrow> string \<Rightarrow> 'bk boltStore \<Rightarrow> err option \<times> 'bk boltStore" where
  "bolt_DeleteRecording E k = db_update E (\<lambda>tx.
     if bb_get E (txRecordings tx) k = None then Inl ErrNotFound
     else and_then (Delete E k (txRecordings tx)) (\<lambda>b. Inr (tx\<lparr>txRecordings := b\<rparr>)))"

definition bolt_CreateSeriesTimer :: "('bk, 'b) engine \<Rightarrow> SeriesTimer \<Rightarrow> 'bk boltStore \<Rightarrow> err option \<times> 'bk boltStore" where
  "bolt_CreateSeriesTimer E x = db_update E (\<lambda>tx.
     and_then (put_record E (enc_Series E) (tID x) x (txSeriesTimers tx)) (\<lambda>b. Inr (tx\<lparr>txSeriesTimers := b\<rparr>)))"

definition bolt_GetSeriesTimer :: "('bk, 'b) engine \<Rightarrow> string \<Rightarrow> 'bk boltStore \<Rightarrow> err + SeriesTimer" where
  "bolt_GetSeriesTimer E k s = get_record E (dec_Series E) (txSeriesTimers (boltDB s)) k"

definition bolt_ListSeriesTimers :: "('bk, 'b) engine \<Rightarrow> 'bk boltStore \<Rightarrow> err + SeriesTimer list" where
  "bolt_ListSeriesTimers E s = decode_all (dec_Series E) (bb_cursor E (txSeriesTimers (boltDB s)))"

definition bolt_DeleteSeriesTimer :: "('bk, 'b) engine \<Rightarrow> string \<Rightarrow> 'bk boltStore \<Rightarrow> err option \<times> 'bk boltStore" where
  "bolt_DeleteSeriesTimer E k = db_update E (\<lambda>tx.
     if bb_get E (txSeriesTimers tx) k = None then Inl ErrNotFound
     else and_then (Delete E k (txSeriesTimers tx)) (\<lambda>b. Inr (tx\<lparr>txSeriesTimers := b\<rparr>)))"

definition bolt_store :: "('bk, 'b) engine \<Rightarrow> 'bk boltStore Store" where
  "bolt_store E = \<lparr>ServerID = bolt_ServerID,
     CreateUser = bolt_CreateUser E, GetUserByID = bolt_GetUserByID E,
     GetUserByName = bolt_GetUserByName E, ListUsers = bolt_ListUsers E,
     UpdateUser = bolt_UpdateUser E, CountUsers = bolt_CountUsers E,
     CreateSession = bolt_CreateSession E, GetSessionByTokenHash = bolt_GetSessionByTokenHash E,
     DeleteSession = bolt_DeleteSession E, TouchSession = bolt_TouchSession E,
     CreateLibrary = bolt_CreateLibrary E, GetLibrary = bolt_GetLibrary E,
     GetLibraryByPath = bolt_GetLibraryByPath E, ListLibraries = bolt_ListLibraries E,
     DeleteLibrary = bolt_DeleteLibrary E, GetItem = bolt_GetItem E,
     ListItemsByLibrary = bolt_ListItemsByLibrary E, ListItemsByParent = bolt_ListItemsByParent E,
     AllItems = bolt_AllItems E, ReplaceLibraryItems = bolt_ReplaceLibraryItems E,
     GetUserItemData = bolt_GetUserItemData E, UpsertUserItemData = bolt_UpsertUserItemData E,
     ListUserItemData = bolt_ListUserItemData E, CreateRecording = bolt_CreateRecording E,
     GetRecording = bolt_GetRecording E, ListRecordings = bolt_ListRecordings E,
     UpdateRecording = bolt_UpdateRecording E, DeleteRecording = bolt_DeleteRecording E,
     CreateSeriesTimer = bolt_CreateSeriesTimer E, GetSeriesTimer = bolt_GetSeriesTimer E,
     ListSeriesTimers = bolt_ListSeriesTimers E, DeleteSeriesTimer = bolt_DeleteSeriesTimer E,
     CloseStore = bolt_Close\<rparr>"

end
