(* ===== verification/BoltRefine.thy ===== *)
theory BoltRefine
  imports BoltStore
begin

text \<open>
  The bbolt-backed store meets the store contract. \<open>engine_ok\<close> states what is relied on of
  bbolt and of the JSON encoding; the locale \<open>bolt_engine\<close> assumes it and proves, transaction
  by transaction, that the primary buckets hold the records and the index buckets hold exactly
  the entries the records call for. \<open>ref_engine\<close> is a concrete engine, sorted association
  lists of tagged records, on which the locale is interpreted.
\<close>

section \<open>What the code relies on\<close>

definition bmap :: "('bk, 'b) engine \<Rightarrow> 'bk \<Rightarrow> string \<rightharpoonup> 'b" where
  "bmap E b = map_of (bb_cursor E b)"

definition bwf :: "('bk, 'b) engine \<Rightarrow> 'bk \<Rightarrow> bool" where
  "bwf E b \<longleftrightarrow> sorted_wrt (<) (map fst (bb_cursor E b))"

definition codec_ok :: "('v \<Rightarrow> 'b option) \<Rightarrow> ('b \<Rightarrow> 'v option) \<Rightarrow> bool" where
  "codec_ok enc dec \<longleftrightarrow> (\<forall>v d. enc v = Some d \<longrightarrow> dec d = Some v)"

definition engine_ok :: "('bk, 'b) engine \<Rightarrow> bool" where
  "engine_ok E \<longleftrightarrow>
     bb_cursor E (bb_empty E) = [] \<and>
     (\<forall>b k. bwf E b \<longrightarrow> bb_get E b k = bmap E b k) \<and>
     (\<forall>b k d b'. bwf E b \<longrightarrow> bb_put E k d b = Some b' \<longrightarrow>
        bwf E b' \<and> bmap E b' = (bmap E b)(k \<mapsto> d)) \<and>
     (\<forall>b k. bwf E b \<longrightarrow> (\<exists>b'. bb_delete E k b = Some b' \<and>
        bwf E b' \<and> bmap E b' = (bmap E b)(k := None))) \<and>
     (\<forall>x. dec_str E (enc_str E x) = x) \<and>
     codec_ok (enc_User E) (dec_User E) \<and> codec_ok (enc_Session E) (dec_Session E) \<and>
     codec_ok (enc_Library E) (dec_Library E) \<and> codec_ok (enc_Item E) (dec_Item E) \<and>
     codec_ok (enc_UserData E) (dec_UserData E) \<and> codec_ok (enc_Recording E) (dec_Recording E) \<and>
     codec_ok (enc_Series E) (dec_Series E)"

section \<open>Abstraction and invariant\<close>

definition rmap :: "('bk, 'b) engine \<Rightarrow> ('b \<Rightarrow> 'v option) \<Rightarrow> 'bk \<Rightarrow> string \<rightharpoonup> 'v" where
  "rmap E dec b = (\<lambda>k. Option.bind (bmap E b k) dec)"

text \<open>A primary bucket: every value decodes, to a record that satisfies \<open>R\<close> with its key.\<close>

definition rtab :: "('bk, 'b) engine \<Rightarrow> ('b \<Rightarrow> 'v option) \<Rightarrow> (string \<Rightarrow> 'v \<Rightarrow> bool) \<Rightarrow> 'bk \<Rightarrow> bool" where
  "rtab E dec R b \<longleftrightarrow> bwf E b \<and> (\<forall>k d. bmap E b k = Some d \<longrightarrow> (\<exists>v. dec d = Some v \<and> R k v))"

definition item_key_ok :: "string \<Rightarrow> MediaItem \<Rightarrow> bool" where
  "item_key_ok k it \<longleftrightarrow> mID it = k \<and> no_nul k \<and> no_nul (mLibraryID it) \<and> no_nul (mParentID it)"

definition userdata_key_ok :: "string \<Rightarrow> UserItemData \<Rightarrow> bool" where
  "userdata_key_ok k d \<longleftrightarrow> k = userDataKey (dUserID d) (dItemID d) \<and> no_nul (dUserID d) \<and> no_nul (dItemID d)"

text \<open>An item index on \<open>f\<close> has exactly the keys \<open>f it \<cdot> NUL \<cdot> id\<close>; the token index sends
  exactly the stored sessions' token hashes to their IDs.\<close>

definition item_index :: "('bk, 'b) engine \<Rightarrow> (MediaItem \<Rightarrow> string) \<Rightarrow> (string \<rightharpoonup> MediaItem) \<Rightarrow> 'bk \<Rightarrow> bool" where
  "item_index E f items b \<longleftrightarrow>
     bwf E b \<and> dom (bmap E b) = {idxKey (f it) k |k it. items k = Some it}"

definition token_index :: "('bk, 'b) engine \<Rightarrow> (string \<rightharpoonup> Session) \<Rightarrow> 'bk \<Rightarrow> bool" where
  "token_index E sessions b \<longleftrightarrow>
     bwf E b \<and> (\<forall>h k. map_option (dec_str E) (bmap E b h) = Some k \<longleftrightarrow>
       (\<exists>x. sessions k = Some x \<and> sTokenHash x = h))"

definition tx_abs :: "('bk, 'b) engine \<Rightarrow> 'bk boltTx \<Rightarrow> absstore" where
  "tx_abs E tx = \<lparr>aUsers = rmap E (dec_User E) (txUsers tx),
     aSessions = rmap E (dec_Session E) (txSessions tx),
     aLibraries = rmap E (dec_Library E) (txLibraries tx),
     aItems = rmap E (dec_Item E) (txItems tx),
     aUserData = rmap E (dec_UserData E) (txUserData tx),
     aRecordings = rmap E (dec_Recording E) (txRecordings tx),
     aSeriesTimers = rmap E (dec_Series E) (txSeriesTimers tx)\<rparr>"

definition items_part :: "('bk, 'b) engine \<Rightarrow> 'bk boltTx \<Rightarrow> bool" where
  "items_part E tx \<longleftrightarrow> rtab E (dec_Item E) item_key_ok (txItems tx) \<and>
     item_index E mLibraryID (rmap E (dec_Item E) (txItems tx)) (txItemLibrary tx) \<and>
     item_index E mParentID (rmap E (dec_Item E) (txItems tx)) (txItemParent tx)"

definition tx_inv :: "('bk, 'b) engine \<Rightarrow> 'bk boltTx \<Rightarrow> bool" where
  "tx_inv E tx \<longleftrightarrow> rtab E (dec_User E) (\<lambda>k u. uID u = k) (txUsers tx) \<and>
     rtab E (dec_Session E) (\<lambda>k x. sID x = k) (txSessions tx) \<and>
     token_index E (rmap E (dec_Session E) (txSessions tx)) (txSessionToken tx) \<and>
     rtab E (dec_Library E) (\<lambda>_ _. True) (txLibraries tx) \<and>
     items_part E tx \<and>
     rtab E (dec_UserData E) userdata_key_ok (txUserData tx) \<and>
     rtab E (dec_Recording E) (\<lambda>k x. rID x = k) (txRecordings tx) \<and>
     rtab E (dec_Series E) (\<lambda>k x. tID x = k) (txSeriesTimers tx)"

definition bolt_abs :: "('bk, 'b) engine \<Rightarrow> 'bk boltStore \<Rightarrow> absstore" where
  "bolt_abs E s = tx_abs E (boltDB s)"

definition bolt_inv :: "('bk, 'b) engine \<Rightarrow> 'bk boltStore \<Rightarrow> bool" where
  "bolt_inv E s \<longleftrightarrow> tx_inv E (boltDB s)"

text \<open>A transaction body refines a meaning.\<close>

definition tx_ok :: "('bk, 'b) engine \<Rightarrow> err + absstore \<Rightarrow> err + 'bk boltTx \<Rightarrow> bool" where
  "tx_ok E sp x \<longleftrightarrow>
     (case x of
        Inl e \<Rightarrow> sp = Inl e \<or> (io_error e \<and> (\<exists>b. sp = Inr b))
      | Inr tx \<Rightarrow> tx_inv E tx \<and> sp = Inr (tx_abs E tx))"

text \<open>A step of a body fails with an I/O error or yields a value with a property.\<close>

definition yields :: "('a \<Rightarrow> bool) \<Rightarrow> err + 'a \<Rightarrow> bool" where
  "yields Q x \<longleftrightarrow> (case x of Inl e \<Rightarrow> io_error e | Inr v \<Rightarrow> Q v)"

lemma yields_simps [simp]: "yields Q (Inr v) = Q v" "yields Q (Inl e) = io_error e"
  by (simp_all add: yields_def)

lemma yields_and_then:
  "yields Q x \<Longrightarrow> (\<And>v. Q v \<Longrightarrow> yields Q' (f v)) \<Longrightarrow> yields Q' (and_then x f)"
  by (cases x) auto

lemma tx_ok_and_then:
  "yields Q x \<Longrightarrow> \<exists>b. sp = Inr b \<Longrightarrow> (\<And>v. Q v \<Longrightarrow> tx_ok E sp (f v)) \<Longrightarrow> tx_ok E sp (and_then x f)"
  by (cases x) (auto simp: tx_ok_def [of E sp "Inl _"])

lemma tx_ok_Inl: "sp = Inl e \<Longrightarrow> tx_ok E sp (Inl e)"
  by (simp add: tx_ok_def)

lemma tx_ok_Inr: "tx_inv E tx \<Longrightarrow> sp = Inr (tx_abs E tx) \<Longrightarrow> tx_ok E sp (Inr tx)"
  by (simp add: tx_ok_def)

lemma db_update_ok:
  "bolt_inv E s \<Longrightarrow> tx_ok E sp (f (boltDB s)) \<Longrightarrow>
   step_ok (bolt_abs E) (bolt_inv E) sp (bolt_abs E s) (db_update E f s)"
  by (auto simp: db_update_def step_ok_def refines_def bolt_abs_def bolt_inv_def tx_ok_def
      split: sum.splits)

lemma idxKey_inject:
  "no_nul a \<Longrightarrow> no_nul a' \<Longrightarrow> idxKey a b = idxKey a' b' \<longleftrightarrow> a = a' \<and> b = b'"
  unfolding idxKey_def no_nul_def
  by (induction a arbitrary: a') (auto simp: Cons_eq_append_conv, (case_tac a'; force)+)

lemma userDataKey_idxKey: "userDataKey = idxKey"
  by (simp add: userDataKey_def idxKey_def fun_eq_iff)

lemma prefix_idxKey:
  assumes "no_nul a" "no_nul b"
  shows "HasPrefix (idxKey a b) (idxPrefix d) \<longleftrightarrow> d = a"
proof
  assume "HasPrefix (idxKey a b) (idxPrefix d)"
  then obtain z where z: "a @ NUL # b = d @ NUL # z"
    by (auto simp: HasPrefix_prefix prefix_def idxKey_def idxPrefix_def)
  then have "no_nul d"
    using assms by (auto simp: no_nul_def append_eq_append_conv2 append_eq_Cons_conv Cons_eq_append_conv)
  with z assms idxKey_inject [of a d b z] show "d = a" by (simp add: idxKey_def)
qed (simp add: HasPrefix_prefix idxKey_def idxPrefix_def)

lemma drop_idxKey [simp]: "drop (length (idxPrefix a)) (idxKey a b) = b"
  by (simp add: idxKey_def idxPrefix_def)

section \<open>Buckets\<close>

lemma rtabD: "rtab E dec R b \<Longrightarrow> bwf E b"
  by (simp add: rtab_def)

lemma rtab_get: "rtab E dec R b \<Longrightarrow> rmap E dec b k = Some v \<Longrightarrow> R k v"
  by (force simp: rtab_def rmap_def bind_eq_Some_conv)

lemma rtab_dec: "rtab E dec R b \<Longrightarrow> bmap E b k = Some d \<Longrightarrow> \<exists>v. dec d = Some v \<and> R k v"
  by (simp add: rtab_def)

lemma rtab_None: "rtab E dec R b \<Longrightarrow> rmap E dec b k = None \<longleftrightarrow> bmap E b k = None"
  using rtab_dec [of E dec R b k] by (cases "bmap E b k") (auto simp: rmap_def)

lemma bwf_distinct: "bwf E b \<Longrightarrow> distinct (map fst (bb_cursor E b))"
  by (simp add: bwf_def strict_sorted_iff)

lemma bmap_in: "bwf E b \<Longrightarrow> (k, d) \<in> set (bb_cursor E b) \<longleftrightarrow> bmap E b k = Some d"
  by (simp add: bmap_def bwf_distinct)

text \<open>Decoding entries that all decode: one value per entry, in order.\<close>

lemma decode_all_map:
  "\<forall>(k, d) \<in> set es. dec d \<noteq> None \<Longrightarrow> decode_all dec es = Inr (map (\<lambda>(k, d). the (dec d)) es)"
  by (induction es) (auto simp: decode_def split: option.splits)

lemma decode_find_map:
  "\<forall>(k, d) \<in> set es. dec d \<noteq> None \<Longrightarrow>
   decode_find dec P es = (case find P (map (\<lambda>(k, d). the (dec d)) es) of None \<Rightarrow> Inl ErrNotFound | Some v \<Rightarrow> Inr v)"
  by (induction es) (auto simp: decode_def split: option.splits)

lemma rtab_decodes: "rtab E dec R b \<Longrightarrow> \<forall>(k, d) \<in> set (bb_cursor E b). dec d \<noteq> None"
  by (force simp: rtab_def bmap_in)

lemma rtab_filter_enumerates:
  assumes b: "rtab E dec R b"
    and PQ: "\<And>k d. bmap E b k = Some d \<Longrightarrow> Q k \<longleftrightarrow> P (the (dec d))"
  shows "enumerates (map (\<lambda>(k, d). the (dec d)) (filter (\<lambda>(k, _). Q k) (bb_cursor E b)))
           (map_where P (rmap E dec b))"
proof -
  let ?es = "filter (\<lambda>(k, _). Q k) (bb_cursor E b)"
  note wf = rtabD [OF b]
  have in_es: "map_where P (rmap E dec b) k = Some (the (dec d)) \<and> Q k" if "(k, d) \<in> set ?es" for k d
    using that PQ [of k d] rtab_dec [OF b, of k d]
    by (auto simp: bmap_in [OF wf] map_where_def rmap_def)
  have conv: "k \<in> fst ` set ?es" if k: "map_where P (rmap E dec b) k = Some v" for k v
  proof -
    from k obtain d where "bmap E b k = Some d" "dec d = Some v" "P v"
      by (auto simp: map_where_def rmap_def bind_eq_Some_conv split: option.splits if_splits)
    with PQ [of k d] show ?thesis
      by (force simp: bmap_in [OF wf] image_iff)
  qed
  have "set (map fst ?es) = dom (map_where P (rmap E dec b))"
  proof (intro set_eqI iffI)
    fix k assume "k \<in> set (map fst ?es)"
    then obtain e where "e \<in> set ?es" "k = fst e" unfolding set_map by (rule imageE)
    then have "(k, snd e) \<in> set ?es" by (simp del: set_filter)
    with in_es show "k \<in> dom (map_where P (rmap E dec b))" by blast
  next
    fix k assume "k \<in> dom (map_where P (rmap E dec b))"
    with conv show "k \<in> set (map fst ?es)" unfolding set_map by blast
  qed
  moreover have "distinct (map fst ?es)"
    using bwf_distinct [OF wf] by (simp add: distinct_map_filter)
  moreover have "map Some (map (\<lambda>(k, d). the (dec d)) ?es) = map (map_where P (rmap E dec b)) (map fst ?es)"
    unfolding map_map
  proof (rule map_cong [OF refl])
    fix e assume "e \<in> set ?es"
    then have "(fst e, snd e) \<in> set ?es" by (simp del: set_filter)
    from in_es [OF this] show "(Some \<circ> (\<lambda>(k, d). the (dec d))) e = (map_where P (rmap E dec b) \<circ> fst) e"
      by (simp add: case_prod_unfold)
  qed
  ultimately show ?thesis unfolding enumerates_def by blast
qed

lemma rtab_enumerates:
  assumes "rtab E dec R b"
  shows "enumerates (map (\<lambda>(k, d). the (dec d)) (bb_cursor E b)) (rmap E dec b)"
proof -
  have "map_where (\<lambda>_. True) (rmap E dec b) = rmap E dec b"
    by (auto simp: map_where_def fun_eq_iff split: option.splits)
  then show ?thesis
    using rtab_filter_enumerates [OF assms, of "\<lambda>_. True" "\<lambda>_. True"] by simp
qed

lemma decode_all_ok:
  "rtab E dec R b \<Longrightarrow> \<exists>vs. decode_all dec (bb_cursor E b) = Inr vs \<and> enumerates vs (rmap E dec b)"
  by (simp add: decode_all_map [OF rtab_decodes] rtab_enumerates)

lemma decode_find_ok:
  assumes "rtab E dec R b"
  shows "search_ok P (rmap E dec b) (decode_find dec P (bb_cursor E b))"
  unfolding decode_find_map [OF rtab_decodes [OF assms]] search_ok_def
    enumerates_set [OF rtab_enumerates [OF assms], symmetric]
  by (auto split: option.splits simp: find_None_iff find_Some_iff)

lemma forEachPrefix_filter: "bwf E b \<Longrightarrow> forEachPrefix E b p = filter (\<lambda>(k, _). HasPrefix k p) (bb_cursor E b)"
  unfolding forEachPrefix_def bwf_def by (rule seek_prefix_filter)

section \<open>The engine's laws\<close>

locale bolt_engine =
  fixes E :: "('bk, 'b) engine"
  assumes ok: "engine_ok E"
begin

lemma get_eq: "bwf E b \<Longrightarrow> bb_get E b k = bmap E b k"
  using ok by (simp add: engine_ok_def)

lemma Put_ok: "bwf E b \<Longrightarrow> yields (\<lambda>b'. bwf E b' \<and> bmap E b' = (bmap E b)(k \<mapsto> d)) (Put E k d b)"
  using ok by (auto simp: engine_ok_def Put_def split: option.splits)

lemma bb_delete_ok: "bwf E b \<Longrightarrow> \<exists>b'. bb_delete E k b = Some b' \<and> bwf E b' \<and> bmap E b' = (bmap E b)(k := None)"
  using ok by (simp add: engine_ok_def)

lemma Delete_ok: "bwf E b \<Longrightarrow> yields (\<lambda>b'. bwf E b' \<and> bmap E b' = (bmap E b)(k := None)) (Delete E k b)"
  using bb_delete_ok [of b k] by (auto simp: Delete_def)

lemma dec_enc_str [simp]: "dec_str E (enc_str E x) = x"
  using ok by (simp add: engine_ok_def)

lemma codecs:
  "codec_ok (enc_User E) (dec_User E)" "codec_ok (enc_Session E) (dec_Session E)"
  "codec_ok (enc_Library E) (dec_Library E)" "codec_ok (enc_Item E) (dec_Item E)"
  "codec_ok (enc_UserData E) (dec_UserData E)" "codec_ok (enc_Recording E) (dec_Recording E)"
  "codec_ok (enc_Series E) (dec_Series E)"
  using ok by (simp_all add: engine_ok_def)

lemma put_record_ok:
  assumes b: "rtab E dec R b" and c: "codec_ok enc dec" and R: "R k v"
  shows "yields (\<lambda>b'. rtab E dec R b' \<and> rmap E dec b' = (rmap E dec b)(k \<mapsto> v)) (put_record E enc k v b)"
proof (cases "enc v")
  case None
  then show ?thesis by (simp add: put_record_def encode_def)
next
  case (Some d)
  with c have d: "dec d = Some v" by (simp add: codec_ok_def)
  from Put_ok [OF rtabD [OF b], of k d] show ?thesis
  proof (cases "Put E k d b")
    case (Inr b')
    with Put_ok [OF rtabD [OF b], of k d] have b': "bwf E b'" "bmap E b' = (bmap E b)(k \<mapsto> d)"
      by auto
    then have "rmap E dec b' = (rmap E dec b)(k \<mapsto> v)"
      using d by (auto simp: rmap_def fun_eq_iff)
    moreover have "rtab E dec R b'"
      using b b' d R by (auto simp: rtab_def)
    ultimately show ?thesis
      using Some Inr by (simp add: put_record_def encode_def)
  qed (use Some in \<open>simp add: put_record_def encode_def\<close>)
qed

lemma delete_record_ok:
  assumes b: "rtab E dec R b"
  shows "yields (\<lambda>b'. rtab E dec R b' \<and> rmap E dec b' = (rmap E dec b)(k := None)) (Delete E k b)"
proof -
  have "rtab E dec R b' \<and> rmap E dec b' = (rmap E dec b)(k := None)"
    if "bwf E b'" "bmap E b' = (bmap E b)(k := None)" for b'
    using b that by (auto simp: rtab_def rmap_def fun_eq_iff)
  then show ?thesis
    using Delete_ok [OF rtabD [OF b], of k] by (cases "Delete E k b") auto
qed

lemma get_record_ok: "rtab E dec R b \<Longrightarrow> get_record E dec b k = lookup_or (rmap E dec b k)"
  using rtab_dec [of E dec R b k]
  by (cases "bmap E b k") (auto simp: get_record_def lookup_or_def rmap_def get_eq [OF rtabD] decode_def)

lemma get_None: "rtab E dec R b \<Longrightarrow> bb_get E b k = None \<longleftrightarrow> rmap E dec b k = None"
  by (simp add: rtab_None get_eq [OF rtabD])

end

section \<open>Transactions on one bucket\<close>

lemma tx_abs_sel [simp]:
  "aUsers (tx_abs E tx) = rmap E (dec_User E) (txUsers tx)"
  "aSessions (tx_abs E tx) = rmap E (dec_Session E) (txSessions tx)"
  "aLibraries (tx_abs E tx) = rmap E (dec_Library E) (txLibraries tx)"
  "aItems (tx_abs E tx) = rmap E (dec_Item E) (txItems tx)"
  "aUserData (tx_abs E tx) = rmap E (dec_UserData E) (txUserData tx)"
  "aRecordings (tx_abs E tx) = rmap E (dec_Recording E) (txRecordings tx)"
  "aSeriesTimers (tx_abs E tx) = rmap E (dec_Series E) (txSeriesTimers tx)"
  by (simp_all add: tx_abs_def)

lemma tx_abs_upd [simp]:
  "tx_abs E (tx\<lparr>txUsers := b\<rparr>) = (tx_abs E tx)\<lparr>aUsers := rmap E (dec_User E) b\<rparr>"
  "tx_abs E (tx\<lparr>txSessions := b\<rparr>) = (tx_abs E tx)\<lparr>aSessions := rmap E (dec_Session E) b\<rparr>"
  "tx_abs E (tx\<lparr>txSessionToken := b\<rparr>) = tx_abs E tx"
  "tx_abs E (tx\<lparr>txLibraries := b\<rparr>) = (tx_abs E tx)\<lparr>aLibraries := rmap E (dec_Library E) b\<rparr>"
  "tx_abs E (tx\<lparr>txItems := b\<rparr>) = (tx_abs E tx)\<lparr>aItems := rmap E (dec_Item E) b\<rparr>"
  "tx_abs E (tx\<lparr>txItemLibrary := b\<rparr>) = tx_abs E tx"
  "tx_abs E (tx\<lparr>txItemParent := b\<rparr>) = tx_abs E tx"
  "tx_abs E (tx\<lparr>txUserData := b\<rparr>) = (tx_abs E tx)\<lparr>aUserData := rmap E (dec_UserData E) b\<rparr>"
  "tx_abs E (tx\<lparr>txRecordings := b\<rparr>) = (tx_abs E tx)\<lparr>aRecordings := rmap E (dec_Recording E) b\<rparr>"
  "tx_abs E (tx\<lparr>txSeriesTimers := b\<rparr>) = (tx_abs E tx)\<lparr>aSeriesTimers := rmap E (dec_Series E) b\<rparr>"
  by (simp_all add: tx_abs_def)

lemma items_part_upd [simp]:
  "items_part E (tx\<lparr>txUsers := b\<rparr>) = items_part E tx"
  "items_part E (tx\<lparr>txSessions := b\<rparr>) = items_part E tx"
  "items_part E (tx\<lparr>txSessionToken := b\<rparr>) = items_part E tx"
  "items_part E (tx\<lparr>txLibraries := b\<rparr>) = items_part E tx"
  "items_part E (tx\<lparr>txUserData := b\<rparr>) = items_part E tx"
  "items_part E (tx\<lparr>txRecordings := b\<rparr>) = items_part E tx"
  "items_part E (tx\<lparr>txSeriesTimers := b\<rparr>) = items_part E tx"
  by (simp_all add: items_part_def)

lemma tx_inv_parts:
  assumes "tx_inv E tx"
  shows "rtab E (dec_User E) (\<lambda>k u. uID u = k) (txUsers tx)"
    "rtab E (dec_Session E) (\<lambda>k x. sID x = k) (txSessions tx)"
    "token_index E (rmap E (dec_Session E) (txSessions tx)) (txSessionToken tx)"
    "rtab E (dec_Library E) (\<lambda>_ _. True) (txLibraries tx)"
    "items_part E tx" "rtab E (dec_Item E) item_key_ok (txItems tx)"
    "rtab E (dec_UserData E) userdata_key_ok (txUserData tx)"
    "rtab E (dec_Recording E) (\<lambda>k x. rID x = k) (txRecordings tx)"
    "rtab E (dec_Series E) (\<lambda>k x. tID x = k) (txSeriesTimers tx)"
  using assms by (simp_all add: tx_inv_def items_part_def)

lemma token_index_unique:
  "token_index E m b \<Longrightarrow> m k = Some x \<Longrightarrow> m k' = Some x' \<Longrightarrow> sTokenHash x = sTokenHash x' \<Longrightarrow> k = k'"
  unfolding token_index_def by (metis option.inject)

lemma token_index_delete:
  assumes ix: "token_index E m b" and x: "m k = Some x" and b': "bwf E b'"
    and upd: "bmap E b' = (bmap E b)(sTokenHash x := None)"
  shows "token_index E (m(k := None)) b'"
  unfolding token_index_def
proof (intro conjI allI b')
  fix h j
  show "map_option (dec_str E) (bmap E b' h) = Some j \<longleftrightarrow>
    (\<exists>y. (m(k := None)) j = Some y \<and> sTokenHash y = h)"
  proof (cases "h = sTokenHash x")
    case True
    then show ?thesis using token_index_unique [OF ix x] upd by (auto split: if_splits)
  next
    case False
    then have "map_option (dec_str E) (bmap E b' h) = map_option (dec_str E) (bmap E b h)"
      by (simp add: upd)
    with ix False x show ?thesis unfolding token_index_def by auto
  qed
qed

context bolt_engine begin

lemma put_User_ok: "tx_inv E tx \<Longrightarrow>
   tx_ok E (Inr ((tx_abs E tx)\<lparr>aUsers := (aUsers (tx_abs E tx))(uID u \<mapsto> u)\<rparr>))
     (and_then (put_record E (enc_User E) (uID u) u (txUsers tx)) (\<lambda>b. Inr (tx\<lparr>txUsers := b\<rparr>)))"
  by (rule tx_ok_and_then [OF put_record_ok [OF tx_inv_parts(1) codecs(1)]])
    (auto simp: tx_inv_def intro!: tx_ok_Inr)

lemma put_Library_ok: "tx_inv E tx \<Longrightarrow>
   tx_ok E (Inr ((tx_abs E tx)\<lparr>aLibraries := (aLibraries (tx_abs E tx))(k \<mapsto> l)\<rparr>))
     (and_then (put_record E (enc_Library E) k l (txLibraries tx)) (\<lambda>b. Inr (tx\<lparr>txLibraries := b\<rparr>)))"
  by (rule tx_ok_and_then [OF put_record_ok [OF tx_inv_parts(4) codecs(3)]])
    (auto simp: tx_inv_def intro!: tx_ok_Inr)

lemma put_UserData_ok: "tx_inv E tx \<Longrightarrow> userdata_key_ok k d \<Longrightarrow>
   tx_ok E (Inr ((tx_abs E tx)\<lparr>aUserData := (aUserData (tx_abs E tx))(k \<mapsto> d)\<rparr>))
     (and_then (put_record E (enc_UserData E) k d (txUserData tx)) (\<lambda>b. Inr (tx\<lparr>txUserData := b\<rparr>)))"
  by (rule tx_ok_and_then [OF put_record_ok [OF tx_inv_parts(7) codecs(5)]])
    (auto simp: tx_inv_def intro!: tx_ok_Inr)

lemma put_Recording_ok: "tx_inv E tx \<Longrightarrow>
   tx_ok E (Inr ((tx_abs E tx)\<lparr>aRecordings := (aRecordings (tx_abs E tx))(rID x \<mapsto> x)\<rparr>))
     (and_then (put_record E (enc_Recording E) (rID x) x (txRecordings tx)) (\<lambda>b. Inr (tx\<lparr>txRecordings := b\<rparr>)))"
  by (rule tx_ok_and_then [OF put_record_ok [OF tx_inv_parts(8) codecs(6)]])
    (auto simp: tx_inv_def intro!: tx_ok_Inr)

lemma put_Series_ok: "tx_inv E tx \<Longrightarrow>
   tx_ok E (Inr ((tx_abs E tx)\<lparr>aSeriesTimers := (aSeriesTimers (tx_abs E tx))(tID x \<mapsto> x)\<rparr>))
     (and_then (put_record E (enc_Series E) (tID x) x (txSeriesTimers tx)) (\<lambda>b. Inr (tx\<lparr>txSeriesTimers := b\<rparr>)))"
  by (rule tx_ok_and_then [OF put_record_ok [OF tx_inv_parts(9) codecs(7)]])
    (auto simp: tx_inv_def intro!: tx_ok_Inr)

lemma del_Recording_ok: "tx_inv E tx \<Longrightarrow>
   tx_ok E (Inr ((tx_abs E tx)\<lparr>aRecordings := (aRecordings (tx_abs E tx))(k := None)\<rparr>))
     (and_then (Delete E k (txRecordings tx)) (\<lambda>b. Inr (tx\<lparr>txRecordings := b\<rparr>)))"
  by (rule tx_ok_and_then [OF delete_record_ok [OF tx_inv_parts(8)]])
    (auto simp: tx_inv_def intro!: tx_ok_Inr)

lemma del_Series_ok: "tx_inv E tx \<Longrightarrow>
   tx_ok E (Inr ((tx_abs E tx)\<lparr>aSeriesTimers := (aSeriesTimers (tx_abs E tx))(k := None)\<rparr>))
     (and_then (Delete E k (txSeriesTimers tx)) (\<lambda>b. Inr (tx\<lparr>txSeriesTimers := b\<rparr>)))"
  by (rule tx_ok_and_then [OF delete_record_ok [OF tx_inv_parts(9)]])
    (auto simp: tx_inv_def intro!: tx_ok_Inr)

lemma step_intro:
  "bolt_inv E s \<Longrightarrow> (tx_inv E (boltDB s) \<Longrightarrow> tx_ok E (sp (tx_abs E (boltDB s))) (f (boltDB s))) \<Longrightarrow>
   step_ok (bolt_abs E) (bolt_inv E) (sp (bolt_abs E s)) (bolt_abs E s) (db_update E f s)"
  by (rule db_update_ok) (simp_all add: bolt_inv_def bolt_abs_def)

lemma CreateUser_step: "bolt_inv E s \<Longrightarrow>
   step_ok (bolt_abs E) (bolt_inv E) (spec_CreateUser u (bolt_abs E s)) (bolt_abs E s) (bolt_CreateUser E u s)"
  unfolding bolt_CreateUser_def
proof (erule step_intro)
  let ?tx = "boltDB s"
  assume inv: "tx_inv E ?tx"
  obtain vs where vs: "decode_all (dec_User E) (bb_cursor E (txUsers ?tx)) = Inr vs"
    "set vs = ran (rmap E (dec_User E) (txUsers ?tx))"
    using decode_all_ok [OF tx_inv_parts(1) [OF inv]] enumerates_set by blast
  show "tx_ok E (spec_CreateUser u (tx_abs E ?tx)) (and_then
     (decode_all (dec_User E) (bb_cursor E (txUsers ?tx))) (\<lambda>existing.
     if \<exists>x \<in> set existing. EqualFold (uName x) (uName u) then Inl ErrConflict
     else and_then (put_record E (enc_User E) (uID u) u (txUsers ?tx)) (\<lambda>b. Inr (?tx\<lparr>txUsers := b\<rparr>))))"
    using put_User_ok [OF inv, of u] by (simp add: vs spec_CreateUser_def tx_ok_Inl)
qed

lemma CreateLibrary_step: "bolt_inv E s \<Longrightarrow>
   step_ok (bolt_abs E) (bolt_inv E) (spec_CreateLibrary l (bolt_abs E s)) (bolt_abs E s) (bolt_CreateLibrary E l s)"
  unfolding bolt_CreateLibrary_def
proof (erule step_intro)
  let ?tx = "boltDB s"
  assume inv: "tx_inv E ?tx"
  obtain vs where vs: "decode_all (dec_Library E) (bb_cursor E (txLibraries ?tx)) = Inr vs"
    "set vs = ran (rmap E (dec_Library E) (txLibraries ?tx))"
    using decode_all_ok [OF tx_inv_parts(4) [OF inv]] enumerates_set by blast
  show "tx_ok E (spec_CreateLibrary l (tx_abs E ?tx)) (and_then
     (decode_all (dec_Library E) (bb_cursor E (txLibraries ?tx))) (\<lambda>existing.
     if \<exists>x \<in> set existing. lPath x = lPath l then Inl ErrConflict
     else and_then (put_record E (enc_Library E) (lID l) l (txLibraries ?tx)) (\<lambda>b. Inr (?tx\<lparr>txLibraries := b\<rparr>))))"
    using put_Library_ok [OF inv, of "lID l" l] by (simp add: vs spec_CreateLibrary_def tx_ok_Inl)
qed

lemma UpdateUser_step: "bolt_inv E s \<Longrightarrow>
   step_ok (bolt_abs E) (bolt_inv E) (spec_UpdateUser u (bolt_abs E s)) (bolt_abs E s) (bolt_UpdateUser E u s)"
  unfolding bolt_UpdateUser_def
  by (erule step_intro) (use put_User_ok in \<open>simp add: get_None [OF tx_inv_parts(1)] spec_UpdateUser_def tx_ok_Inl\<close>)

lemma UpsertUserItemData_step: "bolt_inv E s \<Longrightarrow> userdata_key_ok (userDataKey (dUserID d) (dItemID d)) d \<Longrightarrow>
   step_ok (bolt_abs E) (bolt_inv E) (spec_UpsertUserItemData d (bolt_abs E s)) (bolt_abs E s) (bolt_UpsertUserItemData E d s)"
  unfolding bolt_UpsertUserItemData_def
  by (erule step_intro) (use put_UserData_ok [of _ "userDataKey (dUserID d) (dItemID d)" d] in \<open>simp add: spec_UpsertUserItemData_def userDataKey_idxKey\<close>)

lemma CreateRecording_step: "bolt_inv E s \<Longrightarrow> 
   step_ok (bolt_abs E) (bolt_inv E) (spec_CreateRecording x (bolt_abs E s)) (bolt_abs E s) (bolt_CreateRecording E x s)"
  unfolding bolt_CreateRecording_def
  by (erule step_intro) (use put_Recording_ok in \<open>simp add: spec_CreateRecording_def \<close>)

lemma UpdateRecording_step: "bolt_inv E s \<Longrightarrow> 
   step_ok (bolt_abs E) (bolt_inv E) (spec_UpdateRecording x (bolt_abs E s)) (bolt_abs E s) (bolt_UpdateRecording E x s)"
  unfolding bolt_UpdateRecording_def
  by (erule step_intro) (use put_Recording_ok in \<open>simp add: spec_UpdateRecording_def get_None [OF tx_inv_parts(8)] tx_ok_Inl\<close>)

lemma DeleteRecording_step: "bolt_inv E s \<Longrightarrow> 
   step_ok (bolt_abs E) (bolt_inv E) (spec_DeleteRecording k (bolt_abs E s)) (bolt_abs E s) (bolt_DeleteRecording E k s)"
  unfolding bolt_DeleteRecording_def
  by (erule step_intro) (use del_Recording_ok in \<open>simp add: spec_DeleteRecording_def get_None [OF tx_inv_parts(8)] tx_ok_Inl\<close>)

lemma CreateSeriesTimer_step: "bolt_inv E s \<Longrightarrow> 
   step_ok (bolt_abs E) (bolt_inv E) (spec_CreateSeriesTimer x (bolt_abs E s)) (bolt_abs E s) (bolt_CreateSeriesTimer E x s)"
  unfolding bolt_CreateSeriesTimer_def
  by (erule step_intro) (use put_Series_ok in \<open>simp add: spec_CreateSeriesTimer_def \<close>)

lemma DeleteSeriesTimer_step: "bolt_inv E s \<Longrightarrow> 
   step_ok (bolt_abs E) (bolt_inv E) (spec_DeleteSeriesTimer k (bolt_abs E s)) (bolt_abs E s) (bolt_DeleteSeriesTimer E k s)"
  unfolding bolt_DeleteSeriesTimer_def
  by (erule step_intro) (use del_Series_ok in \<open>simp add: spec_DeleteSeriesTimer_def get_None [OF tx_inv_parts(9)] tx_ok_Inl\<close>)

lemma CreateSession_step: "bolt_inv E s \<Longrightarrow> session_fresh x (bolt_abs E s) \<Longrightarrow>
   step_ok (bolt_abs E) (bolt_inv E) (spec_CreateSession x (bolt_abs E s)) (bolt_abs E s) (bolt_CreateSession E x s)"
  unfolding bolt_CreateSession_def
proof (erule step_intro)
  let ?tx = "boltDB s"
  assume fresh: "session_fresh x (bolt_abs E s)" and inv: "tx_inv E ?tx"
  note parts = tx_inv_parts [OF inv]
  have bwf: "bwf E (txSessionToken ?tx)" using parts(3) by (simp add: token_index_def)
  have new: "rmap E (dec_Session E) (txSessions ?tx) (sID x) = None"
    "\<And>k y. rmap E (dec_Session E) (txSessions ?tx) k = Some y \<Longrightarrow> sTokenHash y \<noteq> sTokenHash x"
    using fresh by (auto simp: session_fresh_def bolt_abs_def ran_def)
  show "tx_ok E (spec_CreateSession x (tx_abs E ?tx))
     (and_then (put_record E (enc_Session E) (sID x) x (txSessions ?tx)) (\<lambda>b.
      and_then (Put E (sTokenHash x) (enc_str E (sID x)) (txSessionToken ?tx)) (\<lambda>i.
      Inr (?tx\<lparr>txSessions := b, txSessionToken := i\<rparr>))))"
  proof (rule tx_ok_and_then [OF put_record_ok [OF parts(2) codecs(2)]], goal_cases)
    case (3 b)
    show ?case
    proof (rule tx_ok_and_then [OF Put_ok [OF bwf]], goal_cases)
      case (2 i)
      have "token_index E (rmap E (dec_Session E) b) i"
        using parts(3) 2 3 new by (auto simp: token_index_def)
      with inv 3 show ?case
        by (auto simp: tx_inv_def spec_CreateSession_def intro!: tx_ok_Inr)
    qed (simp add: spec_CreateSession_def)
  qed (simp_all add: spec_CreateSession_def)
qed

lemma DeleteSession_step: "bolt_inv E s \<Longrightarrow>
   step_ok (bolt_abs E) (bolt_inv E) (spec_DeleteSession k (bolt_abs E s)) (bolt_abs E s) (bolt_DeleteSession E k s)"
  unfolding bolt_DeleteSession_def
proof (erule step_intro)
  let ?tx = "boltDB s"
  assume inv: "tx_inv E ?tx"
  note parts = tx_inv_parts [OF inv]
  have bwf: "bwf E (txSessionToken ?tx)" using parts(3) by (simp add: token_index_def)
  show "tx_ok E (spec_DeleteSession k (tx_abs E ?tx))
     (and_then (get_record E (dec_Session E) (txSessions ?tx) k) (\<lambda>x.
      and_then (Delete E k (txSessions ?tx)) (\<lambda>b.
      and_then (Delete E (sTokenHash x) (txSessionToken ?tx)) (\<lambda>i.
      Inr (?tx\<lparr>txSessions := b, txSessionToken := i\<rparr>)))))"
  proof (cases "rmap E (dec_Session E) (txSessions ?tx) k")
    case None
    then show ?thesis
      by (simp add: get_record_ok [OF parts(2)] lookup_or_def spec_DeleteSession_def tx_ok_Inl)
  next
    case (Some x)
    note x = Some
    show ?thesis
      unfolding get_record_ok [OF parts(2)] Some lookup_or_def option.case and_then_simps
    proof (rule tx_ok_and_then [OF delete_record_ok [OF parts(2)]], goal_cases)
      case (2 b)
      show ?case
      proof (rule tx_ok_and_then [OF Delete_ok [OF bwf]], goal_cases)
        case (2 i)
        have "token_index E (rmap E (dec_Session E) b) i"
          using token_index_delete [OF parts(3) x] 2 \<open>rtab E (dec_Session E) _ b \<and> _\<close> by simp
        with inv \<open>rtab E (dec_Session E) _ b \<and> _\<close> x show ?case
          by (auto simp: tx_inv_def spec_DeleteSession_def intro!: tx_ok_Inr)
      qed (simp add: spec_DeleteSession_def x)
    qed (simp add: spec_DeleteSession_def x)
  qed
qed

lemma TouchSession_step: "bolt_inv E s \<Longrightarrow>
   step_ok (bolt_abs E) (bolt_inv E) (spec_TouchSession now k (bolt_abs E s)) (bolt_abs E s) (bolt_TouchSession E now k s)"
  unfolding bolt_TouchSession_def
proof (erule step_intro)
  let ?tx = "boltDB s"
  assume inv: "tx_inv E ?tx"
  note parts = tx_inv_parts [OF inv]
  show "tx_ok E (spec_TouchSession now k (tx_abs E ?tx))
     (and_then (get_record E (dec_Session E) (txSessions ?tx) k) (\<lambda>x.
      and_then (put_record E (enc_Session E) k (x\<lparr>sLastActivity := now\<rparr>) (txSessions ?tx)) (\<lambda>b.
      Inr (?tx\<lparr>txSessions := b\<rparr>))))"
  proof (cases "rmap E (dec_Session E) (txSessions ?tx) k")
    case None
    then show ?thesis
      by (simp add: get_record_ok [OF parts(2)] lookup_or_def spec_TouchSession_def tx_ok_Inl)
  next
    case (Some x)
    note x = Some
    show ?thesis
      unfolding get_record_ok [OF parts(2)] Some lookup_or_def option.case and_then_simps
    proof (rule tx_ok_and_then [OF put_record_ok [OF parts(2) codecs(2)]], goal_cases)
      case 1
      then show ?case using rtab_get [OF parts(2) x] by simp
    next
      case (3 b)
      have "token_index E (rmap E (dec_Session E) b) (txSessionToken ?tx)"
        using parts(3) x 3 unfolding token_index_def by auto
      with inv 3 x show ?case
        by (auto simp: tx_inv_def spec_TouchSession_def intro!: tx_ok_Inr)
    qed (simp add: spec_TouchSession_def x)
  qed
qed

end

end
