(* ===== verification/BoltItems.thy ===== *)
theory BoltItems
  imports BoltRefine
begin

text \<open>
  The item buckets of the bbolt-backed store: the by-library and by-parent index buckets stay
  in step with the primary bucket through the deletion and insertion loops of
  \<open>deleteLibraryItems\<close> and \<open>ReplaceLibraryItems\<close>, and prefix scans of an index list exactly
  the items with that library or parent.
\<close>

section \<open>One index entry at a time\<close>

definition items_wf :: "(string \<rightharpoonup> MediaItem) \<Rightarrow> bool" where
  "items_wf m \<longleftrightarrow> (\<forall>k it. m k = Some it \<longrightarrow> item_key_ok k it)"

lemma items_wfD:
  assumes "items_wf m" "m k = Some it"
  shows "no_nul k" "no_nul (mLibraryID it)" "no_nul (mParentID it)" "mID it = k"
  using assms by (auto simp: items_wf_def item_key_ok_def)

lemma rtab_items_wf: "rtab E (dec_Item E) item_key_ok b \<Longrightarrow> items_wf (rmap E (dec_Item E) b)"
  unfolding items_wf_def using rtab_get [where R = item_key_ok] by auto

lemma item_index_delete:
  assumes ix: "item_index E f m b" and f: "\<And>k it. m k = Some it \<Longrightarrow> no_nul (f it)"
    and it: "m k = Some it" and b': "bwf E b'" "bmap E b' = (bmap E b)(idxKey (f it) k := None)"
  shows "item_index E f (m(k := None)) b'"
proof -
  have "{idxKey (f it) k |k it. m k = Some it} - {idxKey (f it) k}
      = {idxKey (f it') k' |k' it'. (m(k := None)) k' = Some it'}" (is "?L = ?R")
  proof (intro equalityI subsetI)
    fix x assume "x \<in> ?R"
    then obtain k' it' where k': "x = idxKey (f it') k'" "m k' = Some it'" "k' \<noteq> k"
      by (auto split: if_splits)
    with idxKey_inject [OF f [OF k'(2)] f [OF it], of k' k] show "x \<in> ?L" by auto
  next
    fix x assume "x \<in> ?L"
    then obtain k' it' where k': "x = idxKey (f it') k'" "m k' = Some it'" "x \<noteq> idxKey (f it) k"
      by auto
    then have "k' \<noteq> k" using it by auto
    with k' show "x \<in> ?R" by auto
  qed
  with ix b' show ?thesis by (simp add: item_index_def)
qed

lemma item_index_insert:
  assumes ix: "item_index E f m b" and new: "m k = None"
    and b': "bwf E b'" "bmap E b' = (bmap E b)(idxKey (f it) k \<mapsto> d)"
  shows "item_index E f (m(k \<mapsto> it)) b'"
proof -
  have "insert (idxKey (f it) k) {idxKey (f it) k |k it. m k = Some it}
      = {idxKey (f it') k' |k' it'. (m(k \<mapsto> it)) k' = Some it'}"
  proof (intro equalityI subsetI)
    fix x assume "x \<in> insert (idxKey (f it) k) {idxKey (f it) k |k it. m k = Some it}"
    then consider "x = idxKey (f it) k" | k' it' where "x = idxKey (f it') k'" "m k' = Some it'"
      by auto
    then show "x \<in> {idxKey (f it') k' |k' it'. (m(k \<mapsto> it)) k' = Some it'}"
    proof cases
      case 2
      with new have "k' \<noteq> k" by auto
      with 2 show ?thesis by auto
    qed auto
  qed (auto split: if_splits)
  with ix b' show ?thesis by (simp add: item_index_def)
qed

section \<open>Prefix scans\<close>

definition index_ids :: "('bk, 'b) engine \<Rightarrow> 'bk \<Rightarrow> string \<Rightarrow> string list" where
  "index_ids E b d = map (\<lambda>(k, _). drop (length (idxPrefix d)) k) (forEachPrefix E b (idxPrefix d))"

lemma index_ids_ok:
  assumes ix: "item_index E f m b"
    and f: "\<And>k it. m k = Some it \<Longrightarrow> no_nul (f it) \<and> no_nul k"
  shows "distinct (index_ids E b d) \<and> set (index_ids E b d) = dom (map_where (\<lambda>it. f it = d) m)"
proof -
  have wf: "bwf E b" and dom: "dom (bmap E b) = {idxKey (f it) k |k it. m k = Some it}"
    using ix by (auto simp: item_index_def)
  let ?ks = "filter (\<lambda>k. HasPrefix k (idxPrefix d)) (map fst (bb_cursor E b))"
  have ids: "index_ids E b d = map (drop (length (idxPrefix d))) ?ks"
    by (simp add: index_ids_def forEachPrefix_filter [OF wf] filter_map case_prod_unfold comp_def)
  have cursor: "set (map fst (bb_cursor E b)) = dom (bmap E b)"
    by (simp add: bmap_def dom_map_of_conv_image_fst)
  have ks: "set ?ks = idxKey d ` dom (map_where (\<lambda>it. f it = d) m)"
  proof (intro equalityI subsetI)
    fix x assume "x \<in> set ?ks"
    then have "x \<in> dom (bmap E b)" "HasPrefix x (idxPrefix d)"
      using cursor by auto
    then obtain k it where x: "x = idxKey (f it) k" "m k = Some it" using dom by auto
    with \<open>HasPrefix x _\<close> f prefix_idxKey have "d = f it" by metis
    with x show "x \<in> idxKey d ` dom (map_where (\<lambda>it. f it = d) m)"
      by (force simp: map_where_def)
  next
    fix x assume "x \<in> idxKey d ` dom (map_where (\<lambda>it. f it = d) m)"
    then obtain k it where x: "x = idxKey d k" "m k = Some it" "f it = d"
      by (auto simp: map_where_def split: option.splits if_splits)
    then have "x \<in> dom (bmap E b)" using dom by blast
    moreover have "HasPrefix x (idxPrefix d)" using x f prefix_idxKey by metis
    ultimately show "x \<in> set ?ks" using cursor by auto
  qed
  have inj: "inj_on (drop (length (idxPrefix d))) (set ?ks)"
    unfolding ks by (rule inj_onI) auto
  have "distinct ?ks" using bwf_distinct [OF wf] by simp
  with inj have "distinct (index_ids E b d)" unfolding ids by (simp add: distinct_map)
  moreover have "set (index_ids E b d) = dom (map_where (\<lambda>it. f it = d) m)"
    unfolding ids set_map ks by (simp add: image_image)
  ultimately show ?thesis by blast
qed

section \<open>The loops\<close>

text \<open>A transaction that touches nothing but the item buckets.\<close>

definition items_only :: "'bk boltTx \<Rightarrow> 'bk boltTx \<Rightarrow> bool" where
  "items_only tx tx' \<longleftrightarrow> tx' = tx\<lparr>txItems := txItems tx', txItemLibrary := txItemLibrary tx',
     txItemParent := txItemParent tx'\<rparr>"

lemma items_only_refl [simp]: "items_only tx tx"
  by (simp add: items_only_def)

lemma items_only_step:
  "items_only (tx\<lparr>txItems := a, txItemLibrary := b, txItemParent := c\<rparr>) tx' \<Longrightarrow> items_only tx tx'"
  by (cases tx, cases tx') (simp add: items_only_def)

lemma items_only_trans: "items_only tx tx' \<Longrightarrow> items_only tx' tx'' \<Longrightarrow> items_only tx tx''"
  by (cases tx, cases tx', cases tx'') (simp add: items_only_def)

lemma items_only_sel:
  assumes "items_only tx tx'"
  shows "txLibraries tx' = txLibraries tx" "txUsers tx' = txUsers tx"
    "txSessions tx' = txSessions tx" "txSessionToken tx' = txSessionToken tx"
    "txUserData tx' = txUserData tx" "txRecordings tx' = txRecordings tx"
    "txSeriesTimers tx' = txSeriesTimers tx"
  using assms by (cases tx, cases tx', simp add: items_only_def)+

lemma items_only_inv: "tx_inv E tx \<Longrightarrow> items_only tx tx' \<Longrightarrow> items_part E tx' \<Longrightarrow> tx_inv E tx'"
  by (simp add: tx_inv_def items_only_sel)

lemma items_only_abs:
  "items_only tx tx' \<Longrightarrow>
   tx_abs E tx' = (tx_abs E tx)\<lparr>aItems := rmap E (dec_Item E) (txItems tx')\<rparr>"
  by (simp add: tx_abs_def items_only_sel)

abbreviation items_of :: "('bk, 'b) engine \<Rightarrow> 'bk boltTx \<Rightarrow> string \<rightharpoonup> MediaItem" where
  "items_of E tx \<equiv> rmap E (dec_Item E) (txItems tx)"

lemma items_partD:
  assumes "items_part E tx"
  shows "rtab E (dec_Item E) item_key_ok (txItems tx)" "items_wf (items_of E tx)"
    "item_index E mLibraryID (items_of E tx) (txItemLibrary tx)"
    "item_index E mParentID (items_of E tx) (txItemParent tx)"
    "bwf E (txItemLibrary tx)" "bwf E (txItemParent tx)"
  using assms rtab_items_wf by (auto simp: items_part_def item_index_def)

context bolt_engine begin

lemma delete_items_ok:
  assumes "items_part E tx" "distinct ks"
    "\<forall>k \<in> set ks. \<exists>it. items_of E tx k = Some it \<and> mLibraryID it = lib"
  shows "yields (\<lambda>tx'. items_part E tx' \<and> items_only tx tx' \<and>
      items_of E tx' = items_of E tx |` (- set ks)) (delete_items E lib ks tx)"
  using assms
proof (induction ks arbitrary: tx)
  case Nil
  then show ?case by simp
next
  case (Cons k ks)
  note part = items_partD [OF Cons.prems(1)]
  from Cons.prems(3) obtain it where it: "items_of E tx k = Some it" "mLibraryID it = lib" by auto
  then obtain d where d: "bmap E (txItems tx) k = Some d" "dec_Item E d = Some it"
    by (auto simp: rmap_def bind_eq_Some_conv)
  obtain bp where bp: "bb_delete E (idxKey (mParentID it) k) (txItemParent tx) = Some bp" "bwf E bp"
    "bmap E bp = (bmap E (txItemParent tx))(idxKey (mParentID it) k := None)"
    using bb_delete_ok [OF part(6)] by blast
  have loop: "delete_items E lib (k # ks) tx =
    and_then (Delete E k (txItems tx)) (\<lambda>items.
    and_then (Delete E (idxKey lib k) (txItemLibrary tx)) (\<lambda>byLib.
      delete_items E lib ks (tx\<lparr>txItems := items, txItemLibrary := byLib, txItemParent := bp\<rparr>)))"
    using d bp(1) by (simp add: get_eq [OF rtabD [OF part(1)]])
  show ?case unfolding loop
  proof (rule yields_and_then [OF delete_record_ok [OF part(1)]])
    fix items
    assume items: "rtab E (dec_Item E) item_key_ok items \<and>
      rmap E (dec_Item E) items = (items_of E tx)(k := None)"
    show "yields (\<lambda>tx'. items_part E tx' \<and> items_only tx tx' \<and>
        items_of E tx' = items_of E tx |` (- set (k # ks)))
      (and_then (Delete E (idxKey lib k) (txItemLibrary tx)) (\<lambda>byLib.
        delete_items E lib ks (tx\<lparr>txItems := items, txItemLibrary := byLib, txItemParent := bp\<rparr>)))"
    proof (rule yields_and_then [OF Delete_ok [OF part(5)]])
      fix bl
      assume bl: "bwf E bl \<and> bmap E bl = (bmap E (txItemLibrary tx))(idxKey lib k := None)"
      let ?tx = "tx\<lparr>txItems := items, txItemLibrary := bl, txItemParent := bp\<rparr>"
      have "items_part E ?tx"
        using items bl bp it item_index_delete [OF part(3) _ it(1), of bl]
          item_index_delete [OF part(4) _ it(1), of bp] items_wfD [OF part(2)]
        by (simp add: items_part_def)
      moreover have "\<forall>k' \<in> set ks. \<exists>it. items_of E ?tx k' = Some it \<and> mLibraryID it = lib"
        using Cons.prems items by auto
      ultimately have "yields (\<lambda>tx'. items_part E tx' \<and> items_only ?tx tx' \<and>
          items_of E tx' = items_of E ?tx |` (- set ks)) (delete_items E lib ks ?tx)"
        using Cons.prems(2) by (intro Cons.IH) simp_all
      with items Cons.prems(2) show "yields (\<lambda>tx'. items_part E tx' \<and> items_only tx tx' \<and>
          items_of E tx' = items_of E tx |` (- set (k # ks))) (delete_items E lib ks ?tx)"
        by (auto simp: yields_def Compl_insert split: sum.splits intro: items_only_step)
    qed
  qed
qed

lemma deleteLibraryItems_ok:
  assumes "items_part E tx"
  shows "yields (\<lambda>tx'. items_part E tx' \<and> items_only tx tx' \<and>
      items_of E tx' = drop_library_items lib (items_of E tx)) (deleteLibraryItems E lib tx)"
proof -
  note part = items_partD [OF assms]
  let ?ids = "index_ids E (txItemLibrary tx) lib"
  have ids: "distinct ?ids" "set ?ids = dom (map_where (\<lambda>it. mLibraryID it = lib) (items_of E tx))"
    using index_ids_ok [OF part(3)] items_wfD [OF part(2)] by blast+
  have "items_of E tx |` (- set ?ids) = drop_library_items lib (items_of E tx)"
    unfolding ids(2)
    by (auto simp: restrict_map_def drop_library_items_def map_where_def fun_eq_iff dom_def split: option.splits)
  moreover have "\<forall>k \<in> set ?ids. \<exists>it. items_of E tx k = Some it \<and> mLibraryID it = lib"
    unfolding ids(2) by (auto simp: map_where_def split: option.splits if_splits)
  ultimately show ?thesis
    using delete_items_ok [OF assms ids(1)] by (simp add: deleteLibraryItems_def index_ids_def Let_def)
qed

lemma insert_items_ok:
  assumes "items_part E tx" "distinct (map mID its)" "no_nul lib"
    "\<forall>it \<in> set its. items_of E tx (mID it) = None \<and> no_nul (mID it) \<and> no_nul (mParentID it)"
  shows "yields (\<lambda>tx'. items_part E tx' \<and> items_only tx tx' \<and>
      items_of E tx' = add_items lib its (items_of E tx)) (insert_items E lib its tx)"
  using assms
proof (induction its arbitrary: tx)
  case Nil
  then show ?case by (simp add: add_items_def)
next
  case (Cons it its)
  note part = items_partD [OF Cons.prems(1)]
  let ?cl = "it\<lparr>mLibraryID := lib\<rparr>"
  let ?Q = "\<lambda>tx'. items_part E tx' \<and> items_only tx tx' \<and>
      items_of E tx' = add_items lib (it # its) (items_of E tx)"
  have key: "item_key_ok (mID ?cl) ?cl" using Cons.prems by (simp add: item_key_ok_def)
  have new: "items_of E tx (mID ?cl) = None" using Cons.prems by simp
  show ?case unfolding insert_items.simps Let_def
  proof (rule yields_and_then [OF put_record_ok [where R = item_key_ok, OF part(1) codecs(4) key]])
    fix items
    assume items: "rtab E (dec_Item E) item_key_ok items \<and>
      rmap E (dec_Item E) items = (items_of E tx)(mID ?cl \<mapsto> ?cl)"
    show "yields ?Q (and_then (Put E (idxKey lib (mID ?cl)) (enc_str E []) (txItemLibrary tx)) (\<lambda>byLib.
      and_then (Put E (idxKey (mParentID ?cl) (mID ?cl)) (enc_str E []) (txItemParent tx)) (\<lambda>byParent.
      insert_items E lib its (tx\<lparr>txItems := items, txItemLibrary := byLib, txItemParent := byParent\<rparr>))))"
    proof (rule yields_and_then [OF Put_ok [OF part(5)]], rule yields_and_then [OF Put_ok [OF part(6)]])
      fix bl bp
      assume b: "bwf E bl \<and> bmap E bl = (bmap E (txItemLibrary tx))(idxKey lib (mID ?cl) \<mapsto> enc_str E [])"
        "bwf E bp \<and> bmap E bp = (bmap E (txItemParent tx))(idxKey (mParentID ?cl) (mID ?cl) \<mapsto> enc_str E [])"
      let ?tx = "tx\<lparr>txItems := items, txItemLibrary := bl, txItemParent := bp\<rparr>"
      have "items_part E ?tx"
        using items b item_index_insert [OF part(3) new, of bl ?cl "enc_str E []"]
          item_index_insert [OF part(4) new, of bp ?cl "enc_str E []"]
        by (simp add: items_part_def)
      moreover have "\<forall>it' \<in> set its. items_of E ?tx (mID it') = None \<and> no_nul (mID it') \<and> no_nul (mParentID it')"
      proof (intro ballI)
        fix it' assume it': "it' \<in> set its"
        then have "mID it' \<in> mID ` set its" by (rule imageI)
        then have "mID it' \<noteq> mID it" using Cons.prems(2) by auto
        with it' Cons.prems(4) items show "items_of E ?tx (mID it') = None \<and> no_nul (mID it') \<and> no_nul (mParentID it')"
          by simp
      qed
      ultimately have "yields (\<lambda>tx'. items_part E tx' \<and> items_only ?tx tx' \<and>
          items_of E tx' = add_items lib its (items_of E ?tx)) (insert_items E lib its ?tx)"
        using Cons.prems(2,3) by (intro Cons.IH) simp_all
      with items show "yields ?Q (insert_items E lib its ?tx)"
        by (auto simp: yields_def add_items_def split: sum.splits intro: items_only_step)
    qed
  qed
qed

end

end
