(* ===== verification/BoltContract.thy ===== *)
theory BoltContract
  imports BoltItems
begin

text \<open>
  The library operations and the reads of the bbolt-backed store, and the store contract as
  sublocales of \<open>bolt_engine\<close>. The concrete engine \<open>ref_engine\<close> (a bucket is an association
  list sorted by key, a value a tagged record) shows that the assumption can be met.
\<close>

lemma lookup_or_simps [simp]: "lookup_or None = Inl ErrNotFound" "lookup_or (Some v) = Inr v"
  by (simp_all add: lookup_or_def)

context bolt_engine begin

section \<open>Libraries\<close>

lemma del_Library_ok: "tx_inv E tx \<Longrightarrow>
   yields (\<lambda>b. tx_inv E (tx\<lparr>txLibraries := b\<rparr>) \<and>
       rmap E (dec_Library E) b = (aLibraries (tx_abs E tx))(k := None)) (Delete E k (txLibraries tx))"
  using delete_record_ok [OF tx_inv_parts(4), of tx k]
  by (auto simp: yields_def tx_inv_def split: sum.splits)

lemma DeleteLibrary_step: "bolt_inv E s \<Longrightarrow>
   step_ok (bolt_abs E) (bolt_inv E) (spec_DeleteLibrary k (bolt_abs E s)) (bolt_abs E s) (bolt_DeleteLibrary E k s)"
  unfolding bolt_DeleteLibrary_def
proof (erule step_intro)
  let ?tx = "boltDB s"
  assume inv: "tx_inv E ?tx"
  show "tx_ok E (spec_DeleteLibrary k (tx_abs E ?tx))
     (if bb_get E (txLibraries ?tx) k = None then Inl ErrNotFound
      else and_then (Delete E k (txLibraries ?tx)) (\<lambda>b.
        deleteLibraryItems E k (?tx\<lparr>txLibraries := b\<rparr>)))"
  proof (cases "rmap E (dec_Library E) (txLibraries ?tx) k")
    case None
    then show ?thesis
      by (simp add: get_None [OF tx_inv_parts(4) [OF inv]] spec_DeleteLibrary_def tx_ok_Inl)
  next
    case (Some l)
    then have sp: "spec_DeleteLibrary k (tx_abs E ?tx) = Inr ((tx_abs E ?tx)
        \<lparr>aLibraries := (aLibraries (tx_abs E ?tx))(k := None),
         aItems := drop_library_items k (items_of E ?tx)\<rparr>)"
      by (simp add: spec_DeleteLibrary_def)
    have found: "bb_get E (txLibraries ?tx) k \<noteq> None"
      using Some by (simp add: get_None [OF tx_inv_parts(4) [OF inv]])
    show ?thesis unfolding if_not_P [OF found]
    proof (rule tx_ok_and_then [OF del_Library_ok [OF inv]])
      fix b
      assume b: "tx_inv E (?tx\<lparr>txLibraries := b\<rparr>) \<and>
        rmap E (dec_Library E) b = (aLibraries (tx_abs E ?tx))(k := None)"
      have "yields (\<lambda>tx'. items_part E tx' \<and> items_only (?tx\<lparr>txLibraries := b\<rparr>) tx' \<and>
        items_of E tx' = drop_library_items k (items_of E (?tx\<lparr>txLibraries := b\<rparr>)))
        (deleteLibraryItems E k (?tx\<lparr>txLibraries := b\<rparr>))"
        using b tx_inv_parts(5) by (intro deleteLibraryItems_ok) blast
      then show "tx_ok E (spec_DeleteLibrary k (tx_abs E ?tx)) (deleteLibraryItems E k (?tx\<lparr>txLibraries := b\<rparr>))"
        using b by (cases "deleteLibraryItems E k (?tx\<lparr>txLibraries := b\<rparr>)")
          (auto simp: sp tx_ok_def items_only_abs [of "?tx\<lparr>txLibraries := b\<rparr>"] intro: items_only_inv)
    qed (simp add: sp)
  qed
qed

lemma add_fresh:
  assumes "items_ok lib its a" "it \<in> set its"
  shows "drop_library_items lib (aItems a) (mID it) = None \<and> no_nul (mID it) \<and> no_nul (mParentID it)"
  using assms by (auto simp: items_ok_def drop_library_items_def map_where_def split: option.splits)

lemma ReplaceLibraryItems_step:
  assumes "bolt_inv E s" and its: "items_ok lib its (bolt_abs E s)"
  shows "step_ok (bolt_abs E) (bolt_inv E) (spec_ReplaceLibraryItems now lib its (bolt_abs E s)) (bolt_abs E s)
     (bolt_ReplaceLibraryItems E now lib its s)"
  using assms(1) unfolding bolt_ReplaceLibraryItems_def
proof (rule step_intro)
  let ?tx = "boltDB s"
  let ?l' = "\<lambda>l. l\<lparr>lItemCount := int (length its), lScannedAt := now\<rparr>"
  assume inv: "tx_inv E ?tx"
  note its = its [unfolded bolt_abs_def]
  note lib = get_record_ok [OF tx_inv_parts(4) [OF inv]]
  show "tx_ok E (spec_ReplaceLibraryItems now lib its (tx_abs E ?tx))
     (and_then (get_record E (dec_Library E) (txLibraries ?tx) lib) (\<lambda>l.
     and_then (deleteLibraryItems E lib ?tx) (\<lambda>tx1.
     and_then (insert_items E lib its tx1) (\<lambda>tx2.
     and_then (put_record E (enc_Library E) lib
         (l\<lparr>lItemCount := int (length its), lScannedAt := now\<rparr>) (txLibraries tx2)) (\<lambda>b.
     Inr (tx2\<lparr>txLibraries := b\<rparr>))))))"
  proof (cases "rmap E (dec_Library E) (txLibraries ?tx) lib")
    case None
    then show ?thesis by (simp add: lib spec_ReplaceLibraryItems_def tx_ok_Inl)
  next
    case (Some l)
    then have sp: "spec_ReplaceLibraryItems now lib its (tx_abs E ?tx) = Inr ((tx_abs E ?tx)
        \<lparr>aItems := add_items lib its (drop_library_items lib (items_of E ?tx)),
         aLibraries := (aLibraries (tx_abs E ?tx))(lib \<mapsto> ?l' l)\<rparr>)"
      by (simp add: spec_ReplaceLibraryItems_def)
    have "tx_ok E (spec_ReplaceLibraryItems now lib its (tx_abs E ?tx))
     (and_then (deleteLibraryItems E lib ?tx) (\<lambda>tx1.
     and_then (insert_items E lib its tx1) (\<lambda>tx2.
     and_then (put_record E (enc_Library E) lib (?l' l) (txLibraries tx2)) (\<lambda>b.
     Inr (tx2\<lparr>txLibraries := b\<rparr>)))))"
    proof (rule tx_ok_and_then [OF deleteLibraryItems_ok [OF tx_inv_parts(5) [OF inv], of lib]])
      fix tx1
      assume tx1: "items_part E tx1 \<and> items_only ?tx tx1 \<and>
        items_of E tx1 = drop_library_items lib (items_of E ?tx)"
      have fresh: "\<forall>it \<in> set its. items_of E tx1 (mID it) = None \<and> no_nul (mID it) \<and> no_nul (mParentID it)"
        using tx1 add_fresh [OF its] by simp
      have "distinct (map mID its)" "no_nul lib" using its by (auto simp: items_ok_def)
      then have ins: "yields (\<lambda>tx'. items_part E tx' \<and> items_only tx1 tx' \<and>
        items_of E tx' = add_items lib its (items_of E tx1)) (insert_items E lib its tx1)"
        using tx1 fresh by (intro insert_items_ok) auto
      show "tx_ok E (spec_ReplaceLibraryItems now lib its (tx_abs E ?tx))
        (and_then (insert_items E lib its tx1) (\<lambda>tx2.
         and_then (put_record E (enc_Library E) lib (?l' l) (txLibraries tx2)) (\<lambda>b.
         Inr (tx2\<lparr>txLibraries := b\<rparr>))))"
      proof (rule tx_ok_and_then [OF ins])
        fix tx2
        assume tx2: "items_part E tx2 \<and> items_only tx1 tx2 \<and>
          items_of E tx2 = add_items lib its (items_of E tx1)"
        with tx1 have only: "items_only ?tx tx2" using items_only_trans by blast
        with inv tx2 have inv2: "tx_inv E tx2" using items_only_inv by blast
        have "Inr ((tx_abs E tx2)\<lparr>aLibraries := (aLibraries (tx_abs E tx2))(lib \<mapsto> ?l' l)\<rparr>)
            = spec_ReplaceLibraryItems now lib its (tx_abs E ?tx)"
          using only tx1 tx2 by (simp add: sp items_only_abs items_only_sel)
        with put_Library_ok [OF inv2, of lib "?l' l"]
        show "tx_ok E (spec_ReplaceLibraryItems now lib its (tx_abs E ?tx))
          (and_then (put_record E (enc_Library E) lib (?l' l) (txLibraries tx2)) (\<lambda>b.
           Inr (tx2\<lparr>txLibraries := b\<rparr>)))" by simp
      qed (simp add: sp)
    qed (simp add: sp)
    with Some show ?thesis by (simp add: lib)
  qed
qed

section \<open>Reads\<close>

lemma GetSessionByTokenHash_read:
  assumes "bolt_inv E s"
  shows "search_ok (\<lambda>x. sTokenHash x = h) (aSessions (bolt_abs E s)) (bolt_GetSessionByTokenHash E h s)"
proof -
  let ?tx = "boltDB s"
  note parts = tx_inv_parts [OF assms [unfolded bolt_inv_def]]
  let ?m = "rmap E (dec_Session E) (txSessions ?tx)"
  have ix: "map_option (dec_str E) (bb_get E (txSessionToken ?tx) h) = Some k \<longleftrightarrow>
      (\<exists>x. ?m k = Some x \<and> sTokenHash x = h)" for k
    using parts(3) by (auto simp: token_index_def get_eq)
  show ?thesis
  proof (cases "bb_get E (txSessionToken ?tx) h")
    case None
    then have "?m k = Some x \<Longrightarrow> sTokenHash x \<noteq> h" for k x using ix [of k] by simp
    then have "\<forall>x \<in> ran ?m. sTokenHash x \<noteq> h" by (force simp: ran_def)
    with None show ?thesis
      by (simp add: search_ok_def bolt_GetSessionByTokenHash_def bolt_abs_def)
  next
    case (Some i)
    then obtain x where "?m (dec_str E i) = Some x" "sTokenHash x = h"
      using ix [of "dec_str E i"] by auto
    with Some show ?thesis
      by (auto simp: search_ok_def bolt_GetSessionByTokenHash_def bolt_abs_def
          get_record_ok [OF parts(2)] intro: ranI)
  qed
qed

lemma CountUsers_read:
  assumes "bolt_inv E s"
  shows "bolt_CountUsers E s = Inr (card (dom (aUsers (bolt_abs E s))))"
proof -
  note parts = tx_inv_parts [OF assms [unfolded bolt_inv_def]]
  show ?thesis
    using enumerates_length [OF rtab_enumerates [OF parts(1)]]
    by (simp add: bolt_CountUsers_def bolt_abs_def)
qed

lemma collect_items_ids:
  assumes "rtab E (dec_Item E) R items"
    "set (map (\<lambda>(k, _). drop n k) es) \<subseteq> dom (rmap E (dec_Item E) items)"
  shows "\<exists>vs. collect_items E items n es = Inr vs \<and>
     map Some vs = map (rmap E (dec_Item E) items) (map (\<lambda>(k, _). drop n k) es)"
  using assms(2)
proof (induction es)
  case (Cons e es)
  obtain k d where e: "e = (k, d)" by (cases e)
  from Cons.prems obtain it where it: "rmap E (dec_Item E) items (drop n k) = Some it"
    by (auto simp: e)
  then obtain d' where "bb_get E items (drop n k) = Some d'" "dec_Item E d' = Some it"
    by (auto simp: rmap_def bind_eq_Some_conv get_eq [OF rtabD [OF assms(1)]])
  with Cons it show ?case by (auto simp: e decode_def)
qed simp

lemma listItemsByIndex_read:
  assumes part: "items_part E (boltDB s)" and ix: "item_index E f (items_of E (boltDB s)) b"
    and f: "\<And>k it. items_of E (boltDB s) k = Some it \<Longrightarrow> no_nul (f it)"
  shows "\<exists>l. listItemsByIndex E b d s = Inr l \<and>
     enumerates l (map_where (\<lambda>it. f it = d) (items_of E (boltDB s)))"
proof -
  let ?m = "items_of E (boltDB s)"
  let ?ids = "index_ids E b d"
  have ids: "distinct ?ids" "set ?ids = dom (map_where (\<lambda>it. f it = d) ?m)"
    using index_ids_ok [OF ix] f items_wfD(1) [OF items_partD(2) [OF part]] by blast+
  have "dom (map_where (\<lambda>it. f it = d) ?m) \<subseteq> dom ?m"
    by (auto simp: map_where_def split: option.splits)
  with ids(2) obtain vs where vs: "listItemsByIndex E b d s = Inr vs" "map Some vs = map ?m ?ids"
    using collect_items_ids [OF items_partD(1) [OF part], of "length (idxPrefix d)" "forEachPrefix E b (idxPrefix d)"]
    by (auto simp: listItemsByIndex_def index_ids_def)
  moreover have "map ?m ?ids = map (map_where (\<lambda>it. f it = d) ?m) ?ids"
    by (rule map_cong) (auto simp: ids(2) map_where_def split: option.splits if_splits)
  ultimately show ?thesis using ids unfolding enumerates_def by metis
qed

lemma ListItems_read:
  assumes "bolt_inv E s"
  shows "\<exists>l. bolt_ListItemsByLibrary E lib s = Inr l \<and>
      enumerates l (map_where (\<lambda>it. mLibraryID it = lib) (aItems (bolt_abs E s)))"
    and "\<exists>l. bolt_ListItemsByParent E p s = Inr l \<and>
      enumerates l (map_where (\<lambda>it. mParentID it = p) (aItems (bolt_abs E s)))"
proof -
  note part = tx_inv_parts(5) [OF assms [unfolded bolt_inv_def]]
  note wf = items_wfD [OF items_partD(2) [OF part]]
  show "\<exists>l. bolt_ListItemsByLibrary E lib s = Inr l \<and>
      enumerates l (map_where (\<lambda>it. mLibraryID it = lib) (aItems (bolt_abs E s)))"
    using listItemsByIndex_read [OF part items_partD(3) [OF part] wf(2)]
    by (simp add: bolt_ListItemsByLibrary_def bolt_abs_def)
  show "\<exists>l. bolt_ListItemsByParent E p s = Inr l \<and>
      enumerates l (map_where (\<lambda>it. mParentID it = p) (aItems (bolt_abs E s)))"
    using listItemsByIndex_read [OF part items_partD(4) [OF part] wf(3)]
    by (simp add: bolt_ListItemsByParent_def bolt_abs_def)
qed

lemma ListUserItemData_read:
  assumes "bolt_inv E s"
  shows "\<exists>l. bolt_ListUserItemData E u s = Inr l \<and>
      enumerates l (map_where (\<lambda>d. dUserID d = u) (aUserData (bolt_abs E s)))"
proof -
  let ?b = "txUserData (boltDB s)"
  note tab = tx_inv_parts(7) [OF assms [unfolded bolt_inv_def]]
  have key: "HasPrefix k (idxPrefix u) \<longleftrightarrow> dUserID (the (dec_UserData E d)) = u"
    if k: "bmap E ?b k = Some d" for k d
  proof -
    obtain v where v: "dec_UserData E d = Some v" "userdata_key_ok k v"
      using rtab_dec [OF tab k] by blast
    then show ?thesis
      using prefix_idxKey [of "dUserID v" "dItemID v" u]
      by (auto simp: userdata_key_ok_def userDataKey_idxKey)
  qed
  let ?es = "filter (\<lambda>(k, _). HasPrefix k (idxPrefix u)) (bb_cursor E ?b)"
  have "\<forall>(k, d) \<in> set ?es. dec_UserData E d \<noteq> None"
    using rtab_decodes [OF tab] by auto
  from decode_all_map [OF this]
    rtab_filter_enumerates [where Q = "\<lambda>k. HasPrefix k (idxPrefix u)" and P = "\<lambda>d. dUserID d = u", OF tab key]
  show ?thesis
    by (simp add: bolt_ListUserItemData_def bolt_abs_def forEachPrefix_filter [OF rtabD [OF tab]])
qed

end

section \<open>The contract\<close>

lemma bolt_store_sel:
  "CreateUser (bolt_store E) = bolt_CreateUser E" "GetUserByID (bolt_store E) = bolt_GetUserByID E"
  "GetUserByName (bolt_store E) = bolt_GetUserByName E" "ListUsers (bolt_store E) = bolt_ListUsers E"
  "UpdateUser (bolt_store E) = bolt_UpdateUser E" "CountUsers (bolt_store E) = bolt_CountUsers E"
  "CreateSession (bolt_store E) = bolt_CreateSession E"
  "GetSessionByTokenHash (bolt_store E) = bolt_GetSessionByTokenHash E"
  "DeleteSession (bolt_store E) = bolt_DeleteSession E" "TouchSession (bolt_store E) = bolt_TouchSession E"
  "CreateLibrary (bolt_store E) = bolt_CreateLibrary E" "GetLibrary (bolt_store E) = bolt_GetLibrary E"
  "GetLibraryByPath (bolt_store E) = bolt_GetLibraryByPath E"
  "ListLibraries (bolt_store E) = bolt_ListLibraries E" "DeleteLibrary (bolt_store E) = bolt_DeleteLibrary E"
  "GetItem (bolt_store E) = bolt_GetItem E" "ListItemsByLibrary (bolt_store E) = bolt_ListItemsByLibrary E"
  "ListItemsByParent (bolt_store E) = bolt_ListItemsByParent E" "AllItems (bolt_store E) = bolt_AllItems E"
  "ReplaceLibraryItems (bolt_store E) = bolt_ReplaceLibraryItems E"
  "GetUserItemData (bolt_store E) = bolt_GetUserItemData E"
  "UpsertUserItemData (bolt_store E) = bolt_UpsertUserItemData E"
  "ListUserItemData (bolt_store E) = bolt_ListUserItemData E"
  "CreateRecording (bolt_store E) = bolt_CreateRecording E" "GetRecording (bolt_store E) = bolt_GetRecording E"
  "ListRecordings (bolt_store E) = bolt_ListRecordings E" "UpdateRecording (bolt_store E) = bolt_UpdateRecording E"
  "DeleteRecording (bolt_store E) = bolt_DeleteRecording E"
  "CreateSeriesTimer (bolt_store E) = bolt_CreateSeriesTimer E"
  "GetSeriesTimer (bolt_store E) = bolt_GetSeriesTimer E" "ListSeriesTimers (bolt_store E) = bolt_ListSeriesTimers E"
  "DeleteSeriesTimer (bolt_store E) = bolt_DeleteSeriesTimer E"
  by (simp_all add: bolt_store_def)

sublocale bolt_engine \<subseteq> bolt_users: user_store "bolt_store E" "bolt_abs E" "bolt_inv E"
proof (unfold_locales, unfold bolt_store_sel, goal_cases)
  case (1 s u) then show ?case by (rule CreateUser_step)
next
  case (2 s u) then show ?case by (rule UpdateUser_step)
next
  case (3 s k)
  then show ?case using get_record_ok [OF tx_inv_parts(1)]
    by (simp add: bolt_GetUserByID_def bolt_abs_def bolt_inv_def)
next
  case (4 s name)
  then show ?case using decode_find_ok [OF tx_inv_parts(1)]
    by (simp add: bolt_GetUserByName_def bolt_abs_def bolt_inv_def)
next
  case (5 s)
  then show ?case using decode_all_ok [OF tx_inv_parts(1)]
    by (simp add: bolt_ListUsers_def bolt_abs_def bolt_inv_def)
next
  case (6 s) then show ?case by (rule CountUsers_read)
next
  case (7 s k u)
  then show ?case using rtab_get [OF tx_inv_parts(1)]
    by (auto simp: bolt_abs_def bolt_inv_def)
qed

sublocale bolt_engine \<subseteq> bolt_sessions: session_store "bolt_store E" "bolt_abs E" "bolt_inv E"
proof (unfold_locales, unfold bolt_store_sel, goal_cases)
  case (1 s x) then show ?case by (rule CreateSession_step)
next
  case (2 s k) then show ?case by (rule DeleteSession_step)
next
  case (3 s now k) then show ?case by (rule TouchSession_step)
next
  case (4 s h) then show ?case by (rule GetSessionByTokenHash_read)
next
  case (5 s k x)
  then show ?case using rtab_get [OF tx_inv_parts(2)]
    by (auto simp: bolt_abs_def bolt_inv_def)
qed

sublocale bolt_engine \<subseteq> bolt_libraries: library_store "bolt_store E" "bolt_abs E" "bolt_inv E"
proof (unfold_locales, unfold bolt_store_sel, goal_cases)
  case (1 s l) then show ?case by (rule CreateLibrary_step)
next
  case (2 s k) then show ?case by (rule DeleteLibrary_step)
next
  case (3 s k its now) then show ?case by (rule ReplaceLibraryItems_step)
next
  case (4 s k)
  then show ?case using get_record_ok [OF tx_inv_parts(4)]
    by (simp add: bolt_GetLibrary_def bolt_abs_def bolt_inv_def)
next
  case (5 s path)
  then show ?case using decode_find_ok [OF tx_inv_parts(4)]
    by (simp add: bolt_GetLibraryByPath_def bolt_abs_def bolt_inv_def)
next
  case (6 s)
  then show ?case using decode_all_ok [OF tx_inv_parts(4)]
    by (simp add: bolt_ListLibraries_def bolt_abs_def bolt_inv_def)
next
  case (7 s k)
  then show ?case using get_record_ok [OF tx_inv_parts(6)]
    by (simp add: bolt_GetItem_def bolt_abs_def bolt_inv_def)
next
  case (8 s lib) then show ?case by (rule ListItems_read)
next
  case (9 s p) then show ?case by (rule ListItems_read)
next
  case (10 s)
  then show ?case using decode_all_ok [OF tx_inv_parts(6)]
    by (simp add: bolt_AllItems_def bolt_abs_def bolt_inv_def)
qed

sublocale bolt_engine \<subseteq> bolt_userdata: userdata_store "bolt_store E" "bolt_abs E" "bolt_inv E"
proof (unfold_locales, unfold bolt_store_sel, goal_cases)
  case (1 s u i)
  then show ?case using get_record_ok [OF tx_inv_parts(7)]
    by (simp add: bolt_GetUserItemData_def bolt_abs_def bolt_inv_def userDataKey_idxKey)
next
  case (2 s d) then show ?case by (intro UpsertUserItemData_step) (simp_all add: userdata_key_ok_def)
next
  case (3 s u) then show ?case by (rule ListUserItemData_read)
next
  case (4 s k d)
  then show ?case using rtab_get [OF tx_inv_parts(7)]
    by (auto simp: bolt_abs_def bolt_inv_def userdata_key_ok_def)
qed

sublocale bolt_engine \<subseteq> bolt_recordings: recording_store "bolt_store E" "bolt_abs E" "bolt_inv E"
proof (unfold_locales, unfold bolt_store_sel, goal_cases)
  case (1 s x) then show ?case by (rule CreateRecording_step)
next
  case (2 s x) then show ?case by (rule UpdateRecording_step)
next
  case (3 s k) then show ?case by (rule DeleteRecording_step)
next
  case (4 s k)
  then show ?case using get_record_ok [OF tx_inv_parts(8)]
    by (simp add: bolt_GetRecording_def bolt_abs_def bolt_inv_def)
next
  case (5 s)
  then show ?case using decode_all_ok [OF tx_inv_parts(8)]
    by (simp add: bolt_ListRecordings_def bolt_abs_def bolt_inv_def)
next
  case (6 s k x)
  then show ?case using rtab_get [OF tx_inv_parts(8)]
    by (auto simp: bolt_abs_def bolt_inv_def)
next
  case (7 s y) then show ?case by (rule CreateSeriesTimer_step)
next
  case (8 s k) then show ?case by (rule DeleteSeriesTimer_step)
next
  case (9 s k)
  then show ?case using get_record_ok [OF tx_inv_parts(9)]
    by (simp add: bolt_GetSeriesTimer_def bolt_abs_def bolt_inv_def)
next
  case (10 s)
  then show ?case using decode_all_ok [OF tx_inv_parts(9)]
    by (simp add: bolt_ListSeriesTimers_def bolt_abs_def bolt_inv_def)
qed

section \<open>A concrete engine\<close>

text \<open>A stored value: a record under the tag of its type, or raw bytes.\<close>

datatype blob =
    Raw string
  | BUser User
  | BSession Session
  | BLibrary Library
  | BItem MediaItem
  | BUserData UserItemData
  | BRecording Recording
  | BSeries SeriesTimer

type_synonym refBucket = "(string \<times> blob) list"

fun ref_put :: "string \<Rightarrow> blob \<Rightarrow> refBucket \<Rightarrow> refBucket" where
  "ref_put k d [] = [(k, d)]"
| "ref_put k d ((k', d') # es) =
     (if k < k' then (k, d) # (k', d') # es
      else if k = k' then (k, d) # es
      else (k', d') # ref_put k d es)"

definition ref_engine :: "(refBucket, blob) engine" where
  "ref_engine = \<lparr>bb_empty = [], bb_get = map_of,
     bb_put = (\<lambda>k d b. if k = [] then None else Some (ref_put k d b)),
     bb_delete = (\<lambda>k b. Some (filter (\<lambda>(k', _). k' \<noteq> k) b)),
     bb_cursor = (\<lambda>b. b), bb_commit = (\<lambda>tx tx'. True),
     enc_str = Raw, dec_str = (\<lambda>d. case d of Raw x \<Rightarrow> x | _ \<Rightarrow> []),
     enc_User = (\<lambda>x. Some (BUser x)), dec_User = (\<lambda>d. case d of BUser x \<Rightarrow> Some x | _ \<Rightarrow> None),
     enc_Session = (\<lambda>x. Some (BSession x)), dec_Session = (\<lambda>d. case d of BSession x \<Rightarrow> Some x | _ \<Rightarrow> None),
     enc_Library = (\<lambda>x. Some (BLibrary x)), dec_Library = (\<lambda>d. case d of BLibrary x \<Rightarrow> Some x | _ \<Rightarrow> None),
     enc_Item = (\<lambda>x. Some (BItem x)), dec_Item = (\<lambda>d. case d of BItem x \<Rightarrow> Some x | _ \<Rightarrow> None),
     enc_UserData = (\<lambda>x. Some (BUserData x)), dec_UserData = (\<lambda>d. case d of BUserData x \<Rightarrow> Some x | _ \<Rightarrow> None),
     enc_Recording = (\<lambda>x. Some (BRecording x)), dec_Recording = (\<lambda>d. case d of BRecording x \<Rightarrow> Some x | _ \<Rightarrow> None),
     enc_Series = (\<lambda>x. Some (BSeries x)), dec_Series = (\<lambda>d. case d of BSeries x \<Rightarrow> Some x | _ \<Rightarrow> None)\<rparr>"

lemma ref_put_keys: "fst ` set (ref_put k d b) = insert k (fst ` set b)"
  by (induction k d b rule: ref_put.induct) (simp_all split: if_split add: insert_commute)

lemma ref_put_sorted: "sorted_wrt (<) (map fst b) \<Longrightarrow> sorted_wrt (<) (map fst (ref_put k d b))"
proof (induction b)
  case (Cons e b)
  obtain k' d' where e: "e = (k', d')" by (cases e)
  consider "k < k'" | "k = k'" | "k' < k" by fastforce
  then show ?case
  proof cases
    case 3
    have "\<forall>x \<in> fst ` set (ref_put k d b). k' < x"
      unfolding ref_put_keys using 3 Cons.prems by (auto simp: e)
    with 3 Cons show ?thesis by (auto simp: e)
  qed (use Cons.prems in \<open>auto simp: e\<close>)
qed simp

lemma ref_put_map: "sorted_wrt (<) (map fst b) \<Longrightarrow> map_of (ref_put k d b) = (map_of b)(k \<mapsto> d)"
proof (induction b)
  case (Cons e b)
  obtain k' d' where e: "e = (k', d')" by (cases e)
  show ?case using Cons by (auto simp: e fun_eq_iff)
qed simp

lemma ref_del_map: "map_of (filter (\<lambda>(k', _). k' \<noteq> k) b) = (map_of b)(k := None)"
  by (induction b) (auto simp: fun_eq_iff)

lemma ref_del_sorted: "sorted_wrt (<) (map fst b) \<Longrightarrow> sorted_wrt (<) (map fst (filter P b))"
  by (induction b) auto

lemma ref_engine_ok: "engine_ok ref_engine"
  unfolding engine_ok_def bwf_def bmap_def codec_ok_def
  by (simp add: ref_engine_def ref_put_sorted ref_put_map ref_del_map ref_del_sorted)

interpretation ref: bolt_engine ref_engine
  by unfold_locales (rule ref_engine_ok)

definition emptyTx :: "refBucket boltTx" where
  "emptyTx = \<lparr>txMeta = [], txUsers = [], txSessions = [], txLibraries = [], txItems = [],
     txUserData = [], txRecordings = [], txSeriesTimers = [], txSessionToken = [],
     txItemLibrary = [], txItemParent = []\<rparr>"

lemma emptyTx_inv: "tx_inv ref_engine emptyTx"
  by (simp add: tx_inv_def items_part_def rtab_def token_index_def item_index_def rmap_def
      bmap_def bwf_def emptyTx_def ref_engine_def)

end
