(* ===== verification/StoreOps.thy ===== *)
theory StoreOps
  imports JsonStore BoltContract
begin

text \<open>
  The mutations of the store interface as data, so that whole histories can be stated: a
  sequence of calls refines the same sequence of meanings at every backend, the JSON and the
  bbolt store give the same answers, and after any history a reopened JSON store holds what
  its last successful call left.
\<close>

section \<open>Calls as data\<close>

datatype store_op =
    OpCreateUser User
  | OpUpdateUser User
  | OpCreateSession Session
  | OpDeleteSession string
  | OpTouchSession time string
  | OpCreateLibrary Library
  | OpDeleteLibrary string
  | OpReplaceLibraryItems time string "MediaItem list"
  | OpUpsertUserItemData UserItemData
  | OpCreateRecording Recording
  | OpUpdateRecording Recording
  | OpDeleteRecording string
  | OpCreateSeriesTimer SeriesTimer
  | OpDeleteSeriesTimer string

fun run_op :: "'s Store \<Rightarrow> store_op \<Rightarrow> 's \<Rightarrow> err option \<times> 's" where
  "run_op S (OpCreateUser u) s = CreateUser S u s"
| "run_op S (OpUpdateUser u) s = UpdateUser S u s"
| "run_op S (OpCreateSession x) s = CreateSession S x s"
| "run_op S (OpDeleteSession k) s = DeleteSession S k s"
| "run_op S (OpTouchSession t k) s = TouchSession S t k s"
| "run_op S (OpCreateLibrary l) s = CreateLibrary S l s"
| "run_op S (OpDeleteLibrary k) s = DeleteLibrary S k s"
| "run_op S (OpReplaceLibraryItems t k its) s = ReplaceLibraryItems S t k its s"
| "run_op S (OpUpsertUserItemData d) s = UpsertUserItemData S d s"
| "run_op S (OpCreateRecording x) s = CreateRecording S x s"
| "run_op S (OpUpdateRecording x) s = UpdateRecording S x s"
| "run_op S (OpDeleteRecording k) s = DeleteRecording S k s"
| "run_op S (OpCreateSeriesTimer x) s = CreateSeriesTimer S x s"
| "run_op S (OpDeleteSeriesTimer k) s = DeleteSeriesTimer S k s"

fun spec_op :: "store_op \<Rightarrow> absstore \<Rightarrow> err + absstore" where
  "spec_op (OpCreateUser u) a = spec_CreateUser u a"
| "spec_op (OpUpdateUser u) a = spec_UpdateUser u a"
| "spec_op (OpCreateSession x) a = spec_CreateSession x a"
| "spec_op (OpDeleteSession k) a = spec_DeleteSession k a"
| "spec_op (OpTouchSession t k) a = spec_TouchSession t k a"
| "spec_op (OpCreateLibrary l) a = spec_CreateLibrary l a"
| "spec_op (OpDeleteLibrary k) a = spec_DeleteLibrary k a"
| "spec_op (OpReplaceLibraryItems t k its) a = spec_ReplaceLibraryItems t k its a"
| "spec_op (OpUpsertUserItemData d) a = spec_UpsertUserItemData d a"
| "spec_op (OpCreateRecording x) a = spec_CreateRecording x a"
| "spec_op (OpUpdateRecording x) a = spec_UpdateRecording x a"
| "spec_op (OpDeleteRecording k) a = spec_DeleteRecording k a"
| "spec_op (OpCreateSeriesTimer x) a = spec_CreateSeriesTimer x a"
| "spec_op (OpDeleteSeriesTimer k) a = spec_DeleteSeriesTimer k a"

text \<open>What a caller owes: fresh random identifiers, and identifiers without a NUL byte.\<close>

fun op_pre :: "store_op \<Rightarrow> absstore \<Rightarrow> bool" where
  "op_pre (OpCreateSession x) a = session_fresh x a"
| "op_pre (OpReplaceLibraryItems t k its) a = items_ok k its a"
| "op_pre (OpUpsertUserItemData d) a = (no_nul (dUserID d) \<and> no_nul (dItemID d))"
| "op_pre _ a = True"

fun run_ops :: "'s Store \<Rightarrow> store_op list \<Rightarrow> 's \<Rightarrow> err option list \<times> 's" where
  "run_ops S [] s = ([], s)"
| "run_ops S (c # cs) s =
     (case run_op S c s of (r, s1) \<Rightarrow> case run_ops S cs s1 of (rs, s2) \<Rightarrow> (r # rs, s2))"

definition spec_next :: "store_op \<Rightarrow> absstore \<Rightarrow> absstore" where
  "spec_next c a = (case spec_op c a of Inl _ \<Rightarrow> a | Inr b \<Rightarrow> b)"

definition spec_answer :: "store_op \<Rightarrow> absstore \<Rightarrow> err option" where
  "spec_answer c a = (case spec_op c a of Inl e \<Rightarrow> Some e | Inr _ \<Rightarrow> None)"

fun ops_pre :: "store_op list \<Rightarrow> absstore \<Rightarrow> bool" where
  "ops_pre [] a = True"
| "ops_pre (c # cs) a = (op_pre c a \<and> ops_pre cs (spec_next c a))"

fun spec_ops :: "store_op list \<Rightarrow> absstore \<Rightarrow> err option list \<times> absstore" where
  "spec_ops [] a = ([], a)"
| "spec_ops (c # cs) a =
     (case spec_ops cs (spec_next c a) of (rs, b) \<Rightarrow> (spec_answer c a # rs, b))"

definition io_free :: "err option list \<Rightarrow> bool" where
  "io_free rs \<longleftrightarrow> (\<forall>r \<in> set rs. case r of None \<Rightarrow> True | Some e \<Rightarrow> \<not> io_error e)"

lemma io_free_Cons [simp]: "io_free (r # rs) \<longleftrightarrow> (\<forall>e. r = Some e \<longrightarrow> \<not> io_error e) \<and> io_free rs"
  by (auto simp: io_free_def split: option.splits)

section \<open>Histories refine their meaning\<close>

text \<open>The calls of a history meet a precondition one after the other, each on what the meaning of the earlier ones
  left.\<close>

fun ops_meet :: "(store_op \<Rightarrow> absstore \<Rightarrow> bool) \<Rightarrow> store_op list \<Rightarrow> absstore \<Rightarrow> bool" where
  "ops_meet pre [] a = True"
| "ops_meet pre (c # cs) a = (pre c a \<and> ops_meet pre cs (spec_next c a))"

lemma ops_meet_pre: "ops_meet op_pre cs a = ops_pre cs a"
  by (induction cs arbitrary: a) simp_all

lemma ops_meet_mono: "(\<And>c a. pre c a \<Longrightarrow> pre' c a) \<Longrightarrow> ops_meet pre cs a \<Longrightarrow> ops_meet pre' cs a"
  by (induction cs arbitrary: a) simp_all

text \<open>A store whose mutations refine their meaning whenever a precondition holds, whatever it is.\<close>

locale op_store = store_base +
  fixes pre :: "store_op \<Rightarrow> absstore \<Rightarrow> bool"
  assumes run_op_ref: "inv s \<Longrightarrow> pre c (abs s) \<Longrightarrow> step_ok abs inv (spec_op c (abs s)) (abs s) (run_op S c s)"
begin

lemma run_op_answer:
  assumes "inv s" "pre c (abs s)" "run_op S c s = (r, s')" "\<forall>e. r = Some e \<longrightarrow> \<not> io_error e"
  shows "inv s' \<and> r = spec_answer c (abs s) \<and> abs s' = spec_next c (abs s)"
proof -
  have "inv s'" "refines (spec_op c (abs s)) (abs s) r (abs s')"
    using run_op_ref [OF assms(1,2)] assms(3) by (auto simp: step_ok_def)
  then show ?thesis
    using assms(4) by (auto simp: refines_def spec_answer_def spec_next_def split: sum.splits option.splits)
qed

lemma run_ops_answers:
  "inv s \<Longrightarrow> ops_meet pre cs (abs s) \<Longrightarrow> run_ops S cs s = (rs, s') \<Longrightarrow> io_free rs \<Longrightarrow>
   inv s' \<and> spec_ops cs (abs s) = (rs, abs s')"
proof (induction cs arbitrary: s rs)
  case (Cons c cs)
  obtain r s1 where r: "run_op S c s = (r, s1)" by (cases "run_op S c s")
  obtain rs1 s2 where rs: "run_ops S cs s1 = (rs1, s2)" by (cases "run_ops S cs s1")
  have rs_eq: "rs = r # rs1" "s2 = s'" using Cons.prems(3) by (simp_all add: r rs)
  have step: "inv s1 \<and> r = spec_answer c (abs s) \<and> abs s1 = spec_next c (abs s)"
    using run_op_answer [OF Cons.prems(1) _ r] Cons.prems(2,4) rs_eq by simp
  have "inv s' \<and> spec_ops cs (abs s1) = (rs1, abs s')"
  proof (rule Cons.IH)
    show "inv s1" "ops_meet pre cs (abs s1)" using step Cons.prems(2) by simp_all
    show "run_ops S cs s1 = (rs1, s')" using rs rs_eq(2) by simp
    show "io_free rs1" using Cons.prems(4) rs_eq(1) by simp
  qed
  with step rs_eq show ?case by simp
qed simp

end

text \<open>What the reads answer, for the keys the store can be asked about.\<close>

locale read_store = store_base +
  fixes known :: "string \<Rightarrow> bool"
  assumes read_user: "inv s \<Longrightarrow> known k \<Longrightarrow> GetUserByID S k s = lookup_or (aUsers (abs s) k)"
    and read_user_name: "inv s \<Longrightarrow> known name \<Longrightarrow>
      search_ok (\<lambda>u. EqualFold (uName u) name) (aUsers (abs s)) (GetUserByName S name s)"
    and read_users: "inv s \<Longrightarrow> \<exists>l. ListUsers S s = Inr l \<and> enumerates l (aUsers (abs s))"
    and read_count: "inv s \<Longrightarrow> CountUsers S s = Inr (card (dom (aUsers (abs s))))"
    and read_session: "inv s \<Longrightarrow> known h \<Longrightarrow>
      search_ok (\<lambda>x. sTokenHash x = h) (aSessions (abs s)) (GetSessionByTokenHash S h s)"
    and read_library: "inv s \<Longrightarrow> known k \<Longrightarrow> GetLibrary S k s = lookup_or (aLibraries (abs s) k)"
    and read_library_path: "inv s \<Longrightarrow> known p \<Longrightarrow>
      search_ok (\<lambda>l. lPath l = p) (aLibraries (abs s)) (GetLibraryByPath S p s)"
    and read_libraries: "inv s \<Longrightarrow> \<exists>l. ListLibraries S s = Inr l \<and> enumerates l (aLibraries (abs s))"
    and read_item: "inv s \<Longrightarrow> known k \<Longrightarrow> GetItem S k s = lookup_or (aItems (abs s) k)"
    and read_items_library: "inv s \<Longrightarrow> known lib \<Longrightarrow> \<exists>l. ListItemsByLibrary S lib s = Inr l \<and>
      enumerates l (map_where (\<lambda>it. mLibraryID it = lib) (aItems (abs s)))"
    and read_items_parent: "inv s \<Longrightarrow> known p \<Longrightarrow> \<exists>l. ListItemsByParent S p s = Inr l \<and>
      enumerates l (map_where (\<lambda>it. mParentID it = p) (aItems (abs s)))"
    and read_items: "inv s \<Longrightarrow> \<exists>l. AllItems S s = Inr l \<and> enumerates l (aItems (abs s))"
    and read_userdata: "inv s \<Longrightarrow> known u \<Longrightarrow> known i \<Longrightarrow>
      GetUserItemData S u i s = lookup_or (aUserData (abs s) (userDataKey u i))"
    and read_userdata_list: "inv s \<Longrightarrow> known u \<Longrightarrow> \<exists>l. ListUserItemData S u s = Inr l \<and>
      enumerates l (map_where (\<lambda>d. dUserID d = u) (aUserData (abs s)))"
    and read_recording: "inv s \<Longrightarrow> known k \<Longrightarrow> GetRecording S k s = lookup_or (aRecordings (abs s) k)"
    and read_recordings: "inv s \<Longrightarrow> \<exists>l. ListRecordings S s = Inr l \<and> enumerates l (aRecordings (abs s))"
    and read_series: "inv s \<Longrightarrow> known k \<Longrightarrow> GetSeriesTimer S k s = lookup_or (aSeriesTimers (abs s) k)"
    and read_series_list: "inv s \<Longrightarrow> \<exists>l. ListSeriesTimers S s = Inr l \<and> enumerates l (aSeriesTimers (abs s))"

text \<open>The five parts of the contract together; they give both views.\<close>

locale full_store = user_store + session_store + library_store + userdata_store + recording_store

sublocale full_store \<subseteq> full_ops: op_store S abs inv op_pre
proof
  fix s c
  show "inv s \<Longrightarrow> op_pre c (abs s) \<Longrightarrow> step_ok abs inv (spec_op c (abs s)) (abs s) (run_op S c s)"
    using CreateUser_ref UpdateUser_ref CreateSession_ref DeleteSession_ref TouchSession_ref
      CreateLibrary_ref DeleteLibrary_ref ReplaceLibraryItems_ref UpsertUserItemData_ref
      CreateRecording_ref UpdateRecording_ref DeleteRecording_ref CreateSeriesTimer_ref DeleteSeriesTimer_ref
    by (cases c) (simp_all only: op_pre.simps run_op.simps spec_op.simps)
qed

sublocale full_store \<subseteq> full_reads: read_store S abs inv "\<lambda>_. True"
  by unfold_locales
    (erule GetUserByID_ref GetUserByName_ref ListUsers_ref CountUsers_ref GetSessionByTokenHash_ref GetLibrary_ref
      GetLibraryByPath_ref ListLibraries_ref GetItem_ref ListItemsByLibrary_ref ListItemsByParent_ref AllItems_ref
      GetUserItemData_ref ListUserItemData_ref GetRecording_ref ListRecordings_ref GetSeriesTimer_ref
      ListSeriesTimers_ref)+

interpretation json_full: full_store json_store json_abs json_inv ..

sublocale bolt_engine \<subseteq> bolt_full: full_store "bolt_store E" "bolt_abs E" "bolt_inv E" ..

context bolt_engine begin

lemma bolt_run_ops_answers:
  "bolt_inv E s \<Longrightarrow> ops_pre cs (bolt_abs E s) \<Longrightarrow> run_ops (bolt_store E) cs s = (rs, s') \<Longrightarrow> io_free rs \<Longrightarrow>
   bolt_inv E s' \<and> spec_ops cs (bolt_abs E s) = (rs, bolt_abs E s')"
  using bolt_full.full_ops.run_ops_answers by (simp add: ops_meet_pre)

end

section \<open>What survives a restart\<close>

lemma flushLocked_disk:
  "flushLocked s = (r, s') \<Longrightarrow> snapshot s' = snapshot s \<and> jServerID s' = jServerID s \<and>
   jDisk s' = (if r = None then Some (Whole (snapshot s)) else jDisk s)"
  by (auto simp: flushLocked_def snapshot_def Let_def split: flush_outcome.splits)

lemma json_op_disk:
  assumes "run_op json_store c s = (r, s')"
  shows "jServerID s' = jServerID s \<and> jDisk s' = (if r = None then Some (Whole (snapshot s')) else jDisk s)"
  using assms
  by (cases c) (auto simp: json_ops split: if_splits option.splits dest!: flushLocked_disk)

text \<open>A history of calls on a JSON store, with the state after the last call that answered
  \<open>nil\<close>.\<close>

inductive json_history :: "jsonStore \<Rightarrow> jsonStore \<Rightarrow> jsonStore \<Rightarrow> bool" for s0 where
  start: "json_history s0 s0 s0"
| saved: "json_history s0 sv s \<Longrightarrow> run_op json_store c s = (None, s') \<Longrightarrow> json_history s0 s' s'"
| refused: "json_history s0 sv s \<Longrightarrow> run_op json_store c s = (Some e, s') \<Longrightarrow> json_history s0 sv s'"

lemma json_history_disk:
  assumes "json_history s0 sv s" "jDisk s0 = Some (Whole (snapshot s0))"
  shows "jDisk s = Some (Whole (snapshot sv)) \<and> jServerID s = jServerID s0 \<and> jServerID sv = jServerID s0"
  using assms by (induction rule: json_history.induct) (auto dest!: json_op_disk)

lemma OpenJSON_snapshot:
  "jServerID sv \<noteq> [] \<Longrightarrow>
   \<exists>s1. OpenJSON True newID (Some (Whole (snapshot sv))) tmp env = Inr s1 \<and>
     json_abs s1 = json_abs sv \<and> jServerID s1 = jServerID sv"
  by (simp add: OpenJSON_def load_def snapshot_def Let_def json_abs_def)

end
