(* ===== verification/StoreProps.thy ===== *)
theory StoreProps
  imports StoreOps
begin

text \<open>
  The properties of the two stores, each followed by an instance on concrete data.
\<close>

section \<open>Concrete data\<close>

definition json0 :: jsonStore where
  "json0 = \<lparr>jServerID = ''id'', jUsers = [], jSessions = [], jLibraries = [], jItems = [], jUserData = [],
     jRecordings = [], jSeriesTimers = [],
     jDisk = Some (Whole \<lparr>pVersion = 1, pServerID = ''id'', pUsers = [], pSessions = [], pLibraries = [],
       pItems = [], pUserData = [], pRecordings = [], pSeriesTimers = []\<rparr>),
     jTmp = None, jEnv = []\<rparr>"

definition bolt0 :: "refBucket boltStore" where
  "bolt0 = \<lparr>boltDB = emptyTx, boltServerID = ''id''\<rparr>"

definition lib0 :: Library where
  "lib0 = \<lparr>lID = ''L'', lName = ''Films'', lType = ''movies'', lPath = ''/m'', lItemCount = 0,
     lCreatedAt = 5, lScannedAt = 0\<rparr>"

definition item0 :: MediaItem where
  "item0 = \<lparr>mID = ''i'', mLibraryID = '''', mParentID = ''L'', mName = ''Film'', mSortName = ''film'',
     mType = ''Movie'', mMediaType = ''Video'', mPath = ''/m/f.mkv'', mContainer = ''mkv'',
     mProductionYear = 1999, mSizeBytes = 1, mDateCreated = 1, mChildCount = 0, mSeriesID = '''',
     mSeriesName = '''', mSeasonID = '''', mIndexNumber = 0, mParentIndexNumber = 0, mArtistID = '''',
     mAlbumID = '''', mAlbum = '''', mAlbumArtist = '''', mArtists = [], mRunTimeTicks = 0, mWidth = 0,
     mHeight = 0, mVideoCodec = '''', mAudioCodec = '''', mBitrate = 0, mStreams = [], mSubtitles = [],
     mOverview = '''', mCommunityRating = 0, mGenres = [], mPrimaryImagePath = '''', mPrimaryImageTag = '''',
     mBackdropImagePath = '''', mBackdropImageTag = ''''\<rparr>"

definition session0 :: Session where
  "session0 = \<lparr>sID = ''s'', sUserID = ''u'', sTokenHash = ''h'', sClient = '''', sDevice = '''',
     sDeviceID = '''', sAppVersion = '''', sRemoteAddr = '''', sCreatedAt = 1, sLastActivity = 1\<rparr>"

definition history0 :: "store_op list" where
  "history0 = [OpCreateLibrary lib0, OpCreateLibrary lib0, OpReplaceLibraryItems 9 ''L'' [item0],
     OpCreateSession session0, OpDeleteSession ''s'', OpDeleteSession ''s'']"

lemma json0_inv: "json_inv json0"
  by (simp add: json_inv_def json0_def)

lemma bolt0_inv: "bolt_inv ref_engine bolt0"
  by (simp add: bolt_inv_def bolt0_def emptyTx_inv)

lemma empty_abs: "json_abs json0 = bolt_abs ref_engine bolt0"
  by (simp add: json_abs_def bolt_abs_def tx_abs_def bolt0_def json0_def rmap_def bmap_def emptyTx_def ref_engine_def)

lemma history0_pre: "ops_pre history0 (json_abs json0)"
  by (simp add: history0_def json0_def json_abs_def spec_next_def json_specs items_ok_def session_fresh_def
      no_nul_def NUL_def lib0_def item0_def session0_def ran_def add_items_def drop_library_items_def map_where_def)

lemma enumerates_mset:
  assumes "enumerates l m" "enumerates l' m"
  shows "mset l = mset l'"
proof -
  obtain ks where ks: "distinct ks" "set ks = dom m" "map Some l = map m ks"
    using assms(1) by (auto simp: enumerates_def)
  obtain js where js: "distinct js" "set js = dom m" "map Some l' = map m js"
    using assms(2) by (auto simp: enumerates_def)
  have "mset ks = mset js" using set_eq_iff_mset_eq_distinct [OF ks(1) js(1)] ks(2) js(2) by simp
  then have "mset (map Some l) = mset (map Some l')" unfolding ks(3) js(3) by simp
  then have "image_mset Some (mset l) = image_mset Some (mset l')" by simp
  then have "image_mset the (image_mset Some (mset l)) = image_mset the (image_mset Some (mset l'))" by simp
  then show ?thesis by (simp add: image_mset.compositionality comp_def)
qed

lemma add_items_map:
  "distinct (map mID its) \<Longrightarrow> add_items lib its m =
   (\<lambda>k. case map_of (map (\<lambda>it. (mID it, it\<lparr>mLibraryID := lib\<rparr>)) its) k of None \<Rightarrow> m k | Some it \<Rightarrow> Some it)"
proof (induction its arbitrary: m)
  case (Cons it its)
  have "map_of (map (\<lambda>it. (mID it, it\<lparr>mLibraryID := lib\<rparr>)) its) (mID it) = None"
    using Cons.prems by (simp add: map_of_eq_None_iff image_image)
  with Cons show ?case by (auto simp: add_items_def fun_eq_iff split: option.splits)
qed (simp add: add_items_def)

lemma replaced_items:
  assumes "distinct (map mID its)"
  shows "enumerates (map (\<lambda>it. it\<lparr>mLibraryID := lib\<rparr>) its)
    (map_where (\<lambda>it. mLibraryID it = lib) (add_items lib its (drop_library_items lib m)))"
proof -
  let ?es = "map (\<lambda>it. (mID it, it\<lparr>mLibraryID := lib\<rparr>)) its"
  have lib: "mLibraryID v = lib" if "map_of ?es k = Some v" for k v
    using map_of_SomeD [OF that] by auto
  have eq: "map_where (\<lambda>it. mLibraryID it = lib) (add_items lib its (drop_library_items lib m)) = map_of ?es"
    unfolding add_items_map [OF assms]
  proof
    fix k
    show "map_where (\<lambda>it. mLibraryID it = lib) (\<lambda>k. case map_of ?es k of None \<Rightarrow> drop_library_items lib m k | Some it \<Rightarrow> Some it) k
      = map_of ?es k"
      by (cases "map_of ?es k") (use lib in \<open>auto simp: map_where_def drop_library_items_def split: option.splits\<close>)
  qed
  have wf: "map_wf ?es" using assms by (simp add: map_wf_def comp_def)
  from enumerates_map_vals [OF wf] show ?thesis unfolding eq by (simp add: map_vals_def comp_def)
qed

section \<open>Durability\<close>


definition failing0 :: jsonStore where
  "failing0 = json0\<lparr>jEnv := [FailRename]\<rparr>"

definition failed0 :: jsonStore where
  "failed0 = snd (run_op json_store (OpCreateLibrary lib0) failing0)"


text \<open>Rejected writes of the bbolt store leave no trace: whatever the call and whatever the
  error, also one in the middle of a transaction, the database is as it was.\<close>

theorem bolt_rollback:
  "run_op (bolt_store E) c s = (Some e, s') \<Longrightarrow> s' = s"
  by (cases c) (auto simp: bolt_store_sel bolt_CreateUser_def bolt_UpdateUser_def bolt_CreateSession_def
      bolt_DeleteSession_def bolt_TouchSession_def bolt_CreateLibrary_def bolt_DeleteLibrary_def
      bolt_ReplaceLibraryItems_def bolt_UpsertUserItemData_def bolt_CreateRecording_def
      bolt_UpdateRecording_def bolt_DeleteRecording_def bolt_CreateSeriesTimer_def
      bolt_DeleteSeriesTimer_def db_update_def split: sum.splits if_splits)

lemma bolt_rollback_witness:
  "snd (run_op (bolt_store ref_engine) (OpDeleteSession ''s'') bolt0) = bolt0"
proof -
  have "fst (run_op (bolt_store ref_engine) (OpDeleteSession ''s'') bolt0) = Some ErrNotFound"
    by (simp add: bolt_store_sel bolt_DeleteSession_def db_update_def bolt0_def emptyTx_def ref_engine_def get_record_def)
  then show ?thesis by (metis bolt_rollback prod.collapse)
qed

section \<open>The backends agree\<close>

lemma history0_io: "io_free (fst (run_ops json_store history0 json0))"
  by code_simp

lemma history0_io_bolt: "io_free (fst (run_ops (bolt_store ref_engine) history0 bolt0))"
  by code_simp

text \<open>C3. The JSON store and the bbolt store are interchangeable: from equal contents, any sequence
  of calls that meets the callers' duties and hits no I/O failure gets the same answers, errors
  included, from both, and leaves them with equal contents.\<close>

theorem backends_agree:
  assumes "engine_ok E" "json_inv s" "bolt_inv E t" "json_abs s = bolt_abs E t"
    and "ops_pre cs (json_abs s)" "run_ops json_store cs s = (rs, s')" "run_ops (bolt_store E) cs t = (qs, t')"
    and "io_free rs" "io_free qs"
  shows "rs = qs \<and> json_abs s' = bolt_abs E t'"
proof -
  have "bolt_engine E" using assms(1) by unfold_locales
  from bolt_engine.bolt_run_ops_answers [OF this assms(3) _ assms(7,9)] assms(4,5)
  have "spec_ops cs (bolt_abs E t) = (qs, bolt_abs E t')" by simp
  moreover have "spec_ops cs (json_abs s) = (rs, json_abs s')"
    using json_full.full_ops.run_ops_answers [OF assms(2) _ assms(6,8)] assms(5) by (simp add: ops_meet_pre)
  ultimately show ?thesis using assms(4) by simp
qed

lemma backends_agree_witness:
  "fst (run_ops json_store history0 json0) = fst (run_ops (bolt_store ref_engine) history0 bolt0) \<and>
   json_abs (snd (run_ops json_store history0 json0)) = bolt_abs ref_engine (snd (run_ops (bolt_store ref_engine) history0 bolt0))"
  using backends_agree [OF ref_engine_ok json0_inv bolt0_inv empty_abs history0_pre surjective_pairing surjective_pairing
      history0_io history0_io_bolt] .

text \<open>C21. Replacing a library's items in the bbolt store: when the call succeeds, a scan of the
  library index lists exactly the new items, each once, with the library's ID, whatever was there
  before; the indexes stay consistent with the primary bucket.\<close>

theorem bolt_replace_lists:
  assumes "engine_ok E" "bolt_inv E s" "items_ok lib its (bolt_abs E s)"
    and "bolt_ReplaceLibraryItems E now lib its s = (None, s')"
  shows "bolt_inv E s' \<and> (\<exists>l. bolt_ListItemsByLibrary E lib s' = Inr l \<and>
    mset l = mset (map (\<lambda>it. it\<lparr>mLibraryID := lib\<rparr>) its))"
proof -
  have E: "bolt_engine E" using assms(1) by unfold_locales
  have inv': "bolt_inv E s'"
    and sp: "spec_ReplaceLibraryItems now lib its (bolt_abs E s) = Inr (bolt_abs E s')"
    using step_ok_nil [OF bolt_engine.ReplaceLibraryItems_step [OF E assms(2,3), of now, unfolded assms(4)]] by simp_all
  then have items: "aItems (bolt_abs E s') = add_items lib its (drop_library_items lib (aItems (bolt_abs E s)))"
    by (cases "aLibraries (bolt_abs E s) lib")
      (auto simp: spec_ReplaceLibraryItems_def dest!: sym [of _ "bolt_abs E s'"])
  obtain l where l: "bolt_ListItemsByLibrary E lib s' = Inr l"
    "enumerates l (map_where (\<lambda>it. mLibraryID it = lib) (aItems (bolt_abs E s')))"
    using bolt_engine.ListItems_read(1) [OF E inv'] by blast
  have "distinct (map mID its)" using assms(3) by (simp add: items_ok_def)
  from enumerates_mset [OF l(2) [unfolded items] replaced_items [OF this]] l(1) inv' show ?thesis by blast
qed

definition bolt1 :: "refBucket boltStore" where
  "bolt1 = snd (run_op (bolt_store ref_engine) (OpCreateLibrary lib0) bolt0)"

lemma bolt1_inv: "bolt_inv ref_engine bolt1"
  using step_ok_inv [OF ref.CreateLibrary_step [OF bolt0_inv, of lib0]]
  by (simp add: bolt1_def bolt_store_sel)

lemma bolt1_eq: "bolt1 = bolt0\<lparr>boltDB := emptyTx\<lparr>txLibraries := [(''L'', BLibrary lib0)]\<rparr>\<rparr>"
  by (simp add: bolt1_def bolt_store_sel bolt_CreateLibrary_def db_update_def bolt0_def emptyTx_def ref_engine_def
      put_record_def encode_def Put_def lib0_def)

lemma bolt_replace_lists_witness:
  "\<exists>l. bolt_ListItemsByLibrary ref_engine ''L'' (snd (bolt_ReplaceLibraryItems ref_engine 9 ''L'' [item0] bolt1)) = Inr l \<and>
     mset l = {#item0\<lparr>mLibraryID := ''L''\<rparr>#}"
proof -
  have "items_ok ''L'' [item0] (bolt_abs ref_engine bolt1)"
    by (simp add: items_ok_def bolt1_eq bolt_abs_def tx_abs_def bolt0_def emptyTx_def rmap_def bmap_def ref_engine_def
        no_nul_def NUL_def item0_def)
  moreover have "fst (bolt_ReplaceLibraryItems ref_engine 9 ''L'' [item0] bolt1) = None"
    unfolding bolt1_def by code_simp
  then have "bolt_ReplaceLibraryItems ref_engine 9 ''L'' [item0] bolt1 =
      (None, snd (bolt_ReplaceLibraryItems ref_engine 9 ''L'' [item0] bolt1))"
    by (metis prod.collapse)
  ultimately show ?thesis using bolt_replace_lists [OF ref_engine_ok bolt1_inv] by fastforce
qed

end
