(* ===== verification/PgStore.thy ===== *)
theory PgStore
  imports BoltStore
begin

text \<open>
  The PostgreSQL store of \<open>internal/store/pgstore.go\<close>. The statements the code sends are data: the
  fragment of SQL it uses is the datatype \<open>sqlStmt\<close>, with its placeholders \<open>$1\<close>, \<open>$2\<close>, ... as
  \<open>Param 1\<close>, \<open>Param 2\<close>, ... and the values bound to them as a list. The server, the driver and the JSON
  encoding of the records are not part of the repository: they are the fields of \<open>pgEngine\<close>, which every
  definition takes as an argument, over an arbitrary type \<open>'db\<close> of database states and \<open>'b\<close> of encoded
  records. A statement that is refused or whose connection breaks is an \<open>sqlErr\<close>. What the code relies on is
  stated in theory \<open>PgEngine\<close>.
\<close>

section \<open>SQL\<close>

text \<open>A value bound to a placeholder or stored in a column, and an expression over the placeholders.\<close>

datatype 'b sqlVal = SqlText string | SqlJson 'b

datatype sqlExp = Lit string | Param nat | Lower sqlExp

type_synonym assigns = "(string \<times> sqlExp) list"

text \<open>A table: its columns, and the columns of its primary key and of each \<open>UNIQUE\<close> constraint.\<close>

record sqlTable =
  tbName :: string
  tbColumns :: "string list"
  tbUnique :: "string list list"

datatype onConflict = Reject | DoNothing "string list" | DoUpdate "string list" string

datatype sqlStmt =
    CreateTables "sqlTable list"
  | InsertInto string assigns onConflict
  | UpdateSet string assigns assigns
  | DeleteFrom string assigns

text \<open>\<open>SELECT column FROM table WHERE col=exp AND ...\<close>; whether it ends in \<open>FOR UPDATE\<close>.\<close>

datatype sqlQuery = SelectFrom string string assigns bool

datatype sqlErr = PgError string | ErrNoRows | ConnError string

text \<open>\<open>pg_exec\<close> answers the number of affected rows. A failed statement can leave a changed database behind
  (the connection broke after the server had committed), and so can a failed commit.\<close>

record ('db, 'b) pgEngine =
  pg_ping :: "'db \<Rightarrow> sqlErr option"
  pg_exec :: "sqlStmt \<Rightarrow> 'b sqlVal list \<Rightarrow> 'db \<Rightarrow> (sqlErr + nat) \<times> 'db"
  pg_query :: "sqlQuery \<Rightarrow> 'b sqlVal list \<Rightarrow> 'db \<Rightarrow> sqlErr + 'b sqlVal list"
  pg_count :: "string \<Rightarrow> 'db \<Rightarrow> sqlErr + nat"
  pg_begin :: "'db \<Rightarrow> sqlErr option"
  pg_commit :: "'db \<Rightarrow> 'db \<Rightarrow> sqlErr option \<times> 'db"
  js_User :: "User \<Rightarrow> 'b option"
  un_User :: "'b \<Rightarrow> User option"
  js_Session :: "Session \<Rightarrow> 'b option"
  un_Session :: "'b \<Rightarrow> Session option"
  js_Library :: "Library \<Rightarrow> 'b option"
  un_Library :: "'b \<Rightarrow> Library option"
  js_Item :: "MediaItem \<Rightarrow> 'b option"
  un_Item :: "'b \<Rightarrow> MediaItem option"
  js_UserData :: "UserItemData \<Rightarrow> 'b option"
  un_UserData :: "'b \<Rightarrow> UserItemData option"
  js_Recording :: "Recording \<Rightarrow> 'b option"
  un_Recording :: "'b \<Rightarrow> Recording option"
  js_Series :: "SeriesTimer \<Rightarrow> 'b option"
  un_Series :: "'b \<Rightarrow> SeriesTimer option"

record 'db pgStore =
  pgDB :: 'db
  pgServerID :: string

definition pgSchema :: "sqlTable list" where
  "pgSchema =
    [\<lparr>tbName = ''meta'', tbColumns = [''key'', ''value''], tbUnique = [[''key'']]\<rparr>,
     \<lparr>tbName = ''users'', tbColumns = [''id'', ''name_lower'', ''data''], tbUnique = [[''id''], [''name_lower'']]\<rparr>,
     \<lparr>tbName = ''sessions'', tbColumns = [''id'', ''token_hash'', ''data''], tbUnique = [[''id''], [''token_hash'']]\<rparr>,
     \<lparr>tbName = ''libraries'', tbColumns = [''id'', ''path'', ''data''], tbUnique = [[''id''], [''path'']]\<rparr>,
     \<lparr>tbName = ''items'', tbColumns = [''id'', ''library_id'', ''parent_id'', ''data''], tbUnique = [[''id'']]\<rparr>,
     \<lparr>tbName = ''user_item_data'', tbColumns = [''user_id'', ''item_id'', ''data''], tbUnique = [[''user_id'', ''item_id'']]\<rparr>,
     \<lparr>tbName = ''recordings'', tbColumns = [''id'', ''data''], tbUnique = [[''id'']]\<rparr>,
     \<lparr>tbName = ''series_timers'', tbColumns = [''id'', ''data''], tbUnique = [[''id'']]\<rparr>]"

section \<open>Helpers\<close>

text \<open>An error of the driver as the caller sees it when it is passed on.\<close>

fun raw_err :: "sqlErr \<Rightarrow> err" where
  "raw_err (PgError code) = ErrIO code"
| "raw_err ErrNoRows = ErrIO ''no rows in result set''"
| "raw_err (ConnError msg) = ErrIO msg"

definition mapWriteErr :: "sqlErr option \<Rightarrow> err option" where
  "mapWriteErr e =
     (case e of
        None \<Rightarrow> None
      | Some (PgError code) \<Rightarrow> if code = ''23505'' then Some ErrConflict else Some (raw_err (PgError code))
      | Some e' \<Rightarrow> Some (raw_err e'))"

text \<open>\<open>Scan\<close> into a \<open>[]byte\<close> or a \<open>string\<close>.\<close>

fun scan_raw :: "'b sqlVal \<Rightarrow> sqlErr + 'b" where
  "scan_raw (SqlJson d) = Inr d"
| "scan_raw (SqlText _) = Inl (ConnError ''can't scan into dest'')"

fun scan_text :: "'b sqlVal \<Rightarrow> sqlErr + string" where
  "scan_text (SqlText t) = Inr t"
| "scan_text (SqlJson _) = Inl (ConnError ''can't scan into dest'')"

definition QueryRow :: "('db, 'b) pgEngine \<Rightarrow> sqlQuery \<Rightarrow> 'b sqlVal list \<Rightarrow> 'db \<Rightarrow> sqlErr + 'b sqlVal" where
  "QueryRow E q ps db =
     (case pg_query E q ps db of Inl e \<Rightarrow> Inl e | Inr [] \<Rightarrow> Inl ErrNoRows | Inr (v # _) \<Rightarrow> Inr v)"

text \<open>\<open>QueryRow(...).Scan(&raw)\<close>.\<close>

definition query_raw :: "('db, 'b) pgEngine \<Rightarrow> sqlQuery \<Rightarrow> 'b sqlVal list \<Rightarrow> 'db \<Rightarrow> sqlErr + 'b" where
  "query_raw E q ps db = (case QueryRow E q ps db of Inl e \<Rightarrow> Inl e | Inr v \<Rightarrow> scan_raw v)"

text \<open>The three steps the single-record reads share: no row is \<open>ErrNotFound\<close>, any other error is wrapped, the
  blob is decoded.\<close>

definition found :: "('b \<Rightarrow> 'v option) \<Rightarrow> sqlErr + 'b \<Rightarrow> err + 'v" where
  "found un r =
     (case r of
        Inl ErrNoRows \<Rightarrow> Inl ErrNotFound
      | Inl e \<Rightarrow> Inl (ErrIO ''store: query'')
      | Inr raw \<Rightarrow> decode un raw)"

definition pgGetByID :: "('db, 'b) pgEngine \<Rightarrow> ('b \<Rightarrow> 'v option) \<Rightarrow> 'db \<Rightarrow> sqlQuery \<Rightarrow> string \<Rightarrow> err + 'v" where
  "pgGetByID E un db q k = found un (query_raw E q [SqlText k] db)"

fun scan_all :: "('b \<Rightarrow> 'v option) \<Rightarrow> 'b sqlVal list \<Rightarrow> err + 'v list" where
  "scan_all un [] = Inr []"
| "scan_all un (x # xs) =
     (case scan_raw x of
        Inl e \<Rightarrow> Inl (raw_err e)
      | Inr raw \<Rightarrow> and_then (decode un raw) (\<lambda>v. and_then (scan_all un xs) (\<lambda>vs. Inr (v # vs))))"

definition pgList :: "('db, 'b) pgEngine \<Rightarrow> ('b \<Rightarrow> 'v option) \<Rightarrow> 'db \<Rightarrow> sqlQuery \<Rightarrow> 'b sqlVal list \<Rightarrow> err + 'v list" where
  "pgList E un db q ps =
     (case pg_query E q ps db of Inl e \<Rightarrow> Inl (ErrIO ''store: query'') | Inr xs \<Rightarrow> scan_all un xs)"

text \<open>A statement outside a transaction, and one inside: there an error ends the function.\<close>

definition pool_exec :: "('db, 'b) pgEngine \<Rightarrow> sqlStmt \<Rightarrow> 'b sqlVal list \<Rightarrow> 'db pgStore \<Rightarrow> (sqlErr + nat) \<times> 'db pgStore" where
  "pool_exec E st ps s = (case pg_exec E st ps (pgDB s) of (r, db) \<Rightarrow> (r, s\<lparr>pgDB := db\<rparr>))"

definition tx_exec :: "('db, 'b) pgEngine \<Rightarrow> sqlStmt \<Rightarrow> 'b sqlVal list \<Rightarrow> 'db \<Rightarrow> err + nat \<times> 'db" where
  "tx_exec E st ps db = (case pg_exec E st ps db of (Inl e, _) \<Rightarrow> Inl (raw_err e) | (Inr n, db') \<Rightarrow> Inr (n, db'))"

text \<open>\<open>tx\<close>: an error of the function rolls back, and the database is as it was.\<close>

definition pg_tx :: "('db, 'b) pgEngine \<Rightarrow> ('db \<Rightarrow> err + 'db) \<Rightarrow> 'db pgStore \<Rightarrow> err option \<times> 'db pgStore" where
  "pg_tx E f s =
     (case pg_begin E (pgDB s) of
        Some e \<Rightarrow> (Some (raw_err e), s)
      | None \<Rightarrow>
          (case f (pgDB s) of
             Inl e \<Rightarrow> (Some e, s)
           | Inr db1 \<Rightarrow> (case pg_commit E (pgDB s) db1 of (r, db2) \<Rightarrow> (map_option raw_err r, s\<lparr>pgDB := db2\<rparr>))))"

text \<open>The end of an insertion, and of an update or deletion that must have hit a row.\<close>

definition inserted :: "(sqlErr + nat) \<times> 'db pgStore \<Rightarrow> err option \<times> 'db pgStore" where
  "inserted x = (case x of (Inl e, s) \<Rightarrow> (mapWriteErr (Some e), s) | (Inr _, s) \<Rightarrow> (None, s))"

definition affected :: "(sqlErr \<Rightarrow> err option) \<Rightarrow> (sqlErr + nat) \<times> 'db pgStore \<Rightarrow> err option \<times> 'db pgStore" where
  "affected f x =
     (case x of
        (Inl e, s) \<Rightarrow> (f e, s)
      | (Inr n, s) \<Rightarrow> if n = 0 then (Some ErrNotFound, s) else (None, s))"

text \<open>\<open>data, err := encode(v); if err != nil return err\<close>.\<close>

definition with_data :: "('v \<Rightarrow> 'b option) \<Rightarrow> 'v \<Rightarrow> ('b \<Rightarrow> 's \<Rightarrow> err option \<times> 's) \<Rightarrow> 's \<Rightarrow> err option \<times> 's" where
  "with_data js v f s = (case encode js v of Inl e \<Rightarrow> (Some e, s) | Inr d \<Rightarrow> f d s)"

section \<open>Opening\<close>

definition initServerID :: "('db, 'b) pgEngine \<Rightarrow> string option \<Rightarrow> 'db pgStore \<Rightarrow> err option \<times> 'db pgStore" where
  "initServerID E newID s =
     (case newID of
        None \<Rightarrow> (Some (ErrIO ''security: reading random bytes''), s)
      | Some ident \<Rightarrow>
          (case pool_exec E (InsertInto ''meta'' [(''key'', Lit ''server_id''), (''value'', Param 1)] (DoNothing [''key'']))
               [SqlText ident] s of
             (Inl e, s1) \<Rightarrow> (Some (ErrIO ''store: seeding server id''), s1)
           | (Inr _, s1) \<Rightarrow>
               (case QueryRow E (SelectFrom ''value'' ''meta'' [(''key'', Lit ''server_id'')] False) [] (pgDB s1) of
                  Inl e \<Rightarrow> (Some (ErrIO ''store: reading server id''), s1)
                | Inr v \<Rightarrow>
                    (case scan_text v of
                       Inl e \<Rightarrow> (Some (ErrIO ''store: reading server id''), s1)
                     | Inr t \<Rightarrow> (None, s1\<lparr>pgServerID := t\<rparr>)))))"

text \<open>\<open>OpenPostgres\<close> on the database behind the connection string (\<open>None\<close>: the string does not parse); the
  second component is the database afterwards.\<close>

definition OpenPostgres :: "('db, 'b) pgEngine \<Rightarrow> 'db option \<Rightarrow> string option \<Rightarrow> err + 'db pgStore" where
  "OpenPostgres E conn newID =
     (case conn of
        None \<Rightarrow> Inl (ErrIO ''store: connecting to postgres'')
      | Some db \<Rightarrow>
          if pg_ping E db \<noteq> None then Inl (ErrIO ''store: pinging postgres'')
          else
            (case pool_exec E (CreateTables pgSchema) [] \<lparr>pgDB = db, pgServerID = []\<rparr> of
               (Inl e, _) \<Rightarrow> Inl (ErrIO ''store: initializing schema'')
             | (Inr _, s) \<Rightarrow> (case initServerID E newID s of (Some e, _) \<Rightarrow> Inl e | (None, s1) \<Rightarrow> Inr s1)))"

definition pg_ServerID :: "'db pgStore \<Rightarrow> string" where
  "pg_ServerID s = pgServerID s"

definition pg_Close :: "'db pgStore \<Rightarrow> err option \<times> 'db pgStore" where
  "pg_Close s = (None, s)"

section \<open>Users\<close>

definition pg_CreateUser :: "('db, 'b) pgEngine \<Rightarrow> User \<Rightarrow> 'db pgStore \<Rightarrow> err option \<times> 'db pgStore" where
  "pg_CreateUser E u = with_data (js_User E) u (\<lambda>data s.
     inserted (pool_exec E
       (InsertInto ''users'' [(''id'', Param 1), (''name_lower'', Lower (Param 2)), (''data'', Param 3)] Reject)
       [SqlText (uID u), SqlText (uName u), SqlJson data] s))"

definition pg_GetUserByID :: "('db, 'b) pgEngine \<Rightarrow> string \<Rightarrow> 'db pgStore \<Rightarrow> err + User" where
  "pg_GetUserByID E k s = pgGetByID E (un_User E) (pgDB s) (SelectFrom ''data'' ''users'' [(''id'', Param 1)] False) k"

definition pg_GetUserByName :: "('db, 'b) pgEngine \<Rightarrow> string \<Rightarrow> 'db pgStore \<Rightarrow> err + User" where
  "pg_GetUserByName E name s = found (un_User E)
     (query_raw E (SelectFrom ''data'' ''users'' [(''name_lower'', Lower (Param 1))] False) [SqlText name] (pgDB s))"

definition pg_ListUsers :: "('db, 'b) pgEngine \<Rightarrow> 'db pgStore \<Rightarrow> err + User list" where
  "pg_ListUsers E s = pgList E (un_User E) (pgDB s) (SelectFrom ''data'' ''users'' [] False) []"

definition pg_UpdateUser :: "('db, 'b) pgEngine \<Rightarrow> User \<Rightarrow> 'db pgStore \<Rightarrow> err option \<times> 'db pgStore" where
  "pg_UpdateUser E u = with_data (js_User E) u (\<lambda>data s.
     affected (\<lambda>e. mapWriteErr (Some e)) (pool_exec E
       (UpdateSet ''users'' [(''name_lower'', Lower (Param 2)), (''data'', Param 3)] [(''id'', Param 1)])
       [SqlText (uID u), SqlText (uName u), SqlJson data] s))"

definition pg_CountUsers :: "('db, 'b) pgEngine \<Rightarrow> 'db pgStore \<Rightarrow> err + nat" where
  "pg_CountUsers E s = (case pg_count E ''users'' (pgDB s) of Inl e \<Rightarrow> Inl (raw_err e) | Inr n \<Rightarrow> Inr n)"

section \<open>Sessions\<close>

definition pg_CreateSession :: "('db, 'b) pgEngine \<Rightarrow> Session \<Rightarrow> 'db pgStore \<Rightarrow> err option \<times> 'db pgStore" where
  "pg_CreateSession E x = with_data (js_Session E) x (\<lambda>data s.
     inserted (pool_exec E
       (InsertInto ''sessions'' [(''id'', Param 1), (''token_hash'', Param 2), (''data'', Param 3)] Reject)
       [SqlText (sID x), SqlText (sTokenHash x), SqlJson data] s))"

definition pg_GetSessionByTokenHash :: "('db, 'b) pgEngine \<Rightarrow> string \<Rightarrow> 'db pgStore \<Rightarrow> err + Session" where
  "pg_GetSessionByTokenHash E h s = found (un_Session E)
     (query_raw E (SelectFrom ''data'' ''sessions'' [(''token_hash'', Param 1)] False) [SqlText h] (pgDB s))"

definition pg_DeleteSession :: "('db, 'b) pgEngine \<Rightarrow> string \<Rightarrow> 'db pgStore \<Rightarrow> err option \<times> 'db pgStore" where
  "pg_DeleteSession E k s =
     affected (\<lambda>e. Some (raw_err e)) (pool_exec E (DeleteFrom ''sessions'' [(''id'', Param 1)]) [SqlText k] s)"

text \<open>The row a transaction reads first: no row is \<open>ErrNotFound\<close>, any other error is passed on.\<close>

definition tx_read :: "('db, 'b) pgEngine \<Rightarrow> ('b \<Rightarrow> 'v option) \<Rightarrow> sqlQuery \<Rightarrow> string \<Rightarrow> 'db \<Rightarrow> err + 'v" where
  "tx_read E un q k db =
     (case query_raw E q [SqlText k] db of
        Inl ErrNoRows \<Rightarrow> Inl ErrNotFound
      | Inl e \<Rightarrow> Inl (raw_err e)
      | Inr raw \<Rightarrow> decode un raw)"

definition pg_TouchSession :: "('db, 'b) pgEngine \<Rightarrow> time \<Rightarrow> string \<Rightarrow> 'db pgStore \<Rightarrow> err option \<times> 'db pgStore" where
  "pg_TouchSession E now k = pg_tx E (\<lambda>db.
     and_then (tx_read E (un_Session E) (SelectFrom ''data'' ''sessions'' [(''id'', Param 1)] True) k db) (\<lambda>sess.
     and_then (encode (js_Session E) (sess\<lparr>sLastActivity := now\<rparr>)) (\<lambda>data.
     and_then (tx_exec E (UpdateSet ''sessions'' [(''data'', Param 2)] [(''id'', Param 1)]) [SqlText k, SqlJson data] db)
       (\<lambda>(n, db1). Inr db1))))"

section \<open>Libraries\<close>

definition pg_CreateLibrary :: "('db, 'b) pgEngine \<Rightarrow> Library \<Rightarrow> 'db pgStore \<Rightarrow> err option \<times> 'db pgStore" where
  "pg_CreateLibrary E l = with_data (js_Library E) l (\<lambda>data s.
     inserted (pool_exec E
       (InsertInto ''libraries'' [(''id'', Param 1), (''path'', Param 2), (''data'', Param 3)] Reject)
       [SqlText (lID l), SqlText (lPath l), SqlJson data] s))"

definition pg_GetLibrary :: "('db, 'b) pgEngine \<Rightarrow> string \<Rightarrow> 'db pgStore \<Rightarrow> err + Library" where
  "pg_GetLibrary E k s = pgGetByID E (un_Library E) (pgDB s) (SelectFrom ''data'' ''libraries'' [(''id'', Param 1)] False) k"

definition pg_GetLibraryByPath :: "('db, 'b) pgEngine \<Rightarrow> string \<Rightarrow> 'db pgStore \<Rightarrow> err + Library" where
  "pg_GetLibraryByPath E path s = found (un_Library E)
     (query_raw E (SelectFrom ''data'' ''libraries'' [(''path'', Param 1)] False) [SqlText path] (pgDB s))"

definition pg_ListLibraries :: "('db, 'b) pgEngine \<Rightarrow> 'db pgStore \<Rightarrow> err + Library list" where
  "pg_ListLibraries E s = pgList E (un_Library E) (pgDB s) (SelectFrom ''data'' ''libraries'' [] False) []"

definition pg_DeleteLibrary :: "('db, 'b) pgEngine \<Rightarrow> string \<Rightarrow> 'db pgStore \<Rightarrow> err option \<times> 'db pgStore" where
  "pg_DeleteLibrary E k = pg_tx E (\<lambda>db.
     and_then (tx_exec E (DeleteFrom ''libraries'' [(''id'', Param 1)]) [SqlText k] db) (\<lambda>(n, db1).
     if n = 0 then Inl ErrNotFound
     else and_then (tx_exec E (DeleteFrom ''items'' [(''library_id'', Param 1)]) [SqlText k] db1) (\<lambda>(m, db2). Inr db2)))"

section \<open>Media items\<close>

definition pg_GetItem :: "('db, 'b) pgEngine \<Rightarrow> string \<Rightarrow> 'db pgStore \<Rightarrow> err + MediaItem" where
  "pg_GetItem E k s = pgGetByID E (un_Item E) (pgDB s) (SelectFrom ''data'' ''items'' [(''id'', Param 1)] False) k"

definition pg_ListItemsByLibrary :: "('db, 'b) pgEngine \<Rightarrow> string \<Rightarrow> 'db pgStore \<Rightarrow> err + MediaItem list" where
  "pg_ListItemsByLibrary E lib s =
     pgList E (un_Item E) (pgDB s) (SelectFrom ''data'' ''items'' [(''library_id'', Param 1)] False) [SqlText lib]"

definition pg_ListItemsByParent :: "('db, 'b) pgEngine \<Rightarrow> string \<Rightarrow> 'db pgStore \<Rightarrow> err + MediaItem list" where
  "pg_ListItemsByParent E p s =
     pgList E (un_Item E) (pgDB s) (SelectFrom ''data'' ''items'' [(''parent_id'', Param 1)] False) [SqlText p]"

definition pg_AllItems :: "('db, 'b) pgEngine \<Rightarrow> 'db pgStore \<Rightarrow> err + MediaItem list" where
  "pg_AllItems E s = pgList E (un_Item E) (pgDB s) (SelectFrom ''data'' ''items'' [] False) []"

text \<open>The loop that queues the batch: the arguments of one insertion per item. Its second loop reads the
  results of the queued statements in order and stops at the first error.\<close>

fun queue_items :: "('db, 'b) pgEngine \<Rightarrow> string \<Rightarrow> MediaItem list \<Rightarrow> err + 'b sqlVal list list" where
  "queue_items E lib [] = Inr []"
| "queue_items E lib (it # its) =
     (let clone = it\<lparr>mLibraryID := lib\<rparr>
      in and_then (encode (js_Item E) clone) (\<lambda>data.
         and_then (queue_items E lib its) (\<lambda>batch.
         Inr ([SqlText (mID clone), SqlText lib, SqlText (mParentID clone), SqlJson data] # batch))))"

fun send_batch :: "('db, 'b) pgEngine \<Rightarrow> sqlStmt \<Rightarrow> 'b sqlVal list list \<Rightarrow> 'db \<Rightarrow> err + 'db" where
  "send_batch E st [] db = Inr db"
| "send_batch E st (ps # batch) db = and_then (tx_exec E st ps db) (\<lambda>(n, db1). send_batch E st batch db1)"

definition insertItem :: sqlStmt where
  "insertItem = InsertInto ''items''
     [(''id'', Param 1), (''library_id'', Param 2), (''parent_id'', Param 3), (''data'', Param 4)] Reject"

definition pg_ReplaceLibraryItems :: "('db, 'b) pgEngine \<Rightarrow> time \<Rightarrow> string \<Rightarrow> MediaItem list \<Rightarrow> 'db pgStore \<Rightarrow> err option \<times> 'db pgStore" where
  "pg_ReplaceLibraryItems E now lib its = pg_tx E (\<lambda>db.
     and_then (tx_read E (un_Library E) (SelectFrom ''data'' ''libraries'' [(''id'', Param 1)] True) lib db) (\<lambda>l.
     and_then (tx_exec E (DeleteFrom ''items'' [(''library_id'', Param 1)]) [SqlText lib] db) (\<lambda>(n, db1).
     and_then (if its = [] then Inr db1
               else and_then (queue_items E lib its) (\<lambda>batch. send_batch E insertItem batch db1)) (\<lambda>db2.
     and_then (encode (js_Library E) (l\<lparr>lItemCount := int (length its), lScannedAt := now\<rparr>)) (\<lambda>data.
     and_then (tx_exec E (UpdateSet ''libraries'' [(''data'', Param 2)] [(''id'', Param 1)]) [SqlText lib, SqlJson data] db2)
       (\<lambda>(m, db3). Inr db3))))))"

section \<open>Per-user item data\<close>

definition pg_GetUserItemData :: "('db, 'b) pgEngine \<Rightarrow> string \<Rightarrow> string \<Rightarrow> 'db pgStore \<Rightarrow> err + UserItemData" where
  "pg_GetUserItemData E u i s = found (un_UserData E)
     (query_raw E (SelectFrom ''data'' ''user_item_data'' [(''user_id'', Param 1), (''item_id'', Param 2)] False)
       [SqlText u, SqlText i] (pgDB s))"

definition pg_UpsertUserItemData :: "('db, 'b) pgEngine \<Rightarrow> UserItemData \<Rightarrow> 'db pgStore \<Rightarrow> err option \<times> 'db pgStore" where
  "pg_UpsertUserItemData E d = with_data (js_UserData E) d (\<lambda>data s.
     (case pool_exec E
         (InsertInto ''user_item_data'' [(''user_id'', Param 1), (''item_id'', Param 2), (''data'', Param 3)]
           (DoUpdate [''user_id'', ''item_id''] ''data''))
         [SqlText (dUserID d), SqlText (dItemID d), SqlJson data] s of
        (Inl e, s1) \<Rightarrow> (Some (raw_err e), s1)
      | (Inr _, s1) \<Rightarrow> (None, s1)))"

definition pg_ListUserItemData :: "('db, 'b) pgEngine \<Rightarrow> string \<Rightarrow> 'db pgStore \<Rightarrow> err + UserItemData list" where
  "pg_ListUserItemData E u s =
     pgList E (un_UserData E) (pgDB s) (SelectFrom ''data'' ''user_item_data'' [(''user_id'', Param 1)] False) [SqlText u]"

section \<open>Recordings and series timers\<close>

definition pg_CreateRecording :: "('db, 'b) pgEngine \<Rightarrow> Recording \<Rightarrow> 'db pgStore \<Rightarrow> err option \<times> 'db pgStore" where
  "pg_CreateRecording E x = with_data (js_Recording E) x (\<lambda>data s.
     inserted (pool_exec E (InsertInto ''recordings'' [(''id'', Param 1), (''data'', Param 2)] Reject)
       [SqlText (rID x), SqlJson data] s))"

definition pg_GetRecording :: "('db, 'b) pgEngine \<Rightarrow> string \<Rightarrow> 'db pgStore \<Rightarrow> err + Recording" where
  "pg_GetRecording E k s = pgGetByID E (un_Recording E) (pgDB s) (SelectFrom ''data'' ''recordings'' [(''id'', Param 1)] False) k"

definition pg_ListRecordings :: "('db, 'b) pgEngine \<Rightarrow> 'db pgStore \<Rightarrow> err + Recording list" where
  "pg_ListRecordings E s = pgList E (un_Recording E) (pgDB s) (SelectFrom ''data'' ''recordings'' [] False) []"

definition pg_UpdateRecording :: "('db, 'b) pgEngine \<Rightarrow> Recording \<Rightarrow> 'db pgStore \<Rightarrow> err option \<times> 'db pgStore" where
  "pg_UpdateRecording E x = with_data (js_Recording E) x (\<lambda>data s.
     affected (\<lambda>e. Some (raw_err e)) (pool_exec E
       (UpdateSet ''recordings'' [(''data'', Param 2)] [(''id'', Param 1)]) [SqlText (rID x), SqlJson data] s))"

definition pg_DeleteRecording :: "('db, 'b) pgEngine \<Rightarrow> string \<Rightarrow> 'db pgStore \<Rightarrow> err option \<times> 'db pgStore" where
  "pg_DeleteRecording E k s =
     affected (\<lambda>e. Some (raw_err e)) (pool_exec E (DeleteFrom ''recordings'' [(''id'', Param 1)]) [SqlText k] s)"

definition pg_CreateSeriesTimer :: "('db, 'b) pgEngine \<Rightarrow> SeriesTimer \<Rightarrow> 'db pgStore \<Rightarrow> err option \<times> 'db pgStore" where
  "pg_CreateSeriesTimer E x = with_data (js_Series E) x (\<lambda>data s.
     inserted (pool_exec E (InsertInto ''series_timers'' [(''id'', Param 1), (''data'', Param 2)] Reject)
       [SqlText (tID x), SqlJson data] s))"

definition pg_GetSeriesTimer :: "('db, 'b) pgEngine \<Rightarrow> string \<Rightarrow> 'db pgStore \<Rightarrow> err + SeriesTimer" where
  "pg_GetSeriesTimer E k s = pgGetByID E (un_Series E) (pgDB s) (SelectFrom ''data'' ''series_timers'' [(''id'', Param 1)] False) k"

definition pg_ListSeriesTimers :: "('db, 'b) pgEngine \<Rightarrow> 'db pgStore \<Rightarrow> err + SeriesTimer list" where
  "pg_ListSeriesTimers E s = pgList E (un_Series E) (pgDB s) (SelectFrom ''data'' ''series_timers'' [] False) []"

definition pg_DeleteSeriesTimer :: "('db, 'b) pgEngine \<Rightarrow> string \<Rightarrow> 'db pgStore \<Rightarrow> err option \<times> 'db pgStore" where
  "pg_DeleteSeriesTimer E k s =
     affected (\<lambda>e. Some (raw_err e)) (pool_exec E (DeleteFrom ''series_timers'' [(''id'', Param 1)]) [SqlText k] s)"

section \<open>The implementation as a dictionary\<close>

definition pg_store :: "('db, 'b) pgEngine \<Rightarrow> 'db pgStore Store" where
  "pg_store E = \<lparr>ServerID = pg_ServerID,
     CreateUser = pg_CreateUser E, GetUserByID = pg_GetUserByID E, GetUserByName = pg_GetUserByName E,
     ListUsers = pg_ListUsers E, UpdateUser = pg_UpdateUser E, CountUsers = pg_CountUsers E,
     CreateSession = pg_CreateSession E, GetSessionByTokenHash = pg_GetSessionByTokenHash E,
     DeleteSession = pg_DeleteSession E, TouchSession = pg_TouchSession E,
     CreateLibrary = pg_CreateLibrary E, GetLibrary = pg_GetLibrary E, GetLibraryByPath = pg_GetLibraryByPath E,
     ListLibraries = pg_ListLibraries E, DeleteLibrary = pg_DeleteLibrary E,
     GetItem = pg_GetItem E, ListItemsByLibrary = pg_ListItemsByLibrary E,
     ListItemsByParent = pg_ListItemsByParent E, AllItems = pg_AllItems E,
     ReplaceLibraryItems = pg_ReplaceLibraryItems E,
     GetUserItemData = pg_GetUserItemData E, UpsertUserItemData = pg_UpsertUserItemData E,
     ListUserItemData = pg_ListUserItemData E,
     CreateRecording = pg_CreateRecording E, GetRecording = pg_GetRecording E, ListRecordings = pg_ListRecordings E,
     UpdateRecording = pg_UpdateRecording E, DeleteRecording = pg_DeleteRecording E,
     CreateSeriesTimer = pg_CreateSeriesTimer E, GetSeriesTimer = pg_GetSeriesTimer E,
     ListSeriesTimers = pg_ListSeriesTimers E, DeleteSeriesTimer = pg_DeleteSeriesTimer E,
     CloseStore = pg_Close\<rparr>"

end
