(* ===== verification/PgEngine.thy ===== *)
theory PgEngine
  imports PgStore StoreOps
begin

text \<open>
  What the PostgreSQL store relies on. \<open>sql_apply\<close> and \<open>sql_select\<close> are the reference meaning of the
  statements on a database seen as named tables of rows, uniqueness constraints included; \<open>pgView\<close> is how
  an engine's database is seen that way, with the server's \<open>lower\<close>, its normal form of \<open>jsonb\<close> values and the
  values it can store (text holds no zero byte); \<open>pg_ok\<close> states that the server follows the
  meaning, or fails without an effect the caller could not tell. The locale \<open>pg_entity\<close> is one table of records, and
  says what the statements do to the records in it.
\<close>

section \<open>The meaning of the statements\<close>

type_synonym 'b row = "(string \<times> 'b sqlVal) list"

record 'b pgTable =
  ptUnique :: "string list list"
  ptRows :: "'b row list"

type_synonym 'b pgData = "string \<rightharpoonup> 'b pgTable"

record ('db, 'b) pgView =
  pv_tables :: "'db \<Rightarrow> 'b pgData"
  pv_lower :: "string \<Rightarrow> string"
  pv_jsonb :: "'b \<Rightarrow> 'b"
  pv_valid :: "'b sqlVal \<Rightarrow> bool"

fun sql_eval :: "('db, 'b) pgView \<Rightarrow> 'b sqlVal list \<Rightarrow> sqlExp \<Rightarrow> 'b sqlVal" where
  "sql_eval V ps (Lit t) = SqlText t"
| "sql_eval V ps (Param n) =
     (case ps ! (n - 1) of SqlText t \<Rightarrow> SqlText t | SqlJson d \<Rightarrow> SqlJson (pv_jsonb V d))"
| "sql_eval V ps (Lower e) =
     (case sql_eval V ps e of SqlText t \<Rightarrow> SqlText (pv_lower V t) | SqlJson d \<Rightarrow> SqlJson d)"

definition row_matches :: "('db, 'b) pgView \<Rightarrow> 'b sqlVal list \<Rightarrow> assigns \<Rightarrow> 'b row \<Rightarrow> bool" where
  "row_matches V ps wh r \<longleftrightarrow> list_all (\<lambda>(c, e). map_of r c = Some (sql_eval V ps e)) wh"

definition set_row :: "('db, 'b) pgView \<Rightarrow> 'b sqlVal list \<Rightarrow> assigns \<Rightarrow> 'b row \<Rightarrow> 'b row" where
  "set_row V ps asg = map (\<lambda>(c, x). (c, case map_of asg c of None \<Rightarrow> x | Some e \<Rightarrow> sql_eval V ps e))"

definition new_row :: "('db, 'b) pgView \<Rightarrow> 'b sqlVal list \<Rightarrow> assigns \<Rightarrow> 'b row" where
  "new_row V ps asg = map (\<lambda>(c, e). (c, sql_eval V ps e)) asg"

definition row_key :: "string list \<Rightarrow> 'b row \<Rightarrow> 'b sqlVal option list" where
  "row_key ks r = map (map_of r) ks"

definition keys_ok :: "string list list \<Rightarrow> 'b row list \<Rightarrow> bool" where
  "keys_ok uniq rows \<longleftrightarrow> list_all (\<lambda>ks. distinct (map (row_key ks) rows)) uniq"

definition unique_violation :: sqlErr where "unique_violation = PgError ''23505''"

text \<open>New rows of a table, if they keep its constraints.\<close>

definition checked :: "string \<Rightarrow> 'b pgTable \<Rightarrow> 'b pgData \<Rightarrow> nat \<Rightarrow> 'b row list \<Rightarrow> sqlErr + nat \<times> 'b pgData" where
  "checked t T D n rows =
     (if keys_ok (ptUnique T) rows then Inr (n, D(t \<mapsto> T\<lparr>ptRows := rows\<rparr>)) else Inl unique_violation)"

definition create_table :: "sqlTable \<Rightarrow> 'b pgData \<Rightarrow> 'b pgData" where
  "create_table t D =
     (case D (tbName t) of None \<Rightarrow> D(tbName t \<mapsto> \<lparr>ptUnique = tbUnique t, ptRows = []\<rparr>) | Some _ \<Rightarrow> D)"

fun sql_apply :: "('db, 'b) pgView \<Rightarrow> sqlStmt \<Rightarrow> 'b sqlVal list \<Rightarrow> 'b pgData \<Rightarrow> sqlErr + nat \<times> 'b pgData" where
  "sql_apply V (CreateTables ts) ps D = Inr (0, fold create_table ts D)"
| "sql_apply V (InsertInto t asg oc) ps D =
     (case D t of
        None \<Rightarrow> Inl (PgError ''42P01'')
      | Some T \<Rightarrow>
          let new = new_row V ps asg; rows = ptRows T in
          (case oc of
             Reject \<Rightarrow> checked t T D 1 (rows @ [new])
           | DoNothing ks \<Rightarrow>
               if list_ex (\<lambda>r. row_key ks r = row_key ks new) rows then Inr (0, D)
               else checked t T D 1 (rows @ [new])
           | DoUpdate ks c \<Rightarrow>
               if list_ex (\<lambda>r. row_key ks r = row_key ks new) rows
               then checked t T D 1 (map (\<lambda>r. if row_key ks r = row_key ks new
                      then map (\<lambda>(c', x). (c', if c' = c then the (map_of new c) else x)) r else r) rows)
               else checked t T D 1 (rows @ [new])))"
| "sql_apply V (UpdateSet t asg wh) ps D =
     (case D t of
        None \<Rightarrow> Inl (PgError ''42P01'')
      | Some T \<Rightarrow> checked t T D (length (filter (row_matches V ps wh) (ptRows T)))
          (map (\<lambda>r. if row_matches V ps wh r then set_row V ps asg r else r) (ptRows T)))"
| "sql_apply V (DeleteFrom t wh) ps D =
     (case D t of
        None \<Rightarrow> Inl (PgError ''42P01'')
      | Some T \<Rightarrow> Inr (length (filter (row_matches V ps wh) (ptRows T)),
          D(t \<mapsto> T\<lparr>ptRows := filter (\<lambda>r. \<not> row_matches V ps wh r) (ptRows T)\<rparr>)))"

definition sql_rows :: "('db, 'b) pgView \<Rightarrow> 'b sqlVal list \<Rightarrow> string \<Rightarrow> assigns \<Rightarrow> 'b pgData \<Rightarrow> 'b row list" where
  "sql_rows V ps t wh D = (case D t of None \<Rightarrow> [] | Some T \<Rightarrow> filter (row_matches V ps wh) (ptRows T))"

section \<open>What the server promises\<close>

definition pg_codec_ok :: "('db, 'b) pgView \<Rightarrow> ('v \<Rightarrow> 'b option) \<Rightarrow> ('b \<Rightarrow> 'v option) \<Rightarrow> bool" where
  "pg_codec_ok V js un \<longleftrightarrow> (\<forall>v d. js v = Some d \<longrightarrow> un (pv_jsonb V d) = Some v)"

text \<open>A statement that succeeds had its meaning; one that fails had no effect, or the connection broke after the
  effect; a unique violation is reported only when there is one, and then (the values being storable) always;
  a statement that has nothing to change is answered.\<close>

definition exec_ok :: "('db, 'b) pgEngine \<Rightarrow> ('db, 'b) pgView \<Rightarrow> bool" where
  "exec_ok E V \<longleftrightarrow>
     (\<forall>st ps db n db'. pg_exec E st ps db = (Inr n, db') \<longrightarrow>
        sql_apply V st ps (pv_tables V db) = Inr (n, pv_tables V db')) \<and>
     (\<forall>st ps db e db'. pg_exec E st ps db = (Inl e, db') \<longrightarrow>
        pv_tables V db' = pv_tables V db \<or>
        (\<exists>msg n. e = ConnError msg \<and> sql_apply V st ps (pv_tables V db) = Inr (n, pv_tables V db'))) \<and>
     (\<forall>st ps db db'. pg_exec E st ps db = (Inl unique_violation, db') \<longrightarrow>
        sql_apply V st ps (pv_tables V db) = Inl unique_violation) \<and>
     (\<forall>st ps db. list_all (pv_valid V) ps \<longrightarrow>
        (sql_apply V st ps (pv_tables V db) = Inl unique_violation \<longrightarrow> fst (pg_exec E st ps db) = Inl unique_violation) \<and>
        (sql_apply V st ps (pv_tables V db) = Inr (0, pv_tables V db) \<longrightarrow> fst (pg_exec E st ps db) = Inr 0))"

text \<open>A query on an existing table answers the matching rows in some order; a transaction begins; a commit that
  fails leaves either state.\<close>

definition read_ok :: "('db, 'b) pgEngine \<Rightarrow> ('db, 'b) pgView \<Rightarrow> bool" where
  "read_ok E V \<longleftrightarrow>
     (\<forall>col t wh fu ps db. pv_tables V db t \<noteq> None \<longrightarrow> list_all (pv_valid V) ps \<longrightarrow>
        (\<exists>vs. pg_query E (SelectFrom col t wh fu) ps db = Inr vs \<and>
          mset vs = mset (map (\<lambda>r. the (map_of r col)) (sql_rows V ps t wh (pv_tables V db))))) \<and>
     (\<forall>t db T. pv_tables V db t = Some T \<longrightarrow> pg_count E t db = Inr (length (ptRows T))) \<and>
     (\<forall>db. pg_begin E db = None) \<and>
     (\<forall>db db1 r db2. pg_commit E db db1 = (r, db2) \<longrightarrow>
        pv_tables V db2 = pv_tables V db1 \<or> (r \<noteq> None \<and> pv_tables V db2 = pv_tables V db))"

definition pg_ok :: "('db, 'b) pgEngine \<Rightarrow> ('db, 'b) pgView \<Rightarrow> bool" where
  "pg_ok E V \<longleftrightarrow> exec_ok E V \<and> read_ok E V \<and>
     (\<forall>a b. pv_lower V a = pv_lower V b \<longleftrightarrow> EqualFold a b) \<and>
     (\<forall>t. pv_valid V (SqlText t) \<longrightarrow> no_nul t) \<and>
     pg_codec_ok V (js_User E) (un_User E) \<and> pg_codec_ok V (js_Session E) (un_Session E) \<and>
     pg_codec_ok V (js_Library E) (un_Library E) \<and> pg_codec_ok V (js_Item E) (un_Item E) \<and>
     pg_codec_ok V (js_UserData E) (un_UserData E) \<and> pg_codec_ok V (js_Recording E) (un_Recording E) \<and>
     pg_codec_ok V (js_Series E) (un_Series E)"

lemma read_okD:
  assumes "read_ok E V"
  shows "pv_tables V db t = Some T \<Longrightarrow> list_all (pv_valid V) ps \<Longrightarrow>
      \<exists>vs. pg_query E (SelectFrom col t wh fu) ps db = Inr vs \<and>
        mset vs = mset (map (\<lambda>r. the (map_of r col)) (sql_rows V ps t wh (pv_tables V db)))"
    and "pv_tables V db t = Some T \<Longrightarrow> pg_count E t db = Inr (length (ptRows T))"
    and "pg_begin E db = None"
    and "pg_commit E db db1 = (r, db2) \<Longrightarrow>
      pv_tables V db2 = pv_tables V db1 \<or> (r \<noteq> None \<and> pv_tables V db2 = pv_tables V db)"
  using assms [unfolded read_ok_def] by (blast, blast, blast, blast)

lemma exec_cases:
  assumes "exec_ok E V" "sql_apply V st ps (pv_tables V db) = Inr (n, D)" "pg_exec E st ps db = (r, db')"
  obtains (ok) "r = Inr n" "pv_tables V db' = D"
  | (failed) e where "r = Inl e" "e \<noteq> unique_violation" "pv_tables V db' = pv_tables V db \<or> pv_tables V db' = D"
proof (cases r)
  case (Inl e)
  from assms(1,3) have eff: "pv_tables V db' = pv_tables V db \<or>
      (\<exists>msg m. e = ConnError msg \<and> sql_apply V st ps (pv_tables V db) = Inr (m, pv_tables V db'))"
    unfolding exec_ok_def Inl by blast
  have "e \<noteq> unique_violation"
  proof
    assume "e = unique_violation"
    with assms(1,3) have "sql_apply V st ps (pv_tables V db) = Inl unique_violation"
      unfolding exec_ok_def Inl by blast
    with assms(2) show False by simp
  qed
  with Inl eff assms(2) show ?thesis by (intro failed) auto
next
  case (Inr m)
  from assms(1,3) have "sql_apply V st ps (pv_tables V db) = Inr (m, pv_tables V db')"
    unfolding exec_ok_def Inr by blast
  with assms(2) Inr show ?thesis by (intro ok) auto
qed

lemma exec_unique:
  assumes "exec_ok E V" "sql_apply V st ps (pv_tables V db) = Inl unique_violation" "list_all (pv_valid V) ps"
  shows "\<exists>db'. pg_exec E st ps db = (Inl unique_violation, db') \<and> pv_tables V db' = pv_tables V db"
proof -
  have fst: "fst (pg_exec E st ps db) = Inl unique_violation" using assms unfolding exec_ok_def by blast
  then obtain db' where x: "pg_exec E st ps db = (Inl unique_violation, db')" by (metis prod.collapse)
  with assms(1) have "pv_tables V db' = pv_tables V db \<or>
      (\<exists>msg n. unique_violation = ConnError msg \<and> sql_apply V st ps (pv_tables V db) = Inr (n, pv_tables V db'))"
    unfolding exec_ok_def by blast
  with x show ?thesis by (auto simp: unique_violation_def)
qed

lemma exec_none:
  assumes "exec_ok E V" "sql_apply V st ps (pv_tables V db) = Inr (0, pv_tables V db)" "list_all (pv_valid V) ps"
  shows "\<exists>db'. pg_exec E st ps db = (Inr 0, db') \<and> pv_tables V db' = pv_tables V db"
proof -
  have "fst (pg_exec E st ps db) = Inr 0" using assms unfolding exec_ok_def by blast
  then obtain db' where "pg_exec E st ps db = (Inr 0, db')" by (metis prod.collapse)
  with exec_cases [OF assms(1,2) this] show ?thesis by (metis sum.distinct(2))
qed

section \<open>Rows that hold records\<close>

text \<open>The row of a record: its indexed columns and its encoding.\<close>

definition mk_row :: "(string \<times> string) list \<Rightarrow> 'b \<Rightarrow> 'b row" where
  "mk_row cs d = map (\<lambda>(c, t). (c, SqlText t)) cs @ [(''data'', SqlJson d)]"

definition row_val :: "('b \<Rightarrow> 'v option) \<Rightarrow> 'b row \<Rightarrow> 'v option" where
  "row_val un r = (case map_of r ''data'' of Some (SqlJson d) \<Rightarrow> un d | _ \<Rightarrow> None)"

definition tvals :: "('b \<Rightarrow> 'v option) \<Rightarrow> 'b pgTable \<Rightarrow> 'v list" where
  "tvals un T = map (\<lambda>r. the (row_val un r)) (ptRows T)"

definition tmap :: "('b \<Rightarrow> 'v option) \<Rightarrow> ('v \<Rightarrow> string) \<Rightarrow> 'b pgTable \<Rightarrow> (string \<rightharpoonup> 'v)" where
  "tmap un key T = map_of (map (\<lambda>v. (key v, v)) (tvals un T))"

definition row_ok :: "('b \<Rightarrow> 'v option) \<Rightarrow> ('v \<Rightarrow> (string \<times> string) list) \<Rightarrow> ('v \<Rightarrow> bool) \<Rightarrow> 'b row \<Rightarrow> bool" where
  "row_ok un cols R r \<longleftrightarrow> (\<exists>v d. un d = Some v \<and> r = mk_row (cols v) d \<and> R v)"

definition tok :: "string list list \<Rightarrow> ('b \<Rightarrow> 'v option) \<Rightarrow> ('v \<Rightarrow> (string \<times> string) list) \<Rightarrow> ('v \<Rightarrow> bool) \<Rightarrow> 'b pgTable \<Rightarrow> bool" where
  "tok uniq un cols R T \<longleftrightarrow>
     ptUnique T = uniq \<and> keys_ok uniq (ptRows T) \<and> (\<forall>r \<in> set (ptRows T). row_ok un cols R r)"

definition col_key :: "(string \<times> string) list \<Rightarrow> string list \<Rightarrow> string option list" where
  "col_key cs ks = map (map_of cs) ks"

lemma map_of_texts: "map_of (map (\<lambda>(c, t). (c, SqlText t)) cs) c = map_option SqlText (map_of cs c)"
  by (induction cs) auto

lemma row_val_mk: "''data'' \<notin> fst ` set cs \<Longrightarrow> row_val un (mk_row cs d) = un d"
proof -
  assume "''data'' \<notin> fst ` set cs"
  then have "map_of cs ''data'' = None" by (simp add: map_of_eq_None_iff)
  then show ?thesis by (simp add: row_val_def mk_row_def map_of_texts map_add_def)
qed

lemma map_of_data: "''data'' \<notin> fst ` set cs \<Longrightarrow> map_of (mk_row cs d) ''data'' = Some (SqlJson d)"
proof -
  assume "''data'' \<notin> fst ` set cs"
  then have "map_of cs ''data'' = None" by (simp add: map_of_eq_None_iff)
  then show ?thesis by (simp add: mk_row_def map_of_texts map_add_def)
qed

lemma row_key_mk:
  assumes "set ks \<subseteq> fst ` set cs"
  shows "row_key ks (mk_row cs d) = map (map_option SqlText) (col_key cs ks)"
proof -
  have "map_of (mk_row cs d) c = map_option SqlText (map_of cs c)" if "c \<in> set ks" for c
  proof -
    have "map_of cs c \<noteq> None" using that assms by (auto simp: map_of_eq_None_iff)
    then show ?thesis by (auto simp: mk_row_def map_of_texts map_add_def)
  qed
  then show ?thesis by (simp add: row_key_def col_key_def)
qed

lemma text_keys_inject:
  "map (map_option (SqlText :: string \<Rightarrow> 'b sqlVal)) xs = map (map_option SqlText) ys \<longleftrightarrow> xs = ys"
proof -
  have "inj (map_option (SqlText :: string \<Rightarrow> 'b sqlVal))"
    by (intro option.inj_map) (simp add: inj_def)
  then show ?thesis by (simp add: inj_map_eq_map)
qed

lemma distinct_map_le:
  "distinct (map g xs) \<Longrightarrow> (\<And>x y. x \<in> set xs \<Longrightarrow> y \<in> set xs \<Longrightarrow> h x = h y \<Longrightarrow> g x = g y) \<Longrightarrow> distinct (map h xs)"
  unfolding distinct_map inj_on_def by blast

lemma map_of_vals_in:
  assumes "distinct (map key vs)"
  shows "map_of (map (\<lambda>v. (key v, v)) vs) k = Some v \<longleftrightarrow> v \<in> set vs \<and> key v = k"
proof -
  have "distinct (map fst (map (\<lambda>v. (key v, v)) vs))" using assms by (simp add: comp_def)
  from map_of_eq_Some_iff [OF this] show ?thesis by auto
qed

section \<open>A table of records\<close>

locale pg_entity =
  fixes uniq :: "string list list" and un :: "'b \<Rightarrow> 'v option" and cols :: "'v \<Rightarrow> (string \<times> string) list"
    and key :: "'v \<Rightarrow> string" and R :: "'v \<Rightarrow> bool" and pk :: "string list"
  assumes pk_unique: "pk \<in> set uniq"
    and no_data: "''data'' \<notin> fst ` set (cols v)"
    and uniq_cols: "ks \<in> set uniq \<Longrightarrow> set ks \<subseteq> fst ` set (cols v)"
    and pk_key: "R v \<Longrightarrow> R w \<Longrightarrow> col_key (cols v) pk = col_key (cols w) pk \<longleftrightarrow> key v = key w"
begin

definition vkeys_ok :: "'v list \<Rightarrow> bool" where
  "vkeys_ok vs \<longleftrightarrow> (\<forall>ks \<in> set uniq. distinct (map (\<lambda>v. col_key (cols v) ks) vs))"

lemma row_val_row [simp]: "row_val un (mk_row (cols v) d) = un d"
  by (rule row_val_mk [OF no_data])

lemma row_key_row: "ks \<in> set uniq \<Longrightarrow> row_key ks (mk_row (cols v) d) = map (map_option SqlText) (col_key (cols v) ks)"
  by (rule row_key_mk [OF uniq_cols])

lemma keys_ok_vals:
  assumes "\<forall>r \<in> set rows. row_ok un cols R r"
  shows "keys_ok uniq rows \<longleftrightarrow> vkeys_ok (map (\<lambda>r. the (row_val un r)) rows)"
proof -
  have "distinct (map (row_key ks) rows) \<longleftrightarrow> distinct (map (\<lambda>v. col_key (cols v) ks) (map (\<lambda>r. the (row_val un r)) rows))"
    if ks: "ks \<in> set uniq" for ks
  proof -
    have "row_key ks r = map (map_option SqlText) (col_key (cols (the (row_val un r))) ks)" if "r \<in> set rows" for r
    proof -
      from assms that obtain v d where "un d = Some v" "r = mk_row (cols v) d" by (auto simp: row_ok_def)
      then show ?thesis by (simp add: row_key_row [OF ks])
    qed
    then have "map (row_key ks) rows = map (map (map_option SqlText)) (map (\<lambda>v. col_key (cols v) ks) (map (\<lambda>r. the (row_val un r)) rows))"
      by simp
    moreover have "inj (map (map_option (SqlText :: string \<Rightarrow> 'b sqlVal)))"
      by (simp add: inj_def text_keys_inject)
    then have "\<And>xs. distinct (map (map (map_option (SqlText :: string \<Rightarrow> 'b sqlVal))) xs) = distinct xs"
      by (simp add: distinct_map inj_on_def inj_def)
    ultimately show ?thesis by (simp only:)
  qed
  then show ?thesis by (auto simp: keys_ok_def vkeys_ok_def list_all_iff)
qed

lemma row_okD: "row_ok un cols R r \<Longrightarrow> \<exists>v d. row_val un r = Some v \<and> un d = Some v \<and> r = mk_row (cols v) d \<and> R v"
  by (auto simp: row_ok_def)

lemma tok_vals:
  assumes "tok uniq un cols R T"
  shows "vkeys_ok (tvals un T) \<and> (\<forall>v \<in> set (tvals un T). R v)"
proof -
  have rows: "\<forall>r \<in> set (ptRows T). row_ok un cols R r" using assms by (simp add: tok_def)
  then have "\<forall>v \<in> set (tvals un T). R v" using row_okD by (fastforce simp: tvals_def)
  with keys_ok_vals [OF rows] assms show ?thesis by (simp add: tok_def tvals_def)
qed

lemma tok_rows:
  "ptUnique T = uniq \<Longrightarrow> \<forall>r \<in> set rows. row_ok un cols R r \<Longrightarrow> vkeys_ok (map (\<lambda>r. the (row_val un r)) rows) \<Longrightarrow>
   tok uniq un cols R (T\<lparr>ptRows := rows\<rparr>)"
  by (simp add: tok_def keys_ok_vals)

lemma vkeys_distinct: "vkeys_ok vs \<Longrightarrow> \<forall>v \<in> set vs. R v \<Longrightarrow> distinct (map key vs)"
  by (rule distinct_map_le [of "\<lambda>v. col_key (cols v) pk"]) (use pk_unique vkeys_ok_def pk_key in blast)+

lemma tok_distinct: "tok uniq un cols R T \<Longrightarrow> distinct (map key (tvals un T))"
  using tok_vals vkeys_distinct by blast

lemma tmap_in: "tok uniq un cols R T \<Longrightarrow> tmap un key T k = Some v \<longleftrightarrow> v \<in> set (tvals un T) \<and> key v = k"
  unfolding tmap_def using map_of_vals_in [OF tok_distinct] .

lemma tmap_ran: "tok uniq un cols R T \<Longrightarrow> ran (tmap un key T) = set (tvals un T)"
  by (auto simp: ran_def tmap_in)

lemma tmap_None: "tmap un key T k = None \<longleftrightarrow> (\<forall>v \<in> set (tvals un T). key v \<noteq> k)"
  by (force simp: tmap_def map_of_eq_None_iff)

end

end
