(* ===== verification/PgTables.thy ===== *)
theory PgTables
  imports PgEngine
begin

text \<open>
  What each statement does to a table of records, once for all tables: inside the locale \<open>pg_entity\<close>, the
  meaning of an insertion, an update by key, an upsert, a deletion and a selection is a change of the map from
  identifiers to records, or a unique violation exactly when another record has one of its unique columns.
\<close>

lemma map_where_Some: "map_where P m k = Some v \<longleftrightarrow> m k = Some v \<and> P v"
  by (auto simp: map_where_def split: option.splits)

lemma map_ext_Some: "(\<And>k v. m k = Some v \<longleftrightarrow> m' k = Some v) \<Longrightarrow> m = m'"
  by (rule ext) (metis not_Some_eq)

lemma distinct_middle: "distinct (map f (xs @ v # ys)) \<longleftrightarrow> distinct (map f (xs @ ys)) \<and> f v \<notin> f ` set (xs @ ys)"
  by auto

lemma map_upd_middle:
  assumes "distinct (map key vs)" "w \<in> set vs" "key w = k"
  obtains xs ys where "vs = xs @ w # ys" "map (\<lambda>u. if key u = k then v' else u) vs = xs @ v' # ys"
    "set (xs @ ys) = {u \<in> set vs. key u \<noteq> k}"
proof -
  from assms(2) obtain xs ys where vs: "vs = xs @ w # ys" by (auto simp: in_set_conv_decomp)
  then have "key w \<notin> key ` set (xs @ ys)" using assms(1) by auto
  then have other: "\<forall>u \<in> set (xs @ ys). key u \<noteq> k" using assms(3) by (metis imageI)
  then have "map (\<lambda>u. if key u = k then v' else u) xs = xs" "map (\<lambda>u. if key u = k then v' else u) ys = ys"
    by (auto intro: map_idI)
  with other vs assms(3) show ?thesis by (intro that [of xs ys]) auto
qed

lemma mset_map_preimage: "mset xs = mset (map f ys) \<Longrightarrow> \<exists>zs. xs = map f zs \<and> mset zs = mset ys"
proof (induction xs arbitrary: ys)
  case (Cons x xs)
  from Cons.prems have "x \<in> set (map f ys)" by (metis list.set_intros(1) mset_eq_setD)
  then obtain y where y: "x = f y" "y \<in> set ys" by auto
  then obtain ys1 ys2 where ys: "ys = ys1 @ y # ys2" by (auto simp: in_set_conv_decomp)
  with Cons.prems y(1) have "mset xs = mset (map f (ys1 @ ys2))" by simp
  from Cons.IH [OF this] obtain zs where "xs = map f zs" "mset zs = mset (ys1 @ ys2)" by blast
  with y(1) ys show ?case by (intro exI [of _ "y # zs"]) simp
qed simp

context pg_entity begin

definition fresh :: "'b pgTable \<Rightarrow> 'v \<Rightarrow> bool" where
  "fresh T v \<longleftrightarrow> (\<forall>ks \<in> set uniq. \<forall>w \<in> set (tvals un T). col_key (cols w) ks \<noteq> col_key (cols v) ks)"

definition clash :: "'b pgTable \<Rightarrow> 'v \<Rightarrow> bool" where
  "clash T v \<longleftrightarrow> (\<exists>ks \<in> set uniq. \<exists>w \<in> set (tvals un T). key w \<noteq> key v \<and> col_key (cols w) ks = col_key (cols v) ks)"

lemma tmapI:
  assumes "tok uniq un cols R T" "\<And>k v. m k = Some v \<longleftrightarrow> v \<in> set (tvals un T) \<and> key v = k"
  shows "tmap un key T = m"
proof
  fix k
  show "tmap un key T k = m k"
    using tmap_in [OF assms(1), of k] assms(2) [of k]
    by (cases "tmap un key T k"; cases "m k") auto
qed

lemma tokD: "tok uniq un cols R T \<Longrightarrow> ptUnique T = uniq" "tok uniq un cols R T \<Longrightarrow> r \<in> set (ptRows T) \<Longrightarrow> row_ok un cols R r"
  by (simp_all add: tok_def)

lemma fresh_vkeys: "vkeys_ok (tvals un T) \<Longrightarrow> vkeys_ok (tvals un T @ [v]) \<longleftrightarrow> fresh T v"
  unfolding vkeys_ok_def fresh_def by (simp add: image_iff) metis

lemma fresh_key: "tok uniq un cols R T \<Longrightarrow> R v \<Longrightarrow> fresh T v \<Longrightarrow> w \<in> set (tvals un T) \<Longrightarrow> key w \<noteq> key v"
  using pk_unique pk_key tok_vals by (metis fresh_def)

section \<open>Insertion\<close>

lemma add_row:
  assumes T: "tok uniq un cols R T" and v: "un d = Some v" "R v"
  shows "keys_ok uniq (ptRows T @ [mk_row (cols v) d]) \<longleftrightarrow> fresh T v"
    and "fresh T v \<Longrightarrow> tok uniq un cols R (T\<lparr>ptRows := ptRows T @ [mk_row (cols v) d]\<rparr>) \<and>
      tmap un key (T\<lparr>ptRows := ptRows T @ [mk_row (cols v) d]\<rparr>) = (tmap un key T)(key v \<mapsto> v)"
proof -
  let ?rows = "ptRows T @ [mk_row (cols v) d]"
  have rows: "\<forall>r \<in> set ?rows. row_ok un cols R r" using tokD(2) [OF T] v by (auto simp: row_ok_def)
  have vals: "map (\<lambda>r. the (row_val un r)) ?rows = tvals un T @ [v]" using v by (simp add: tvals_def)
  show keys: "keys_ok uniq ?rows \<longleftrightarrow> fresh T v"
    unfolding keys_ok_vals [OF rows] vals using tok_vals [OF T] by (simp add: fresh_vkeys)
  assume f: "fresh T v"
  then have tok: "tok uniq un cols R (T\<lparr>ptRows := ?rows\<rparr>)"
    using tok_rows [OF tokD(1) [OF T] rows] tok_vals [OF T] by (simp only: vals fresh_vkeys)
  have "tvals un (T\<lparr>ptRows := ?rows\<rparr>) = tvals un T @ [v]" by (simp add: tvals_def v)
  then have "tmap un key (T\<lparr>ptRows := ?rows\<rparr>) = (tmap un key T)(key v \<mapsto> v)"
    using fresh_key [OF T v(2) f] by (intro tmapI [OF tok]) (auto simp: tmap_in [OF T])
  with tok show "tok uniq un cols R (T\<lparr>ptRows := ?rows\<rparr>) \<and>
      tmap un key (T\<lparr>ptRows := ?rows\<rparr>) = (tmap un key T)(key v \<mapsto> v)" by simp
qed

lemma insert_effect:
  assumes "D t = Some T" "tok uniq un cols R T" "new_row V ps asg = mk_row (cols v) d" "un d = Some v" "R v"
  shows "\<not> fresh T v \<Longrightarrow> sql_apply V (InsertInto t asg Reject) ps D = Inl unique_violation"
    and "fresh T v \<Longrightarrow> \<exists>T'. sql_apply V (InsertInto t asg Reject) ps D = Inr (1, D(t \<mapsto> T')) \<and>
      tok uniq un cols R T' \<and> tmap un key T' = (tmap un key T)(key v \<mapsto> v)"
  using add_row [OF assms(2,4,5)] assms by (auto simp: checked_def tokD(1))

section \<open>Update by key\<close>

lemma change_row:
  assumes T: "tok uniq un cols R T" and w: "tmap un key T (key v) = Some w" and v: "un d = Some v" "R v"
    and f: "\<And>u d0. u \<in> set (tvals un T) \<Longrightarrow> un d0 = Some u \<Longrightarrow>
      f (mk_row (cols u) d0) = (if key u = key v then mk_row (cols v) d else mk_row (cols u) d0)"
  shows "keys_ok uniq (map f (ptRows T)) \<longleftrightarrow> \<not> clash T v"
    and "\<not> clash T v \<Longrightarrow> tok uniq un cols R (T\<lparr>ptRows := map f (ptRows T)\<rparr>) \<and>
      tmap un key (T\<lparr>ptRows := map f (ptRows T)\<rparr>) = (tmap un key T)(key v \<mapsto> v)"
proof -
  let ?rows = "map f (ptRows T)"
  let ?g = "\<lambda>u. if key u = key v then v else u"
  have row: "row_ok un cols R (f r) \<and> the (row_val un (f r)) = ?g (the (row_val un r))" if r: "r \<in> set (ptRows T)" for r
  proof -
    from row_okD [OF tokD(2) [OF T r]] obtain u d0 where u: "row_val un r = Some u" "un d0 = Some u" "r = mk_row (cols u) d0" "R u"
      by blast
    with r have "u \<in> set (tvals un T)" unfolding tvals_def by force
    from f [OF this u(2)] u v show ?thesis by (auto simp: row_ok_def)
  qed
  then have rows: "\<forall>r \<in> set ?rows. row_ok un cols R r" by auto
  have vals: "map (\<lambda>r. the (row_val un r)) ?rows = map ?g (tvals un T)" using row by (simp add: tvals_def)
  have w': "w \<in> set (tvals un T)" "key w = key v" using w tmap_in [OF T] by auto
  obtain xs ys where xy: "tvals un T = xs @ w # ys" "map ?g (tvals un T) = xs @ v # ys"
    "set (xs @ ys) = {u \<in> set (tvals un T). key u \<noteq> key v}"
    using map_upd_middle [OF tok_distinct [OF T] w', of v] by blast
  have old: "vkeys_ok (xs @ w # ys)" using tok_vals [OF T] xy(1) by simp
  have vk: "vkeys_ok (xs @ v # ys) \<longleftrightarrow> \<not> clash T v"
  proof -
    have "distinct (map (\<lambda>u. col_key (cols u) ks) (xs @ ys))" if "ks \<in> set uniq" for ks
      using old that unfolding vkeys_ok_def distinct_middle by blast
    then have "vkeys_ok (xs @ v # ys) \<longleftrightarrow>
        (\<forall>ks \<in> set uniq. col_key (cols v) ks \<notin> (\<lambda>u. col_key (cols u) ks) ` {u \<in> set (tvals un T). key u \<noteq> key v})"
      unfolding vkeys_ok_def distinct_middle xy(3) by blast
    then show ?thesis unfolding clash_def image_iff by force
  qed
  show keys: "keys_ok uniq ?rows \<longleftrightarrow> \<not> clash T v"
    unfolding keys_ok_vals [OF rows] vals xy(2) by (rule vk)
  assume c: "\<not> clash T v"
  then have tok: "tok uniq un cols R (T\<lparr>ptRows := ?rows\<rparr>)"
    using tok_rows [OF tokD(1) [OF T] rows] vk by (simp only: vals xy(2)) simp
  have set': "set (tvals un (T\<lparr>ptRows := ?rows\<rparr>)) = insert v {u \<in> set (tvals un T). key u \<noteq> key v}"
  proof -
    have "tvals un (T\<lparr>ptRows := ?rows\<rparr>) = map (\<lambda>r. the (row_val un r)) ?rows" by (simp add: tvals_def)
    then show ?thesis unfolding vals xy(2) using xy(3) by auto
  qed
  have "tmap un key (T\<lparr>ptRows := ?rows\<rparr>) = (tmap un key T)(key v \<mapsto> v)"
    unfolding tmap_def [of un key T, symmetric] by (intro tmapI [OF tok]) (auto simp: set' tmap_in [OF T])
  with tok show "tok uniq un cols R (T\<lparr>ptRows := ?rows\<rparr>) \<and>
      tmap un key (T\<lparr>ptRows := ?rows\<rparr>) = (tmap un key T)(key v \<mapsto> v)" by simp
qed

lemma same_key: "tok uniq un cols R T \<Longrightarrow> tmap un key T k = Some w \<Longrightarrow> u \<in> set (tvals un T) \<Longrightarrow> key u = k \<Longrightarrow> u = w"
  using tmap_in [of T k u] by simp

lemma same_cols_no_clash:
  assumes T: "tok uniq un cols R T" and w: "tmap un key T (key v) = Some w" and c: "cols v = cols w"
  shows "\<not> clash T v"
proof
  assume "clash T v"
  then obtain ks u where u: "ks \<in> set uniq" "u \<in> set (tvals un T)" "key u \<noteq> key v"
    "col_key (cols u) ks = col_key (cols w) ks" by (auto simp: clash_def c)
  have "inj_on (\<lambda>v. col_key (cols v) ks) (set (tvals un T))"
    using tok_vals [OF T] u(1) by (simp add: vkeys_ok_def distinct_map)
  moreover have "w \<in> set (tvals un T)" "key w = key v" using w tmap_in [OF T] by auto
  ultimately show False using u(2-4) by (auto dest: inj_onD)
qed

text \<open>A condition that singles out one identifier.\<close>

lemma hits_val:
  assumes T: "tok uniq un cols R T"
    and M: "\<And>u d0. R u \<Longrightarrow> row_matches V ps wh (mk_row (cols u) d0) \<longleftrightarrow> P u" and r: "r \<in> set (ptRows T)"
  shows "row_matches V ps wh r \<longleftrightarrow> P (the (row_val un r))"
  using row_okD [OF tokD(2) [OF T r]] M by auto

lemma hits_length:
  assumes T: "tok uniq un cols R T"
    and M: "\<And>u d0. R u \<Longrightarrow> row_matches V ps wh (mk_row (cols u) d0) \<longleftrightarrow> P u"
  shows "length (filter (row_matches V ps wh) (ptRows T)) = length (filter P (tvals un T))"
  unfolding tvals_def filter_map comp_def length_map
  using hits_val [OF T M] by (metis (mono_tags, lifting) filter_cong)

lemma key_hits:
  assumes T: "tok uniq un cols R T" and w: "tmap un key T k = Some w"
  shows "length (filter (\<lambda>u. key u = k) (tvals un T)) = 1"
proof -
  have "w \<in> set (tvals un T)" "key w = k" using w tmap_in [OF T] by auto
  then obtain xs ys where "tvals un T = xs @ w # ys" "set (xs @ ys) = {u \<in> set (tvals un T). key u \<noteq> k}"
    using map_upd_middle [OF tok_distinct [OF T], of w k w] by metis
  moreover from this(2) have "filter (\<lambda>u. key u = k) xs = []" "filter (\<lambda>u. key u = k) ys = []"
    by (auto simp: filter_empty_conv)
  ultimately show ?thesis using \<open>key w = k\<close> by simp
qed

lemma update_effect:
  assumes D: "D t = Some T" and T: "tok uniq un cols R T" and v: "un d = Some v" "R v" "key v = k"
    and M: "\<And>u d0. R u \<Longrightarrow> row_matches V ps wh (mk_row (cols u) d0) \<longleftrightarrow> key u = k"
    and S: "\<And>u d0. u \<in> set (tvals un T) \<Longrightarrow> key u = k \<Longrightarrow> set_row V ps asg (mk_row (cols u) d0) = mk_row (cols v) d"
  shows "tmap un key T k = None \<Longrightarrow> sql_apply V (UpdateSet t asg wh) ps D = Inr (0, D)"
    and "tmap un key T k = Some w \<Longrightarrow> clash T v \<Longrightarrow> sql_apply V (UpdateSet t asg wh) ps D = Inl unique_violation"
    and "tmap un key T k = Some w \<Longrightarrow> \<not> clash T v \<Longrightarrow> \<exists>T'. sql_apply V (UpdateSet t asg wh) ps D = Inr (1, D(t \<mapsto> T')) \<and>
      tok uniq un cols R T' \<and> tmap un key T' = (tmap un key T)(k \<mapsto> v)"
proof -
  let ?f = "\<lambda>r. if row_matches V ps wh r then set_row V ps asg r else r"
  note hits = hits_length [where P = "\<lambda>u. key u = k", OF T M]
  show "sql_apply V (UpdateSet t asg wh) ps D = Inr (0, D)" if "tmap un key T k = None"
  proof -
    from that have none: "\<forall>u \<in> set (tvals un T). key u \<noteq> k" by (simp add: tmap_None)
    then have "\<not> row_matches V ps wh r" if "r \<in> set (ptRows T)" for r
      using hits_val [where P = "\<lambda>u. key u = k", OF T M that] that by (simp add: tvals_def)
    then have "map ?f (ptRows T) = ptRows T" by (intro map_idI) simp
    moreover have "length (filter (\<lambda>u. key u = k) (tvals un T)) = 0" using none by (simp add: filter_empty_conv)
    ultimately show ?thesis using D T by (simp add: checked_def hits tok_def fun_upd_idem)
  qed
  have f: "?f (mk_row (cols u) d0) = (if key u = key v then mk_row (cols v) d else mk_row (cols u) d0)"
    if "u \<in> set (tvals un T)" "un d0 = Some u" for u d0
    using that M [of u d0] S [OF that(1), of d0] tok_vals [OF T] v(3) by simp
  note ch = change_row [of T v, unfolded v(3), OF T _ v(1,2) f [unfolded v(3)]]
  show "sql_apply V (UpdateSet t asg wh) ps D = Inl unique_violation" if "tmap un key T k = Some w" "clash T v"
    using that ch(1) D T by (simp add: checked_def tok_def)
  show "\<exists>T'. sql_apply V (UpdateSet t asg wh) ps D = Inr (1, D(t \<mapsto> T')) \<and>
      tok uniq un cols R T' \<and> tmap un key T' = (tmap un key T)(k \<mapsto> v)"
    if "tmap un key T k = Some w" "\<not> clash T v"
    using ch that D key_hits [OF T that(1)] tokD(1) [OF T]
    by (intro exI [of _ "T\<lparr>ptRows := map ?f (ptRows T)\<rparr>"]) (simp add: checked_def hits)
qed

section \<open>Upsert\<close>

lemma upsert_effect:
  assumes D: "D t = Some T" and T: "tok uniq un cols R T" and v: "un d = Some v" "R v" and one: "uniq = [pk]"
    and row: "new_row V ps asg = mk_row (cols v) d"
    and C: "\<And>w. R w \<Longrightarrow> key w = key v \<Longrightarrow> cols w = cols v"
  shows "\<exists>T'. sql_apply V (InsertInto t asg (DoUpdate pk ''data'')) ps D = Inr (1, D(t \<mapsto> T')) \<and>
      tok uniq un cols R T' \<and> tmap un key T' = (tmap un key T)(key v \<mapsto> v)"
proof -
  let ?new = "mk_row (cols v) d"
  let ?f = "\<lambda>r. if row_key pk r = row_key pk ?new
      then map (\<lambda>(c, x). (c, if c = ''data'' then the (map_of ?new ''data'') else x)) r else r"
  have pks: "set uniq = {pk}" using one by simp
  have same: "row_key pk (mk_row (cols w) d0) = row_key pk ?new \<longleftrightarrow> key w = key v" if "R w" for w d0
    using pk_key [OF that v(2)] by (simp add: row_key_row [OF pk_unique] text_keys_inject)
  have hit: "row_key pk r = row_key pk ?new \<longleftrightarrow> key (the (row_val un r)) = key v" if "r \<in> set (ptRows T)" for r
    using row_okD [OF tokD(2) [OF T that]] same by auto
  have data: "map (\<lambda>(c, x). (c, if c = ''data'' then the (map_of ?new ''data'') else x)) (mk_row (cols v) d0) = ?new" for d0
    unfolding map_of_data [OF no_data] using no_data [of v] by (force simp: mk_row_def)
  show ?thesis
  proof (cases "tmap un key T (key v)")
    case None
    then have new: "\<not> list_ex (\<lambda>r. row_key pk r = row_key pk ?new) (ptRows T)"
      using hit by (auto simp: list_ex_iff tmap_None tvals_def)
    have "fresh T v" using None pk_key [OF _ v(2)] tok_vals [OF T] by (auto simp: fresh_def pks tmap_None)
    then show ?thesis using add_row [OF T v] D T new by (auto simp: row checked_def tokD(1))
  next
    case (Some w)
    then obtain r where "r \<in> set (ptRows T)" "key (the (row_val un r)) = key v"
      using tmap_in [OF T] by (auto simp: tvals_def)
    then have old: "list_ex (\<lambda>r. row_key pk r = row_key pk ?new) (ptRows T)"
      using hit by (auto simp: list_ex_iff)
    have f: "?f (mk_row (cols u) d0) = (if key u = key v then ?new else mk_row (cols u) d0)"
      if "u \<in> set (tvals un T)" for u d0
      using same C [of u] tok_vals [OF T] that by (auto simp: data)
    have "\<not> clash T v" using pk_key [OF _ v(2)] tok_vals [OF T] by (auto simp: clash_def pks)
    with change_row [where f = ?f, OF T Some v f] D tokD(1) [OF T] old show ?thesis
      by (intro exI [of _ "T\<lparr>ptRows := map ?f (ptRows T)\<rparr>"]) (simp add: row checked_def Let_def)
  qed
qed

section \<open>Deletion\<close>

lemma delete_effect:
  assumes D: "D t = Some T" and T: "tok uniq un cols R T"
    and M: "\<And>u d0. R u \<Longrightarrow> row_matches V ps wh (mk_row (cols u) d0) \<longleftrightarrow> P u"
  shows "\<exists>T'. sql_apply V (DeleteFrom t wh) ps D = Inr (length (filter P (tvals un T)), D(t \<mapsto> T')) \<and>
      tok uniq un cols R T' \<and> tmap un key T' = map_where (\<lambda>u. \<not> P u) (tmap un key T)"
proof -
  let ?rows = "filter (\<lambda>r. \<not> row_matches V ps wh r) (ptRows T)"
  have "?rows = filter (\<lambda>r. \<not> P (the (row_val un r))) (ptRows T)"
    using hits_val [OF T M] by (intro filter_cong) auto
  then have vals: "map (\<lambda>r. the (row_val un r)) ?rows = filter (\<lambda>u. \<not> P u) (tvals un T)"
    by (simp add: tvals_def filter_map comp_def)
  have "vkeys_ok (filter (\<lambda>u. \<not> P u) (tvals un T))"
    using tok_vals [OF T] by (auto simp: vkeys_ok_def intro: distinct_map_filter)
  then have tok: "tok uniq un cols R (T\<lparr>ptRows := ?rows\<rparr>)"
    using tokD(2) [OF T] by (intro tok_rows [OF tokD(1) [OF T]]) (auto simp: vals)
  have "tvals un (T\<lparr>ptRows := ?rows\<rparr>) = filter (\<lambda>u. \<not> P u) (tvals un T)"
    using vals by (simp add: tvals_def)
  then have "tmap un key (T\<lparr>ptRows := ?rows\<rparr>) = map_where (\<lambda>u. \<not> P u) (tmap un key T)"
    by (intro tmapI [OF tok]) (auto simp: map_where_Some tmap_in [OF T])
  with tok show ?thesis using D by (auto simp: hits_length [OF T M])
qed

lemma delete_key:
  assumes D: "D t = Some T" and T: "tok uniq un cols R T"
    and M: "\<And>u d0. R u \<Longrightarrow> row_matches V ps wh (mk_row (cols u) d0) \<longleftrightarrow> key u = k"
  shows "tmap un key T k = None \<Longrightarrow> sql_apply V (DeleteFrom t wh) ps D = Inr (0, D)"
    and "tmap un key T k = Some w \<Longrightarrow> \<exists>T'. sql_apply V (DeleteFrom t wh) ps D = Inr (1, D(t \<mapsto> T')) \<and>
      tok uniq un cols R T' \<and> tmap un key T' = (tmap un key T)(k := None)"
proof -
  show "sql_apply V (DeleteFrom t wh) ps D = Inr (0, D)" if none: "tmap un key T k = None"
  proof -
    have "\<not> row_matches V ps wh r" if "r \<in> set (ptRows T)" for r
      using hits_val [where P = "\<lambda>u. key u = k", OF T M that] none that by (auto simp: tmap_None tvals_def)
    then have "filter (\<lambda>r. \<not> row_matches V ps wh r) (ptRows T) = ptRows T" "filter (row_matches V ps wh) (ptRows T) = []"
      by (auto simp: filter_empty_conv intro: filter_True)
    then show ?thesis using D by (simp add: fun_upd_idem)
  qed
  assume w: "tmap un key T k = Some w"
  have "map_where (\<lambda>u. key u \<noteq> k) (tmap un key T) = (tmap un key T)(k := None)"
    by (rule map_ext_Some) (auto simp: map_where_Some tmap_in [OF T])
  then show "\<exists>T'. sql_apply V (DeleteFrom t wh) ps D = Inr (1, D(t \<mapsto> T')) \<and>
      tok uniq un cols R T' \<and> tmap un key T' = (tmap un key T)(k := None)"
    using delete_effect [where P = "\<lambda>u. key u = k" and D = D and t = t, OF D T M] key_hits [OF T w] by simp
qed

section \<open>Selection\<close>

lemma select_effect:
  assumes D: "D t = Some T" and T: "tok uniq un cols R T"
    and M: "\<And>u d0. R u \<Longrightarrow> row_matches V ps wh (mk_row (cols u) d0) \<longleftrightarrow> P u"
  shows "\<exists>ds. map (\<lambda>r. the (map_of r ''data'')) (sql_rows V ps t wh D) = map SqlJson ds \<and>
      map un ds = map Some (filter P (tvals un T))"
proof -
  let ?hit = "filter (row_matches V ps wh) (ptRows T)"
  have enc: "\<exists>ds. map (\<lambda>r. the (map_of r ''data'')) rows = map SqlJson ds \<and> map un ds = map Some (map (\<lambda>r. the (row_val un r)) rows)"
    if "\<forall>r \<in> set rows. row_ok un cols R r" for rows
    using that
  proof (induction rows)
    case (Cons r rows)
    then obtain ds where ds: "map (\<lambda>r. the (map_of r ''data'')) rows = map SqlJson ds"
      "map un ds = map Some (map (\<lambda>r. the (row_val un r)) rows)" by auto
    from Cons.prems row_okD [of r] obtain v d where "row_val un r = Some v" "un d = Some v" "r = mk_row (cols v) d" by auto
    with ds show ?case by (intro exI [of _ "d # ds"]) (simp add: map_of_data [OF no_data])
  qed simp
  have "?hit = filter (\<lambda>r. P (the (row_val un r))) (ptRows T)"
    using hits_val [OF T M] by (intro filter_cong) auto
  then have vals: "map (\<lambda>r. the (row_val un r)) ?hit = filter P (tvals un T)"
    by (simp add: tvals_def filter_map comp_def)
  have "\<forall>r \<in> set ?hit. row_ok un cols R r" using tokD(2) [OF T] by auto
  from enc [OF this] show ?thesis unfolding vals using D by (simp add: sql_rows_def)
qed

lemma filter_enumerates_vals:
  assumes T: "tok uniq un cols R T" and m: "mset vs = mset (filter P (tvals un T))"
  shows "enumerates vs (map_where P (tmap un key T))"
proof -
  have vs: "set vs = {u \<in> set (tvals un T). P u}" using m by (metis mset_eq_setD set_filter)
  have "mset (map key vs) = mset (map key (filter P (tvals un T)))" using m by simp
  then have "distinct (map key vs)"
    using tok_distinct [OF T] by (metis distinct_map_filter mset_eq_imp_distinct_iff)
  moreover have at: "map_where P (tmap un key T) (key v) = Some v" if "v \<in> set vs" for v
    using that by (auto simp: vs map_where_Some tmap_in [OF T])
  then have "set (map key vs) = dom (map_where P (tmap un key T))"
    by (auto simp: dom_def map_where_Some vs tmap_in [OF T])
  moreover have "map Some vs = map (map_where P (tmap un key T)) (map key vs)" using at by simp
  ultimately show ?thesis unfolding enumerates_def by blast
qed

lemma length_rows: "tok uniq un cols R T \<Longrightarrow> length (ptRows T) = card (dom (tmap un key T))"
proof -
  assume T: "tok uniq un cols R T"
  have "map_where (\<lambda>_. True) (tmap un key T) = tmap un key T"
    by (auto simp: map_where_def fun_eq_iff split: option.splits)
  then have "enumerates (tvals un T) (tmap un key T)"
    using filter_enumerates_vals [OF T, of "tvals un T" "\<lambda>_. True"] by simp
  from enumerates_length [OF this] show ?thesis by (simp add: tvals_def)
qed

section \<open>The reads of the store\<close>

lemma query_read:
  assumes E: "read_ok E V" and ps: "list_all (pv_valid V) ps"
    and D: "pv_tables V db t = Some T" and T: "tok uniq un cols R T"
    and M: "\<And>u d0. R u \<Longrightarrow> row_matches V ps wh (mk_row (cols u) d0) \<longleftrightarrow> P u"
  shows "\<exists>ds vs. pg_query E (SelectFrom ''data'' t wh fu) ps db = Inr (map SqlJson ds) \<and>
      map un ds = map Some vs \<and> mset vs = mset (filter P (tvals un T))"
proof -
  obtain xs where xs: "pg_query E (SelectFrom ''data'' t wh fu) ps db = Inr xs"
    "mset xs = mset (map (\<lambda>r. the (map_of r ''data'')) (sql_rows V ps t wh (pv_tables V db)))"
    using read_okD(1) [OF E D ps] by blast
  obtain ds0 where ds0: "map (\<lambda>r. the (map_of r ''data'')) (sql_rows V ps t wh (pv_tables V db)) = map SqlJson ds0"
    "map un ds0 = map Some (filter P (tvals un T))" using select_effect [where P = P and t = t and D = "pv_tables V db", OF D T M] by blast
  have "mset xs = mset (map SqlJson ds0)" unfolding xs(2) ds0(1) ..
  then obtain ds where ds: "xs = map SqlJson ds" "mset ds = mset ds0" using mset_map_preimage by blast
  have "mset (map un ds) = mset (map Some (filter P (tvals un T)))"
    unfolding ds0(2) [symmetric] using ds(2) by simp
  then obtain vs where "map un ds = map Some vs" "mset vs = mset (filter P (tvals un T))"
    using mset_map_preimage by blast
  with xs(1) ds(1) show ?thesis by blast
qed

lemma list_read:
  assumes "read_ok E V" "list_all (pv_valid V) ps" "pv_tables V db t = Some T" "tok uniq un cols R T"
    and "\<And>u d0. R u \<Longrightarrow> row_matches V ps wh (mk_row (cols u) d0) \<longleftrightarrow> P u"
  shows "\<exists>vs. pgList E un db (SelectFrom ''data'' t wh fu) ps = Inr vs \<and> enumerates vs (map_where P (tmap un key T))"
proof -
  obtain ds vs where r: "pg_query E (SelectFrom ''data'' t wh fu) ps db = Inr (map SqlJson ds)"
    "map un ds = map Some vs" "mset vs = mset (filter P (tvals un T))"
    using query_read [where fu = fu and P = P and t = t and db = db, OF assms] by blast
  have "scan_all un (map SqlJson ds) = Inr vs" using r(2)
    by (induction ds arbitrary: vs) (auto simp: decode_def Cons_eq_map_conv)
  with r(1) filter_enumerates_vals [OF assms(4) r(3)] show ?thesis by (simp add: pgList_def)
qed

lemma list_all_read:
  assumes "read_ok E V" "pv_tables V db t = Some T" "tok uniq un cols R T"
  shows "\<exists>vs. pgList E un db (SelectFrom ''data'' t [] fu) [] = Inr vs \<and> enumerates vs (tmap un key T)"
proof -
  have "map_where (\<lambda>_. True) (tmap un key T) = tmap un key T" by (rule map_ext_Some) (simp add: map_where_Some)
  with list_read [OF assms(1) _ assms(2,3), of "[]" "[]" "\<lambda>_. True" fu] show ?thesis
    by (simp add: row_matches_def)
qed

text \<open>The first row of a query.\<close>

lemma row_read:
  assumes "read_ok E V" "list_all (pv_valid V) ps" "pv_tables V db t = Some T" "tok uniq un cols R T"
    and "\<And>u d0. R u \<Longrightarrow> row_matches V ps wh (mk_row (cols u) d0) \<longleftrightarrow> P u"
  obtains (none) "query_raw E (SelectFrom ''data'' t wh fu) ps db = Inl ErrNoRows" "\<forall>v \<in> ran (tmap un key T). \<not> P v"
  | (row) d v where "query_raw E (SelectFrom ''data'' t wh fu) ps db = Inr d" "un d = Some v"
      "v \<in> ran (tmap un key T)" "P v"
proof -
  obtain ds vs where r: "pg_query E (SelectFrom ''data'' t wh fu) ps db = Inr (map SqlJson ds)"
    "map un ds = map Some vs" "mset vs = mset (filter P (tvals un T))"
    using query_read [where fu = fu and P = P and t = t and db = db, OF assms] by blast
  have vs: "set vs = {u \<in> set (tvals un T). P u}" using r(3) by (metis mset_eq_setD set_filter)
  show ?thesis
  proof (cases ds)
    case Nil
    with r(1,2) vs show ?thesis by (intro none) (auto simp: query_raw_def QueryRow_def tmap_ran [OF assms(4)])
  next
    case (Cons d ds')
    with r(2) obtain v vs' where "vs = v # vs'" "un d = Some v" by auto
    with Cons r(1) vs show ?thesis
      by (intro row [of d v]) (auto simp: query_raw_def QueryRow_def tmap_ran [OF assms(4)])
  qed
qed

lemma search_read:
  assumes "read_ok E V" "list_all (pv_valid V) ps" "pv_tables V db t = Some T" "tok uniq un cols R T"
    and "\<And>u d0. R u \<Longrightarrow> row_matches V ps wh (mk_row (cols u) d0) \<longleftrightarrow> P u"
  shows "search_ok P (tmap un key T) (found un (query_raw E (SelectFrom ''data'' t wh fu) ps db))"
  by (rule row_read [where fu = fu and t = t and db = db, OF assms]) (auto simp: search_ok_def found_def decode_def)

lemma key_read:
  assumes "read_ok E V" "list_all (pv_valid V) ps" "pv_tables V db t = Some T" and T: "tok uniq un cols R T"
    and "\<And>u d0. R u \<Longrightarrow> row_matches V ps wh (mk_row (cols u) d0) \<longleftrightarrow> key u = k"
  shows "found un (query_raw E (SelectFrom ''data'' t wh fu) ps db) = lookup_or (tmap un key T k)"
proof (rule row_read [where fu = fu and t = t and db = db, OF assms])
  assume "query_raw E (SelectFrom ''data'' t wh fu) ps db = Inl ErrNoRows" "\<forall>v \<in> ran (tmap un key T). key v \<noteq> k"
  then show ?thesis by (simp add: found_def tmap_ran [OF T] iffD2 [OF tmap_None])
next
  fix d v
  assume "query_raw E (SelectFrom ''data'' t wh fu) ps db = Inr d" "un d = Some v" "v \<in> ran (tmap un key T)" "key v = k"
  moreover from this have "tmap un key T k = Some v" by (simp add: tmap_ran [OF T] tmap_in [OF T])
  ultimately show ?thesis by (simp add: found_def decode_def)
qed

lemma tx_key_read:
  assumes "read_ok E V" "list_all (pv_valid V) [SqlText k]" "pv_tables V db t = Some T" and T: "tok uniq un cols R T"
    and "\<And>u d0. R u \<Longrightarrow> row_matches V [SqlText k] wh (mk_row (cols u) d0) \<longleftrightarrow> key u = k"
  shows "tx_read E un (SelectFrom ''data'' t wh fu) k db = lookup_or (tmap un key T k)"
proof (rule row_read [where fu = fu and t = t and db = db, OF assms])
  assume "query_raw E (SelectFrom ''data'' t wh fu) [SqlText k] db = Inl ErrNoRows" "\<forall>v \<in> ran (tmap un key T). key v \<noteq> k"
  then show ?thesis by (simp add: tx_read_def tmap_ran [OF T] iffD2 [OF tmap_None])
next
  fix d v
  assume "query_raw E (SelectFrom ''data'' t wh fu) [SqlText k] db = Inr d" "un d = Some v" "v \<in> ran (tmap un key T)" "key v = k"
  moreover from this have "tmap un key T k = Some v" by (simp add: tmap_ran [OF T] tmap_in [OF T])
  ultimately show ?thesis by (simp add: tx_read_def decode_def)
qed

end

end
