(* ===== verification/PgContract.thy ===== *)
theory PgContract
  imports PgTables
begin

text \<open>
  The PostgreSQL store against the store contract. \<open>pg_abs\<close> reads the seven tables of records as what a store holds,
  \<open>pg_inv\<close> says that every row carries a record with the columns it calls for and that the constraints hold.
  Postgres is stricter than the other backends: an identifier, a renamed user or a token that is already taken is a
  conflict (\<open>pg_spec_op\<close>); where the caller's identifiers are unique (\<open>op_unique\<close>) it means what they mean. The locale
  \<open>pg_engine\<close> assumes \<open>pg_ok\<close> and is a sublocale of \<open>op_store\<close> and \<open>read_store\<close>.
\<close>

section \<open>The tables\<close>

definition cols_User :: "('db, 'b) pgView \<Rightarrow> User \<Rightarrow> (string \<times> string) list" where
  "cols_User V u = [(''id'', uID u), (''name_lower'', pv_lower V (uName u))]"

definition cols_Session :: "Session \<Rightarrow> (string \<times> string) list" where
  "cols_Session x = [(''id'', sID x), (''token_hash'', sTokenHash x)]"

definition cols_Library :: "Library \<Rightarrow> (string \<times> string) list" where
  "cols_Library l = [(''id'', lID l), (''path'', lPath l)]"

definition cols_Item :: "MediaItem \<Rightarrow> (string \<times> string) list" where
  "cols_Item it = [(''id'', mID it), (''library_id'', mLibraryID it), (''parent_id'', mParentID it)]"

definition cols_UserData :: "UserItemData \<Rightarrow> (string \<times> string) list" where
  "cols_UserData d = [(''user_id'', dUserID d), (''item_id'', dItemID d)]"

definition cols_Recording :: "Recording \<Rightarrow> (string \<times> string) list" where
  "cols_Recording x = [(''id'', rID x)]"

definition cols_Series :: "SeriesTimer \<Rightarrow> (string \<times> string) list" where
  "cols_Series x = [(''id'', tID x)]"

lemmas cols_defs = cols_User_def cols_Session_def cols_Library_def cols_Item_def cols_UserData_def
  cols_Recording_def cols_Series_def

definition key_UserData :: "UserItemData \<Rightarrow> string" where
  "key_UserData d = userDataKey (dUserID d) (dItemID d)"

definition plain_UserData :: "UserItemData \<Rightarrow> bool" where
  "plain_UserData d \<longleftrightarrow> no_nul (dUserID d) \<and> no_nul (dItemID d)"

definition tab :: "'b pgData \<Rightarrow> string \<Rightarrow> 'b pgTable" where
  "tab D t = (case D t of None \<Rightarrow> \<lparr>ptUnique = [], ptRows = []\<rparr> | Some T \<Rightarrow> T)"

definition data_abs :: "('db, 'b) pgEngine \<Rightarrow> 'b pgData \<Rightarrow> absstore" where
  "data_abs E D = \<lparr>aUsers = tmap (un_User E) uID (tab D ''users''),
     aSessions = tmap (un_Session E) sID (tab D ''sessions''),
     aLibraries = tmap (un_Library E) lID (tab D ''libraries''),
     aItems = tmap (un_Item E) mID (tab D ''items''),
     aUserData = tmap (un_UserData E) key_UserData (tab D ''user_item_data''),
     aRecordings = tmap (un_Recording E) rID (tab D ''recordings''),
     aSeriesTimers = tmap (un_Series E) tID (tab D ''series_timers'')\<rparr>"

definition data_inv :: "('db, 'b) pgEngine \<Rightarrow> ('db, 'b) pgView \<Rightarrow> 'b pgData \<Rightarrow> bool" where
  "data_inv E V D \<longleftrightarrow>
     tok [[''id''], [''name_lower'']] (un_User E) (cols_User V) (\<lambda>_. True) (tab D ''users'') \<and>
     tok [[''id''], [''token_hash'']] (un_Session E) cols_Session (\<lambda>_. True) (tab D ''sessions'') \<and>
     tok [[''id''], [''path'']] (un_Library E) cols_Library (\<lambda>_. True) (tab D ''libraries'') \<and>
     tok [[''id'']] (un_Item E) cols_Item (\<lambda>_. True) (tab D ''items'') \<and>
     tok [[''user_id'', ''item_id'']] (un_UserData E) cols_UserData plain_UserData (tab D ''user_item_data'') \<and>
     tok [[''id'']] (un_Recording E) cols_Recording (\<lambda>_. True) (tab D ''recordings'') \<and>
     tok [[''id'']] (un_Series E) cols_Series (\<lambda>_. True) (tab D ''series_timers'')"

definition pg_abs :: "('db, 'b) pgEngine \<Rightarrow> ('db, 'b) pgView \<Rightarrow> 'db pgStore \<Rightarrow> absstore" where
  "pg_abs E V s = data_abs E (pv_tables V (pgDB s))"

definition pg_inv :: "('db, 'b) pgEngine \<Rightarrow> ('db, 'b) pgView \<Rightarrow> 'db pgStore \<Rightarrow> bool" where
  "pg_inv E V s \<longleftrightarrow> data_inv E V (pv_tables V (pgDB s))"

lemma tab_upd [simp]: "tab (D(t \<mapsto> T)) t' = (if t' = t then T else tab D t')"
  by (simp add: tab_def)

lemma tok_Some: "tok uniq un cols R (tab D t) \<Longrightarrow> uniq \<noteq> [] \<Longrightarrow> D t = Some (tab D t)"
  by (auto simp: tok_def tab_def split: option.splits)

lemma data_inv_parts:
  assumes "data_inv E V D"
  shows "tok [[''id''], [''name_lower'']] (un_User E) (cols_User V) (\<lambda>_. True) (tab D ''users'')"
    and "tok [[''id''], [''token_hash'']] (un_Session E) cols_Session (\<lambda>_. True) (tab D ''sessions'')"
    and "tok [[''id''], [''path'']] (un_Library E) cols_Library (\<lambda>_. True) (tab D ''libraries'')"
    and "tok [[''id'']] (un_Item E) cols_Item (\<lambda>_. True) (tab D ''items'')"
    and "tok [[''user_id'', ''item_id'']] (un_UserData E) cols_UserData plain_UserData (tab D ''user_item_data'')"
    and "tok [[''id'']] (un_Recording E) cols_Recording (\<lambda>_. True) (tab D ''recordings'')"
    and "tok [[''id'']] (un_Series E) cols_Series (\<lambda>_. True) (tab D ''series_timers'')"
  using assms by (simp_all add: data_inv_def)

lemmas data_inv_tables = data_inv_parts [THEN tok_Some, simplified]

lemma data_abs_sel [simp]:
  "aUsers (data_abs E D) = tmap (un_User E) uID (tab D ''users'')"
  "aSessions (data_abs E D) = tmap (un_Session E) sID (tab D ''sessions'')"
  "aLibraries (data_abs E D) = tmap (un_Library E) lID (tab D ''libraries'')"
  "aItems (data_abs E D) = tmap (un_Item E) mID (tab D ''items'')"
  "aUserData (data_abs E D) = tmap (un_UserData E) key_UserData (tab D ''user_item_data'')"
  "aRecordings (data_abs E D) = tmap (un_Recording E) rID (tab D ''recordings'')"
  "aSeriesTimers (data_abs E D) = tmap (un_Series E) tID (tab D ''series_timers'')"
  by (simp_all add: data_abs_def)

lemma data_abs_upd:
  "data_abs E (D(''users'' \<mapsto> T)) = (data_abs E D)\<lparr>aUsers := tmap (un_User E) uID T\<rparr>"
  "data_abs E (D(''sessions'' \<mapsto> T)) = (data_abs E D)\<lparr>aSessions := tmap (un_Session E) sID T\<rparr>"
  "data_abs E (D(''libraries'' \<mapsto> T)) = (data_abs E D)\<lparr>aLibraries := tmap (un_Library E) lID T\<rparr>"
  "data_abs E (D(''items'' \<mapsto> T)) = (data_abs E D)\<lparr>aItems := tmap (un_Item E) mID T\<rparr>"
  "data_abs E (D(''user_item_data'' \<mapsto> T)) = (data_abs E D)\<lparr>aUserData := tmap (un_UserData E) key_UserData T\<rparr>"
  "data_abs E (D(''recordings'' \<mapsto> T)) = (data_abs E D)\<lparr>aRecordings := tmap (un_Recording E) rID T\<rparr>"
  "data_abs E (D(''series_timers'' \<mapsto> T)) = (data_abs E D)\<lparr>aSeriesTimers := tmap (un_Series E) tID T\<rparr>"
  by (simp_all add: data_abs_def)

section \<open>The engine\<close>

locale pg_engine =
  fixes E :: "('db, 'b) pgEngine" and V :: "('db, 'b) pgView"
  assumes ok: "pg_ok E V"

sublocale pg_engine \<subseteq> users: pg_entity "[[''id''], [''name_lower'']]" "un_User E" "cols_User V" uID "\<lambda>_. True" "[''id'']"
  by unfold_locales (auto simp: cols_defs col_key_def)

sublocale pg_engine \<subseteq> sessions: pg_entity "[[''id''], [''token_hash'']]" "un_Session E" cols_Session sID "\<lambda>_. True" "[''id'']"
  by unfold_locales (auto simp: cols_defs col_key_def)

sublocale pg_engine \<subseteq> libraries: pg_entity "[[''id''], [''path'']]" "un_Library E" cols_Library lID "\<lambda>_. True" "[''id'']"
  by unfold_locales (auto simp: cols_defs col_key_def)

sublocale pg_engine \<subseteq> items: pg_entity "[[''id'']]" "un_Item E" cols_Item mID "\<lambda>_. True" "[''id'']"
  by unfold_locales (auto simp: cols_defs col_key_def)

sublocale pg_engine \<subseteq> userdata: pg_entity "[[''user_id'', ''item_id'']]" "un_UserData E" cols_UserData key_UserData
    plain_UserData "[''user_id'', ''item_id'']"
  by unfold_locales (auto simp: cols_defs col_key_def key_UserData_def plain_UserData_def userDataKey_idxKey idxKey_inject)

sublocale pg_engine \<subseteq> recordings: pg_entity "[[''id'']]" "un_Recording E" cols_Recording rID "\<lambda>_. True" "[''id'']"
  by unfold_locales (auto simp: cols_defs col_key_def)

sublocale pg_engine \<subseteq> series: pg_entity "[[''id'']]" "un_Series E" cols_Series tID "\<lambda>_. True" "[''id'']"
  by unfold_locales (auto simp: cols_defs col_key_def)

lemmas sql_rows_simps = row_matches_def mk_row_def new_row_def set_row_def cols_defs

context pg_engine begin

lemma exec: "exec_ok E V" and reads: "read_ok E V"
  using ok by (simp_all add: pg_ok_def)

lemma lower_eq: "pv_lower V a = pv_lower V b \<longleftrightarrow> EqualFold a b"
  using ok by (simp add: pg_ok_def)

lemma valid_text: "pv_valid V (SqlText t) \<Longrightarrow> no_nul t"
  using ok by (simp add: pg_ok_def)

lemma codec:
  "js_User E v1 = Some d \<Longrightarrow> un_User E (pv_jsonb V d) = Some v1"
  "js_Session E v2 = Some d \<Longrightarrow> un_Session E (pv_jsonb V d) = Some v2"
  "js_Library E v3 = Some d \<Longrightarrow> un_Library E (pv_jsonb V d) = Some v3"
  "js_Item E v4 = Some d \<Longrightarrow> un_Item E (pv_jsonb V d) = Some v4"
  "js_UserData E v5 = Some d \<Longrightarrow> un_UserData E (pv_jsonb V d) = Some v5"
  "js_Recording E v6 = Some d \<Longrightarrow> un_Recording E (pv_jsonb V d) = Some v6"
  "js_Series E v7 = Some d \<Longrightarrow> un_Series E (pv_jsonb V d) = Some v7"
  using ok by (simp_all add: pg_ok_def pg_codec_ok_def)

section \<open>Statements outside a transaction\<close>

lemma raw_err_io: "io_error (raw_err e)"
  by (cases e) simp_all

lemma mapWriteErr_unique: "mapWriteErr (Some unique_violation) = Some ErrConflict"
  by (simp add: mapWriteErr_def unique_violation_def)

lemma mapWriteErr_other: "e \<noteq> unique_violation \<Longrightarrow> mapWriteErr (Some e) = Some (raw_err e)"
  by (cases e) (simp_all add: mapWriteErr_def unique_violation_def)

lemma changed_ok:
  assumes inv: "data_inv E V (pv_tables V (pgDB s))"
    and x: "sql_apply V st ps (pv_tables V (pgDB s)) = Inr (n, D)" "data_inv E V D" "sp = Inr (data_abs E D)"
    and f: "\<And>s'. f (Inr n, s') = (None, s')" "\<And>e s'. e \<noteq> unique_violation \<Longrightarrow> f (Inl e, s') = (Some (raw_err e), s')"
  shows "step_ok (pg_abs E V) (pg_inv E V) sp (pg_abs E V s) (f (pool_exec E st ps s))"
proof -
  obtain r db' where r: "pg_exec E st ps (pgDB s) = (r, db')" by (cases "pg_exec E st ps (pgDB s)")
  show ?thesis
  proof (rule exec_cases [OF exec x(1) r])
    assume "r = Inr n" "pv_tables V db' = D"
    with x f(1) show ?thesis by (simp add: pool_exec_def r step_ok_def pg_inv_def pg_abs_def refines_def)
  next
    fix e assume "r = Inl e" "e \<noteq> unique_violation" "pv_tables V db' = pv_tables V (pgDB s) \<or> pv_tables V db' = D"
    with x inv f(2) show ?thesis
      by (auto simp: pool_exec_def r step_ok_def pg_inv_def pg_abs_def refines_def raw_err_io)
  qed
qed

lemma inserted_ok:
  assumes "data_inv E V (pv_tables V (pgDB s))"
    "sql_apply V st ps (pv_tables V (pgDB s)) = Inr (n, D)" "data_inv E V D" "sp = Inr (data_abs E D)"
  shows "step_ok (pg_abs E V) (pg_inv E V) sp (pg_abs E V s) (inserted (pool_exec E st ps s))"
  by (rule changed_ok [OF assms]) (simp_all add: inserted_def mapWriteErr_other)

lemma affected_ok:
  assumes "data_inv E V (pv_tables V (pgDB s))"
    "sql_apply V st ps (pv_tables V (pgDB s)) = Inr (n, D)" "data_inv E V D" "sp = Inr (data_abs E D)"
    and "n \<noteq> 0" "\<And>e. e \<noteq> unique_violation \<Longrightarrow> f e = Some (raw_err e)"
  shows "step_ok (pg_abs E V) (pg_inv E V) sp (pg_abs E V s) (affected f (pool_exec E st ps s))"
  by (rule changed_ok [OF assms(1-4)]) (simp_all add: affected_def assms(5,6))

lemma rejected_ok:
  assumes inv: "data_inv E V (pv_tables V (pgDB s))"
    and x: "sql_apply V st ps (pv_tables V (pgDB s)) = Inl unique_violation" "list_all (pv_valid V) ps" "sp = Inl ErrConflict"
    and f: "\<And>s'. f (Inl unique_violation, s') = (Some ErrConflict, s')"
  shows "step_ok (pg_abs E V) (pg_inv E V) sp (pg_abs E V s) (f (pool_exec E st ps s))"
  using exec_unique [OF exec x(1,2)] inv x(3) f
  by (auto simp: pool_exec_def step_ok_def pg_inv_def pg_abs_def refines_def)

lemma missing_ok:
  assumes inv: "data_inv E V (pv_tables V (pgDB s))"
    and x: "sql_apply V st ps (pv_tables V (pgDB s)) = Inr (0, pv_tables V (pgDB s))" "list_all (pv_valid V) ps" "sp = Inl ErrNotFound"
  shows "step_ok (pg_abs E V) (pg_inv E V) sp (pg_abs E V s) (affected f (pool_exec E st ps s))"
  using exec_none [OF exec x(1,2)] inv x(3)
  by (auto simp: pool_exec_def step_ok_def pg_inv_def pg_abs_def refines_def affected_def)

end

end
