(* ===== verification/PgSteps.thy ===== *)
theory PgSteps
  imports PgContract
begin

text \<open>
  The operations of the PostgreSQL store, one by one, refine the strict meaning \<open>pg_spec_op\<close>.
\<close>

section \<open>The strict meaning\<close>

definition unless_taken :: "bool \<Rightarrow> err + absstore \<Rightarrow> err + absstore" where
  "unless_taken taken sp = (if taken then Inl ErrConflict else sp)"

fun pg_spec_op :: "store_op \<Rightarrow> absstore \<Rightarrow> err + absstore" where
  "pg_spec_op (OpCreateUser u) a = unless_taken (aUsers a (uID u) \<noteq> None) (spec_CreateUser u a)"
| "pg_spec_op (OpUpdateUser u) a =
     unless_taken (aUsers a (uID u) \<noteq> None \<and> (\<exists>v \<in> ran (aUsers a). uID v \<noteq> uID u \<and> EqualFold (uName v) (uName u)))
       (spec_UpdateUser u a)"
| "pg_spec_op (OpCreateSession x) a =
     unless_taken (aSessions a (sID x) \<noteq> None \<or> (\<exists>y \<in> ran (aSessions a). sTokenHash y = sTokenHash x))
       (spec_CreateSession x a)"
| "pg_spec_op (OpCreateLibrary l) a = unless_taken (aLibraries a (lID l) \<noteq> None) (spec_CreateLibrary l a)"
| "pg_spec_op (OpCreateRecording x) a = unless_taken (aRecordings a (rID x) \<noteq> None) (spec_CreateRecording x a)"
| "pg_spec_op (OpCreateSeriesTimer x) a = unless_taken (aSeriesTimers a (tID x) \<noteq> None) (spec_CreateSeriesTimer x a)"
| "pg_spec_op c a = spec_op c a"

text \<open>The caller's identifiers are new (or the call is refused by every backend), and a user is not renamed to
  another's name.\<close>

fun op_unique :: "store_op \<Rightarrow> absstore \<Rightarrow> bool" where
  "op_unique (OpCreateUser u) a =
     (aUsers a (uID u) = None \<or> (\<exists>v \<in> ran (aUsers a). EqualFold (uName v) (uName u)))"
| "op_unique (OpUpdateUser u) a = (\<forall>v \<in> ran (aUsers a). EqualFold (uName v) (uName u) \<longrightarrow> uID v = uID u)"
| "op_unique (OpCreateLibrary l) a =
     (aLibraries a (lID l) = None \<or> (\<exists>v \<in> ran (aLibraries a). lPath v = lPath l))"
| "op_unique (OpCreateRecording x) a = (aRecordings a (rID x) = None)"
| "op_unique (OpCreateSeriesTimer x) a = (aSeriesTimers a (tID x) = None)"
| "op_unique c a = True"

lemma pg_spec_unique:
  assumes "op_pre c a" "op_unique c a"
  shows "pg_spec_op c a = spec_op c a"
  using assms by (cases c) (auto simp: unless_taken_def session_fresh_def spec_CreateUser_def spec_CreateLibrary_def)

text \<open>The texts and the encodings a call sends first are ones the server can store.\<close>

definition sendable :: "('db, 'b) pgView \<Rightarrow> ('v \<Rightarrow> 'b option) \<Rightarrow> string list \<Rightarrow> 'v \<Rightarrow> bool" where
  "sendable V js ts v \<longleftrightarrow> list_all (\<lambda>t. pv_valid V (SqlText t)) ts \<and>
     (case js v of None \<Rightarrow> False | Some d \<Rightarrow> pv_valid V (SqlJson d))"

fun op_sendable :: "('db, 'b) pgEngine \<Rightarrow> ('db, 'b) pgView \<Rightarrow> store_op \<Rightarrow> bool" where
  "op_sendable E V (OpCreateUser u) = sendable V (js_User E) [uID u, uName u] u"
| "op_sendable E V (OpUpdateUser u) = sendable V (js_User E) [uID u, uName u] u"
| "op_sendable E V (OpCreateSession x) = sendable V (js_Session E) [sID x, sTokenHash x] x"
| "op_sendable E V (OpDeleteSession k) = pv_valid V (SqlText k)"
| "op_sendable E V (OpTouchSession t k) = pv_valid V (SqlText k)"
| "op_sendable E V (OpCreateLibrary l) = sendable V (js_Library E) [lID l, lPath l] l"
| "op_sendable E V (OpDeleteLibrary k) = pv_valid V (SqlText k)"
| "op_sendable E V (OpReplaceLibraryItems t k its) = pv_valid V (SqlText k)"
| "op_sendable E V (OpUpsertUserItemData d) = sendable V (js_UserData E) [dUserID d, dItemID d] d"
| "op_sendable E V (OpCreateRecording x) = sendable V (js_Recording E) [rID x] x"
| "op_sendable E V (OpUpdateRecording x) = sendable V (js_Recording E) [rID x] x"
| "op_sendable E V (OpDeleteRecording k) = pv_valid V (SqlText k)"
| "op_sendable E V (OpCreateSeriesTimer x) = sendable V (js_Series E) [tID x] x"
| "op_sendable E V (OpDeleteSeriesTimer k) = pv_valid V (SqlText k)"

lemma sendableD:
  "sendable V js ts v \<Longrightarrow> \<exists>d. js v = Some d \<and> pv_valid V (SqlJson d) \<and> (\<forall>t \<in> set ts. pv_valid V (SqlText t))"
  by (auto simp: sendable_def list_all_iff split: option.splits)

lemma with_data_Some: "js v = Some d \<Longrightarrow> with_data js v f s = f d s"
  by (simp add: with_data_def encode_def)

section \<open>One table\<close>

text \<open>An insertion, an update and a deletion by key in the table \<open>t\<close>, seen from the whole store: the
  rest of the invariant and of the contents is the caller's concern.\<close>

context pg_entity begin

lemma create_step:
  fixes E :: "('db, 'b) pgEngine" and V :: "('db, 'b) pgView"
  assumes tables: "pv_tables V (pgDB s) = D" and E: "pg_engine E V" and inv: "data_inv E V D"
    and D: "D t = Some (tab D t)" and T: "tok uniq un cols R (tab D t)"
    and row: "new_row V ps asg = mk_row (cols v) d" and v: "un d = Some v" "R v" and ps: "list_all (pv_valid V) ps"
    and taken: "\<not> fresh (tab D t) v \<Longrightarrow> sp = Inl ErrConflict"
    and keep: "\<And>T'. tok uniq un cols R T' \<Longrightarrow> data_inv E V (D(t \<mapsto> T'))"
    and new: "\<And>T'. fresh (tab D t) v \<Longrightarrow> tmap un key T' = (tmap un key (tab D t))(key v \<mapsto> v) \<Longrightarrow>
      sp = Inr (data_abs E (D(t \<mapsto> T')))"
  shows "step_ok (pg_abs E V) (pg_inv E V) sp (pg_abs E V s) (inserted (pool_exec E (InsertInto t asg Reject) ps s))"
proof (cases "fresh (tab D t) v")
  case False
  then show ?thesis
    using insert_effect(1) [where D = D and t = t, OF D T row v] inv ps taken
    by (intro pg_engine.rejected_ok [OF E, unfolded tables]) (simp_all del: sql_apply.simps add: tables inserted_def pg_engine.mapWriteErr_unique [OF E])
next
  case True
  then obtain T' where "sql_apply V (InsertInto t asg Reject) ps D = Inr (1, D(t \<mapsto> T'))"
    "tok uniq un cols R T'" "tmap un key T' = (tmap un key (tab D t))(key v \<mapsto> v)"
    using insert_effect(2) [where D = D and t = t, OF D T row v] by blast
  with inv keep new [OF True] show ?thesis
    by (intro pg_engine.inserted_ok [OF E, unfolded tables]) (simp_all del: sql_apply.simps add: tables)
qed

lemma change_step:
  fixes E :: "('db, 'b) pgEngine" and V :: "('db, 'b) pgView"
  assumes tables: "pv_tables V (pgDB s) = D" and E: "pg_engine E V" and inv: "data_inv E V D"
    and D: "D t = Some (tab D t)" and T: "tok uniq un cols R (tab D t)"
    and v: "un d = Some v" "R v" "key v = k" and ps: "list_all (pv_valid V) ps"
    and M: "\<And>u d0. R u \<Longrightarrow> row_matches V ps wh (mk_row (cols u) d0) \<longleftrightarrow> key u = k"
    and S: "\<And>u d0. u \<in> set (tvals un (tab D t)) \<Longrightarrow> key u = k \<Longrightarrow> set_row V ps asg (mk_row (cols u) d0) = mk_row (cols v) d"
    and f: "clash (tab D t) v \<Longrightarrow> f unique_violation = Some ErrConflict" "\<And>e. e \<noteq> unique_violation \<Longrightarrow> f e = Some (raw_err e)"
    and missing: "tmap un key (tab D t) k = None \<Longrightarrow> sp = Inl ErrNotFound"
    and taken: "tmap un key (tab D t) k \<noteq> None \<Longrightarrow> clash (tab D t) v \<Longrightarrow> sp = Inl ErrConflict"
    and keep: "\<And>T'. tok uniq un cols R T' \<Longrightarrow> data_inv E V (D(t \<mapsto> T'))"
    and new: "\<And>T'. tmap un key (tab D t) k \<noteq> None \<Longrightarrow> \<not> clash (tab D t) v \<Longrightarrow>
      tmap un key T' = (tmap un key (tab D t))(k \<mapsto> v) \<Longrightarrow> sp = Inr (data_abs E (D(t \<mapsto> T')))"
  shows "step_ok (pg_abs E V) (pg_inv E V) sp (pg_abs E V s) (affected f (pool_exec E (UpdateSet t asg wh) ps s))"
proof (cases "tmap un key (tab D t) k")
  case None
  have "sql_apply V (UpdateSet t asg wh) ps D = Inr (0, D)"
    by (rule update_effect(1) [where D = D and t = t, OF D T v]) (erule M, erule (1) S, rule None)
  then show ?thesis
    using inv ps missing [OF None] by (intro pg_engine.missing_ok [OF E]; simp only: tables)
next
  case (Some w)
  have eff: "clash (tab D t) v \<Longrightarrow> sql_apply V (UpdateSet t asg wh) ps D = Inl unique_violation"
    "\<not> clash (tab D t) v \<Longrightarrow> \<exists>T'. sql_apply V (UpdateSet t asg wh) ps D = Inr (1, D(t \<mapsto> T')) \<and>
      tok uniq un cols R T' \<and> tmap un key T' = (tmap un key (tab D t))(k \<mapsto> v)"
    by (rule update_effect(2) [where D = D and t = t, OF D T v], erule M, erule (1) S, rule Some, assumption)
      (rule update_effect(3) [where D = D and t = t, OF D T v], erule M, erule (1) S, rule Some, assumption)
  show ?thesis
  proof (cases "clash (tab D t) v")
    case True
    have "sp = Inl ErrConflict" using taken Some True by simp
    then show ?thesis
      using eff(1) [OF True] inv ps by (intro pg_engine.rejected_ok [OF E]; simp only: tables) (simp_all add: affected_def f(1) [OF True])
  next
    case False
    with eff(2) obtain T' where "sql_apply V (UpdateSet t asg wh) ps D = Inr (1, D(t \<mapsto> T'))"
      "tok uniq un cols R T'" "tmap un key T' = (tmap un key (tab D t))(k \<mapsto> v)" by blast
    with inv keep new [OF _ False] Some f(2) show ?thesis
      by (intro pg_engine.affected_ok [OF E, unfolded tables, where n = 1]) (simp_all del: sql_apply.simps add: tables)
  qed
qed

lemma remove_step:
  fixes E :: "('db, 'b) pgEngine" and V :: "('db, 'b) pgView"
  assumes tables: "pv_tables V (pgDB s) = D" and E: "pg_engine E V" and inv: "data_inv E V D"
    and D: "D t = Some (tab D t)" and T: "tok uniq un cols R (tab D t)" and ps: "list_all (pv_valid V) ps"
    and M: "\<And>u d0. R u \<Longrightarrow> row_matches V ps wh (mk_row (cols u) d0) \<longleftrightarrow> key u = k"
    and missing: "tmap un key (tab D t) k = None \<Longrightarrow> sp = Inl ErrNotFound"
    and keep: "\<And>T'. tok uniq un cols R T' \<Longrightarrow> data_inv E V (D(t \<mapsto> T'))"
    and new: "\<And>T'. tmap un key (tab D t) k \<noteq> None \<Longrightarrow>
      tmap un key T' = (tmap un key (tab D t))(k := None) \<Longrightarrow> sp = Inr (data_abs E (D(t \<mapsto> T')))"
  shows "step_ok (pg_abs E V) (pg_inv E V) sp (pg_abs E V s)
     (affected (\<lambda>e. Some (raw_err e)) (pool_exec E (DeleteFrom t wh) ps s))"
proof (cases "tmap un key (tab D t) k")
  case None
  then show ?thesis
    using delete_key(1) [where D = D and t = t, OF D T M] inv ps missing
    by (intro pg_engine.missing_ok [OF E, unfolded tables]) (simp_all del: sql_apply.simps add: tables)
next
  case (Some w)
  then obtain T' where "sql_apply V (DeleteFrom t wh) ps D = Inr (1, D(t \<mapsto> T'))"
    "tok uniq un cols R T'" "tmap un key T' = (tmap un key (tab D t))(k := None)"
    using delete_key(2) [where D = D and t = t, OF D T M] by blast
  with inv keep new Some show ?thesis
    by (intro pg_engine.affected_ok [OF E, unfolded tables, where n = 1]) (simp_all del: sql_apply.simps add: tables)
qed

end

end
