(* ===== verification/PgOps.thy ===== *)
theory PgOps
  imports PgSteps
begin

text \<open>
  Every mutation of the PostgreSQL store refines its strict meaning: the single statements, then the transactions.
\<close>

context pg_engine begin

lemma engine: "pg_engine E V" ..

abbreviation refines_op :: "err + absstore \<Rightarrow> 'db pgStore \<Rightarrow> err option \<times> 'db pgStore \<Rightarrow> bool" where
  "refines_op sp s p \<equiv> step_ok (pg_abs E V) (pg_inv E V) sp (pg_abs E V s) p"

lemmas ranI_vals = users.tmap_ran sessions.tmap_ran libraries.tmap_ran

section \<open>Insertions\<close>

lemma pg_CreateUser_step:
  assumes inv: "pg_inv E V s" and ok: "op_sendable E V (OpCreateUser u)"
  shows "refines_op (pg_spec_op (OpCreateUser u) (pg_abs E V s)) s (pg_CreateUser E u s)"
proof -
  obtain d where d: "js_User E u = Some d" "list_all (pv_valid V) [SqlText (uID u), SqlText (uName u), SqlJson d]"
    using sendableD [OF ok [unfolded op_sendable.simps]] by auto
  have D: "data_inv E V (pv_tables V (pgDB s))" using inv by (simp add: pg_inv_def)
  note T = data_inv_tables(1) [OF D] data_inv_parts(1) [OF D]
  have taken: "users.fresh (tab (pv_tables V (pgDB s)) ''users'') u \<longleftrightarrow>
      aUsers (pg_abs E V s) (uID u) = None \<and> \<not> (\<exists>v \<in> ran (aUsers (pg_abs E V s)). EqualFold (uName v) (uName u))"
    by (auto simp: users.fresh_def col_key_def cols_defs lower_eq pg_abs_def users.tmap_ran [OF T(2)] users.tmap_None)
  show ?thesis unfolding pg_CreateUser_def with_data_Some [where js = "js_User E", OF d(1)]
    by (rule users.create_step [OF refl engine D T _ codec(1) [OF d(1)] TrueI d(2)])
      (use D taken in \<open>auto simp: sql_rows_simps unless_taken_def spec_CreateUser_def data_inv_def data_abs_upd pg_abs_def\<close>)
qed

lemma pg_CreateSession_step:
  assumes inv: "pg_inv E V s" and ok: "op_sendable E V (OpCreateSession x)"
  shows "refines_op (pg_spec_op (OpCreateSession x) (pg_abs E V s)) s (pg_CreateSession E x s)"
proof -
  obtain d where d: "js_Session E x = Some d" "list_all (pv_valid V) [SqlText (sID x), SqlText (sTokenHash x), SqlJson d]"
    using sendableD [OF ok [unfolded op_sendable.simps]] by auto
  have D: "data_inv E V (pv_tables V (pgDB s))" using inv by (simp add: pg_inv_def)
  note T = data_inv_tables(2) [OF D] data_inv_parts(2) [OF D]
  have taken: "sessions.fresh (tab (pv_tables V (pgDB s)) ''sessions'') x \<longleftrightarrow>
      aSessions (pg_abs E V s) (sID x) = None \<and> \<not> (\<exists>y \<in> ran (aSessions (pg_abs E V s)). sTokenHash y = sTokenHash x)"
    by (auto simp: sessions.fresh_def col_key_def cols_defs pg_abs_def sessions.tmap_ran [OF T(2)] sessions.tmap_None)
  show ?thesis unfolding pg_CreateSession_def with_data_Some [where js = "js_Session E", OF d(1)]
    by (rule sessions.create_step [OF refl engine D T _ codec(2) [OF d(1)] TrueI d(2)])
      (use D taken in \<open>auto simp: sql_rows_simps unless_taken_def spec_CreateSession_def data_inv_def data_abs_upd pg_abs_def\<close>)
qed

lemma pg_CreateLibrary_step:
  assumes inv: "pg_inv E V s" and ok: "op_sendable E V (OpCreateLibrary l)"
  shows "refines_op (pg_spec_op (OpCreateLibrary l) (pg_abs E V s)) s (pg_CreateLibrary E l s)"
proof -
  obtain d where d: "js_Library E l = Some d" "list_all (pv_valid V) [SqlText (lID l), SqlText (lPath l), SqlJson d]"
    using sendableD [OF ok [unfolded op_sendable.simps]] by auto
  have D: "data_inv E V (pv_tables V (pgDB s))" using inv by (simp add: pg_inv_def)
  note T = data_inv_tables(3) [OF D] data_inv_parts(3) [OF D]
  have taken: "libraries.fresh (tab (pv_tables V (pgDB s)) ''libraries'') l \<longleftrightarrow>
      aLibraries (pg_abs E V s) (lID l) = None \<and> \<not> (\<exists>v \<in> ran (aLibraries (pg_abs E V s)). lPath v = lPath l)"
    by (auto simp: libraries.fresh_def col_key_def cols_defs pg_abs_def libraries.tmap_ran [OF T(2)] libraries.tmap_None)
  show ?thesis unfolding pg_CreateLibrary_def with_data_Some [where js = "js_Library E", OF d(1)]
    by (rule libraries.create_step [OF refl engine D T _ codec(3) [OF d(1)] TrueI d(2)])
      (use D taken in \<open>auto simp: sql_rows_simps unless_taken_def spec_CreateLibrary_def data_inv_def data_abs_upd pg_abs_def\<close>)
qed

lemma pg_CreateRecording_step:
  assumes inv: "pg_inv E V s" and ok: "op_sendable E V (OpCreateRecording x)"
  shows "refines_op (pg_spec_op (OpCreateRecording x) (pg_abs E V s)) s (pg_CreateRecording E x s)"
proof -
  obtain d where d: "js_Recording E x = Some d" "list_all (pv_valid V) [SqlText (rID x), SqlJson d]"
    using sendableD [OF ok [unfolded op_sendable.simps]] by auto
  have D: "data_inv E V (pv_tables V (pgDB s))" using inv by (simp add: pg_inv_def)
  note T = data_inv_tables(6) [OF D] data_inv_parts(6) [OF D]
  have taken: "recordings.fresh (tab (pv_tables V (pgDB s)) ''recordings'') x \<longleftrightarrow> aRecordings (pg_abs E V s) (rID x) = None"
    by (auto simp: recordings.fresh_def col_key_def cols_defs pg_abs_def recordings.tmap_None)
  show ?thesis unfolding pg_CreateRecording_def with_data_Some [where js = "js_Recording E", OF d(1)]
    by (rule recordings.create_step [OF refl engine D T _ codec(6) [OF d(1)] TrueI d(2)])
      (use D taken in \<open>auto simp: sql_rows_simps unless_taken_def spec_CreateRecording_def data_inv_def data_abs_upd pg_abs_def\<close>)
qed

lemma pg_CreateSeriesTimer_step:
  assumes inv: "pg_inv E V s" and ok: "op_sendable E V (OpCreateSeriesTimer x)"
  shows "refines_op (pg_spec_op (OpCreateSeriesTimer x) (pg_abs E V s)) s (pg_CreateSeriesTimer E x s)"
proof -
  obtain d where d: "js_Series E x = Some d" "list_all (pv_valid V) [SqlText (tID x), SqlJson d]"
    using sendableD [OF ok [unfolded op_sendable.simps]] by auto
  have D: "data_inv E V (pv_tables V (pgDB s))" using inv by (simp add: pg_inv_def)
  note T = data_inv_tables(7) [OF D] data_inv_parts(7) [OF D]
  have taken: "series.fresh (tab (pv_tables V (pgDB s)) ''series_timers'') x \<longleftrightarrow> aSeriesTimers (pg_abs E V s) (tID x) = None"
    by (auto simp: series.fresh_def col_key_def cols_defs pg_abs_def series.tmap_None)
  show ?thesis unfolding pg_CreateSeriesTimer_def with_data_Some [where js = "js_Series E", OF d(1)]
    by (rule series.create_step [OF refl engine D T _ codec(7) [OF d(1)] TrueI d(2)])
      (use D taken in \<open>auto simp: sql_rows_simps unless_taken_def spec_CreateSeriesTimer_def data_inv_def data_abs_upd pg_abs_def\<close>)
qed

section \<open>Updates and deletions by identifier\<close>

lemma pg_UpdateUser_step:
  assumes inv: "pg_inv E V s" and ok: "op_sendable E V (OpUpdateUser u)"
  shows "refines_op (pg_spec_op (OpUpdateUser u) (pg_abs E V s)) s (pg_UpdateUser E u s)"
proof -
  obtain d where d: "js_User E u = Some d" "list_all (pv_valid V) [SqlText (uID u), SqlText (uName u), SqlJson d]"
    using sendableD [OF ok [unfolded op_sendable.simps]] by auto
  have D: "data_inv E V (pv_tables V (pgDB s))" using inv by (simp add: pg_inv_def)
  note T = data_inv_tables(1) [OF D] data_inv_parts(1) [OF D]
  have clash: "users.clash (tab (pv_tables V (pgDB s)) ''users'') u \<longleftrightarrow>
      (\<exists>v \<in> ran (aUsers (pg_abs E V s)). uID v \<noteq> uID u \<and> EqualFold (uName v) (uName u))"
    by (auto simp: users.clash_def col_key_def cols_defs lower_eq pg_abs_def users.tmap_ran [OF T(2)])
  show ?thesis unfolding pg_UpdateUser_def with_data_Some [where js = "js_User E", OF d(1)]
    by (rule users.change_step [OF refl engine D T codec(1) [OF d(1)] TrueI refl d(2)])
      (use D clash in \<open>auto simp: sql_rows_simps unless_taken_def spec_UpdateUser_def data_inv_def data_abs_upd pg_abs_def
        mapWriteErr_unique mapWriteErr_other\<close>)
qed

lemma pg_UpdateRecording_step:
  assumes inv: "pg_inv E V s" and ok: "op_sendable E V (OpUpdateRecording x)"
  shows "refines_op (pg_spec_op (OpUpdateRecording x) (pg_abs E V s)) s (pg_UpdateRecording E x s)"
proof -
  obtain d where d: "js_Recording E x = Some d" "list_all (pv_valid V) [SqlText (rID x), SqlJson d]"
    using sendableD [OF ok [unfolded op_sendable.simps]] by auto
  have D: "data_inv E V (pv_tables V (pgDB s))" using inv by (simp add: pg_inv_def)
  note T = data_inv_tables(6) [OF D] data_inv_parts(6) [OF D]
  have clash: "\<not> recordings.clash (tab (pv_tables V (pgDB s)) ''recordings'') x"
    by (auto simp: recordings.clash_def col_key_def cols_defs)
  show ?thesis unfolding pg_UpdateRecording_def with_data_Some [where js = "js_Recording E", OF d(1)]
    by (rule recordings.change_step [OF refl engine D T codec(6) [OF d(1)] TrueI refl d(2)])
      (use D clash in \<open>auto simp: sql_rows_simps spec_UpdateRecording_def data_inv_def data_abs_upd pg_abs_def\<close>)
qed

lemma pg_DeleteSession_step:
  assumes inv: "pg_inv E V s" and ok: "op_sendable E V (OpDeleteSession k)"
  shows "refines_op (pg_spec_op (OpDeleteSession k) (pg_abs E V s)) s (pg_DeleteSession E k s)"
proof -
  have D: "data_inv E V (pv_tables V (pgDB s))" using inv by (simp add: pg_inv_def)
  note T = data_inv_tables(2) [OF D] data_inv_parts(2) [OF D]
  show ?thesis unfolding pg_DeleteSession_def
    by (rule sessions.remove_step [OF refl engine D T])
      (use ok D in \<open>auto simp: sql_rows_simps spec_DeleteSession_def data_inv_def data_abs_upd pg_abs_def\<close>)
qed

lemma pg_DeleteRecording_step:
  assumes inv: "pg_inv E V s" and ok: "op_sendable E V (OpDeleteRecording k)"
  shows "refines_op (pg_spec_op (OpDeleteRecording k) (pg_abs E V s)) s (pg_DeleteRecording E k s)"
proof -
  have D: "data_inv E V (pv_tables V (pgDB s))" using inv by (simp add: pg_inv_def)
  note T = data_inv_tables(6) [OF D] data_inv_parts(6) [OF D]
  show ?thesis unfolding pg_DeleteRecording_def
    by (rule recordings.remove_step [OF refl engine D T])
      (use ok D in \<open>auto simp: sql_rows_simps spec_DeleteRecording_def data_inv_def data_abs_upd pg_abs_def\<close>)
qed

lemma pg_DeleteSeriesTimer_step:
  assumes inv: "pg_inv E V s" and ok: "op_sendable E V (OpDeleteSeriesTimer k)"
  shows "refines_op (pg_spec_op (OpDeleteSeriesTimer k) (pg_abs E V s)) s (pg_DeleteSeriesTimer E k s)"
proof -
  have D: "data_inv E V (pv_tables V (pgDB s))" using inv by (simp add: pg_inv_def)
  note T = data_inv_tables(7) [OF D] data_inv_parts(7) [OF D]
  show ?thesis unfolding pg_DeleteSeriesTimer_def
    by (rule series.remove_step [OF refl engine D T])
      (use ok D in \<open>auto simp: sql_rows_simps spec_DeleteSeriesTimer_def data_inv_def data_abs_upd pg_abs_def\<close>)
qed

section \<open>The upsert\<close>

lemma pg_UpsertUserItemData_step:
  assumes inv: "pg_inv E V s" and ok: "op_sendable E V (OpUpsertUserItemData d)"
  shows "refines_op (pg_spec_op (OpUpsertUserItemData d) (pg_abs E V s)) s (pg_UpsertUserItemData E d s)"
proof -
  obtain j where j: "js_UserData E d = Some j" "pv_valid V (SqlText (dUserID d))" "pv_valid V (SqlText (dItemID d))"
    using sendableD [OF ok [unfolded op_sendable.simps]] by auto
  let ?D = "pv_tables V (pgDB s)"
  let ?st = "InsertInto ''user_item_data'' [(''user_id'', Param 1), (''item_id'', Param 2), (''data'', Param 3)]
      (DoUpdate [''user_id'', ''item_id''] ''data'')"
  let ?ps = "[SqlText (dUserID d), SqlText (dItemID d), SqlJson j]"
  have D: "data_inv E V ?D" using inv by (simp add: pg_inv_def)
  note T = data_inv_tables(5) [OF D] data_inv_parts(5) [OF D]
  have plain: "plain_UserData d" using j(2,3) by (simp add: plain_UserData_def valid_text)
  have row: "new_row V ?ps [(''user_id'', Param 1), (''item_id'', Param 2), (''data'', Param 3)]
      = mk_row (cols_UserData d) (pv_jsonb V j)" by (simp add: sql_rows_simps)
  have cols: "cols_UserData w = cols_UserData d" if "plain_UserData w" "key_UserData w = key_UserData d" for w
    using that plain by (simp add: cols_defs key_UserData_def plain_UserData_def userDataKey_idxKey idxKey_inject)
  obtain T' where T': "sql_apply V ?st ?ps ?D = Inr (1, ?D(''user_item_data'' \<mapsto> T'))"
    "tok [[''user_id'', ''item_id'']] (un_UserData E) cols_UserData plain_UserData T'"
    "tmap (un_UserData E) key_UserData T' =
      (tmap (un_UserData E) key_UserData (tab ?D ''user_item_data''))(key_UserData d \<mapsto> d)"
    using userdata.upsert_effect [where D = ?D and t = "''user_item_data''", OF T codec(5) [OF j(1)] plain refl row cols]
    by blast
  show ?thesis unfolding pg_UpsertUserItemData_def with_data_Some [where js = "js_UserData E", OF j(1)]
    by (rule changed_ok [OF D T'(1)])
      (use T'(2,3) D in \<open>auto simp: spec_UpsertUserItemData_def data_inv_def data_abs_upd pg_abs_def key_UserData_def\<close>)
qed

end

end
