(* ===== verification/PgTx.thy ===== *)
theory PgTx
  imports PgOps
begin

text \<open>
  The transactions of the PostgreSQL store, its reads, and the two contracts it meets as sublocales of
  \<open>pg_engine\<close>. The concrete engine \<open>ref_pg\<close>, which runs the reference meaning, shows that the assumptions can be met.
\<close>

context pg_engine begin

section \<open>Transactions\<close>

definition tx_refines :: "err + absstore \<Rightarrow> err + 'db \<Rightarrow> bool" where
  "tx_refines sp x \<longleftrightarrow>
     (case x of
        Inl e \<Rightarrow> sp = Inl e \<or> (io_error e \<and> (\<exists>b. sp = Inr b))
      | Inr db \<Rightarrow> data_inv E V (pv_tables V db) \<and> sp = Inr (data_abs E (pv_tables V db)))"

lemma pg_tx_step:
  assumes inv: "pg_inv E V s" and f: "tx_refines sp (f (pgDB s))"
  shows "refines_op sp s (pg_tx E f s)"
proof (cases "f (pgDB s)")
  case (Inl e)
  with assms show ?thesis
    by (auto simp: pg_tx_def read_okD(3) [OF reads] step_ok_def refines_def pg_abs_def tx_refines_def)
next
  case (Inr db1)
  obtain r db2 where c: "pg_commit E (pgDB s) db1 = (r, db2)" by (cases "pg_commit E (pgDB s) db1")
  from read_okD(4) [OF reads c] Inr assms show ?thesis
    by (cases r) (auto simp: pg_tx_def read_okD(3) [OF reads] c step_ok_def refines_def pg_abs_def pg_inv_def
        tx_refines_def raw_err_io)
qed

lemma tx_refines_and_then:
  "yields Q x \<Longrightarrow> \<exists>b. sp = Inr b \<Longrightarrow> (\<And>v. Q v \<Longrightarrow> tx_refines sp (f v)) \<Longrightarrow> tx_refines sp (and_then x f)"
  by (cases x) (auto simp: tx_refines_def [of sp "Inl _"])

lemma tx_exec_ok:
  assumes "sql_apply V st ps (pv_tables V db) = Inr (n, D)"
  shows "yields (\<lambda>(m, db'). m = n \<and> pv_tables V db' = D) (tx_exec E st ps db)"
proof -
  obtain r db' where r: "pg_exec E st ps db = (r, db')" by (cases "pg_exec E st ps db")
  show ?thesis
    by (rule exec_cases [OF exec assms r]) (auto simp: tx_exec_def r raw_err_io)
qed

lemma tx_exec_rejected:
  assumes "sql_apply V st ps (pv_tables V db) = Inl e"
  shows "yields Q (tx_exec E st ps db)"
proof (cases "pg_exec E st ps db")
  case (Pair r db')
  with exec assms show ?thesis
    by (cases r) (auto simp: tx_exec_def raw_err_io exec_ok_def)
qed

lemma tx_exec_none:
  assumes "sql_apply V st ps (pv_tables V db) = Inr (0, pv_tables V db)" "list_all (pv_valid V) ps"
  shows "\<exists>db'. tx_exec E st ps db = Inr (0, db')"
  using exec_none [OF exec assms] by (auto simp: tx_exec_def)

lemma encode_yields: "yields (\<lambda>d. js v = Some d) (encode js v)"
  by (simp add: encode_def split: option.split)

lemma pg_TouchSession_step:
  assumes inv: "pg_inv E V s" and ok: "op_sendable E V (OpTouchSession now k)"
  shows "refines_op (pg_spec_op (OpTouchSession now k) (pg_abs E V s)) s (pg_TouchSession E now k s)"
  unfolding pg_TouchSession_def
proof (rule pg_tx_step [OF inv])
  let ?D = "pv_tables V (pgDB s)"
  let ?sp = "pg_spec_op (OpTouchSession now k) (pg_abs E V s)"
  let ?upd = "\<lambda>data. tx_exec E (UpdateSet ''sessions'' [(''data'', Param 2)] [(''id'', Param 1)]) [SqlText k, SqlJson data] (pgDB s)"
  have D: "data_inv E V ?D" using inv by (simp add: pg_inv_def)
  note T = data_inv_tables(2) [OF D] data_inv_parts(2) [OF D]
  have read: "tx_read E (un_Session E) (SelectFrom ''data'' ''sessions'' [(''id'', Param 1)] True) k (pgDB s)
      = lookup_or (aSessions (pg_abs E V s) k)"
    using ok by (simp add: pg_abs_def, intro sessions.tx_key_read [OF reads _ T]) (auto simp: sql_rows_simps)
  show "tx_refines ?sp (and_then (tx_read E (un_Session E) (SelectFrom ''data'' ''sessions'' [(''id'', Param 1)] True) k (pgDB s))
     (\<lambda>sess. and_then (encode (js_Session E) (sess\<lparr>sLastActivity := now\<rparr>)) (\<lambda>data. and_then (?upd data) (\<lambda>(n, db1). Inr db1))))"
  proof (cases "aSessions (pg_abs E V s) k")
    case None
    then show ?thesis unfolding read by (simp add: spec_TouchSession_def tx_refines_def)
  next
    case (Some x)
    let ?x = "x\<lparr>sLastActivity := now\<rparr>"
    have sp: "?sp = Inr ((data_abs E ?D)\<lparr>aSessions := (aSessions (data_abs E ?D))(k \<mapsto> ?x)\<rparr>)"
      using Some by (simp add: spec_TouchSession_def pg_abs_def)
    have x: "tmap (un_Session E) sID (tab ?D ''sessions'') k = Some x" using Some by (simp add: pg_abs_def)
    then have key: "sID ?x = k" using sessions.tmap_in [OF T(2)] by simp
    have "tx_refines ?sp (and_then (encode (js_Session E) ?x) (\<lambda>data. and_then (?upd data) (\<lambda>(n, db1). Inr db1)))"
    proof (rule tx_refines_and_then [OF encode_yields])
      fix data assume data: "js_Session E ?x = Some data"
      have eff: "\<not> sessions.clash (tab ?D ''sessions'') ?x \<Longrightarrow>
         \<exists>T'. sql_apply V (UpdateSet ''sessions'' [(''data'', Param 2)] [(''id'', Param 1)]) [SqlText k, SqlJson data] ?D
           = Inr (1, ?D(''sessions'' \<mapsto> T')) \<and>
         tok [[''id''], [''token_hash'']] (un_Session E) cols_Session (\<lambda>_. True) T' \<and>
         tmap (un_Session E) sID T' = (tmap (un_Session E) sID (tab ?D ''sessions''))(k \<mapsto> ?x)"
        by (rule sessions.update_effect(3) [where D = ?D and t = "''sessions''", OF T codec(2) [OF data] TrueI key _ _ x])
          (auto simp: sql_rows_simps dest!: sessions.same_key [OF T(2) x])
      have "\<not> sessions.clash (tab ?D ''sessions'') ?x"
        using sessions.same_cols_no_clash [OF T(2), of ?x x] x key by (simp add: cols_defs)
      with eff obtain T' where T': "sql_apply V (UpdateSet ''sessions'' [(''data'', Param 2)] [(''id'', Param 1)]) [SqlText k, SqlJson data] ?D
           = Inr (1, ?D(''sessions'' \<mapsto> T'))"
         "tok [[''id''], [''token_hash'']] (un_Session E) cols_Session (\<lambda>_. True) T'"
         "tmap (un_Session E) sID T' = (tmap (un_Session E) sID (tab ?D ''sessions''))(k \<mapsto> ?x)" by blast
      show "tx_refines ?sp (and_then (?upd data) (\<lambda>(n, db1). Inr db1))"
        by (rule tx_refines_and_then [OF tx_exec_ok [OF T'(1)]])
          (use D T' sp in \<open>auto simp: tx_refines_def data_inv_def data_abs_upd\<close>)
    qed (simp only: sp, blast)
    then show ?thesis unfolding read Some by simp
  qed
qed

lemma yields_mono: "yields Q x \<Longrightarrow> (\<And>v. Q v \<Longrightarrow> Q' v) \<Longrightarrow> yields Q' x"
  by (cases x) auto

lemma delete_library_items:
  assumes D: "data_inv E V (pv_tables V db)"
  shows "yields (\<lambda>(n, db'). \<exists>T'. pv_tables V db' = (pv_tables V db)(''items'' \<mapsto> T') \<and>
       tok [[''id'']] (un_Item E) cols_Item (\<lambda>_. True) T' \<and>
       tmap (un_Item E) mID T' = drop_library_items k (tmap (un_Item E) mID (tab (pv_tables V db) ''items'')))
     (tx_exec E (DeleteFrom ''items'' [(''library_id'', Param 1)]) [SqlText k] db)"
proof -
  let ?D = "pv_tables V db"
  note T = data_inv_tables(4) [OF D] data_inv_parts(4) [OF D]
  have "\<exists>T'. sql_apply V (DeleteFrom ''items'' [(''library_id'', Param 1)]) [SqlText k] ?D
      = Inr (length (filter (\<lambda>it. mLibraryID it = k) (tvals (un_Item E) (tab ?D ''items''))), ?D(''items'' \<mapsto> T')) \<and>
      tok [[''id'']] (un_Item E) cols_Item (\<lambda>_. True) T' \<and>
      tmap (un_Item E) mID T' = map_where (\<lambda>it. mLibraryID it \<noteq> k) (tmap (un_Item E) mID (tab ?D ''items''))"
    by (rule items.delete_effect [where D = ?D and t = "''items''", OF T]) (simp add: sql_rows_simps)
  then obtain n T' where x: "sql_apply V (DeleteFrom ''items'' [(''library_id'', Param 1)]) [SqlText k] ?D = Inr (n, ?D(''items'' \<mapsto> T'))"
    "tok [[''id'']] (un_Item E) cols_Item (\<lambda>_. True) T'"
    "tmap (un_Item E) mID T' = drop_library_items k (tmap (un_Item E) mID (tab ?D ''items''))"
    unfolding drop_library_items_def by blast
  from tx_exec_ok [OF x(1)] x(2,3) show ?thesis
    by (cases "tx_exec E (DeleteFrom ''items'' [(''library_id'', Param 1)]) [SqlText k] db") auto
qed

lemma pg_DeleteLibrary_step:
  assumes inv: "pg_inv E V s" and ok: "op_sendable E V (OpDeleteLibrary k)"
  shows "refines_op (pg_spec_op (OpDeleteLibrary k) (pg_abs E V s)) s (pg_DeleteLibrary E k s)"
  unfolding pg_DeleteLibrary_def
proof (rule pg_tx_step [OF inv])
  let ?D = "pv_tables V (pgDB s)"
  let ?sp = "pg_spec_op (OpDeleteLibrary k) (pg_abs E V s)"
  let ?del = "DeleteFrom ''libraries'' [(''id'', Param 1)]"
  let ?items = "\<lambda>db1. tx_exec E (DeleteFrom ''items'' [(''library_id'', Param 1)]) [SqlText k] db1"
  have D: "data_inv E V ?D" using inv by (simp add: pg_inv_def)
  note T = data_inv_tables(3) [OF D] data_inv_parts(3) [OF D]
  have eff: "tmap (un_Library E) lID (tab ?D ''libraries'') k = None \<Longrightarrow> sql_apply V ?del [SqlText k] ?D = Inr (0, ?D)"
    "tmap (un_Library E) lID (tab ?D ''libraries'') k = Some l \<Longrightarrow> \<exists>T'. sql_apply V ?del [SqlText k] ?D = Inr (1, ?D(''libraries'' \<mapsto> T')) \<and>
      tok [[''id''], [''path'']] (un_Library E) cols_Library (\<lambda>_. True) T' \<and>
      tmap (un_Library E) lID T' = (tmap (un_Library E) lID (tab ?D ''libraries''))(k := None)" for l
    by (rule libraries.delete_key [where D = ?D and t = "''libraries''", OF T]; simp add: sql_rows_simps)+
  show "tx_refines ?sp (and_then (tx_exec E ?del [SqlText k] (pgDB s)) (\<lambda>(n, db1).
     if n = 0 then Inl ErrNotFound else and_then (?items db1) (\<lambda>(m, db2). Inr db2)))"
  proof (cases "aLibraries (pg_abs E V s) k")
    case None
    then have "tmap (un_Library E) lID (tab ?D ''libraries'') k = None" by (simp add: pg_abs_def)
    from tx_exec_none [OF eff(1) [OF this]] ok obtain db' where "tx_exec E ?del [SqlText k] (pgDB s) = Inr (0, db')"
      by auto
    with None show ?thesis by (simp add: spec_DeleteLibrary_def tx_refines_def)
  next
    case (Some l)
    then have "tmap (un_Library E) lID (tab ?D ''libraries'') k = Some l" by (simp add: pg_abs_def)
    from eff(2) [OF this] obtain T1 where T1: "sql_apply V ?del [SqlText k] ?D = Inr (1, ?D(''libraries'' \<mapsto> T1))"
      "tok [[''id''], [''path'']] (un_Library E) cols_Library (\<lambda>_. True) T1"
      "tmap (un_Library E) lID T1 = (tmap (un_Library E) lID (tab ?D ''libraries''))(k := None)" by blast
    have sp: "?sp = Inr ((data_abs E ?D)\<lparr>aLibraries := (aLibraries (data_abs E ?D))(k := None),
        aItems := drop_library_items k (aItems (data_abs E ?D))\<rparr>)"
      using Some by (simp add: spec_DeleteLibrary_def pg_abs_def)
    show ?thesis
    proof (rule tx_refines_and_then [OF tx_exec_ok [OF T1(1)]], goal_cases)
      case (2 v)
      then obtain db1 where v: "v = (1, db1)" "pv_tables V db1 = ?D(''libraries'' \<mapsto> T1)" by (cases v) auto
      have D1: "data_inv E V (pv_tables V db1)" using D T1(2) v(2) by (simp add: data_inv_def)
      have "tx_refines ?sp (and_then (?items db1) (\<lambda>(m, db2). Inr db2))"
        by (rule tx_refines_and_then [OF delete_library_items [OF D1]])
          (use D T1 sp v(2) in \<open>auto simp: tx_refines_def data_inv_def data_abs_upd\<close>)
      with v(1) show ?case by simp
    qed (simp only: sp, blast)
  qed
qed

section \<open>Publishing a scan\<close>

text \<open>The batch: each insertion succeeds on items that are not there yet, or ends the transaction.\<close>

lemma add_items_Cons: "add_items lib (it # its) m = add_items lib its (m(mID (it\<lparr>mLibraryID := lib\<rparr>) \<mapsto> it\<lparr>mLibraryID := lib\<rparr>))"
  by (simp add: add_items_def)

lemma send_items:
  assumes "queue_items E lib its = Inr batch" "data_inv E V (pv_tables V db)"
  shows "yields (\<lambda>db'. \<exists>T'. pv_tables V db' = (pv_tables V db)(''items'' \<mapsto> T') \<and>
       tok [[''id'']] (un_Item E) cols_Item (\<lambda>_. True) T' \<and>
       tmap (un_Item E) mID T' = add_items lib its (tmap (un_Item E) mID (tab (pv_tables V db) ''items'')))
     (send_batch E insertItem batch db)"
  using assms
proof (induction its arbitrary: batch db)
  case Nil
  then show ?case
    using data_inv_tables(4) [OF Nil(2)] data_inv_parts(4) [OF Nil(2)]
    by (auto simp: add_items_def fun_upd_idem intro!: exI [of _ "tab (pv_tables V db) ''items''"])
next
  case (Cons it its)
  let ?D = "pv_tables V db"
  let ?it = "it\<lparr>mLibraryID := lib\<rparr>"
  from Cons.prems(1) obtain d batch' where d: "js_Item E ?it = Some d" "queue_items E lib its = Inr batch'"
    "batch = [SqlText (mID ?it), SqlText lib, SqlText (mParentID ?it), SqlJson d] # batch'"
    by (cases "js_Item E ?it"; cases "queue_items E lib its") (auto simp: encode_def Let_def)
  let ?ps = "[SqlText (mID ?it), SqlText lib, SqlText (mParentID ?it), SqlJson d]"
  note T = data_inv_tables(4) [OF Cons.prems(2)] data_inv_parts(4) [OF Cons.prems(2)]
  have row: "new_row V ?ps [(''id'', Param 1), (''library_id'', Param 2), (''parent_id'', Param 3), (''data'', Param 4)]
      = mk_row (cols_Item ?it) (pv_jsonb V d)" by (simp add: sql_rows_simps)
  note eff = items.insert_effect [where D = ?D and t = "''items''", OF T row codec(4) [OF d(1)] TrueI,
      folded insertItem_def]
  show ?case
  proof (cases "items.fresh (tab ?D ''items'') ?it")
    case False
    from tx_exec_rejected [OF eff(1) [OF False]] show ?thesis
      unfolding d(3) send_batch.simps by (rule yields_and_then) (rule FalseE)
  next
    case True
    from eff(2) [OF True] obtain T1 where T1: "sql_apply V insertItem ?ps ?D = Inr (1, ?D(''items'' \<mapsto> T1))"
      "tok [[''id'']] (un_Item E) cols_Item (\<lambda>_. True) T1"
      "tmap (un_Item E) mID T1 = (tmap (un_Item E) mID (tab ?D ''items''))(mID ?it \<mapsto> ?it)" by blast
    show ?thesis unfolding d(3) send_batch.simps
    proof (rule yields_and_then [OF tx_exec_ok [OF T1(1)]], goal_cases)
      case (1 v)
      then obtain db1 where v: "v = (1, db1)" "pv_tables V db1 = ?D(''items'' \<mapsto> T1)" by (cases v) auto
      have "data_inv E V (pv_tables V db1)" using Cons.prems(2) T1(2) v(2) by (simp add: data_inv_def)
      from Cons.IH [OF d(2) this] show ?case
        unfolding v prod.case fun_upd_upd tab_upd T1(3) by (simp only: simp_thms if_True T1(3) add_items_Cons)
    qed
  qed
qed

lemma publish_items:
  assumes "data_inv E V (pv_tables V db)"
  shows "yields (\<lambda>db'. \<exists>T'. pv_tables V db' = (pv_tables V db)(''items'' \<mapsto> T') \<and>
       tok [[''id'']] (un_Item E) cols_Item (\<lambda>_. True) T' \<and>
       tmap (un_Item E) mID T' = add_items lib its (tmap (un_Item E) mID (tab (pv_tables V db) ''items'')))
     (if its = [] then Inr db else and_then (queue_items E lib its) (\<lambda>batch. send_batch E insertItem batch db))"
proof (cases "queue_items E lib its")
  case (Inl e)
  have "queue_items E lib its = Inl e \<Longrightarrow> io_error e" for its e
    by (induction its arbitrary: e) (auto simp: Let_def encode_def and_then_def split: option.splits sum.splits)
  with Inl send_items [OF _ assms, of lib "[]" "[]"] show ?thesis by simp
next
  case (Inr batch)
  with send_items [OF Inr assms] show ?thesis by (cases its) simp_all
qed

lemma update_library:
  assumes D: "data_inv E V (pv_tables V db)" and l: "tmap (un_Library E) lID (tab (pv_tables V db) ''libraries'') k = Some l"
    and l': "cols_Library l' = cols_Library l" and data: "js_Library E l' = Some data"
  shows "yields (\<lambda>(n, db'). \<exists>T'. pv_tables V db' = (pv_tables V db)(''libraries'' \<mapsto> T') \<and>
       tok [[''id''], [''path'']] (un_Library E) cols_Library (\<lambda>_. True) T' \<and>
       tmap (un_Library E) lID T' = (tmap (un_Library E) lID (tab (pv_tables V db) ''libraries''))(k \<mapsto> l'))
     (tx_exec E (UpdateSet ''libraries'' [(''data'', Param 2)] [(''id'', Param 1)]) [SqlText k, SqlJson data] db)"
proof -
  let ?D = "pv_tables V db"
  let ?st = "UpdateSet ''libraries'' [(''data'', Param 2)] [(''id'', Param 1)]"
  note T = data_inv_tables(3) [OF D] data_inv_parts(3) [OF D]
  have key: "lID l' = k" using libraries.tmap_in [OF T(2)] l l' by (simp add: cols_defs)
  have "\<not> libraries.clash (tab ?D ''libraries'') l'"
    using libraries.same_cols_no_clash [OF T(2), of l' l] l l' key by simp
  then have "\<exists>T'. sql_apply V ?st [SqlText k, SqlJson data] ?D = Inr (1, ?D(''libraries'' \<mapsto> T')) \<and>
      tok [[''id''], [''path'']] (un_Library E) cols_Library (\<lambda>_. True) T' \<and>
      tmap (un_Library E) lID T' = (tmap (un_Library E) lID (tab ?D ''libraries''))(k \<mapsto> l')"
    by (intro libraries.update_effect(3) [where D = ?D and t = "''libraries''", OF T codec(3) [OF data] TrueI key _ _ l])
      (use l' in \<open>auto simp: sql_rows_simps dest!: libraries.same_key [OF T(2) l]\<close>)
  then obtain T' where T': "sql_apply V ?st [SqlText k, SqlJson data] ?D = Inr (1, ?D(''libraries'' \<mapsto> T'))"
    "tok [[''id''], [''path'']] (un_Library E) cols_Library (\<lambda>_. True) T'"
    "tmap (un_Library E) lID T' = (tmap (un_Library E) lID (tab ?D ''libraries''))(k \<mapsto> l')" by blast
  show ?thesis by (rule yields_mono [OF tx_exec_ok [OF T'(1)]]) (use T'(2,3) in auto)
qed

text \<open>The end of the transaction, when the items are in place: the library gets its count and time.\<close>

lemma finish_scan:
  assumes D: "data_inv E V D" and db2: "pv_tables V db2 = D(''items'' \<mapsto> T2)"
    and T2: "tok [[''id'']] (un_Item E) cols_Item (\<lambda>_. True) T2"
    and l: "tmap (un_Library E) lID (tab D ''libraries'') k = Some l" "cols_Library l' = cols_Library l"
    and sp: "sp = Inr ((data_abs E D)\<lparr>aItems := tmap (un_Item E) mID T2, aLibraries := (aLibraries (data_abs E D))(k \<mapsto> l')\<rparr>)"
  shows "tx_refines sp (and_then (encode (js_Library E) l') (\<lambda>data. and_then (tx_exec E
     (UpdateSet ''libraries'' [(''data'', Param 2)] [(''id'', Param 1)]) [SqlText k, SqlJson data] db2) (\<lambda>(m, db3). Inr db3)))"
proof -
  have possible: "\<exists>b. sp = Inr b" using sp by blast
  have D2: "data_inv E V (pv_tables V db2)" using D db2 T2 by (simp add: data_inv_def)
  have l2: "tmap (un_Library E) lID (tab (pv_tables V db2) ''libraries'') k = Some l" using l by (simp add: db2)
  show ?thesis
  proof (rule tx_refines_and_then [OF encode_yields possible])
    fix data assume "js_Library E l' = Some data"
    from update_library [OF D2 l2 l(2) this]
    show "tx_refines sp (and_then (tx_exec E (UpdateSet ''libraries'' [(''data'', Param 2)] [(''id'', Param 1)])
       [SqlText k, SqlJson data] db2) (\<lambda>(m, db3). Inr db3))"
      by (rule tx_refines_and_then [OF _ possible])
        (use D2 db2 sp in \<open>auto simp: tx_refines_def data_inv_def data_abs_upd\<close>)
  qed
qed

lemma pg_ReplaceLibraryItems_step:
  assumes inv: "pg_inv E V s" and ok: "op_sendable E V (OpReplaceLibraryItems now k its)"
  shows "refines_op (pg_spec_op (OpReplaceLibraryItems now k its) (pg_abs E V s)) s (pg_ReplaceLibraryItems E now k its s)"
  unfolding pg_ReplaceLibraryItems_def
proof (rule pg_tx_step [OF inv])
  let ?D = "pv_tables V (pgDB s)"
  let ?sp = "pg_spec_op (OpReplaceLibraryItems now k its) (pg_abs E V s)"
  let ?l' = "\<lambda>l :: Library. l\<lparr>lItemCount := int (length its), lScannedAt := now\<rparr>"
  let ?items = "tmap (un_Item E) mID (tab ?D ''items'')"
  let ?new = "add_items k its (drop_library_items k ?items)"
  let ?read = "tx_read E (un_Library E) (SelectFrom ''data'' ''libraries'' [(''id'', Param 1)] True) k (pgDB s)"
  let ?del = "tx_exec E (DeleteFrom ''items'' [(''library_id'', Param 1)]) [SqlText k] (pgDB s)"
  let ?ins = "\<lambda>db1. if its = [] then Inr db1
      else and_then (queue_items E k its) (\<lambda>batch. send_batch E insertItem batch db1)"
  let ?upd = "\<lambda>data db2. tx_exec E (UpdateSet ''libraries'' [(''data'', Param 2)] [(''id'', Param 1)]) [SqlText k, SqlJson data] db2"
  have D: "data_inv E V ?D" using inv by (simp add: pg_inv_def)
  note T = data_inv_tables(3) [OF D] data_inv_parts(3) [OF D]
  have read: "?read = lookup_or (aLibraries (pg_abs E V s) k)"
    using ok by (simp add: pg_abs_def, intro libraries.tx_key_read [OF reads _ T]) (auto simp: sql_rows_simps)
  show "tx_refines ?sp (and_then ?read (\<lambda>l. and_then ?del (\<lambda>(n, db1). and_then (?ins db1) (\<lambda>db2.
     and_then (encode (js_Library E) (?l' l)) (\<lambda>data. and_then (?upd data db2) (\<lambda>(m, db3). Inr db3))))))"
  proof (cases "aLibraries (pg_abs E V s) k")
    case None
    then show ?thesis unfolding read by (simp add: spec_ReplaceLibraryItems_def tx_refines_def)
  next
    case (Some l)
    have l: "tmap (un_Library E) lID (tab ?D ''libraries'') k = Some l" using Some by (simp add: pg_abs_def)
    have sp: "?sp = Inr ((data_abs E ?D)\<lparr>aItems := ?new, aLibraries := (aLibraries (data_abs E ?D))(k \<mapsto> ?l' l)\<rparr>)"
      using Some by (simp add: spec_ReplaceLibraryItems_def pg_abs_def)
    then have possible: "\<exists>b. ?sp = Inr b" by blast
    have "tx_refines ?sp (and_then ?del (\<lambda>(n, db1). and_then (?ins db1) (\<lambda>db2.
       and_then (encode (js_Library E) (?l' l)) (\<lambda>data. and_then (?upd data db2) (\<lambda>(m, db3). Inr db3)))))"
    proof (rule tx_refines_and_then [OF delete_library_items [OF D] possible], goal_cases)
      case (1 v)
      then obtain n db1 T1 where v: "v = (n, db1)" and T1: "pv_tables V db1 = ?D(''items'' \<mapsto> T1)"
        "tok [[''id'']] (un_Item E) cols_Item (\<lambda>_. True) T1" "tmap (un_Item E) mID T1 = drop_library_items k ?items"
        by (cases v) auto
      have D1: "data_inv E V (pv_tables V db1)" using D T1(1,2) by (simp add: data_inv_def)
      have "tx_refines ?sp (and_then (?ins db1) (\<lambda>db2.
         and_then (encode (js_Library E) (?l' l)) (\<lambda>data. and_then (?upd data db2) (\<lambda>(m, db3). Inr db3))))"
      proof (rule tx_refines_and_then [OF publish_items [OF D1] possible])
        fix db2
        assume "\<exists>T'. pv_tables V db2 = (pv_tables V db1)(''items'' \<mapsto> T') \<and>
          tok [[''id'']] (un_Item E) cols_Item (\<lambda>_. True) T' \<and>
          tmap (un_Item E) mID T' = add_items k its (tmap (un_Item E) mID (tab (pv_tables V db1) ''items''))"
        then obtain T2 where T2: "pv_tables V db2 = ?D(''items'' \<mapsto> T2)"
          "tok [[''id'']] (un_Item E) cols_Item (\<lambda>_. True) T2" "tmap (un_Item E) mID T2 = ?new"
          unfolding T1(1) fun_upd_upd tab_upd by (auto simp: T1(3))
        show "tx_refines ?sp (and_then (encode (js_Library E) (?l' l)) (\<lambda>data. and_then (?upd data db2) (\<lambda>(m, db3). Inr db3)))"
          by (rule finish_scan [OF D T2(1,2) l]) (simp_all add: cols_defs T2(3) sp [simplified])
      qed
      then show ?case by (simp add: v)
    qed
    then show ?thesis unfolding read Some by simp
  qed
qed

end

end
