(* ===== verification/PgBackend.thy ===== *)
theory PgBackend
  imports PgTx
begin

text \<open>
  The PostgreSQL store as a backend: all its mutations against \<open>pg_spec_op\<close>, its reads, the two contracts as
  sublocales of \<open>pg_engine\<close>, and \<open>ref_pg\<close>, an engine that runs the reference meaning.
\<close>

lemma pg_store_sel:
  "ServerID (pg_store E) = pg_ServerID"
  "CreateUser (pg_store E) = pg_CreateUser E" "GetUserByID (pg_store E) = pg_GetUserByID E"
  "GetUserByName (pg_store E) = pg_GetUserByName E" "ListUsers (pg_store E) = pg_ListUsers E"
  "UpdateUser (pg_store E) = pg_UpdateUser E" "CountUsers (pg_store E) = pg_CountUsers E"
  "CreateSession (pg_store E) = pg_CreateSession E"
  "GetSessionByTokenHash (pg_store E) = pg_GetSessionByTokenHash E"
  "DeleteSession (pg_store E) = pg_DeleteSession E" "TouchSession (pg_store E) = pg_TouchSession E"
  "CreateLibrary (pg_store E) = pg_CreateLibrary E" "GetLibrary (pg_store E) = pg_GetLibrary E"
  "GetLibraryByPath (pg_store E) = pg_GetLibraryByPath E"
  "ListLibraries (pg_store E) = pg_ListLibraries E" "DeleteLibrary (pg_store E) = pg_DeleteLibrary E"
  "GetItem (pg_store E) = pg_GetItem E" "ListItemsByLibrary (pg_store E) = pg_ListItemsByLibrary E"
  "ListItemsByParent (pg_store E) = pg_ListItemsByParent E" "AllItems (pg_store E) = pg_AllItems E"
  "ReplaceLibraryItems (pg_store E) = pg_ReplaceLibraryItems E"
  "GetUserItemData (pg_store E) = pg_GetUserItemData E"
  "UpsertUserItemData (pg_store E) = pg_UpsertUserItemData E"
  "ListUserItemData (pg_store E) = pg_ListUserItemData E"
  "CreateRecording (pg_store E) = pg_CreateRecording E" "GetRecording (pg_store E) = pg_GetRecording E"
  "ListRecordings (pg_store E) = pg_ListRecordings E" "UpdateRecording (pg_store E) = pg_UpdateRecording E"
  "DeleteRecording (pg_store E) = pg_DeleteRecording E"
  "CreateSeriesTimer (pg_store E) = pg_CreateSeriesTimer E"
  "GetSeriesTimer (pg_store E) = pg_GetSeriesTimer E" "ListSeriesTimers (pg_store E) = pg_ListSeriesTimers E"
  "DeleteSeriesTimer (pg_store E) = pg_DeleteSeriesTimer E"
  by (simp_all add: pg_store_def)

section \<open>The contracts\<close>

context pg_engine begin

lemma pg_run_op_strict:
  "pg_inv E V s \<Longrightarrow> op_sendable E V c \<Longrightarrow>
   step_ok (pg_abs E V) (pg_inv E V) (pg_spec_op c (pg_abs E V s)) (pg_abs E V s) (run_op (pg_store E) c s)"
  using pg_CreateUser_step pg_UpdateUser_step pg_CreateSession_step pg_DeleteSession_step pg_TouchSession_step
    pg_CreateLibrary_step pg_DeleteLibrary_step pg_ReplaceLibraryItems_step pg_UpsertUserItemData_step
    pg_CreateRecording_step pg_UpdateRecording_step pg_DeleteRecording_step pg_CreateSeriesTimer_step
    pg_DeleteSeriesTimer_step
  by (cases c) (simp_all only: run_op.simps pg_store_sel)

end

text \<open>What a caller of this backend owes: storable arguments, the duties every backend asks for, unique identifiers.\<close>

definition pg_pre :: "('db, 'b) pgEngine \<Rightarrow> ('db, 'b) pgView \<Rightarrow> store_op \<Rightarrow> absstore \<Rightarrow> bool" where
  "pg_pre E V c a \<longleftrightarrow> op_sendable E V c \<and> op_pre c a \<and> op_unique c a"

sublocale pg_engine \<subseteq> pg_mutations: op_store "pg_store E" "pg_abs E V" "pg_inv E V" "pg_pre E V"
proof
  fix s c
  assume "pg_inv E V s" "pg_pre E V c (pg_abs E V s)"
  with pg_run_op_strict [of s c] pg_spec_unique
  show "step_ok (pg_abs E V) (pg_inv E V) (spec_op c (pg_abs E V s)) (pg_abs E V s) (run_op (pg_store E) c s)"
    by (simp add: pg_pre_def)
qed

sublocale pg_engine \<subseteq> pg_reads: read_store "pg_store E" "pg_abs E V" "pg_inv E V" "\<lambda>k. pv_valid V (SqlText k)"
proof (unfold_locales, unfold pg_store_sel pg_inv_def pg_abs_def data_abs_sel, goal_cases)
  case (1 s k) note T = data_inv_tables(1) [OF 1(1)] data_inv_parts(1) [OF 1(1)]
  show ?case unfolding pg_GetUserByID_def pgGetByID_def
    by (rule users.key_read [OF reads _ T]) (use 1 in \<open>simp_all add: sql_rows_simps\<close>)
next
  case (2 s name) note T = data_inv_tables(1) [OF 2(1)] data_inv_parts(1) [OF 2(1)]
  show ?case unfolding pg_GetUserByName_def
    by (rule users.search_read [OF reads _ T]) (use 2 in \<open>simp_all add: sql_rows_simps lower_eq\<close>)
next
  case (3 s) note T = data_inv_tables(1) [OF 3] data_inv_parts(1) [OF 3]
  show ?case unfolding pg_ListUsers_def by (rule users.list_all_read [OF reads T])
next
  case (4 s) note T = data_inv_tables(1) [OF 4] data_inv_parts(1) [OF 4]
  show ?case by (simp add: pg_CountUsers_def read_okD(2) [OF reads T(1)] users.length_rows [OF T(2)])
next
  case (5 s h) note T = data_inv_tables(2) [OF 5(1)] data_inv_parts(2) [OF 5(1)]
  show ?case unfolding pg_GetSessionByTokenHash_def
    by (rule sessions.search_read [OF reads _ T]) (use 5 in \<open>simp_all add: sql_rows_simps\<close>)
next
  case (6 s k) note T = data_inv_tables(3) [OF 6(1)] data_inv_parts(3) [OF 6(1)]
  show ?case unfolding pg_GetLibrary_def pgGetByID_def
    by (rule libraries.key_read [OF reads _ T]) (use 6 in \<open>simp_all add: sql_rows_simps\<close>)
next
  case (7 s p) note T = data_inv_tables(3) [OF 7(1)] data_inv_parts(3) [OF 7(1)]
  show ?case unfolding pg_GetLibraryByPath_def
    by (rule libraries.search_read [OF reads _ T]) (use 7 in \<open>simp_all add: sql_rows_simps\<close>)
next
  case (8 s) note T = data_inv_tables(3) [OF 8] data_inv_parts(3) [OF 8]
  show ?case unfolding pg_ListLibraries_def by (rule libraries.list_all_read [OF reads T])
next
  case (9 s k) note T = data_inv_tables(4) [OF 9(1)] data_inv_parts(4) [OF 9(1)]
  show ?case unfolding pg_GetItem_def pgGetByID_def
    by (rule items.key_read [OF reads _ T]) (use 9 in \<open>simp_all add: sql_rows_simps\<close>)
next
  case (10 s lib) note T = data_inv_tables(4) [OF 10(1)] data_inv_parts(4) [OF 10(1)]
  show ?case unfolding pg_ListItemsByLibrary_def
    by (rule items.list_read [OF reads _ T]) (use 10 in \<open>simp_all add: sql_rows_simps\<close>)
next
  case (11 s p) note T = data_inv_tables(4) [OF 11(1)] data_inv_parts(4) [OF 11(1)]
  show ?case unfolding pg_ListItemsByParent_def
    by (rule items.list_read [OF reads _ T]) (use 11 in \<open>simp_all add: sql_rows_simps\<close>)
next
  case (12 s) note T = data_inv_tables(4) [OF 12] data_inv_parts(4) [OF 12]
  show ?case unfolding pg_AllItems_def by (rule items.list_all_read [OF reads T])
next
  case (13 s u i) note T = data_inv_tables(5) [OF 13(1)] data_inv_parts(5) [OF 13(1)]
  from 13(2,3) have nul: "no_nul u" "no_nul i" by (simp_all add: valid_text)
  show ?case unfolding pg_GetUserItemData_def
    by (rule userdata.key_read [OF reads _ T])
      (use 13 nul in \<open>auto simp: sql_rows_simps key_UserData_def plain_UserData_def userDataKey_idxKey idxKey_inject\<close>)
next
  case (14 s u) note T = data_inv_tables(5) [OF 14(1)] data_inv_parts(5) [OF 14(1)]
  show ?case unfolding pg_ListUserItemData_def
    by (rule userdata.list_read [OF reads _ T]) (use 14 in \<open>simp_all add: sql_rows_simps\<close>)
next
  case (15 s k) note T = data_inv_tables(6) [OF 15(1)] data_inv_parts(6) [OF 15(1)]
  show ?case unfolding pg_GetRecording_def pgGetByID_def
    by (rule recordings.key_read [OF reads _ T]) (use 15 in \<open>simp_all add: sql_rows_simps\<close>)
next
  case (16 s) note T = data_inv_tables(6) [OF 16] data_inv_parts(6) [OF 16]
  show ?case unfolding pg_ListRecordings_def by (rule recordings.list_all_read [OF reads T])
next
  case (17 s k) note T = data_inv_tables(7) [OF 17(1)] data_inv_parts(7) [OF 17(1)]
  show ?case unfolding pg_GetSeriesTimer_def pgGetByID_def
    by (rule series.key_read [OF reads _ T]) (use 17 in \<open>simp_all add: sql_rows_simps\<close>)
next
  case (18 s) note T = data_inv_tables(7) [OF 18] data_inv_parts(7) [OF 18]
  show ?case unfolding pg_ListSeriesTimers_def by (rule series.list_all_read [OF reads T])
qed

context pg_engine begin

lemma pg_run_ops_answers:
  "pg_inv E V s \<Longrightarrow> ops_meet (pg_pre E V) cs (pg_abs E V s) \<Longrightarrow> run_ops (pg_store E) cs s = (rs, s') \<Longrightarrow> io_free rs \<Longrightarrow>
   pg_inv E V s' \<and> spec_ops cs (pg_abs E V s) = (rs, pg_abs E V s')"
  by (rule pg_mutations.run_ops_answers)

lemmas pg_lookups = pg_reads.read_user pg_reads.read_library pg_reads.read_item pg_reads.read_recording

end

section \<open>A concrete engine\<close>

text \<open>The database is its tables, values are the tagged records of the other reference engine. A text with a zero
  byte is refused with the code Postgres gives an invalid byte sequence.\<close>

definition ref_view :: "(blob pgData, blob) pgView" where
  "ref_view = \<lparr>pv_tables = (\<lambda>D. D), pv_lower = ToLower, pv_jsonb = (\<lambda>d. d),
     pv_valid = (\<lambda>v. case v of SqlText t \<Rightarrow> no_nul t | SqlJson _ \<Rightarrow> True)\<rparr>"

definition ref_exec :: "sqlStmt \<Rightarrow> blob sqlVal list \<Rightarrow> blob pgData \<Rightarrow> (sqlErr + nat) \<times> blob pgData" where
  "ref_exec st ps D =
     (if \<not> list_all (pv_valid ref_view) ps then (Inl (PgError ''22021''), D)
      else case sql_apply ref_view st ps D of Inl e \<Rightarrow> (Inl e, D) | Inr (n, D') \<Rightarrow> (Inr n, D'))"

fun ref_query :: "sqlQuery \<Rightarrow> blob sqlVal list \<Rightarrow> blob pgData \<Rightarrow> sqlErr + blob sqlVal list" where
  "ref_query (SelectFrom col t wh fu) ps D =
     (if \<not> list_all (pv_valid ref_view) ps then Inl (PgError ''22021'')
      else if D t = None then Inl (PgError ''42P01'')
      else Inr (map (\<lambda>r. the (map_of r col)) (sql_rows ref_view ps t wh D)))"

definition ref_pg :: "(blob pgData, blob) pgEngine" where
  "ref_pg = \<lparr>pg_ping = (\<lambda>_. None), pg_exec = ref_exec, pg_query = ref_query,
     pg_count = (\<lambda>t D. case D t of None \<Rightarrow> Inl (PgError ''42P01'') | Some T \<Rightarrow> Inr (length (ptRows T))),
     pg_begin = (\<lambda>_. None), pg_commit = (\<lambda>D D'. (None, D')),
     js_User = enc_User ref_engine, un_User = dec_User ref_engine,
     js_Session = enc_Session ref_engine, un_Session = dec_Session ref_engine,
     js_Library = enc_Library ref_engine, un_Library = dec_Library ref_engine,
     js_Item = enc_Item ref_engine, un_Item = dec_Item ref_engine,
     js_UserData = enc_UserData ref_engine, un_UserData = dec_UserData ref_engine,
     js_Recording = enc_Recording ref_engine, un_Recording = dec_Recording ref_engine,
     js_Series = enc_Series ref_engine, un_Series = dec_Series ref_engine\<rparr>"

lemma ref_exec_ok: "exec_ok ref_pg ref_view"
  by (auto simp: exec_ok_def ref_pg_def ref_exec_def ref_view_def unique_violation_def
      split: sum.splits prod.splits if_splits)

lemma ref_read_ok: "read_ok ref_pg ref_view"
  by (auto simp: read_ok_def ref_pg_def ref_view_def)

lemma ref_pg_ok: "pg_ok ref_pg ref_view"
  using ref_exec_ok ref_read_ok ref_engine_ok
  by (simp add: pg_ok_def pg_codec_ok_def engine_ok_def codec_ok_def)
    (simp add: ref_view_def ref_pg_def EqualFold_def)

interpretation ref_pg: pg_engine ref_pg ref_view
  by unfold_locales (rule ref_pg_ok)

end
