(* ===== verification/PgOpen.thy ===== *)
theory PgOpen
  imports PgBackend
begin

text \<open>
  Opening the PostgreSQL store: the schema of a new database satisfies the invariant, and the server's identity is
  the one row of \<open>meta\<close>, which the first start inserts and no later start or operation changes.
\<close>

section \<open>The schema\<close>

lemma create_present: "\<forall>t \<in> set ts. D (tbName t) \<noteq> None \<Longrightarrow> fold create_table ts D = D"
  by (induction ts) (auto simp: create_table_def)

lemma schema_present: "data_inv E V D \<Longrightarrow> D ''meta'' \<noteq> None \<Longrightarrow> fold create_table pgSchema D = D"
  by (rule create_present) (simp add: pgSchema_def data_inv_tables)

definition new_data :: "'b pgData" where
  "new_data = fold create_table pgSchema Map.empty"

lemma new_data_tables:
  "new_data ''meta'' = Some \<lparr>ptUnique = [[''key'']], ptRows = []\<rparr>"
  "tab new_data ''users'' = \<lparr>ptUnique = [[''id''], [''name_lower'']], ptRows = []\<rparr>"
  "tab new_data ''sessions'' = \<lparr>ptUnique = [[''id''], [''token_hash'']], ptRows = []\<rparr>"
  "tab new_data ''libraries'' = \<lparr>ptUnique = [[''id''], [''path'']], ptRows = []\<rparr>"
  "tab new_data ''items'' = \<lparr>ptUnique = [[''id'']], ptRows = []\<rparr>"
  "tab new_data ''user_item_data'' = \<lparr>ptUnique = [[''user_id'', ''item_id'']], ptRows = []\<rparr>"
  "tab new_data ''recordings'' = \<lparr>ptUnique = [[''id'']], ptRows = []\<rparr>"
  "tab new_data ''series_timers'' = \<lparr>ptUnique = [[''id'']], ptRows = []\<rparr>"
  by (simp_all add: new_data_def pgSchema_def create_table_def tab_def)

lemma new_data_inv: "data_inv E V new_data"
  by (simp add: data_inv_def new_data_tables tok_def keys_ok_def)

definition empty_abs :: absstore where
  "empty_abs = \<lparr>aUsers = Map.empty, aSessions = Map.empty, aLibraries = Map.empty, aItems = Map.empty,
     aUserData = Map.empty, aRecordings = Map.empty, aSeriesTimers = Map.empty\<rparr>"

lemma new_data_abs: "data_abs E new_data = empty_abs"
  by (simp add: data_abs_def new_data_tables tmap_def tvals_def empty_abs_def)

section \<open>The server's identity\<close>

definition meta_row :: "string \<Rightarrow> 'b row" where
  "meta_row ident = [(''key'', SqlText ''server_id''), (''value'', SqlText ident)]"

definition has_id :: "string \<Rightarrow> 'b pgData \<Rightarrow> bool" where
  "has_id ident D \<longleftrightarrow> D ''meta'' = Some \<lparr>ptUnique = [[''key'']], ptRows = [meta_row ident]\<rparr>"

definition seed_id :: sqlStmt where
  "seed_id = InsertInto ''meta'' [(''key'', Lit ''server_id''), (''value'', Param 1)] (DoNothing [''key''])"

lemma seed_present: "has_id ident D \<Longrightarrow> sql_apply V seed_id [SqlText x] D = Inr (0, D)"
  by (simp add: seed_id_def has_id_def new_row_def row_key_def meta_row_def Let_def)

lemma seed_absent:
  assumes "D ''meta'' = Some \<lparr>ptUnique = [[''key'']], ptRows = []\<rparr>"
  shows "\<exists>D'. sql_apply V seed_id [SqlText x] D = Inr (1, D') \<and> has_id x D' \<and> (\<forall>t. t \<noteq> ''meta'' \<longrightarrow> D' t = D t)"
  using assms by (simp add: seed_id_def has_id_def new_row_def meta_row_def checked_def keys_ok_def Let_def)

lemma data_only: "(\<forall>t. t \<noteq> ''meta'' \<longrightarrow> D' t = D t) \<Longrightarrow> data_inv E V D' = data_inv E V D \<and> data_abs E D' = data_abs E D"
  by (simp add: data_inv_def data_abs_def tab_def)

context pg_engine begin

lemma read_id:
  assumes "has_id ident (pv_tables V db)"
  shows "QueryRow E (SelectFrom ''value'' ''meta'' [(''key'', Lit ''server_id'')] False) [] db = Inr (SqlText ident)"
proof -
  have "pv_tables V db ''meta'' = Some \<lparr>ptUnique = [[''key'']], ptRows = [meta_row ident]\<rparr>"
    using assms by (simp add: has_id_def)
  from read_okD(1) [OF reads this, of "[]" "''value''" "[(''key'', Lit ''server_id'')]" False] this
  obtain vs where "pg_query E (SelectFrom ''value'' ''meta'' [(''key'', Lit ''server_id'')] False) [] db = Inr vs"
    "mset vs = {#SqlText ident#}" by (auto simp: sql_rows_def row_matches_def meta_row_def)
  then show ?thesis by (simp add: QueryRow_def)
qed

lemma initServerID_ok:
  assumes x: "sql_apply V seed_id [SqlText ident] (pv_tables V (pgDB s)) = Inr (n, D)" and D: "has_id own D"
    and s': "initServerID E (Some ident) s = (None, s')"
  shows "pv_tables V (pgDB s') = D \<and> pgServerID s' = own"
proof -
  obtain r db' where r: "pg_exec E seed_id [SqlText ident] (pgDB s) = (r, db')"
    by (cases "pg_exec E seed_id [SqlText ident] (pgDB s)")
  show ?thesis
  proof (rule exec_cases [OF exec x r])
    assume "r = Inr n" "pv_tables V db' = D"
    with s' r read_id [of own db'] D show ?thesis
      by (auto simp: initServerID_def pool_exec_def seed_id_def)
  next
    fix e assume "r = Inl e"
    with s' r show ?thesis by (simp add: initServerID_def pool_exec_def seed_id_def)
  qed
qed

lemma OpenPostgres_tables:
  assumes "OpenPostgres E (Some db) newID = Inr s"
  obtains ident s1 where "newID = Some ident" "initServerID E newID s1 = (None, s)"
    "pv_tables V (pgDB s1) = fold create_table pgSchema (pv_tables V db)"
proof -
  obtain r db' where r: "pg_exec E (CreateTables pgSchema) [] db = (r, db')"
    by (cases "pg_exec E (CreateTables pgSchema) [] db")
  have x: "sql_apply V (CreateTables pgSchema) [] (pv_tables V db) = Inr (0, fold create_table pgSchema (pv_tables V db))"
    by simp
  show ?thesis
  proof (rule exec_cases [OF exec x r])
    assume "r = Inr 0" and db': "pv_tables V db' = fold create_table pgSchema (pv_tables V db)"
    with assms r have s: "initServerID E newID \<lparr>pgDB = db', pgServerID = []\<rparr> = (None, s)"
      by (auto simp: OpenPostgres_def pool_exec_def split: if_splits prod.splits option.splits)
    then obtain ident where "newID = Some ident" by (auto simp: initServerID_def split: option.splits)
    with s db' show ?thesis by (intro that [of ident "\<lparr>pgDB = db', pgServerID = []\<rparr>"]) simp_all
  next
    fix e assume "r = Inl e"
    with assms r show ?thesis by (auto simp: OpenPostgres_def pool_exec_def split: if_splits)
  qed
qed

lemma OpenPostgres_new:
  assumes "OpenPostgres E (Some db) newID = Inr s" "pv_tables V db = Map.empty"
  shows "pg_inv E V s \<and> pg_abs E V s = empty_abs \<and> has_id (pgServerID s) (pv_tables V (pgDB s)) \<and> newID = Some (pgServerID s)"
  using assms(1)
proof (rule OpenPostgres_tables)
  fix ident s1
  assume id: "newID = Some ident" and s: "initServerID E newID s1 = (None, s)"
    and "pv_tables V (pgDB s1) = fold create_table pgSchema (pv_tables V db)"
  with assms(2) have s1: "pv_tables V (pgDB s1) = new_data" by (simp add: new_data_def)
  from seed_absent [where V = V and x = ident and D = new_data, OF new_data_tables(1)]
  obtain D where D: "sql_apply V seed_id [SqlText ident] (pv_tables V (pgDB s1)) = Inr (1, D)" "has_id ident D"
    "\<forall>t. t \<noteq> ''meta'' \<longrightarrow> D t = new_data t" unfolding s1 by blast
  from initServerID_ok [OF D(1,2) s [unfolded id]] D(2) data_only [OF D(3)] show ?thesis
    by (simp add: pg_inv_def pg_abs_def new_data_inv new_data_abs id)
qed

lemma OpenPostgres_again:
  assumes "OpenPostgres E (Some db) newID = Inr s" "data_inv E V (pv_tables V db)" "has_id own (pv_tables V db)"
  shows "pv_tables V (pgDB s) = pv_tables V db \<and> pgServerID s = own"
  using assms(1)
proof (rule OpenPostgres_tables)
  fix ident s1
  assume id: "newID = Some ident" and s: "initServerID E newID s1 = (None, s)"
    and "pv_tables V (pgDB s1) = fold create_table pgSchema (pv_tables V db)"
  moreover have "pv_tables V db ''meta'' \<noteq> None" using assms(3) by (simp add: has_id_def)
  ultimately have s1: "pv_tables V (pgDB s1) = pv_tables V db" using schema_present [OF assms(2)] by simp
  have "has_id own (pv_tables V (pgDB s1))" using assms(3) s1 by simp
  from initServerID_ok [OF seed_present [OF this] this s [unfolded id]] s1 show ?thesis by simp
qed

section \<open>No operation touches it\<close>

definition same_meta :: "'db \<Rightarrow> 'db \<Rightarrow> bool" where
  "same_meta db db' \<longleftrightarrow> pv_tables V db' ''meta'' = pv_tables V db ''meta''"

lemma same_meta_trans: "same_meta a b \<Longrightarrow> same_meta b c \<Longrightarrow> same_meta a c"
  by (simp add: same_meta_def)

end

fun stmt_table :: "sqlStmt \<Rightarrow> string" where
  "stmt_table (CreateTables _) = ''meta''"
| "stmt_table (InsertInto t _ _) = t"
| "stmt_table (UpdateSet t _ _) = t"
| "stmt_table (DeleteFrom t _) = t"

lemma checked_other: "checked t T D n rows = Inr (m, D') \<Longrightarrow> t \<noteq> u \<Longrightarrow> D' u = D u"
  by (auto simp: checked_def split: if_splits)

lemma sql_apply_other: "sql_apply V st ps D = Inr (n, D') \<Longrightarrow> stmt_table st \<noteq> ''meta'' \<Longrightarrow> D' ''meta'' = D ''meta''"
  by (cases st)
    (auto simp: Let_def split: option.splits onConflict.splits if_splits dest: checked_other [where u = "''meta''"])

context pg_engine begin

lemma exec_meta:
  assumes "pg_exec E st ps db = (r, db')" "stmt_table st \<noteq> ''meta''"
  shows "same_meta db db'"
proof (cases "sql_apply V st ps (pv_tables V db)")
  case (Inl e)
  with exec assms(1) show ?thesis unfolding exec_ok_def same_meta_def by (cases r) (metis sum.distinct(1))+
next
  case (Inr x)
  obtain n D where x: "x = (n, D)" by (cases x)
  note sp = Inr [unfolded x]
  from exec_cases [OF exec sp assms(1)] sql_apply_other [OF sp assms(2)] show ?thesis
    unfolding same_meta_def by metis
qed

lemma pool_meta: "pool_exec E st ps s = (r, s') \<Longrightarrow> stmt_table st \<noteq> ''meta'' \<Longrightarrow> same_meta (pgDB s) (pgDB s')"
  by (auto simp: pool_exec_def split: prod.splits dest: exec_meta)

lemma inserted_meta: "stmt_table st \<noteq> ''meta'' \<Longrightarrow> same_meta (pgDB s) (pgDB (snd (inserted (pool_exec E st ps s))))"
  by (auto simp: inserted_def split: prod.splits sum.splits dest: pool_meta)

lemma affected_meta: "stmt_table st \<noteq> ''meta'' \<Longrightarrow> same_meta (pgDB s) (pgDB (snd (affected f (pool_exec E st ps s))))"
  by (auto simp: affected_def split: prod.splits sum.splits dest: pool_meta)

lemma with_data_meta:
  "(\<And>d. same_meta (pgDB s) (pgDB (snd (f d s)))) \<Longrightarrow> same_meta (pgDB s) (pgDB (snd (with_data js v f s)))"
  by (simp add: with_data_def same_meta_def split: sum.split)

text \<open>A transaction body that keeps the table, and the steps of one.\<close>

definition keeps :: "'db \<Rightarrow> err + 'db \<Rightarrow> bool" where
  "keeps db x \<longleftrightarrow> (case x of Inl _ \<Rightarrow> True | Inr db' \<Rightarrow> same_meta db db')"

lemma keeps_simps [simp]: "keeps db (Inl e)" "keeps db (Inr db') \<longleftrightarrow> same_meta db db'" "same_meta db db"
  by (simp_all add: keeps_def same_meta_def)

lemma keeps_and_then: "(\<And>v. x = Inr v \<Longrightarrow> keeps db (f v)) \<Longrightarrow> keeps db (and_then x f)"
  by (cases x) simp_all

lemma keeps_exec:
  assumes "stmt_table st \<noteq> ''meta''" "\<And>n db1. same_meta db0 db1 \<Longrightarrow> keeps db (f (n, db1))" "same_meta db0 db0"
  shows "keeps db (and_then (tx_exec E st ps db0) f)"
  using assms(2) by (auto simp: tx_exec_def and_then_def split: prod.splits sum.splits dest: exec_meta [OF _ assms(1)])

lemma pg_tx_meta:
  assumes "keeps (pgDB s) (f (pgDB s))"
  shows "same_meta (pgDB s) (pgDB (snd (pg_tx E f s)))"
proof (cases "f (pgDB s)")
  case (Inr db1)
  obtain r db2 where c: "pg_commit E (pgDB s) db1 = (r, db2)" by (cases "pg_commit E (pgDB s) db1")
  from read_okD(4) [OF reads c] assms Inr show ?thesis
    by (auto simp: pg_tx_def c read_okD(3) [OF reads] same_meta_def)
qed (simp add: pg_tx_def read_okD(3) [OF reads])

lemma send_batch_meta: "stmt_table st \<noteq> ''meta'' \<Longrightarrow> send_batch E st batch db = Inr db' \<Longrightarrow> same_meta db db'"
  by (induction batch arbitrary: db)
    (auto simp: tx_exec_def and_then_def split: prod.splits sum.splits dest!: exec_meta intro: same_meta_trans)

lemma batch_meta: "send_batch E insertItem batch db = Inr db' \<Longrightarrow> same_meta db db'"
  by (rule send_batch_meta [where st = insertItem]) (simp_all add: insertItem_def)

lemma pg_op_meta: "run_op (pg_store E) c s = (r, s') \<Longrightarrow> same_meta (pgDB s) (pgDB s')"
proof -
  have "same_meta (pgDB s) (pgDB (snd (run_op (pg_store E) c s)))"
  proof (cases c)
    case (OpTouchSession t k)
    show ?thesis unfolding OpTouchSession run_op.simps pg_store_sel pg_TouchSession_def
      by (intro pg_tx_meta keeps_and_then keeps_exec) auto
  next
    case (OpDeleteLibrary k)
    show ?thesis unfolding OpDeleteLibrary run_op.simps pg_store_sel pg_DeleteLibrary_def
      by (intro pg_tx_meta keeps_exec)
        (auto simp: tx_exec_def and_then_def split: prod.splits sum.splits dest!: exec_meta intro: same_meta_trans)
  next
    case (OpReplaceLibraryItems t k its)
    show ?thesis unfolding OpReplaceLibraryItems run_op.simps pg_store_sel pg_ReplaceLibraryItems_def
      by (intro pg_tx_meta keeps_and_then)
        (auto simp: tx_exec_def and_then_def same_meta_def split: prod.splits sum.splits if_splits
          dest!: exec_meta batch_meta)
  next
    case (OpUpsertUserItemData d)
    show ?thesis unfolding OpUpsertUserItemData run_op.simps pg_store_sel pg_UpsertUserItemData_def
      by (intro with_data_meta) (auto split: prod.splits sum.splits dest: pool_meta)
  qed (simp_all only: run_op.simps pg_store_sel pg_CreateUser_def pg_UpdateUser_def pg_CreateSession_def
      pg_DeleteSession_def pg_CreateLibrary_def pg_CreateRecording_def pg_UpdateRecording_def pg_DeleteRecording_def
      pg_CreateSeriesTimer_def pg_DeleteSeriesTimer_def,
      (intro with_data_meta inserted_meta affected_meta inserted_meta [THEN with_data_meta]; simp)+)
  then show "run_op (pg_store E) c s = (r, s') \<Longrightarrow> same_meta (pgDB s) (pgDB s')" by simp
qed

text \<open>Any history of calls the server can store: the invariant holds throughout and the identity stays.\<close>

lemma pg_history:
  "pg_inv E V s \<Longrightarrow> has_id own (pv_tables V (pgDB s)) \<Longrightarrow> list_all (op_sendable E V) cs \<Longrightarrow>
   run_ops (pg_store E) cs s = (rs, s') \<Longrightarrow> pg_inv E V s' \<and> has_id own (pv_tables V (pgDB s'))"
proof (induction cs arbitrary: s rs)
  case (Cons c cs)
  obtain r s1 where r: "run_op (pg_store E) c s = (r, s1)" by (cases "run_op (pg_store E) c s")
  obtain rs1 s2 where rs: "run_ops (pg_store E) cs s1 = (rs1, s2)" by (cases "run_ops (pg_store E) cs s1")
  have "pg_inv E V s1" using step_ok_inv [OF pg_run_op_strict [OF Cons.prems(1), of c]] Cons.prems(3) by (simp add: r)
  moreover have "has_id own (pv_tables V (pgDB s1))"
    using pg_op_meta [OF r] Cons.prems(2) by (simp add: has_id_def same_meta_def)
  moreover have "rs1 = tl rs" "s2 = s'" using Cons.prems(4) by (auto simp: r rs)
  ultimately show ?case using Cons.IH [of s1 rs1] rs Cons.prems(3) by simp
qed simp

end

end
