(* ===== verification/PgProps.thy ===== *)
theory PgProps
  imports PgOpen StoreProps
begin

text \<open>
  The properties of the PostgreSQL store, each followed by an instance on the reference engine.
\<close>

section \<open>Concrete data\<close>

definition pg0 :: "blob pgData pgStore" where
  "pg0 = (case OpenPostgres ref_pg (Some Map.empty) (Some ''id'') of Inr s \<Rightarrow> s
     | Inl _ \<Rightarrow> \<lparr>pgDB = Map.empty, pgServerID = []\<rparr>)"

lemma ref_pg_tables [simp]: "pv_tables ref_view D = D"
  by (simp add: ref_view_def)

lemma pg0_open: "OpenPostgres ref_pg (Some Map.empty) (Some ''id'') = Inr pg0"
proof -
  have "case OpenPostgres ref_pg (Some Map.empty) (Some ''id'') of Inr _ \<Rightarrow> True | Inl _ \<Rightarrow> False"
    by code_simp
  then show ?thesis by (auto simp: pg0_def split: sum.splits)
qed

lemma pg0_ok: "pg_inv ref_pg ref_view pg0" "pg_abs ref_pg ref_view pg0 = empty_abs"
  using ref_pg.OpenPostgres_new [OF pg0_open] by simp_all

lemma json0_abs: "json_abs json0 = empty_abs"
  by (simp add: json_abs_def json0_def empty_abs_def)

lemma history0_pg_pre: "ops_meet (pg_pre ref_pg ref_view) history0 empty_abs"
  by (simp add: history0_def pg_pre_def sendable_def ref_pg_def ref_engine_def ref_view_def no_nul_def NUL_def
      empty_abs_def spec_next_def json_specs items_ok_def session_fresh_def lib0_def item0_def session0_def ran_def
      add_items_def drop_library_items_def map_where_def)

lemma history0_io_pg: "io_free (fst (run_ops (pg_store ref_pg) history0 pg0))"
  by code_simp

section \<open>The third backend\<close>



text \<open>C39. Where Postgres is stricter: a call that reuses a taken identifier or renames a user to another's name (the other
  backends overwrite the record) is refused with a conflict, and what is stored stays as it was.\<close>

theorem postgres_conflicts:
  assumes "pg_ok E V" "pg_inv E V s" "op_sendable E V c" "op_pre c (pg_abs E V s)"
    and "\<not> op_unique c (pg_abs E V s)" "spec_op c (pg_abs E V s) \<noteq> Inl ErrNotFound"
    and "run_op (pg_store E) c s = (r, s')"
  shows "r = Some ErrConflict \<and> pg_abs E V s' = pg_abs E V s \<and> spec_op c (pg_abs E V s) \<noteq> Inl ErrConflict"
proof -
  have E: "pg_engine E V" using assms(1) by unfold_locales
  have sp: "pg_spec_op c (pg_abs E V s) = Inl ErrConflict \<and> spec_op c (pg_abs E V s) \<noteq> Inl ErrConflict"
    using assms(5,6) by (cases c)
      (auto simp: unless_taken_def spec_CreateUser_def spec_CreateLibrary_def spec_UpdateUser_def
        spec_CreateRecording_def spec_CreateSeriesTimer_def split: if_splits)
  from pg_engine.pg_run_op_strict [OF E assms(2,3)] assms(7) sp show ?thesis
    by (simp add: step_ok_def refines_def)
qed

definition pg1 :: "blob pgData pgStore" where
  "pg1 = snd (run_op (pg_store ref_pg) (OpCreateLibrary lib0) pg0)"

definition lib1 :: Library where
  "lib1 = lib0\<lparr>lPath := ''/n''\<rparr>"

lemma pg1_ok: "pg_inv ref_pg ref_view pg1" "aLibraries (pg_abs ref_pg ref_view pg1) = [''L'' \<mapsto> lib0]"
proof -
  have ok: "op_sendable ref_pg ref_view (OpCreateLibrary lib0)"
    by (simp add: sendable_def ref_pg_def ref_engine_def ref_view_def no_nul_def NUL_def lib0_def)
  have "fst (run_op (pg_store ref_pg) (OpCreateLibrary lib0) pg0) = None" by code_simp
  then have r: "run_op (pg_store ref_pg) (OpCreateLibrary lib0) pg0 = (None, pg1)" by (metis pg1_def prod.collapse)
  from step_ok_nil [OF ref_pg.pg_run_op_strict [OF pg0_ok(1) ok, unfolded r]]
  show "pg_inv ref_pg ref_view pg1" "aLibraries (pg_abs ref_pg ref_view pg1) = [''L'' \<mapsto> lib0]"
    by (auto simp: unless_taken_def spec_CreateLibrary_def pg0_ok(2) empty_abs_def lib0_def
        dest!: sym [of _ "pg_abs ref_pg ref_view pg1"])
qed

lemma postgres_conflicts_witness:
  "fst (run_op (pg_store ref_pg) (OpCreateLibrary lib1) pg1) = Some ErrConflict \<and>
   fst (run_op json_store (OpCreateLibrary lib1) (snd (run_op json_store (OpCreateLibrary lib0) json0))) = None"
proof
  have "op_sendable ref_pg ref_view (OpCreateLibrary lib1)"
    by (simp add: sendable_def ref_pg_def ref_engine_def ref_view_def no_nul_def NUL_def lib0_def lib1_def)
  then show "fst (run_op (pg_store ref_pg) (OpCreateLibrary lib1) pg1) = Some ErrConflict"
    using postgres_conflicts [OF ref_pg_ok pg1_ok(1) _ _ _ _ surjective_pairing, of "OpCreateLibrary lib1"]
    by (simp add: pg1_ok(2) lib1_def lib0_def spec_CreateLibrary_def)
  show "fst (run_op json_store (OpCreateLibrary lib1) (snd (run_op json_store (OpCreateLibrary lib0) json0))) = None"
    by code_simp
qed



end
