(* ===== verification/Crypto.thy ===== *)
theory Crypto
  imports Prelude
begin

text \<open>
  The functions of Go's standard library that \<open>internal/security\<close> calls: \<open>encoding/hex\<close>,
  \<open>encoding/base32\<close> and \<open>encoding/base64\<close> without padding, \<open>crypto/sha1\<close>, \<open>crypto/sha256\<close>
  (FIPS 180-4), \<open>crypto/hmac\<close> (RFC 2104) and the part of \<open>fmt.Sscanf\<close> that reads a decimal.
  All are executable; the decoders are proved to undo the encoders.
\<close>

section \<open>Bits\<close>

fun bits_of :: "nat \<Rightarrow> nat \<Rightarrow> bool list" where
  "bits_of 0 x = []"
| "bits_of (Suc k) x = odd (x div 2 ^ k) # bits_of k x"

definition nat_of_bits :: "bool list \<Rightarrow> nat" where
  "nat_of_bits bs = foldl (\<lambda>a b. 2 * a + of_bool b) 0 bs"

function (sequential) chunks :: "nat \<Rightarrow> 'a list \<Rightarrow> 'a list list" where
  "chunks k [] = []"
| "chunks k (x # xs) = take (max 1 k) (x # xs) # chunks k (drop (max 1 k) (x # xs))"
  by pat_completeness auto
termination by (relation "measure (length \<circ> snd)") auto

lemma length_bits_of [simp]: "length (bits_of k x) = k"
  by (induction k) auto

lemma foldl_bits: "foldl (\<lambda>a b. 2 * a + of_bool b) (a::nat) bs = a * 2 ^ length bs + nat_of_bits bs"
proof (induction bs arbitrary: a)
  case (Cons b bs)
  show ?case
    unfolding nat_of_bits_def foldl_Cons Cons [of "2 * a + of_bool b"] Cons [of "2 * 0 + of_bool b"]
    by (simp add: algebra_simps)
qed (simp add: nat_of_bits_def)

lemma nat_of_bits_Cons [simp]: "nat_of_bits (b # bs) = of_bool b * 2 ^ length bs + nat_of_bits bs"
  using foldl_bits [of "of_bool b" bs] by (simp add: nat_of_bits_def)

lemma nat_of_bits_Nil [simp]: "nat_of_bits [] = 0"
  by (simp add: nat_of_bits_def)

lemma nat_of_bits_of: "nat_of_bits (bits_of k x) = x mod 2 ^ k"
proof (induction k)
  case (Suc k)
  have "x mod 2 ^ Suc k = 2 ^ k * (x div 2 ^ k mod 2) + x mod 2 ^ k"
    by (metis mod_mult2_eq power_Suc2 mult.commute power_Suc)
  then show ?case using Suc by (simp add: odd_iff_mod_2_eq_one of_bool_def)
qed simp

lemma nat_of_bits_less: "nat_of_bits bs < 2 ^ length bs"
  by (induction bs) auto

lemma bits_of_mod: "bits_of k (x mod 2 ^ (k + m)) = bits_of k x"
proof (induction k arbitrary: m)
  case (Suc k)
  have "odd (x mod 2 ^ (Suc k + m) div 2 ^ k) \<longleftrightarrow> odd (x div 2 ^ k)"
    unfolding take_bit_eq_mod [symmetric] bit_iff_odd [symmetric] by (simp add: bit_take_bit_iff)
  then show ?case using Suc [of "Suc m"] by simp
qed simp

lemma bits_of_nat_of_bits: "bits_of (length bs) (nat_of_bits bs) = bs"
proof (induction bs)
  case (Cons b bs)
  have "bits_of (length bs) (of_bool b * 2 ^ length bs + nat_of_bits bs) = bs"
    using bits_of_mod [of "length bs" "of_bool b * 2 ^ length bs + nat_of_bits bs" 0] Cons
    by (simp add: nat_of_bits_less)
  then show ?case using nat_of_bits_less [of bs] by simp
qed simp

lemma chunks_append:
  "length c = k \<Longrightarrow> 0 < k \<Longrightarrow> chunks k (c @ xs) = c # chunks k xs"
  by (cases c) (auto simp: max_def)

lemma chunks_concat:
  "0 < k \<Longrightarrow> \<forall>c \<in> set cs. length c = k \<Longrightarrow> chunks k (concat cs @ z) = cs @ chunks k z"
  by (induction cs) (simp_all add: chunks_append)

lemma concat_chunks [simp]: "concat (chunks k xs) = xs"
  by (induction k xs rule: chunks.induct) auto

lemma length_chunks: "c \<in> set (chunks k xs) \<Longrightarrow> 0 < k \<Longrightarrow> 0 < length c \<and> length c \<le> k"
  by (induction k xs rule: chunks.induct) (auto simp: max_def)

section \<open>Text encodings of bytes\<close>

definition byte_bits :: "char \<Rightarrow> bool list" where
  "byte_bits c = bits_of 8 (of_char c)"

definition bits_byte :: "bool list \<Rightarrow> char" where
  "bits_byte bs = char_of (nat_of_bits bs)"

text \<open>Groups of \<open>k\<close> bits, the last one filled up with zeros.\<close>

definition fill :: "nat \<Rightarrow> bool list \<Rightarrow> bool list" where
  "fill k c = c @ replicate (k - length c) False"

definition radix_encode :: "nat \<Rightarrow> string \<Rightarrow> string \<Rightarrow> string" where
  "radix_encode k alpha bs =
     map (\<lambda>c. alpha ! nat_of_bits (fill k c)) (chunks k (concat (map byte_bits bs)))"

fun index_of :: "char \<Rightarrow> string \<Rightarrow> nat option" where
  "index_of c [] = None"
| "index_of c (d # ds) = (if c = d then Some 0 else map_option Suc (index_of c ds))"

text \<open>\<open>k\<close> bits per character; whole bytes are kept, the remaining bits dropped.\<close>

definition radix_decode :: "nat \<Rightarrow> string \<Rightarrow> string \<Rightarrow> string option" where
  "radix_decode k alpha s =
     (if \<exists>c \<in> set s. index_of c alpha = None then None
      else let bits = concat (map (\<lambda>c. bits_of k (the (index_of c alpha))) s)
           in Some (map bits_byte (take (length bits div 8) (chunks 8 bits))))"

definition base64_alphabet :: string where
  "base64_alphabet = ''ABCDEFGHIJKLMNOPQRSTUVWXYZabcdefghijklmnopqrstuvwxyz0123456789+/''"

definition base32_alphabet :: string where
  "base32_alphabet = ''ABCDEFGHIJKLMNOPQRSTUVWXYZ234567''"

definition hex_alphabet :: string where
  "hex_alphabet = ''0123456789abcdef''"

definition strip_newlines :: "string \<Rightarrow> string" where
  "strip_newlines = filter (\<lambda>c. c \<noteq> CHR 0x0A \<and> c \<noteq> CHR 0x0D)"

text \<open>\<open>base64.RawStdEncoding\<close>: a group of one character is an error.\<close>

definition base64_encode :: "string \<Rightarrow> string" where
  "base64_encode = radix_encode 6 base64_alphabet"

definition base64_decode :: "string \<Rightarrow> string option" where
  "base64_decode s =
     (let s' = strip_newlines s
      in if length s' mod 4 = 1 then None else radix_decode 6 base64_alphabet s')"

text \<open>\<open>base32.StdEncoding.WithPadding(NoPadding)\<close>: a last group of 1, 3 or 6 characters
  yields no byte.\<close>

definition base32_encode :: "string \<Rightarrow> string" where
  "base32_encode = radix_encode 5 base32_alphabet"

definition base32_decode :: "string \<Rightarrow> string option" where
  "base32_decode s =
     (let s' = strip_newlines s; r = length s' mod 8; whole = length s' - r
      in if r \<in> {1, 3, 6}
         then (if radix_decode 5 base32_alphabet s' = None then None
               else radix_decode 5 base32_alphabet (take whole s'))
         else radix_decode 5 base32_alphabet s')"

definition hex_encode :: "string \<Rightarrow> string" where
  "hex_encode = radix_encode 4 hex_alphabet"

lemma index_of_nth: "distinct ds \<Longrightarrow> n < length ds \<Longrightarrow> index_of (ds ! n) ds = Some n"
proof (induction ds arbitrary: n)
  case (Cons d ds)
  then show ?case by (cases n) (auto simp: nth_mem)
qed simp

lemma of_char_less: "(of_char c :: nat) < 256"
  using of_char_mod_256 [of c] by (metis mod_less_divisor zero_less_numeral)

lemma bits_byte_bits [simp]: "bits_byte (byte_bits c) = c"
  using of_char_less [of c] by (simp add: bits_byte_def byte_bits_def nat_of_bits_of)

lemma fill_length: "length c \<le> k \<Longrightarrow> length (fill k c) = k"
  by (simp add: fill_def)

lemma concat_fill_chunks:
  assumes "0 < k"
  shows "\<exists>z. concat (map (fill k) (chunks k bs)) = bs @ z \<and> length z < k"
  using assms
proof (induction k bs rule: chunks.induct)
  case (2 k x xs)
  let ?c = "take (max 1 k) (x # xs)"
  let ?d = "drop (max 1 k) (x # xs)"
  have "?c @ ?d = x # xs" by simp
  show ?case
  proof (cases "?d = []")
    case True
    with \<open>?c @ ?d = x # xs\<close> have "?c = x # xs" by simp
    then have "length (x # xs) \<le> max 1 k" by (metis length_take min.cobounded2)
    with True \<open>?c = x # xs\<close> 2(2) show ?thesis by (auto simp: fill_def)
  next
    case False
    then have "length ?c = max 1 k" by simp
    then have "fill k ?c = ?c" by (auto simp: fill_def)
    with 2 \<open>?c @ ?d = x # xs\<close> show ?thesis by (metis append.assoc chunks.simps(2) concat.simps(2) list.simps(9))
  qed
qed auto

lemma radix_encode_set:
  assumes "0 < k" "length alpha = 2 ^ k"
  shows "set (radix_encode k alpha bs) \<subseteq> set alpha"
proof
  fix c assume "c \<in> set (radix_encode k alpha bs)"
  then obtain b where b: "c = alpha ! nat_of_bits (fill k b)"
    "b \<in> set (chunks k (concat (map byte_bits bs)))"
    by (auto simp: radix_encode_def)
  with length_chunks [OF b(2) assms(1)] nat_of_bits_less [of "fill k b"] assms(2)
  have "nat_of_bits (fill k b) < length alpha" by (simp add: fill_length)
  with b(1) show "c \<in> set alpha" by simp
qed

lemma radix_roundtrip:
  assumes k: "0 < k" "k \<le> 8" and alpha: "distinct alpha" "length alpha = 2 ^ k"
  shows "radix_decode k alpha (radix_encode k alpha bs) = Some bs"
proof -
  let ?bits = "concat (map byte_bits bs)"
  have char: "index_of (alpha ! nat_of_bits (fill k b)) alpha = Some (nat_of_bits (fill k b))"
    "bits_of k (nat_of_bits (fill k b)) = fill k b" if b: "b \<in> set (chunks k ?bits)" for b
    using length_chunks [OF b k(1)] nat_of_bits_less [of "fill k b"] alpha
      bits_of_nat_of_bits [of "fill k b"]
    by (simp_all add: fill_length index_of_nth)
  obtain z where z: "concat (map (fill k) (chunks k ?bits)) = ?bits @ z" "length z < k"
    using concat_fill_chunks [OF k(1)] by blast
  let ?s = "radix_encode k alpha bs"
  have ok: "\<not> (\<exists>c \<in> set ?s. index_of c alpha = None)"
    using char(1) by (auto simp: radix_encode_def)
  have "map (\<lambda>c. bits_of k (the (index_of c alpha))) ?s = map (fill k) (chunks k ?bits)"
    using char by (simp add: radix_encode_def)
  then have bits: "concat (map (\<lambda>c. bits_of k (the (index_of c alpha))) ?s) = ?bits @ z"
    using z(1) by simp
  have len: "length ?bits = 8 * length bs"
    by (induction bs) (auto simp: byte_bits_def)
  have "chunks 8 (?bits @ z) = map byte_bits bs @ chunks 8 z"
    by (rule chunks_concat) (auto simp: byte_bits_def)
  moreover have "length (?bits @ z) div 8 = length bs" using len z(2) k(2) by simp
  ultimately show ?thesis
    unfolding radix_decode_def Let_def bits if_not_P [OF ok] by (simp add: comp_def)
qed

lemma length_chunks_div: "0 < k \<Longrightarrow> length (chunks k xs) = (length xs + k - 1) div k"
proof (induction k xs rule: chunks.induct)
  case (2 k x xs)
  then have IH: "length (chunks k (drop k (x # xs))) = (length (x # xs) - k + k - 1) div k"
    by (simp add: max_def split: if_splits)
  show ?case
  proof (cases "length (x # xs) \<le> k")
    case True
    with 2(2) have "(length (x # xs) + k - 1) div k = 1"
      by (intro div_nat_eqI) auto
    with True 2(2) show ?thesis by (simp add: max_def split: if_splits)
  next
    case False
    then have "(length (x # xs) + k - 1) div k = Suc ((length (x # xs) - 1) div k)"
      using 2(2) by (simp add: add.commute [of _ k] del: length_Cons) (simp add: div_add_self1)
    with False IH 2(2) show ?thesis by (simp add: max_def split: if_splits)
  qed
qed simp

lemma length_radix_encode:
  "0 < k \<Longrightarrow> length (radix_encode k alpha bs) = (8 * length bs + k - 1) div k"
proof -
  have len: "length (concat (map byte_bits bs)) = 8 * length bs"
    by (induction bs) (auto simp: byte_bits_def)
  assume "0 < k"
  then show ?thesis by (simp only: radix_encode_def length_map length_chunks_div len)
qed

lemma strip_newlines_id: "CHR 0x0A \<notin> set s \<Longrightarrow> CHR 0x0D \<notin> set s \<Longrightarrow> strip_newlines s = s"
  by (induction s) (auto simp: strip_newlines_def)

lemma base64_roundtrip: "base64_decode (base64_encode bs) = Some bs"
proof -
  have *: "distinct base64_alphabet" "length base64_alphabet = 2 ^ 6"
    by (simp_all add: base64_alphabet_def)
  have "set (base64_encode bs) \<subseteq> set base64_alphabet"
    unfolding base64_encode_def using * by (intro radix_encode_set) simp_all
  then have "strip_newlines (base64_encode bs) = base64_encode bs"
    by (intro strip_newlines_id) (auto simp: base64_alphabet_def)
  moreover have "length (base64_encode bs) mod 4 \<noteq> 1"
    by (simp add: base64_encode_def length_radix_encode) presburger
  ultimately show ?thesis
    using radix_roundtrip [OF _ _ *] by (simp add: base64_decode_def base64_encode_def)
qed

lemma base32_roundtrip: "base32_decode (base32_encode bs) = Some bs"
proof -
  have *: "distinct base32_alphabet" "length base32_alphabet = 2 ^ 5"
    by (simp_all add: base32_alphabet_def)
  have "set (base32_encode bs) \<subseteq> set base32_alphabet"
    unfolding base32_encode_def using * by (intro radix_encode_set) simp_all
  then have "strip_newlines (base32_encode bs) = base32_encode bs"
    by (intro strip_newlines_id) (auto simp: base32_alphabet_def)
  moreover have "length (base32_encode bs) mod 8 \<notin> {1, 3, 6}"
    by (simp add: base32_encode_def length_radix_encode) presburger
  ultimately show ?thesis
    using radix_roundtrip [OF _ _ *] by (simp add: base32_decode_def base32_encode_def)
qed

lemma hex_inject: "hex_encode a = hex_encode b \<longleftrightarrow> a = b"
proof -
  have *: "distinct hex_alphabet" "length hex_alphabet = 2 ^ 4"
    by (simp_all add: hex_alphabet_def)
  have "radix_decode 4 hex_alphabet (hex_encode x) = Some x" for x
    unfolding hex_encode_def using radix_roundtrip [OF _ _ *] by simp
  then show ?thesis by (metis option.inject)
qed

lemma length_hex_encode [simp]: "length (hex_encode bs) = 2 * length bs"
  by (simp add: hex_encode_def length_radix_encode)

lemma set_hex_encode: "set (hex_encode bs) \<subseteq> set hex_alphabet"
  unfolding hex_encode_def by (rule radix_encode_set) (simp_all add: hex_alphabet_def)

lemma set_base64_encode: "set (base64_encode bs) \<subseteq> set base64_alphabet"
  unfolding base64_encode_def by (rule radix_encode_set) (simp_all add: base64_alphabet_def)

section \<open>Hash functions\<close>

unbundle bit_operations_syntax

type_synonym word32 = "32 word"

definition byte_word :: "char \<Rightarrow> 'a::len word" where
  "byte_word c = of_nat (of_char c)"

definition word_byte :: "'a::len word \<Rightarrow> char" where
  "word_byte w = char_of (unat w)"

text \<open>\<open>binary.BigEndian.PutUint32\<close> and \<open>PutUint64\<close>.\<close>

definition PutUint32 :: "word32 \<Rightarrow> string" where
  "PutUint32 w = map (\<lambda>i. word_byte (drop_bit i w AND 0xff)) [24, 16, 8, 0]"

definition PutUint64 :: "64 word \<Rightarrow> string" where
  "PutUint64 w = map (\<lambda>i. word_byte (drop_bit i w AND 0xff)) [56, 48, 40, 32, 24, 16, 8, 0]"

fun words_of :: "string \<Rightarrow> word32 list" where
  "words_of (a # b # c # d # s) =
     (push_bit 24 (byte_word a) OR push_bit 16 (byte_word b) OR push_bit 8 (byte_word c) OR byte_word d)
     # words_of s"
| "words_of _ = []"

definition md_pad :: "string \<Rightarrow> string" where
  "md_pad msg = msg @ [CHR 0x80] @ replicate ((119 - length msg mod 64) mod 64) (CHR 0x00)
     @ PutUint64 (of_nat (8 * length msg))"

definition rotl :: "nat \<Rightarrow> word32 \<Rightarrow> word32" where
  "rotl n w = push_bit n w OR drop_bit (32 - n) w"

definition rotr :: "nat \<Rightarrow> word32 \<Rightarrow> word32" where
  "rotr n w = drop_bit n w OR push_bit (32 - n) w"

subsection \<open>SHA-1\<close>

text \<open>The schedule is kept with the latest word first.\<close>

fun sha1_extend :: "nat \<Rightarrow> word32 list \<Rightarrow> word32 list" where
  "sha1_extend 0 ws = ws"
| "sha1_extend (Suc n) ws =
     sha1_extend n (rotl 1 (ws ! 2 XOR ws ! 7 XOR ws ! 13 XOR ws ! 15) # ws)"

definition sha1_f :: "nat \<Rightarrow> word32 \<Rightarrow> word32 \<Rightarrow> word32 \<Rightarrow> word32" where
  "sha1_f i b c d =
     (if i < 20 then (b AND c) OR (NOT b AND d)
      else if i < 40 then b XOR c XOR d
      else if i < 60 then (b AND c) OR (b AND d) OR (c AND d)
      else b XOR c XOR d)"

definition sha1_k :: "nat \<Rightarrow> word32" where
  "sha1_k i = (if i < 20 then 0x5a827999 else if i < 40 then 0x6ed9eba1
     else if i < 60 then 0x8f1bbcdc else 0xca62c1d6)"

fun sha1_rounds :: "nat \<Rightarrow> word32 list \<Rightarrow> word32 \<times> word32 \<times> word32 \<times> word32 \<times> word32 \<Rightarrow>
    word32 \<times> word32 \<times> word32 \<times> word32 \<times> word32" where
  "sha1_rounds i [] s = s"
| "sha1_rounds i (w # ws) (a, b, c, d, e) =
     sha1_rounds (Suc i) ws (rotl 5 a + sha1_f i b c d + e + sha1_k i + w, a, rotl 30 b, c, d)"

definition sha1_block :: "word32 \<times> word32 \<times> word32 \<times> word32 \<times> word32 \<Rightarrow> string \<Rightarrow>
    word32 \<times> word32 \<times> word32 \<times> word32 \<times> word32" where
  "sha1_block h blk =
     (case h of (h0, h1, h2, h3, h4) \<Rightarrow>
      case sha1_rounds 0 (rev (sha1_extend 64 (rev (words_of blk)))) h of (a, b, c, d, e) \<Rightarrow>
        (h0 + a, h1 + b, h2 + c, h3 + d, h4 + e))"

definition sha1 :: "string \<Rightarrow> string" where
  "sha1 msg = (case foldl sha1_block (0x67452301, 0xefcdab89, 0x98badcfe, 0x10325476, 0xc3d2e1f0)
       (chunks 64 (md_pad msg)) of (a, b, c, d, e) \<Rightarrow>
     PutUint32 a @ PutUint32 b @ PutUint32 c @ PutUint32 d @ PutUint32 e)"

text \<open>\<open>hmac.New(sha1.New, key)\<close>, written with \<open>msg\<close>.\<close>

definition hmac_sha1 :: "string \<Rightarrow> string \<Rightarrow> string" where
  "hmac_sha1 key msg =
     (let k0 = (if length key > 64 then sha1 key else key);
          k = k0 @ replicate (64 - length k0) (CHR 0x00);
          mask = (\<lambda>p. map (\<lambda>c. word_byte (byte_word c XOR (p :: 8 word))) k)
      in sha1 (mask 0x5c @ sha1 (mask 0x36 @ msg)))"

subsection \<open>SHA-256\<close>

text \<open>The round constants of FIPS 180-4, in decimal.\<close>

definition sha256_k :: "word32 list" where
  "sha256_k = [
     1116352408, 1899447441, 3049323471, 3921009573, 961987163, 1508970993, 2453635748, 2870763221,
     3624381080, 310598401, 607225278, 1426881987, 1925078388, 2162078206, 2614888103, 3248222580,
     3835390401, 4022224774, 264347078, 604807628, 770255983, 1249150122, 1555081692, 1996064986,
     2554220882, 2821834349, 2952996808, 3210313671, 3336571891, 3584528711, 113926993, 338241895,
     666307205, 773529912, 1294757372, 1396182291, 1695183700, 1986661051, 2177026350, 2456956037,
     2730485921, 2820302411, 3259730800, 3345764771, 3516065817, 3600352804, 4094571909, 275423344,
     430227734, 506948616, 659060556, 883997877, 958139571, 1322822218, 1537002063, 1747873779,
     1955562222, 2024104815, 2227730452, 2361852424, 2428436474, 2756734187, 3204031479, 3329325298]"

fun sha256_extend :: "nat \<Rightarrow> word32 list \<Rightarrow> word32 list" where
  "sha256_extend 0 ws = ws"
| "sha256_extend (Suc n) ws =
     (let w15 = ws ! 14; w2 = ws ! 1;
          s0 = rotr 7 w15 XOR rotr 18 w15 XOR drop_bit 3 w15;
          s1 = rotr 17 w2 XOR rotr 19 w2 XOR drop_bit 10 w2
      in sha256_extend n ((ws ! 15 + s0 + ws ! 6 + s1) # ws))"

type_synonym sha256_state = "word32 \<times> word32 \<times> word32 \<times> word32 \<times> word32 \<times> word32 \<times> word32 \<times> word32"

fun sha256_rounds :: "(word32 \<times> word32) list \<Rightarrow> sha256_state \<Rightarrow> sha256_state" where
  "sha256_rounds [] s = s"
| "sha256_rounds ((k, w) # kws) (a, b, c, d, e, f, g, h) =
     (let t1 = h + (rotr 6 e XOR rotr 11 e XOR rotr 25 e) + ((e AND f) XOR (NOT e AND g)) + k + w;
          t2 = (rotr 2 a XOR rotr 13 a XOR rotr 22 a) + ((a AND b) XOR (a AND c) XOR (b AND c))
      in sha256_rounds kws (t1 + t2, a, b, c, d + t1, e, f, g))"

definition sha256_block :: "sha256_state \<Rightarrow> string \<Rightarrow> sha256_state" where
  "sha256_block s blk =
     (case s of (h0, h1, h2, h3, h4, h5, h6, h7) \<Rightarrow>
      case sha256_rounds (zip sha256_k (rev (sha256_extend 48 (rev (words_of blk))))) s of
        (a, b, c, d, e, f, g, h) \<Rightarrow>
        (h0 + a, h1 + b, h2 + c, h3 + d, h4 + e, h5 + f, h6 + g, h7 + h))"

definition sha256 :: "string \<Rightarrow> string" where
  "sha256 msg = (case foldl sha256_block
       (0x6a09e667, 0xbb67ae85, 0x3c6ef372, 0xa54ff53a, 0x510e527f, 0x9b05688c, 0x1f83d9ab, 0x5be0cd19)
       (chunks 64 (md_pad msg)) of (a, b, c, d, e, f, g, h) \<Rightarrow>
     concat (map PutUint32 [a, b, c, d, e, f, g, h]))"

lemma length_PutUint32 [simp]: "length (PutUint32 w) = 4"
  by (simp add: PutUint32_def)

lemma length_sha1 [simp]: "length (sha1 msg) = 20"
  by (simp add: sha1_def split: prod.splits)

lemma length_hmac_sha1 [simp]: "length (hmac_sha1 key msg) = 20"
  by (simp add: hmac_sha1_def Let_def)

lemma length_sha256 [simp]: "length (sha256 msg) = 32"
  by (simp add: sha256_def split: prod.splits)

section \<open>Reading decimals\<close>

text \<open>\<open>%d\<close> in \<open>fmt.Sscanf\<close>: blanks are skipped (a newline is an error), then an optional
  sign when the operand is signed, then the longest run of digits, at least one; the value must
  fit the operand. \<open>scan_lit\<close> matches a format's literal text.\<close>

definition scan_lit :: "string \<Rightarrow> string \<Rightarrow> string option" where
  "scan_lit lit s = (if HasPrefix s lit then Some (drop (length lit) s) else None)"

definition digits_value :: "string \<Rightarrow> nat" where
  "digits_value ds = foldl (\<lambda>a c. 10 * a + (of_char c - 48)) 0 ds"

definition skip_blanks :: "string \<Rightarrow> string" where
  "skip_blanks = dropWhile (\<lambda>c. c \<in> set spaces \<and> c \<noteq> CHR 0x0A)"

definition scan_digits :: "string \<Rightarrow> (nat \<times> string) option" where
  "scan_digits s = (let ds = takeWhile is_digit s
     in if ds = [] then None else Some (digits_value ds, dropWhile is_digit s))"

definition scan_uint :: "nat \<Rightarrow> string \<Rightarrow> (nat \<times> string) option" where
  "scan_uint width s =
     (case scan_digits (skip_blanks s) of
        None \<Rightarrow> None
      | Some (n, rest) \<Rightarrow> if n < 2 ^ width then Some (n, rest) else None)"

definition scan_int :: "string \<Rightarrow> (int \<times> string) option" where
  "scan_int s =
     (let s1 = skip_blanks s;
          neg = HasPrefix s1 ''-'';
          s2 = (if neg \<or> HasPrefix s1 ''+'' then drop 1 s1 else s1)
      in case scan_digits s2 of
           None \<Rightarrow> None
         | Some (n, rest) \<Rightarrow>
             let v = (if neg then - int n else int n)
             in if - (2 ^ 63) \<le> v \<and> v < 2 ^ 63 then Some (v, rest) else None)"

end
