(* ===== verification/Security.thy ===== *)
theory Security
  imports Crypto
begin

text \<open>
  Package \<open>internal/security\<close>: password hashes in PHC form, random identifiers and tokens,
  time-based one-time passwords and recovery codes. A read of the random source is an argument,
  \<open>None\<close> when the read fails. argon2 (\<open>golang.org/x/crypto\<close>) is not part of the repository:
  its key derivation and version number are the fields of \<open>argon2lib\<close>, and \<open>argon2_ok\<close> states
  what is relied on, that a key has the length asked for.
\<close>

record argon2lib =
  argon2_Version :: nat
  IDKey :: "string \<Rightarrow> string \<Rightarrow> nat \<Rightarrow> nat \<Rightarrow> nat \<Rightarrow> nat \<Rightarrow> string"

definition argon2_ok :: "argon2lib \<Rightarrow> bool" where
  "argon2_ok A \<longleftrightarrow> argon2_Version A < 2 ^ 63 \<and> (\<forall>pw salt t m p n. length (IDKey A pw salt t m p n) = n)"

section \<open>Passwords\<close>

definition argonTime :: nat where "argonTime = 3"
definition argonMemory :: nat where "argonMemory = 64 * 1024"
definition argonThreads :: nat where "argonThreads = 2"
definition argonKeyLen :: nat where "argonKeyLen = 32"
definition argonSaltLen :: nat where "argonSaltLen = 16"

definition HashPassword :: "argon2lib \<Rightarrow> string option \<Rightarrow> string \<Rightarrow> err + string" where
  "HashPassword A rnd password =
     (case rnd of
        None \<Rightarrow> Inl (ErrIO ''security: generating salt'')
      | Some salt \<Rightarrow>
          let digest = IDKey A password salt argonTime argonMemory argonThreads argonKeyLen
          in Inr (''$argon2id$v='' @ digits_nat (argon2_Version A) @ ''$m='' @ digits_nat argonMemory
               @ '',t='' @ digits_nat argonTime @ '',p='' @ digits_nat argonThreads
               @ ''$'' @ base64_encode salt @ ''$'' @ base64_encode digest))"

definition scan_version :: "string \<Rightarrow> int option" where
  "scan_version s = Option.bind (scan_lit ''v='' s) (\<lambda>s. map_option fst (scan_int s))"

definition scan_params :: "string \<Rightarrow> (nat \<times> nat \<times> nat) option" where
  "scan_params s =
     Option.bind (scan_lit ''m='' s) (\<lambda>s. Option.bind (scan_uint 32 s) (\<lambda>(m, s).
     Option.bind (scan_lit '',t='' s) (\<lambda>s. Option.bind (scan_uint 32 s) (\<lambda>(t, s).
     Option.bind (scan_lit '',p='' s) (\<lambda>s. Option.bind (scan_uint 8 s) (\<lambda>(p, s).
     Some (m, t, p)))))))"

definition VerifyPassword :: "argon2lib \<Rightarrow> string \<Rightarrow> string \<Rightarrow> err + bool" where
  "VerifyPassword A password encoded =
     (let parts = Split encoded CHR ''$'' in
      if length parts \<noteq> 6 \<or> parts ! 1 \<noteq> ''argon2id'' then Inl ErrInvalidHash
      else (case scan_version (parts ! 2) of
         None \<Rightarrow> Inl ErrInvalidHash
       | Some version \<Rightarrow>
           if version \<noteq> int (argon2_Version A) then Inl ErrInvalidHash
           else (case scan_params (parts ! 3) of
              None \<Rightarrow> Inl ErrInvalidHash
            | Some (memory, time, threads) \<Rightarrow>
                (case base64_decode (parts ! 4) of
                   None \<Rightarrow> Inl ErrInvalidHash
                 | Some salt \<Rightarrow>
                     (case base64_decode (parts ! 5) of
                        None \<Rightarrow> Inl ErrInvalidHash
                      | Some want \<Rightarrow>
                          Inr (IDKey A password salt time memory threads (length want) = want))))))"

section \<open>Identifiers and tokens\<close>

definition randomHex :: "string option \<Rightarrow> err + string" where
  "randomHex rnd = (case rnd of None \<Rightarrow> Inl (ErrIO ''security: reading random bytes'')
     | Some b \<Rightarrow> Inr (hex_encode b))"

text \<open>\<open>NewToken\<close> reads 32 bytes, \<open>NewID\<close> 16.\<close>

definition NewToken :: "string option \<Rightarrow> err + string" where "NewToken rnd = randomHex rnd"

definition NewID :: "string option \<Rightarrow> err + string" where "NewID rnd = randomHex rnd"

definition HashToken :: "string \<Rightarrow> string" where
  "HashToken token = hex_encode (sha256 token)"

text \<open>The value of \<open>ConstantTimeEqual\<close>; that its time does not depend on the contents is not
  modelled.\<close>

definition ConstantTimeEqual :: "string \<Rightarrow> string \<Rightarrow> bool" where
  "ConstantTimeEqual a b \<longleftrightarrow> a = b"

section \<open>One-time passwords\<close>

definition totpDigits :: nat where "totpDigits = 6"
definition totpPeriod :: duration where "totpPeriod = 30 * Second"

definition NewTOTPSecret :: "string option \<Rightarrow> err + string" where
  "NewTOTPSecret rnd = (case rnd of None \<Rightarrow> Inl (ErrIO ''security: generating totp secret'')
     | Some b \<Rightarrow> Inr (base32_encode b))"

definition totpCounter :: "time \<Rightarrow> 64 word" where
  "totpCounter t = (word_of_int (Unix t) :: 64 word) div 30"

text \<open>Dynamic truncation of RFC 4226.\<close>

definition truncate_mac :: "string \<Rightarrow> word32" where
  "truncate_mac mac =
     (let offset = unat ((byte_word (mac ! (length mac - 1)) :: 8 word) AND 0x0f) in
      push_bit 24 (byte_word (mac ! offset) AND 0x7f) OR
      push_bit 16 (byte_word (mac ! (offset + 1))) OR
      push_bit 8 (byte_word (mac ! (offset + 2))) OR
      byte_word (mac ! (offset + 3)))"

text \<open>\<open>fmt.Sprintf("%0*d", width, n)\<close>.\<close>

definition zero_pad :: "nat \<Rightarrow> nat \<Rightarrow> string" where
  "zero_pad width n = (let s = digits_nat n in replicate (width - length s) CHR ''0'' @ s)"

definition totpCode :: "string \<Rightarrow> time \<Rightarrow> err + string" where
  "totpCode secret t =
     (case base32_decode (ToUpper (TrimSpace secret)) of
        None \<Rightarrow> Inl (ErrMsg ''security: invalid totp secret'')
      | Some key \<Rightarrow>
          let mac = hmac_sha1 key (PutUint64 (totpCounter t));
              binCode = truncate_mac mac;
              modulus = 10 ^ totpDigits
          in Inr (zero_pad totpDigits (unat (binCode mod modulus))))"

text \<open>The loop over \<open>w\<close> from \<open>-totpSkew\<close> to \<open>totpSkew\<close>, here given as a list.\<close>

fun verify_windows :: "string \<Rightarrow> string \<Rightarrow> time \<Rightarrow> int list \<Rightarrow> bool" where
  "verify_windows secret code now [] = False"
| "verify_windows secret code now (w # ws) =
     (case totpCode secret (now + w * totpPeriod) of
        Inl e \<Rightarrow> False
      | Inr want \<Rightarrow> if want = code then True else verify_windows secret code now ws)"

definition totpSkew :: int where "totpSkew = 1"

definition verifyTOTPAt :: "string \<Rightarrow> string \<Rightarrow> time \<Rightarrow> bool" where
  "verifyTOTPAt secret code now =
     (let code = TrimSpace code in
      if length code \<noteq> totpDigits then False
      else verify_windows secret code now [- totpSkew .. totpSkew])"

definition VerifyTOTP :: "time \<Rightarrow> string \<Rightarrow> string \<Rightarrow> bool" where
  "VerifyTOTP now secret code = verifyTOTPAt secret code now"

text \<open>\<open>url.PathEscape\<close> and \<open>url.QueryEscape\<close>.\<close>

definition unreserved :: "char \<Rightarrow> bool" where
  "unreserved c \<longleftrightarrow> is_digit c \<or> (CHR ''A'' \<le> c \<and> c \<le> CHR ''Z'') \<or> (CHR ''a'' \<le> c \<and> c \<le> CHR ''z'')
     \<or> c \<in> set ''-_.~''"

definition percent :: "char \<Rightarrow> string" where
  "percent c = CHR ''%'' # ToUpper (hex_encode [c])"

definition PathEscape :: "string \<Rightarrow> string" where
  "PathEscape s = concat (map (\<lambda>c. if unreserved c \<or> c \<in> set ''$&+=:@'' then [c] else percent c) s)"

definition QueryEscape :: "string \<Rightarrow> string" where
  "QueryEscape s = concat (map (\<lambda>c. if unreserved c then [c] else if c = CHR '' '' then ''+'' else percent c) s)"

definition TOTPProvisioningURI :: "string \<Rightarrow> string \<Rightarrow> string \<Rightarrow> string" where
  "TOTPProvisioningURI issuer account secret =
     ''otpauth://totp/'' @ PathEscape issuer @ '':'' @ PathEscape account @ ''?algorithm=SHA1''
     @ ''&digits='' @ digits_nat totpDigits @ ''&issuer='' @ QueryEscape issuer
     @ ''&period='' @ digits_nat (nat (totpPeriod div Second)) @ ''&secret='' @ QueryEscape secret"

text \<open>The \<open>n\<close> codes drawn one after the other, with their hashes.\<close>

fun NewRecoveryCodes :: "nat \<Rightarrow> (nat \<Rightarrow> string option) \<Rightarrow> err + (string list \<times> string list)" where
  "NewRecoveryCodes 0 rnd = Inr ([], [])"
| "NewRecoveryCodes (Suc n) rnd =
     and_then (NewRecoveryCodes n rnd) (\<lambda>(codes, hashes).
     and_then (randomHex (rnd n)) (\<lambda>c.
     Inr (codes @ [c], hashes @ [HashToken c])))"

section \<open>Decimals read back\<close>

lemma digit_char: "n < 10 \<Longrightarrow> is_digit (char_of (48 + n)) \<and> of_char (char_of (48 + n) :: char) - 48 = (n::nat)"
  by (simp add: is_digit_def less_eq_char_def)

lemma digits_value_snoc: "digits_value (ds @ [c]) = 10 * digits_value ds + (of_char c - 48)"
  by (simp add: digits_value_def)

lemma digits_nat_ok: "digits_nat n \<noteq> [] \<and> (\<forall>c \<in> set (digits_nat n). is_digit c) \<and> digits_value (digits_nat n) = n"
proof (induction n rule: digits_nat.induct)
  case (1 n)
  show ?case
  proof (cases "n < 10")
    case True
    then show ?thesis using digit_char [of n]
      by (simp add: digits_nat.simps [of n] digits_value_def)
  next
    case False
    then show ?thesis using 1 digit_char [of "n mod 10"]
      by (auto simp: digits_nat.simps [of n] digits_value_snoc)
  qed
qed

lemma scan_digits_nat:
  "rest = [] \<or> \<not> is_digit (hd rest) \<Longrightarrow> scan_digits (digits_nat n @ rest) = Some (n, rest)"
  using digits_nat_ok [of n]
  by (cases rest) (simp_all add: scan_digits_def Let_def takeWhile_append2 dropWhile_append2
      takeWhile_eq_all_conv [THEN iffD2] dropWhile_eq_Nil_conv [THEN iffD2])

lemma digit_not_blank: "is_digit c \<Longrightarrow> c \<notin> set spaces \<and> c \<noteq> CHR ''-'' \<and> c \<noteq> CHR ''+'' \<and> c \<noteq> CHR ''$''"
  by (auto simp: is_digit_def spaces_def less_eq_char_def)

lemma skip_blanks_digits: "skip_blanks (digits_nat n @ rest) = digits_nat n @ rest"
  using digits_nat_ok [of n] digit_not_blank
  by (cases "digits_nat n") (auto simp: skip_blanks_def)

lemma scan_uint_digits_nat:
  "rest = [] \<or> \<not> is_digit (hd rest) \<Longrightarrow> n < 2 ^ w \<Longrightarrow> scan_uint w (digits_nat n @ rest) = Some (n, rest)"
  by (simp add: scan_uint_def skip_blanks_digits scan_digits_nat)

lemma scan_int_digits_nat: "n < 2 ^ 63 \<Longrightarrow> scan_int (digits_nat n) = Some (int n, [])"
proof -
  assume n: "n < 2 ^ 63"
  obtain c ds where c: "digits_nat n = c # ds" "is_digit c"
    using digits_nat_ok [of n] by (cases "digits_nat n") auto
  have "int n < 2 ^ 63" using n by simp
  with c digit_not_blank [of c] show ?thesis
    using skip_blanks_digits [of n "[]"] scan_digits_nat [of "[]" n]
    by (simp add: scan_int_def HasPrefix_def)
qed

section \<open>A password verifies against its own hash\<close>

lemma dollar_free:
  "CHR ''$'' \<notin> set (digits_nat n)" "CHR ''$'' \<notin> set (base64_encode bs)"
  using digits_nat_ok [of n] digit_not_blank set_base64_encode [of bs]
  by (auto simp: base64_alphabet_def)

lemma Split_hash:
  assumes "CHR ''$'' \<notin> set a" "CHR ''$'' \<notin> set b" "CHR ''$'' \<notin> set c" "CHR ''$'' \<notin> set d" "CHR ''$'' \<notin> set e"
  shows "Split (CHR ''$'' # a @ CHR ''$'' # b @ CHR ''$'' # c @ CHR ''$'' # d @ CHR ''$'' # e) CHR ''$''
    = [[], a, b, c, d, e]"
  using assms by (simp add: Split_append Split_no_sep)

lemma scan_params_hash:
  "m < 2 ^ 32 \<Longrightarrow> t < 2 ^ 32 \<Longrightarrow> p < 2 ^ 8 \<Longrightarrow>
   scan_params (''m='' @ digits_nat m @ '',t='' @ digits_nat t @ '',p='' @ digits_nat p) = Some (m, t, p)"
  using scan_uint_digits_nat [of "[]" p 8]
  by (simp add: scan_params_def scan_lit_def HasPrefix_def scan_uint_digits_nat is_digit_def less_eq_char_def)

lemma hash_verifies:
  assumes A: "argon2_ok A" and h: "HashPassword A (Some salt) password = Inr h"
  shows "VerifyPassword A password' h = Inr (IDKey A password' salt argonTime argonMemory argonThreads argonKeyLen
      = IDKey A password salt argonTime argonMemory argonThreads argonKeyLen)"
proof -
  let ?v = "''v='' @ digits_nat (argon2_Version A)"
  let ?p = "''m='' @ digits_nat argonMemory @ '',t='' @ digits_nat argonTime @ '',p='' @ digits_nat argonThreads"
  let ?d = "IDKey A password salt argonTime argonMemory argonThreads argonKeyLen"
  have h': "h = CHR ''$'' # ''argon2id'' @ CHR ''$'' # ?v @ CHR ''$'' # ?p @ CHR ''$'' # base64_encode salt
      @ CHR ''$'' # base64_encode ?d"
    using h by (simp add: HashPassword_def Let_def)
  have parts: "Split h CHR ''$'' = [[], ''argon2id'', ?v, ?p, base64_encode salt, base64_encode ?d]"
    unfolding h' by (rule Split_hash) (simp_all add: dollar_free)
  have v: "scan_version ?v = Some (int (argon2_Version A))"
    using A by (simp add: scan_version_def scan_lit_def HasPrefix_def scan_int_digits_nat argon2_ok_def)
  have p: "scan_params ?p = Some (argonMemory, argonTime, argonThreads)"
    by (rule scan_params_hash) (simp_all add: argonMemory_def argonTime_def argonThreads_def)
  have len: "length ?d = argonKeyLen" using A by (simp add: argon2_ok_def)
  show ?thesis
    unfolding VerifyPassword_def Let_def parts by (simp add: v [simplified] p [simplified] base64_roundtrip len)
qed

section \<open>One-time codes\<close>

lemma verify_windows_mem:
  "w \<in> set ws \<Longrightarrow> \<forall>w \<in> set ws. \<exists>c. totpCode secret (now + w * totpPeriod) = Inr c \<Longrightarrow>
   totpCode secret (now + w * totpPeriod) = Inr code \<Longrightarrow> verify_windows secret code now ws"
  by (induction ws) (auto split: sum.splits)

lemma verify_windows_sound:
  "verify_windows secret code now ws \<Longrightarrow> \<exists>w \<in> set ws. totpCode secret (now + w * totpPeriod) = Inr code"
  by (induction ws) (auto split: sum.splits if_splits)

lemma totpCode_total: "totpCode secret t = Inr c \<Longrightarrow> \<exists>c'. totpCode secret t' = Inr c'"
  by (auto simp: totpCode_def Let_def split: option.splits)

end
