(* ===== verification/Auth.thy ===== *)
theory Auth
  imports StoreSpec Security
begin

text \<open>
  Package \<open>internal/auth\<close> (\<open>service.go\<close>, \<open>totp.go\<close>, \<open>password_gen.go\<close>). A method takes the
  service's policy, the store dictionary and the store's state, and returns its result with
  the next state. Readings of the clock in one call are \<open>clk 0\<close>, \<open>clk 1\<close>, \<open>clk 2\<close> and \<open>clk 3\<close>,
  in program order: the lock check, the code check, the recording of the outcome, the second
  lock check. Log lines have no effect on the state and are left out, as is the verification
  against the dummy hash, whose result the code throws away.
\<close>

record authService =
  lockoutThreshold :: int
  lockoutDuration :: duration

definition auth_New :: authService where
  "auth_New = \<lparr>lockoutThreshold = 5, lockoutDuration = 15 * Minute\<rparr>"

definition SetLockoutPolicy :: "int \<Rightarrow> duration \<Rightarrow> authService \<Rightarrow> authService" where
  "SetLockoutPolicy threshold dur sv =
     (let sv1 = sv\<lparr>lockoutThreshold := threshold\<rparr>
      in if dur > 0 then sv1\<lparr>lockoutDuration := dur\<rparr> else sv1)"

section \<open>Accounts\<close>

definition new_user :: "string \<Rightarrow> string \<Rightarrow> string \<Rightarrow> bool \<Rightarrow> time \<Rightarrow> User" where
  "new_user ident name hash admin now =
     \<lparr>uID = ident, uName = name, uPasswordHash = hash, uIsAdmin = admin, uCreatedAt = now,
      uLastLoginAt = zeroTime, uFailedLoginAttempts = 0, uLockedUntil = zeroTime,
      uTOTPEnabled = False, uTOTPSecret = [], uPendingTOTPSecret = [], uRecoveryCodeHashes = []\<rparr>"

definition auth_CreateUser :: "argon2lib \<Rightarrow> 's Store \<Rightarrow> string option \<Rightarrow> string option \<Rightarrow> time \<Rightarrow>
    string \<Rightarrow> string \<Rightarrow> bool \<Rightarrow> 's \<Rightarrow> err option \<times> 's" where
  "auth_CreateUser A S saltRnd idRnd now username password admin s =
     (let username = TrimSpace username in
      if username = [] then (Some (ErrMsg ''auth: username must not be empty''), s)
      else if length password < 8 then (Some (ErrMsg ''auth: password must be at least 8 characters''), s)
      else (case HashPassword A saltRnd password of
          Inl e \<Rightarrow> (Some e, s)
        | Inr hash \<Rightarrow> (case NewID idRnd of
            Inl e \<Rightarrow> (Some e, s)
          | Inr ident \<Rightarrow>
              (case CreateUser S (new_user ident username hash admin now) s of
                 (None, s') \<Rightarrow> (None, s')
               | (Some e, s') \<Rightarrow>
                   (Some (if e = ErrConflict then ErrMsg (''auth: user already exists: '' @ username) else e), s')))))"

definition passwordAlphabet :: string where
  "passwordAlphabet = ''abcdefghijkmnpqrstuvwxyzABCDEFGHJKLMNPQRSTUVWXYZ23456789''"

text \<open>\<open>generatePassword\<close>: draw \<open>i\<close> is an index below the alphabet's size.\<close>

fun draw_password :: "nat \<Rightarrow> (nat \<Rightarrow> nat option) \<Rightarrow> err + string" where
  "draw_password 0 draws = Inr []"
| "draw_password (Suc n) draws =
     and_then (draw_password n draws) (\<lambda>p.
       case draws n of
         None \<Rightarrow> Inl (ErrIO ''rand'')
       | Some i \<Rightarrow> Inr (p @ [passwordAlphabet ! i]))"

definition generatePassword :: "(nat \<Rightarrow> nat option) \<Rightarrow> err + string" where
  "generatePassword draws = draw_password 20 draws"

definition SeedAdmin :: "argon2lib \<Rightarrow> 's Store \<Rightarrow> (nat \<Rightarrow> nat option) \<Rightarrow> string option \<Rightarrow> string option \<Rightarrow> time \<Rightarrow>
    string \<Rightarrow> string \<Rightarrow> 's \<Rightarrow> (err + string \<times> bool) \<times> 's" where
  "SeedAdmin A S draws saltRnd idRnd now username password s =
     (case CountUsers S s of
        Inl e \<Rightarrow> (Inl e, s)
      | Inr n \<Rightarrow>
          if n > 0 then (Inr ([], False), s)
          else (case (if password = [] then map_sum (\<lambda>e. e) (\<lambda>p. (p, p)) (generatePassword draws)
                      else Inr (password, [])) of
              Inl e \<Rightarrow> (Inl e, s)
            | Inr (pw, generated) \<Rightarrow>
                (case auth_CreateUser A S saltRnd idRnd now username pw True s of
                   (Some e, s') \<Rightarrow> (Inl e, s')
                 | (None, s') \<Rightarrow> (Inr (generated, True), s'))))"

section \<open>Login\<close>

definition allDigits :: "string \<Rightarrow> bool" where
  "allDigits s \<longleftrightarrow> (\<forall>c \<in> set s. is_digit c) \<and> length s > 0"

definition verifyCredentials :: "argon2lib \<Rightarrow> time \<Rightarrow> User \<Rightarrow> string \<Rightarrow> bool" where
  "verifyCredentials A now u password =
     (if \<not> uTOTPEnabled u then VerifyPassword A password (uPasswordHash u) = Inr True
      else if length password \<le> 6 then False
      else let base = take (length password - 6) password; code = drop (length password - 6) password in
        if \<not> allDigits code then False
        else if VerifyPassword A base (uPasswordHash u) \<noteq> Inr True then False
        else VerifyTOTP now (uTOTPSecret u) code)"

definition isLocked :: "time \<Rightarrow> User \<Rightarrow> bool" where
  "isLocked now u \<longleftrightarrow> \<not> IsZero (uLockedUntil u) \<and> Before now (uLockedUntil u)"

text \<open>What \<open>recordFailure\<close> writes into the user, and the call.\<close>

definition failed_user :: "authService \<Rightarrow> time \<Rightarrow> User \<Rightarrow> User" where
  "failed_user sv now u =
     (let u1 = u\<lparr>uFailedLoginAttempts := uFailedLoginAttempts u + 1\<rparr>
      in if uFailedLoginAttempts u1 \<ge> lockoutThreshold sv
         then u1\<lparr>uLockedUntil := now + lockoutDuration sv\<rparr> else u1)"

definition recordFailure :: "authService \<Rightarrow> 's Store \<Rightarrow> time \<Rightarrow> User \<Rightarrow> 's \<Rightarrow> User \<times> 's" where
  "recordFailure sv S now u s =
     (if lockoutThreshold sv \<le> 0 then (u, s)
      else let u' = failed_user sv now u in (u', snd (UpdateUser S u' s)))"

definition Authenticate :: "authService \<Rightarrow> argon2lib \<Rightarrow> 's Store \<Rightarrow> (nat \<Rightarrow> time) \<Rightarrow> string \<Rightarrow> string \<Rightarrow> 's \<Rightarrow> (err + User) \<times> 's" where
  "Authenticate sv A S clk username password s =
     (case GetUserByName S username s of
        Inl e \<Rightarrow> (Inl (if e = ErrNotFound then ErrInvalidCredentials else e), s)
      | Inr u \<Rightarrow>
          if isLocked (clk 0) u then (Inl ErrAccountLocked, s)
          else if \<not> verifyCredentials A (clk 1) u password then
            (case recordFailure sv S (clk 2) u s of (u', s') \<Rightarrow>
              (Inl (if isLocked (clk 3) u' then ErrAccountLocked else ErrInvalidCredentials), s'))
          else
            let u' = u\<lparr>uFailedLoginAttempts := 0, uLockedUntil := zeroTime, uLastLoginAt := clk 2\<rparr>
            in (Inr u', snd (UpdateUser S u' s)))"

section \<open>Sessions\<close>

record IssuedToken =
  Token :: string
  itSession :: Session

definition auth_CreateSession :: "'s Store \<Rightarrow> string option \<Rightarrow> string option \<Rightarrow> time \<Rightarrow> string \<Rightarrow> string \<Rightarrow> string \<Rightarrow>
    string \<Rightarrow> string \<Rightarrow> string \<Rightarrow> 's \<Rightarrow> (err + IssuedToken) \<times> 's" where
  "auth_CreateSession S tokenRnd idRnd now userID client device deviceID appVersion remoteAddr s =
     (case NewToken tokenRnd of
        Inl e \<Rightarrow> (Inl e, s)
      | Inr token \<Rightarrow> (case NewID idRnd of
          Inl e \<Rightarrow> (Inl e, s)
        | Inr ident \<Rightarrow>
            let sess = \<lparr>sID = ident, sUserID = userID, sTokenHash = HashToken token,
                  sClient = client, sDevice = device, sDeviceID = deviceID,
                  sAppVersion = appVersion, sRemoteAddr = remoteAddr,
                  sCreatedAt = now, sLastActivity = now\<rparr>
            in (case CreateSession S sess s of
                  (Some e, s') \<Rightarrow> (Inl e, s')
                | (None, s') \<Rightarrow> (Inr \<lparr>Token = token, itSession = sess\<rparr>, s'))))"

definition ValidateToken :: "'s Store \<Rightarrow> time \<Rightarrow> string \<Rightarrow> 's \<Rightarrow> (err + User \<times> Session) \<times> 's" where
  "ValidateToken S now token s =
     (if token = [] then (Inl ErrInvalidCredentials, s)
      else case GetSessionByTokenHash S (HashToken token) s of
        Inl e \<Rightarrow> (Inl ErrInvalidCredentials, s)
      | Inr sess \<Rightarrow> (case GetUserByID S (sUserID sess) s of
          Inl e \<Rightarrow> (Inl ErrInvalidCredentials, s)
        | Inr u \<Rightarrow> (Inr (u, sess), snd (TouchSession S now (sID sess) s))))"

definition Logout :: "'s Store \<Rightarrow> string \<Rightarrow> 's \<Rightarrow> err option \<times> 's" where
  "Logout S token s =
     (if token = [] then (None, s)
      else case GetSessionByTokenHash S (HashToken token) s of
        Inl e \<Rightarrow> (None, s)
      | Inr sess \<Rightarrow> DeleteSession S (sID sess) s)"

section \<open>Two-factor enrollment\<close>

definition recoveryCodeCount :: nat where "recoveryCodeCount = 10"

record TOTPSetup =
  Secret :: string
  ProvisioningURI :: string

definition BeginTOTPSetup :: "'s Store \<Rightarrow> string option \<Rightarrow> string \<Rightarrow> string \<Rightarrow> string \<Rightarrow> 's \<Rightarrow> (err + TOTPSetup) \<times> 's" where
  "BeginTOTPSetup S rnd userID issuer account s =
     (case GetUserByID S userID s of
        Inl e \<Rightarrow> (Inl e, s)
      | Inr u \<Rightarrow>
          if uTOTPEnabled u then (Inl ErrTOTPAlreadyEnabled, s)
          else (case NewTOTPSecret rnd of
              Inl e \<Rightarrow> (Inl e, s)
            | Inr secret \<Rightarrow>
                (case UpdateUser S (u\<lparr>uPendingTOTPSecret := secret\<rparr>) s of
                   (Some e, s') \<Rightarrow> (Inl e, s')
                 | (None, s') \<Rightarrow> (Inr \<lparr>Secret = secret,
                     ProvisioningURI = TOTPProvisioningURI issuer account secret\<rparr>, s'))))"

definition ActivateTOTP :: "'s Store \<Rightarrow> (nat \<Rightarrow> string option) \<Rightarrow> time \<Rightarrow> string \<Rightarrow> string \<Rightarrow> 's \<Rightarrow> (err + string list) \<times> 's" where
  "ActivateTOTP S rnd now userID code s =
     (case GetUserByID S userID s of
        Inl e \<Rightarrow> (Inl e, s)
      | Inr u \<Rightarrow>
          if uTOTPEnabled u then (Inl ErrTOTPAlreadyEnabled, s)
          else if uPendingTOTPSecret u = [] then (Inl ErrNoPendingTOTP, s)
          else if \<not> VerifyTOTP now (uPendingTOTPSecret u) code then (Inl ErrTOTPInvalidCode, s)
          else (case NewRecoveryCodes recoveryCodeCount rnd of
              Inl e \<Rightarrow> (Inl e, s)
            | Inr (codes, hashes) \<Rightarrow>
                (case UpdateUser S (u\<lparr>uTOTPSecret := uPendingTOTPSecret u, uPendingTOTPSecret := [],
                        uTOTPEnabled := True, uRecoveryCodeHashes := hashes\<rparr>) s of
                   (Some e, s') \<Rightarrow> (Inl e, s')
                 | (None, s') \<Rightarrow> (Inr codes, s'))))"

text \<open>The list without its first entry equal to \<open>want\<close>.\<close>

fun remove_hash :: "string \<Rightarrow> string list \<Rightarrow> string list option" where
  "remove_hash want [] = None"
| "remove_hash want (h # hs) =
     (if ConstantTimeEqual h want then Some hs else map_option (\<lambda>hs. h # hs) (remove_hash want hs))"

definition consumeRecoveryCode :: "User \<Rightarrow> string \<Rightarrow> bool \<times> User" where
  "consumeRecoveryCode u code =
     (if code = [] then (False, u)
      else case remove_hash (HashToken code) (uRecoveryCodeHashes u) of
        None \<Rightarrow> (False, u)
      | Some hs \<Rightarrow> (True, u\<lparr>uRecoveryCodeHashes := hs\<rparr>))"

definition clearTOTP :: "User \<Rightarrow> User" where
  "clearTOTP u = u\<lparr>uTOTPEnabled := False, uTOTPSecret := [], uPendingTOTPSecret := [],
     uRecoveryCodeHashes := []\<rparr>"

definition DisableTOTP :: "'s Store \<Rightarrow> time \<Rightarrow> string \<Rightarrow> string \<Rightarrow> 's \<Rightarrow> err option \<times> 's" where
  "DisableTOTP S now userID code s =
     (case GetUserByID S userID s of
        Inl e \<Rightarrow> (Some e, s)
      | Inr u \<Rightarrow>
          if \<not> uTOTPEnabled u then (Some ErrTOTPNotEnabled, s)
          else if VerifyTOTP now (uTOTPSecret u) code then UpdateUser S (clearTOTP u) s
          else (case consumeRecoveryCode u code of
              (False, u') \<Rightarrow> (Some ErrTOTPInvalidCode, s)
            | (True, u') \<Rightarrow> UpdateUser S (clearTOTP u') s))"

definition RecoverTOTP :: "authService \<Rightarrow> argon2lib \<Rightarrow> 's Store \<Rightarrow> (nat \<Rightarrow> time) \<Rightarrow> string \<Rightarrow> string \<Rightarrow> string \<Rightarrow> 's \<Rightarrow> err option \<times> 's" where
  "RecoverTOTP sv A S clk username password recoveryCode s =
     (case GetUserByName S username s of
        Inl e \<Rightarrow> (Some (if e = ErrNotFound then ErrInvalidCredentials else e), s)
      | Inr u \<Rightarrow>
          if isLocked (clk 0) u then (Some ErrAccountLocked, s)
          else if VerifyPassword A password (uPasswordHash u) \<noteq> Inr True then
            (Some ErrInvalidCredentials, snd (recordFailure sv S (clk 2) u s))
          else if \<not> uTOTPEnabled u then (Some ErrTOTPNotEnabled, s)
          else (case consumeRecoveryCode u recoveryCode of
              (False, u') \<Rightarrow> (Some ErrTOTPInvalidCode, snd (recordFailure sv S (clk 2) u' s))
            | (True, u') \<Rightarrow> UpdateUser S ((clearTOTP u')\<lparr>uFailedLoginAttempts := 0\<rparr>) s))"

definition TOTPEnabled :: "'s Store \<Rightarrow> string \<Rightarrow> 's \<Rightarrow> err + bool" where
  "TOTPEnabled S userID s = and_then (GetUserByID S userID s) (\<lambda>u. Inr (uTOTPEnabled u))"

end
