(* ===== verification/AuthProofs.thy ===== *)
theory AuthProofs
  imports Auth JsonStore BoltContract
begin

text \<open>
  What the authentication service guarantees over any store that meets the contract: the
  lemmas are proved in the contract's locales and used at the JSON store and at the bbolt
  store. Names are unique up to case, so a login name denotes at most one account; a login
  changes no other account.
\<close>

section \<open>Accounts by name\<close>

definition names_unique :: "absstore \<Rightarrow> bool" where
  "names_unique a \<longleftrightarrow> (\<forall>u \<in> ran (aUsers a). \<forall>v \<in> ran (aUsers a). EqualFold (uName u) (uName v) \<longrightarrow> u = v)"

lemma names_unique_update:
  assumes a: "names_unique a" and k: "aUsers a k = Some u" "uName u' = uName u"
    and key: "\<And>k u. aUsers a k = Some u \<Longrightarrow> uID u = k"
  shows "names_unique (a\<lparr>aUsers := (aUsers a)(k \<mapsto> u')\<rparr>)"
proof -
  have same: "j = k" if "aUsers a j = Some v" "EqualFold (uName v) (uName u)" for j v
  proof -
    have "v = u" using a that k(1) unfolding names_unique_def ran_def by blast
    then show ?thesis using key [OF that(1)] key [OF k(1)] by simp
  qed
  have main: "j = i" if "((aUsers a)(k \<mapsto> u')) j = Some v" "((aUsers a)(k \<mapsto> u')) i = Some w"
    "EqualFold (uName v) (uName w)" for i j v w
  proof -
    consider "i = k" "j = k" | "i = k" "j \<noteq> k" | "i \<noteq> k" "j = k" | "i \<noteq> k" "j \<noteq> k" by blast
    then show ?thesis
    proof cases
      case 2
      then show ?thesis using that same [of j v] k(2) by simp
    next
      case 3
      then show ?thesis using that same [of i w] k(2) EqualFold_sym [of "uName v"] by simp
    next
      case 4
      with that have "v = w" using a unfolding names_unique_def ran_def by auto
      with that 4 key [of j v] key [of i w] show ?thesis by simp
    qed simp
  qed
  show ?thesis unfolding names_unique_def
  proof (intro ballI impI)
    fix v w
    assume v: "v \<in> ran (aUsers (a\<lparr>aUsers := (aUsers a)(k \<mapsto> u')\<rparr>))"
      and w: "w \<in> ran (aUsers (a\<lparr>aUsers := (aUsers a)(k \<mapsto> u')\<rparr>))" and eq: "EqualFold (uName v) (uName w)"
    obtain j i where ji: "((aUsers a)(k \<mapsto> u')) j = Some v" "((aUsers a)(k \<mapsto> u')) i = Some w"
      using v w by (simp add: ran_def) blast
    from main [OF this eq] ji show "v = w" by simp
  qed
qed

lemma names_unique_create:
  "names_unique a \<Longrightarrow> spec_CreateUser u a = Inr b \<Longrightarrow> names_unique b"
proof -
  assume a: "names_unique a" and sp: "spec_CreateUser u a = Inr b"
  then have new: "\<not> EqualFold (uName v) (uName u)" if "v \<in> ran (aUsers a)" for v
    using that by (auto simp: spec_CreateUser_def split: if_splits)
  have mem: "v = u \<or> v \<in> ran (aUsers a)" if "v \<in> ran (aUsers b)" for v
    using that sp by (auto simp: spec_CreateUser_def ran_def split: if_splits)
  show "names_unique b" unfolding names_unique_def
  proof (intro ballI impI)
    fix v w assume "v \<in> ran (aUsers b)" "w \<in> ran (aUsers b)" and eq: "EqualFold (uName v) (uName w)"
    then consider "v = u" "w = u" | "v = u" "w \<in> ran (aUsers a)" | "v \<in> ran (aUsers a)" "w = u"
      | "v \<in> ran (aUsers a)" "w \<in> ran (aUsers a)" using mem by blast
    then show "v = w"
      using new eq EqualFold_sym a unfolding names_unique_def by cases blast+
  qed
qed

lemma search_user:
  assumes "names_unique a" "aUsers a k = Some u" "EqualFold (uName u) name"
    and "search_ok (\<lambda>u. EqualFold (uName u) name) (aUsers a) r"
  shows "r = Inr u"
proof (cases r)
  case (Inl e)
  with assms show ?thesis by (auto simp: search_ok_def ran_def)
next
  case (Inr v)
  with assms(4) have "v \<in> ran (aUsers a)" "EqualFold (uName v) name" by (auto simp: search_ok_def)
  moreover have "u \<in> ran (aUsers a)" using assms(2) by (rule ranI)
  moreover have "EqualFold (uName v) (uName u)"
    using EqualFold_trans [OF calculation(2)] assms(3) EqualFold_sym by blast
  ultimately show ?thesis using assms(1) Inr unfolding names_unique_def by blast
qed

text \<open>Two versions of one account that differ in login bookkeeping only.\<close>

definition same_account :: "User \<Rightarrow> User \<Rightarrow> bool" where
  "same_account u u' \<longleftrightarrow> uID u' = uID u \<and> uName u' = uName u \<and> uPasswordHash u' = uPasswordHash u \<and>
     uIsAdmin u' = uIsAdmin u \<and> uTOTPEnabled u' = uTOTPEnabled u \<and> uTOTPSecret u' = uTOTPSecret u \<and>
     uRecoveryCodeHashes u' = uRecoveryCodeHashes u"

lemma failed_user_same: "same_account u (failed_user sv t u)"
  by (simp add: same_account_def failed_user_def Let_def)

lemma failed_user_name [simp]:
  "uName (failed_user sv t u) = uName u" "uID (failed_user sv t u) = uID u"
  by (simp_all add: failed_user_def Let_def)

lemma verifyCredentials_failed [simp]:
  "verifyCredentials A t (failed_user sv t' u) pw = verifyCredentials A t u pw"
  by (simp add: verifyCredentials_def failed_user_def Let_def)

context user_store begin

lemma GetUserByName_found:
  "inv s \<Longrightarrow> names_unique (abs s) \<Longrightarrow> aUsers (abs s) k = Some u \<Longrightarrow> EqualFold (uName u) name \<Longrightarrow>
   GetUserByName S name s = Inr u"
  using search_user GetUserByName_ref by blast

lemma GetUserByName_cases:
  assumes "inv s"
  obtains (absent) "GetUserByName S name s = Inl ErrNotFound"
      "\<forall>u \<in> ran (aUsers (abs s)). \<not> EqualFold (uName u) name"
    | (found) u where "GetUserByName S name s = Inr u" "aUsers (abs s) (uID u) = Some u"
      "EqualFold (uName u) name"
proof (cases "GetUserByName S name s")
  case (Inl e)
  then show ?thesis using that(1) GetUserByName_ref [OF assms, of name] by (simp add: search_ok_def)
next
  case (Inr u)
  then have u: "u \<in> ran (aUsers (abs s))" "EqualFold (uName u) name"
    using GetUserByName_ref [OF assms, of name] by (simp_all add: search_ok_def)
  then obtain k where "aUsers (abs s) k = Some u" by (auto simp: ran_def)
  with user_key [OF assms this] show ?thesis using that(2) Inr u by simp
qed

text \<open>Writing back a stored account whose ID did not change.\<close>

lemma UpdateUser_stored:
  assumes "inv s" "aUsers (abs s) (uID u) = Some u0"
  shows "inv (snd (UpdateUser S u s)) \<and>
    (abs (snd (UpdateUser S u s)) = abs s \<or>
     abs (snd (UpdateUser S u s)) = (abs s)\<lparr>aUsers := (aUsers (abs s))(uID u \<mapsto> u)\<rparr>)"
  using UpdateUser_ref [OF assms(1), of u] assms(2)
  by (auto simp: step_ok_def refines_def spec_UpdateUser_def split: option.splits)

lemma UpdateUser_nil:
  assumes "inv s" "UpdateUser S u s = (None, s')"
  shows "inv s' \<and> abs s' = (abs s)\<lparr>aUsers := (aUsers (abs s))(uID u \<mapsto> u)\<rparr>"
  using step_ok_nil UpdateUser_ref [OF assms(1), of u] assms(2)
  by (fastforce simp: spec_UpdateUser_def split: if_splits)

lemma recordFailure_stored:
  assumes "inv s" "aUsers (abs s) (uID u) = Some u"
  shows "inv (snd (recordFailure sv S t u s)) \<and>
    (abs (snd (recordFailure sv S t u s)) = abs s \<or>
     abs (snd (recordFailure sv S t u s)) =
       (abs s)\<lparr>aUsers := (aUsers (abs s))(uID u \<mapsto> failed_user sv t u)\<rparr>)"
  using UpdateUser_stored [OF assms(1), of "failed_user sv t u"] assms
  by (auto simp: recordFailure_def Let_def)

text \<open>A login touches at most the account it names, and keeps its identity, name, password and
  second factor.\<close>

lemma login_frameI:
  "inv s' \<and> (a' = a \<or> a' = a\<lparr>aUsers := (aUsers a)(uID u \<mapsto> u')\<rparr>) \<Longrightarrow>
   aUsers a (uID u) = Some u \<Longrightarrow> EqualFold (uName u) name \<Longrightarrow> same_account u u' \<Longrightarrow>
   inv s' \<and> (a' = a \<or> (\<exists>u u'. aUsers a (uID u) = Some u \<and> EqualFold (uName u) name \<and> same_account u u' \<and>
     a' = a\<lparr>aUsers := (aUsers a)(uID u \<mapsto> u')\<rparr>))"
  by blast

lemma Authenticate_frame:
  assumes "inv s"
  shows "inv (snd (Authenticate sv A S clk name pw s)) \<and>
    (abs (snd (Authenticate sv A S clk name pw s)) = abs s \<or>
     (\<exists>u u'. aUsers (abs s) (uID u) = Some u \<and> EqualFold (uName u) name \<and>
       same_account u u' \<and> abs (snd (Authenticate sv A S clk name pw s)) =
         (abs s)\<lparr>aUsers := (aUsers (abs s))(uID u \<mapsto> u')\<rparr>))"
proof (rule GetUserByName_cases [OF assms, of name], goal_cases absent found)
  case absent
  then show ?thesis using assms by (simp add: Authenticate_def)
next
  case (found u)
  show ?thesis
  proof (cases "isLocked (clk 0) u")
    case True
    then show ?thesis using assms found by (simp add: Authenticate_def)
  next
    case unlocked: False
    show ?thesis
    proof (cases "verifyCredentials A (clk 1) u pw")
      case True
      let ?u = "u\<lparr>uFailedLoginAttempts := 0, uLockedUntil := zeroTime, uLastLoginAt := clk 2\<rparr>"
      have "snd (Authenticate sv A S clk name pw s) = snd (UpdateUser S ?u s)"
        using True found unlocked by (simp add: Authenticate_def Let_def)
      moreover have "same_account u ?u" by (simp add: same_account_def)
      ultimately show ?thesis
        using UpdateUser_stored [OF assms, of ?u u] found
        by (intro login_frameI [where u' = ?u and u = u]) simp_all
    next
      case False
      let ?u = "failed_user sv (clk 2) u"
      have "snd (Authenticate sv A S clk name pw s) = snd (recordFailure sv S (clk 2) u s)"
        using False found unlocked by (simp add: Authenticate_def split: prod.splits)
      then show ?thesis
        using recordFailure_stored [OF assms found(2), of sv "clk 2"] found failed_user_same
        by (intro login_frameI [where u' = ?u and u = u]) simp_all
    qed
  qed
qed

lemma Authenticate_names_unique:
  assumes "inv s" "names_unique (abs s)"
  shows "names_unique (abs (snd (Authenticate sv A S clk name pw s)))"
proof -
  have upd: "names_unique ((abs s)\<lparr>aUsers := (aUsers (abs s))(uID u \<mapsto> u')\<rparr>)"
    if "aUsers (abs s) (uID u) = Some u" "same_account u u'" for u u'
  proof (rule names_unique_update [OF assms(2) that(1)])
    show "uName u' = uName u" using that(2) by (simp add: same_account_def)
  qed (rule user_key [OF assms(1)])
  from Authenticate_frame [OF assms(1), of sv A clk name pw, THEN conjunct2] show ?thesis
  proof (elim disjE exE conjE)
    fix u u'
    assume "aUsers (abs s) (uID u) = Some u" "same_account u u'"
      and eq: "abs (snd (Authenticate sv A S clk name pw s)) = (abs s)\<lparr>aUsers := (aUsers (abs s))(uID u \<mapsto> u')\<rparr>"
    from upd [OF this(1,2)] show ?thesis unfolding eq .
  qed (simp add: assms(2))
qed

lemma Authenticate_sound:
  assumes "inv s" "Authenticate sv A S clk name pw s = (Inr u, s')"
  shows "\<exists>u0. aUsers (abs s) (uID u) = Some u0 \<and> EqualFold (uName u0) name \<and>
    \<not> isLocked (clk 0) u0 \<and> verifyCredentials A (clk 1) u0 pw \<and>
    u = u0\<lparr>uFailedLoginAttempts := 0, uLockedUntil := zeroTime, uLastLoginAt := clk 2\<rparr>"
  by (rule GetUserByName_cases [OF assms(1), of name])
    (use assms(2) in \<open>auto simp: Authenticate_def Let_def split: if_splits prod.splits\<close>)

end

section \<open>Lockout\<close>

text \<open>A store whose update is in effect even when it could not be saved, as the JSON store's is:
  the map in memory changes before the flush.\<close>

locale memory_user_store = user_store +
  assumes UpdateUser_applies: "inv s \<Longrightarrow> spec_UpdateUser u (abs s) = Inr b \<Longrightarrow> abs (snd (UpdateUser S u s)) = b"

text \<open>A client's consecutive attempts: the clock readings of each and the password it tries.\<close>

fun login_attempts :: "authService \<Rightarrow> argon2lib \<Rightarrow> 's Store \<Rightarrow> string \<Rightarrow> ((nat \<Rightarrow> time) \<times> string) list \<Rightarrow> 's \<Rightarrow> 's" where
  "login_attempts sv A S name [] s = s"
| "login_attempts sv A S name ((clk, pw) # as) s =
     login_attempts sv A S name as (snd (Authenticate sv A S clk name pw s))"

context user_store begin

lemma Authenticate_locked:
  assumes "inv s" "names_unique (abs s)" "aUsers (abs s) k = Some u" "EqualFold (uName u) name"
    and "isLocked (clk 0) u"
  shows "Authenticate sv A S clk name pw s = (Inl ErrAccountLocked, s)"
  using GetUserByName_found [OF assms(1-4)] assms(5) by (simp add: Authenticate_def)

lemma Authenticate_errors:
  "inv s \<Longrightarrow> fst (Authenticate sv A S clk name pw s) = Inl e \<Longrightarrow> e = ErrInvalidCredentials \<or> e = ErrAccountLocked"
  by (rule GetUserByName_cases [of s name])
    (auto simp: Authenticate_def Let_def split: if_splits prod.splits)

lemma Authenticate_good:
  assumes "inv s" "names_unique (abs s)" "aUsers (abs s) k = Some u" "EqualFold (uName u) name"
    and "\<not> isLocked (clk 0) u" "verifyCredentials A (clk 1) u pw"
  shows "fst (Authenticate sv A S clk name pw s) =
    Inr (u\<lparr>uFailedLoginAttempts := 0, uLockedUntil := zeroTime, uLastLoginAt := clk 2\<rparr>)"
  using GetUserByName_found [OF assms(1-4)] assms(5,6) by (simp add: Authenticate_def Let_def)

end

context memory_user_store begin

lemma Authenticate_bad:
  assumes "inv s" "names_unique (abs s)" "aUsers (abs s) k = Some u" "EqualFold (uName u) name"
    and "\<not> isLocked (clk 0) u" "\<not> verifyCredentials A (clk 1) u pw" "lockoutThreshold sv > 0"
  shows "abs (snd (Authenticate sv A S clk name pw s)) =
    (abs s)\<lparr>aUsers := (aUsers (abs s))(k \<mapsto> failed_user sv (clk 2) u)\<rparr>"
proof -
  have k: "uID u = k" using user_key assms(1,3) by blast
  have "snd (Authenticate sv A S clk name pw s) = snd (UpdateUser S (failed_user sv (clk 2) u) s)"
    using GetUserByName_found [OF assms(1-4)] assms(5-7)
    by (simp add: Authenticate_def recordFailure_def Let_def)
  moreover have "abs (snd (UpdateUser S (failed_user sv (clk 2) u) s)) =
    (abs s)\<lparr>aUsers := (aUsers (abs s))(k \<mapsto> failed_user sv (clk 2) u)\<rparr>"
    by (rule UpdateUser_applies) (simp_all add: assms k spec_UpdateUser_def)
  ultimately show ?thesis by simp
qed

lemma login_attempts_lock:
  assumes "inv s" "names_unique (abs s)" "aUsers (abs s) k = Some u" "EqualFold (uName u) name"
    and "uLockedUntil u = zeroTime" "0 \<le> uFailedLoginAttempts u" "as \<noteq> []"
    and "uFailedLoginAttempts u + int (length as) = lockoutThreshold sv"
    and "\<forall>(clk, pw) \<in> set as. \<not> verifyCredentials A (clk 1) u pw"
  shows "inv (login_attempts sv A S name as s) \<and> names_unique (abs (login_attempts sv A S name as s)) \<and>
    aUsers (abs (login_attempts sv A S name as s)) k =
      Some (u\<lparr>uFailedLoginAttempts := lockoutThreshold sv,
              uLockedUntil := fst (last as) 2 + lockoutDuration sv\<rparr>)"
  using assms
proof (induction as arbitrary: s u)
  case (Cons a as)
  obtain clk pw where a: "a = (clk, pw)" by (cases a)
  let ?s = "snd (Authenticate sv A S clk name pw s)"
  let ?u = "failed_user sv (clk 2) u"
  have unlocked: "\<not> isLocked (clk 0) u" using Cons.prems(5) by (simp add: isLocked_def IsZero_def)
  have bad: "\<not> verifyCredentials A (clk 1) u pw" using Cons.prems(9) a by simp
  have pos: "lockoutThreshold sv > 0" using Cons.prems(6,8) by simp
  have inv: "inv ?s" using Authenticate_frame [OF Cons.prems(1)] by blast
  have nu: "names_unique (abs ?s)" by (rule Authenticate_names_unique [OF Cons.prems(1,2)])
  have stored: "aUsers (abs ?s) k = Some ?u"
    using Authenticate_bad [OF Cons.prems(1-4) unlocked bad pos] by simp
  show ?case
  proof (cases "as = []")
    case True
    then have "?u = u\<lparr>uFailedLoginAttempts := lockoutThreshold sv, uLockedUntil := clk 2 + lockoutDuration sv\<rparr>"
      using Cons.prems(8) by (simp add: failed_user_def Let_def)
    with True inv nu stored show ?thesis by (simp add: a)
  next
    case False
    then have u: "?u = u\<lparr>uFailedLoginAttempts := uFailedLoginAttempts u + 1\<rparr>"
      using Cons.prems(8) by (cases as) (simp_all add: failed_user_def Let_def)
    have "\<forall>(clk', pw') \<in> set as. \<not> verifyCredentials A (clk' 1) ?u pw'"
      using Cons.prems(9) by auto
    from Cons.IH [OF inv nu stored _ _ _ False _ this] Cons.prems show ?thesis
      using False by (simp add: a u)
  qed
qed simp

end

interpretation json_memory: memory_user_store json_store json_abs json_inv
proof (unfold_locales, goal_cases)
  case (1 s u b)
  then show ?case
    using flushLocked_frame [of "s\<lparr>jUsers := map_set (uID u) u (jUsers s)\<rparr>"]
    by (cases "flushLocked (s\<lparr>jUsers := map_set (uID u) u (jUsers s)\<rparr>)")
      (auto simp: json_UpdateUser_def spec_UpdateUser_def split: if_splits)
qed

section \<open>Sessions\<close>

definition tokens_unique :: "absstore \<Rightarrow> bool" where
  "tokens_unique a \<longleftrightarrow> (\<forall>j k x y. aSessions a j = Some x \<longrightarrow> aSessions a k = Some y \<longrightarrow>
     sTokenHash x = sTokenHash y \<longrightarrow> j = k)"

locale auth_store = user_store + session_store
begin

lemma GetSession_found:
  assumes "inv s" "tokens_unique (abs s)" "aSessions (abs s) k = Some x"
  shows "GetSessionByTokenHash S (sTokenHash x) s = Inr x"
proof -
  have r: "search_ok (\<lambda>y. sTokenHash y = sTokenHash x) (aSessions (abs s)) (GetSessionByTokenHash S (sTokenHash x) s)"
    by (rule GetSessionByTokenHash_ref [OF assms(1)])
  show ?thesis
  proof (cases "GetSessionByTokenHash S (sTokenHash x) s")
    case (Inl e)
    then show ?thesis using r assms(3) by (auto simp: search_ok_def ran_def)
  next
    case (Inr y)
    then obtain j where "aSessions (abs s) j = Some y" "sTokenHash y = sTokenHash x"
      using r by (auto simp: search_ok_def ran_def)
    with assms have "j = k" unfolding tokens_unique_def by blast
    with \<open>aSessions (abs s) j = Some y\<close> assms(3) Inr show ?thesis by simp
  qed
qed

lemma CreateSession_issued:
  assumes "inv s" "auth_CreateSession S tr ir now uid c d di v ra s = (Inr tok, s')"
    and "session_fresh (itSession tok) (abs s)"
  shows "inv s' \<and> abs s' = (abs s)\<lparr>aSessions := (aSessions (abs s))(sID (itSession tok) \<mapsto> itSession tok)\<rparr> \<and>
    sTokenHash (itSession tok) = HashToken (Token tok) \<and> sUserID (itSession tok) = uid"
proof -
  from assms(2) have cs: "CreateSession S (itSession tok) s = (None, s')"
    "sTokenHash (itSession tok) = HashToken (Token tok)" "sUserID (itSession tok) = uid"
    by (auto simp: auth_CreateSession_def Let_def split: sum.splits prod.splits option.splits)
  from CreateSession_ref [OF assms(1,3)] have "spec_CreateSession (itSession tok) (abs s) = Inr (abs s') \<and> inv s'"
    unfolding cs(1) by (rule step_ok_nil)
  with cs show ?thesis by (simp add: spec_CreateSession_def)
qed

lemma tokens_unique_fresh:
  "tokens_unique a \<Longrightarrow> session_fresh x a \<Longrightarrow> tokens_unique (a\<lparr>aSessions := (aSessions a)(sID x \<mapsto> x)\<rparr>)"
  unfolding tokens_unique_def session_fresh_def ran_def by (auto split: if_splits)

lemma CreateSession_unique:
  assumes "inv s" "auth_CreateSession S tr ir now uid c d di v ra s = (Inr tok, s')"
    and "session_fresh (itSession tok) (abs s)" "tokens_unique (abs s)"
  shows "tokens_unique (abs s')"
  using CreateSession_issued [OF assms(1-3)] tokens_unique_fresh [OF assms(4,3)] by simp

text \<open>A session record resolves its own token.\<close>

lemma ValidateToken_session:
  assumes "inv s" "tokens_unique (abs s)" "aSessions (abs s) k = Some x" "sTokenHash x = HashToken token"
    and "token \<noteq> []" "aUsers (abs s) (sUserID x) = Some u"
  shows "fst (ValidateToken S now token s) = Inr (u, x)"
  using GetSession_found [OF assms(1-3)] assms GetUserByID_ref [OF assms(1)]
  by (simp add: ValidateToken_def lookup_or_def)

lemma ValidateToken_sound:
  assumes "inv s" "fst (ValidateToken S now token s) = Inr (u, x)"
  shows "aSessions (abs s) (sID x) = Some x \<and> sTokenHash x = HashToken token \<and>
    aUsers (abs s) (sUserID x) = Some u \<and> token \<noteq> []"
proof -
  from assms(2) have g: "token \<noteq> []" "GetSessionByTokenHash S (HashToken token) s = Inr x"
    "GetUserByID S (sUserID x) s = Inr u"
    by (auto simp: ValidateToken_def split: if_splits sum.splits)
  obtain k where "aSessions (abs s) k = Some x" "sTokenHash x = HashToken token"
    using GetSessionByTokenHash_ref [OF assms(1), of "HashToken token"] g by (auto simp: search_ok_def ran_def)
  with session_key [OF assms(1)] g GetUserByID_ref [OF assms(1), of "sUserID x"] show ?thesis
    by (auto simp: lookup_or_def split: option.splits)
qed

text \<open>Validating a token moves the activity stamp of its session, and nothing else.\<close>

lemma ValidateToken_frame:
  assumes "inv s"
  shows "inv (snd (ValidateToken S now token s)) \<and>
    (abs (snd (ValidateToken S now token s)) = abs s \<or>
     (\<exists>k x. aSessions (abs s) k = Some x \<and> sTokenHash x = HashToken token \<and>
       abs (snd (ValidateToken S now token s)) =
         (abs s)\<lparr>aSessions := (aSessions (abs s))(k \<mapsto> x\<lparr>sLastActivity := now\<rparr>)\<rparr>))"
proof (cases "fst (ValidateToken S now token s)")
  case (Inl e)
  then have "snd (ValidateToken S now token s) = s"
    by (auto simp: ValidateToken_def split: if_splits sum.splits)
  with assms show ?thesis by simp
next
  case (Inr p)
  obtain u x where p: "p = (u, x)" by (cases p)
  note v = ValidateToken_sound [OF assms Inr [unfolded p]]
  from Inr p have s': "snd (ValidateToken S now token s) = snd (TouchSession S now (sID x) s)"
    by (auto simp: ValidateToken_def split: if_splits sum.splits)
  have "inv (snd (TouchSession S now (sID x) s)) \<and> refines (spec_TouchSession now (sID x) (abs s)) (abs s)
      (fst (TouchSession S now (sID x) s)) (abs (snd (TouchSession S now (sID x) s)))"
    using TouchSession_ref [OF assms] by (simp add: step_ok_def)
  then show ?thesis
    using v unfolding s' refines_def spec_TouchSession_def
    by (simp split: option.splits) (metis (no_types))+
qed

lemma Logout_revokes:
  assumes "inv s" "tokens_unique (abs s)" "Logout S token s = (None, s')"
  shows "inv s' \<and> fst (ValidateToken S now token s') = Inl ErrInvalidCredentials"
proof (cases "token = [] \<or> (\<exists>e. GetSessionByTokenHash S (HashToken token) s = Inl e)")
  case True
  then have "s' = s" using assms(3) by (auto simp: Logout_def split: if_splits)
  with True assms(1) show ?thesis by (auto simp: ValidateToken_def)
next
  case False
  then obtain x where x: "GetSessionByTokenHash S (HashToken token) s = Inr x" "token \<noteq> []"
    by (cases "GetSessionByTokenHash S (HashToken token) s") auto
  then obtain k where k: "aSessions (abs s) k = Some x" "sTokenHash x = HashToken token"
    using GetSessionByTokenHash_ref [OF assms(1), of "HashToken token"] by (auto simp: search_ok_def ran_def)
  have sid: "sID x = k" using session_key [OF assms(1) k(1)] .
  have "DeleteSession S k s = (None, s')" using assms(3) x sid by (simp add: Logout_def)
  then have s': "inv s'" "abs s' = (abs s)\<lparr>aSessions := (aSessions (abs s))(k := None)\<rparr>"
    using step_ok_nil DeleteSession_ref [OF assms(1), of k] k by (fastforce simp: spec_DeleteSession_def)+
  have "\<not> (\<exists>y. fst (ValidateToken S now token s') = Inr y)"
  proof
    assume "\<exists>y. fst (ValidateToken S now token s') = Inr y"
    then obtain u y where "fst (ValidateToken S now token s') = Inr (u, y)" by force
    from ValidateToken_sound [OF s'(1) this]
    have y: "aSessions (abs s') (sID y) = Some y" "sTokenHash y = HashToken token" by auto
    then have "aSessions (abs s) (sID y) = Some y" "sID y \<noteq> k"
      using s'(2) by (auto split: if_splits)
    with y k assms(2) show False unfolding tokens_unique_def by metis
  qed
  then show ?thesis using s'(1)
    by (auto simp: ValidateToken_def split: if_splits sum.splits)
qed

end

interpretation json_auth: auth_store json_store json_abs json_inv ..

sublocale bolt_engine \<subseteq> bolt_auth: auth_store "bolt_store E" "bolt_abs E" "bolt_inv E" ..

end
