(* ===== verification/TwoFactor.thy ===== *)
theory TwoFactor
  imports AuthProofs
begin

text \<open>
  Two-factor enrollment and recovery, and the first-run administrator: what each step of
  \<open>totp.go\<close> requires, what it leaves in the account, and that recovery codes work once.
\<close>

section \<open>One-time codes\<close>

lemma length_digits_nat: "n < 10 ^ k \<Longrightarrow> 0 < k \<Longrightarrow> length (digits_nat n) \<le> k"
proof (induction k arbitrary: n)
  case (Suc k)
  show ?case
  proof (cases "n < 10")
    case False
    then have "0 < k" using Suc.prems by (cases k) auto
    moreover have "n div 10 < 10 ^ k" using Suc.prems by (simp add: less_mult_imp_div_less mult.commute)
    ultimately have "length (digits_nat (n div 10)) \<le> k" by (rule Suc.IH [rotated])
    with False show ?thesis by (simp add: digits_nat.simps [of n])
  qed (simp add: digits_nat.simps [of n])
qed simp

lemma totpCode_digits:
  assumes "totpCode secret t = Inr code"
  shows "length code = totpDigits \<and> allDigits code"
proof -
  obtain w :: word32 where code: "code = zero_pad totpDigits (unat (w mod 10 ^ totpDigits))"
    using assms by (auto simp: totpCode_def Let_def split: option.splits)
  let ?n = "unat (w mod 10 ^ totpDigits)"
  have "?n = unat w mod 1000000"
    by (simp add: totpDigits_def unat_mod)
  then have "?n < 10 ^ 6" by simp
  then have "length (digits_nat ?n) \<le> 6" by (rule length_digits_nat) simp
  with digits_nat_ok [of ?n] show ?thesis
    by (auto simp: code zero_pad_def Let_def totpDigits_def allDigits_def is_digit_def)
qed

lemma TrimSpace_digits:
  assumes "\<forall>c \<in> set s. is_digit c"
  shows "TrimSpace s = s"
proof -
  have *: "dropWhile (\<lambda>c. c \<in> set spaces) t = t" if "set t \<subseteq> set s" for t
    using that assms digit_not_blank by (cases t) auto
  show ?thesis by (simp add: TrimSpace_def Trim_def *)
qed

lemma verifyTOTPAt_window:
  assumes "totpCode secret t = Inr code" "t = now + w * totpPeriod" "- totpSkew \<le> w" "w \<le> totpSkew"
  shows "verifyTOTPAt secret code now"
proof -
  note d = totpCode_digits [OF assms(1)]
  have "TrimSpace code = code" using d by (intro TrimSpace_digits) (simp add: allDigits_def)
  moreover have "verify_windows secret code now [- totpSkew .. totpSkew]"
    using assms totpCode_total [OF assms(1)] by (intro verify_windows_mem [of w]) auto
  ultimately show ?thesis using d by (simp add: verifyTOTPAt_def)
qed

lemma verifyTOTPAt_sound:
  "verifyTOTPAt secret code now \<Longrightarrow>
   \<exists>w. - totpSkew \<le> w \<and> w \<le> totpSkew \<and> totpCode secret (now + w * totpPeriod) = Inr (TrimSpace code)"
  by (auto simp: verifyTOTPAt_def Let_def split: if_splits dest!: verify_windows_sound)

section \<open>Recovery codes\<close>

lemma remove_hash_mset:
  "remove_hash want hs = Some hs' \<Longrightarrow> mset hs = add_mset want (mset hs')"
  by (induction hs arbitrary: hs') (auto simp: ConstantTimeEqual_def split: if_splits)

lemma remove_hash_None: "remove_hash want hs = None \<longleftrightarrow> want \<notin> set hs"
  by (induction hs) (auto simp: ConstantTimeEqual_def)

lemma consume_iff: "fst (consumeRecoveryCode u code) \<longleftrightarrow> code \<noteq> [] \<and> HashToken code \<in> set (uRecoveryCodeHashes u)"
  using remove_hash_None [of "HashToken code" "uRecoveryCodeHashes u"]
  by (auto simp: consumeRecoveryCode_def split: option.splits)

lemma consume_same: "snd (consumeRecoveryCode u code) = u\<lparr>uRecoveryCodeHashes := uRecoveryCodeHashes (snd (consumeRecoveryCode u code))\<rparr>"
  by (auto simp: consumeRecoveryCode_def split: option.splits)

lemma clear_consume: "clearTOTP (snd (consumeRecoveryCode u code)) = clearTOTP u"
  by (subst consume_same) (simp add: clearTOTP_def)

lemma NewRecoveryCodes_hashes:
  "NewRecoveryCodes n rnd = Inr (codes, hashes) \<Longrightarrow> length codes = n \<and> hashes = map HashToken codes"
proof (induction n arbitrary: codes hashes)
  case (Suc n)
  obtain p where p: "NewRecoveryCodes n rnd = Inr p"
    using Suc.prems by (cases "NewRecoveryCodes n rnd") auto
  obtain cs hs where "p = (cs, hs)" by (cases p)
  with Suc p show ?case by (cases "randomHex (rnd n)") auto
qed simp

context user_store begin

lemma GetUserByID_stored:
  "inv s \<Longrightarrow> GetUserByID S k s = Inr u \<longleftrightarrow> aUsers (abs s) k = Some u"
  by (auto simp: GetUserByID_ref lookup_or_def split: option.splits)

lemma ActivateTOTP_ok:
  assumes "inv s" "ActivateTOTP S rnd now k code s = (Inr codes, s')"
  shows "\<exists>u. aUsers (abs s) k = Some u \<and> \<not> uTOTPEnabled u \<and> uPendingTOTPSecret u \<noteq> [] \<and>
    VerifyTOTP now (uPendingTOTPSecret u) code \<and> length codes = recoveryCodeCount \<and> inv s' \<and>
    abs s' = (abs s)\<lparr>aUsers := (aUsers (abs s))(k \<mapsto>
      u\<lparr>uTOTPSecret := uPendingTOTPSecret u, uPendingTOTPSecret := [], uTOTPEnabled := True,
        uRecoveryCodeHashes := map HashToken codes\<rparr>)\<rparr>"
proof -
  from assms(2) obtain u where u: "GetUserByID S k s = Inr u"
    by (auto simp: ActivateTOTP_def split: sum.splits)
  then have stored: "aUsers (abs s) k = Some u" using GetUserByID_stored [OF assms(1)] by simp
  from assms(2) u obtain hashes where g: "\<not> uTOTPEnabled u" "uPendingTOTPSecret u \<noteq> []"
    "VerifyTOTP now (uPendingTOTPSecret u) code" "NewRecoveryCodes recoveryCodeCount rnd = Inr (codes, hashes)"
    "UpdateUser S (u\<lparr>uTOTPSecret := uPendingTOTPSecret u, uPendingTOTPSecret := [],
                        uTOTPEnabled := True, uRecoveryCodeHashes := hashes\<rparr>) s = (None, s')"
    by (auto simp: ActivateTOTP_def split: sum.splits if_splits prod.splits option.splits)
  from NewRecoveryCodes_hashes [OF g(4)] UpdateUser_nil [OF assms(1) g(5)]
    user_key [OF assms(1) stored] stored g show ?thesis by auto
qed

lemma DisableTOTP_ok:
  assumes "inv s" "DisableTOTP S now k code s = (None, s')"
  shows "\<exists>u. aUsers (abs s) k = Some u \<and> uTOTPEnabled u \<and>
    (VerifyTOTP now (uTOTPSecret u) code \<or> (code \<noteq> [] \<and> HashToken code \<in> set (uRecoveryCodeHashes u))) \<and>
    inv s' \<and> abs s' = (abs s)\<lparr>aUsers := (aUsers (abs s))(k \<mapsto> clearTOTP u)\<rparr>"
proof -
  from assms(2) obtain u where u: "GetUserByID S k s = Inr u"
    by (auto simp: DisableTOTP_def split: sum.splits)
  then have stored: "aUsers (abs s) k = Some u" using GetUserByID_stored [OF assms(1)] by simp
  have "uID (clearTOTP u) = k" using user_key [OF assms(1) stored] by (simp add: clearTOTP_def)
  moreover have "uTOTPEnabled u \<and> UpdateUser S (clearTOTP u) s = (None, s') \<and>
    (VerifyTOTP now (uTOTPSecret u) code \<or> (code \<noteq> [] \<and> HashToken code \<in> set (uRecoveryCodeHashes u)))"
    using assms(2) u consume_iff [of u code] clear_consume [of u code]
    by (auto simp: DisableTOTP_def split: if_splits prod.splits bool.splits)
  ultimately show ?thesis using UpdateUser_nil [OF assms(1)] stored by metis
qed

lemma RecoverTOTP_ok:
  assumes "inv s" "RecoverTOTP sv A S clk name pw code s = (None, s')"
  shows "\<exists>u. aUsers (abs s) (uID u) = Some u \<and> EqualFold (uName u) name \<and> \<not> isLocked (clk 0) u \<and>
    VerifyPassword A pw (uPasswordHash u) = Inr True \<and> uTOTPEnabled u \<and>
    code \<noteq> [] \<and> HashToken code \<in> set (uRecoveryCodeHashes u) \<and> inv s' \<and>
    abs s' = (abs s)\<lparr>aUsers := (aUsers (abs s))(uID u \<mapsto> (clearTOTP u)\<lparr>uFailedLoginAttempts := 0\<rparr>)\<rparr>"
proof (rule GetUserByName_cases [OF assms(1), of name], goal_cases absent found)
  case absent
  with assms(2) show ?case by (simp add: RecoverTOTP_def)
next
  case (found u)
  have "\<not> isLocked (clk 0) u \<and> VerifyPassword A pw (uPasswordHash u) = Inr True \<and> uTOTPEnabled u \<and>
    UpdateUser S ((clearTOTP u)\<lparr>uFailedLoginAttempts := 0\<rparr>) s = (None, s') \<and>
    code \<noteq> [] \<and> HashToken code \<in> set (uRecoveryCodeHashes u)"
    using assms(2) found consume_iff [of u code] clear_consume [of u code]
    by (auto simp: RecoverTOTP_def split: if_splits prod.splits bool.splits)
  moreover have "uID ((clearTOTP u)\<lparr>uFailedLoginAttempts := 0\<rparr>) = uID u" by (simp add: clearTOTP_def)
  ultimately show ?case using UpdateUser_nil [OF assms(1)] found by metis
qed

end

section \<open>The first administrator\<close>

context user_store begin

lemma CountUsers_zero: "inv s \<Longrightarrow> CountUsers S s = Inr 0 \<Longrightarrow> aUsers (abs s) = Map.empty"
proof -
  assume s: "inv s" and z: "CountUsers S s = Inr 0"
  obtain l where "enumerates l (aUsers (abs s))" using ListUsers_ref [OF s] by blast
  then have "finite (dom (aUsers (abs s)))" unfolding enumerates_def by (metis List.finite_set)
  with CountUsers_ref [OF s] z show ?thesis by simp
qed

lemma auth_CreateUser_ok:
  assumes "inv s" "auth_CreateUser A S saltRnd idRnd now name pw admin s = (None, s')"
  shows "\<exists>ident hash. HashPassword A saltRnd pw = Inr hash \<and> inv s' \<and> TrimSpace name \<noteq> [] \<and> length pw \<ge> 8 \<and>
    NewID idRnd = Inr ident \<and>
    (\<forall>u \<in> ran (aUsers (abs s)). \<not> EqualFold (uName u) (TrimSpace name)) \<and>
    abs s' = (abs s)\<lparr>aUsers := (aUsers (abs s))(ident \<mapsto> new_user ident (TrimSpace name) hash admin now)\<rparr>"
proof -
  from assms(2) obtain ident hash where g: "TrimSpace name \<noteq> []" "length pw \<ge> 8"
    "HashPassword A saltRnd pw = Inr hash" "NewID idRnd = Inr ident"
    "CreateUser S (new_user ident (TrimSpace name) hash admin now) s = (None, s')"
    by (auto simp: auth_CreateUser_def Let_def not_less split: if_splits sum.splits prod.splits option.splits)
  from CreateUser_ref [OF assms(1)] have "spec_CreateUser (new_user ident (TrimSpace name) hash admin now) (abs s) = Inr (abs s') \<and> inv s'"
    using g(5) by (metis step_ok_nil)
  with g show ?thesis by (force simp: spec_CreateUser_def new_user_def split: if_splits)
qed

lemma SeedAdmin_created:
  assumes "inv s" "SeedAdmin A S draws saltRnd idRnd now name pw s = (Inr (g, True), s')"
  defines "pw' \<equiv> (if pw = [] then g else pw)"
  shows "\<exists>ident hash. HashPassword A saltRnd pw' = Inr hash \<and> inv s' \<and> aUsers (abs s) = Map.empty \<and>
    aUsers (abs s') = [ident \<mapsto> new_user ident (TrimSpace name) hash True now]"
proof -
  from assms(2) have g: "CountUsers S s = Inr 0" "auth_CreateUser A S saltRnd idRnd now name pw' True s = (None, s')"
    by (auto simp: SeedAdmin_def pw'_def map_sum_def split: sum.splits if_splits prod.splits option.splits)
  from auth_CreateUser_ok [OF assms(1) g(2)] CountUsers_zero [OF assms(1) g(1)] show ?thesis
    by auto
qed

lemma SeedAdmin_login:
  assumes "inv s" "argon2_ok A" "SeedAdmin A S draws (Some salt) idRnd now name pw s = (Inr (g, True), s')"
  shows "\<exists>u. fst (Authenticate sv A S clk (TrimSpace name) (if pw = [] then g else pw) s') = Inr u \<and> uIsAdmin u"
proof -
  let ?pw = "if pw = [] then g else pw"
  obtain ident hash where h: "HashPassword A (Some salt) ?pw = Inr hash" "inv s'"
    "aUsers (abs s') = [ident \<mapsto> new_user ident (TrimSpace name) hash True now]"
    using SeedAdmin_created [OF assms(1,3)] by blast
  let ?u = "new_user ident (TrimSpace name) hash True now"
  have "verifyCredentials A (clk 1) ?u ?pw"
    using hash_verifies [OF assms(2) h(1), of ?pw] by (simp add: verifyCredentials_def new_user_def)
  moreover have "names_unique (abs s')" by (simp add: names_unique_def h(3))
  moreover have "\<not> isLocked (clk 0) ?u" by (simp add: isLocked_def new_user_def IsZero_def)
  moreover have "aUsers (abs s') ident = Some ?u" by (simp add: h(3))
  moreover have "EqualFold (uName ?u) (TrimSpace name)" by (simp add: new_user_def)
  ultimately have "fst (Authenticate sv A S clk (TrimSpace name) ?pw s') =
    Inr (?u\<lparr>uFailedLoginAttempts := 0, uLockedUntil := zeroTime, uLastLoginAt := clk 2\<rparr>)"
    using Authenticate_good [OF h(2)] by blast
  then show ?thesis by (simp add: new_user_def)
qed

lemma SeedAdmin_again:
  assumes "inv s" "SeedAdmin A S draws saltRnd idRnd now name pw s = (Inr (g, True), s')"
  shows "SeedAdmin A S draws' saltRnd' idRnd' now' name' pw' s' = (Inr ([], False), s')"
proof -
  obtain ident hash where "inv s'" "aUsers (abs s') = [ident \<mapsto> new_user ident (TrimSpace name) hash True now]"
    using SeedAdmin_created [OF assms] by blast
  then have "CountUsers S s' = Inr 1" using CountUsers_ref by simp
  then show ?thesis by (simp add: SeedAdmin_def)
qed

end

end
