(* ===== verification/UserData.thy ===== *)
theory UserData
  imports JsonStore BoltContract
begin

text \<open>
  Package \<open>internal/userdata\<close>: resume positions, play counts, watched and favorite marks. An
  operation reads the pair's record or starts from a zero one, changes it, and upserts it; the
  record it returns is the one it wrote, whether or not the write was saved.
\<close>

definition zeroItemData :: "string \<Rightarrow> string \<Rightarrow> UserItemData" where
  "zeroItemData userID itemID =
     \<lparr>dUserID = userID, dItemID = itemID, dPlaybackPositionTicks = 0, dPlayCount = 0,
      dPlayed = False, dIsFavorite = False, dLastPlayedAt = zeroTime\<rparr>"

definition ud_Get :: "'s Store \<Rightarrow> string \<Rightarrow> string \<Rightarrow> 's \<Rightarrow> UserItemData" where
  "ud_Get S userID itemID s =
     (case GetUserItemData S userID itemID s of
        Inl e \<Rightarrow> zeroItemData userID itemID
      | Inr d \<Rightarrow> d)"

text \<open>The map by item ID; on an error, Go's nil map, which reads as empty.\<close>

definition ud_Map :: "'s Store \<Rightarrow> string \<Rightarrow> 's \<Rightarrow> UserItemData gomap" where
  "ud_Map S userID s =
     (case ListUserItemData S userID s of
        Inl e \<Rightarrow> []
      | Inr l \<Rightarrow> fold (\<lambda>d m. map_set (dItemID d) d m) l [])"

definition ReportPosition :: "'s Store \<Rightarrow> time \<Rightarrow> string \<Rightarrow> string \<Rightarrow> int \<Rightarrow> 's \<Rightarrow> err option \<times> 's" where
  "ReportPosition S now userID itemID ticks s =
     (if itemID = [] then (Some (ErrMsg ''userdata: empty item id''), s)
      else let d = ud_Get S userID itemID s;
               ticks = (if ticks < 0 then 0 else ticks)
           in UpsertUserItemData S (d\<lparr>dPlaybackPositionTicks := ticks, dLastPlayedAt := now\<rparr>) s)"

definition MarkPlayed :: "'s Store \<Rightarrow> time \<Rightarrow> string \<Rightarrow> string \<Rightarrow> 's \<Rightarrow> (UserItemData \<times> err option) \<times> 's" where
  "MarkPlayed S now userID itemID s =
     (let d = ud_Get S userID itemID s;
          d' = d\<lparr>dPlayed := True, dPlayCount := wrap64 (dPlayCount d + 1),
                 dPlaybackPositionTicks := 0, dLastPlayedAt := now\<rparr>
      in case UpsertUserItemData S d' s of (e, s') \<Rightarrow> ((d', e), s'))"

definition MarkUnplayed :: "'s Store \<Rightarrow> string \<Rightarrow> string \<Rightarrow> 's \<Rightarrow> (UserItemData \<times> err option) \<times> 's" where
  "MarkUnplayed S userID itemID s =
     (let d' = (ud_Get S userID itemID s)\<lparr>dPlayed := False, dPlaybackPositionTicks := 0\<rparr>
      in case UpsertUserItemData S d' s of (e, s') \<Rightarrow> ((d', e), s'))"

definition SetFavorite :: "'s Store \<Rightarrow> string \<Rightarrow> string \<Rightarrow> bool \<Rightarrow> 's \<Rightarrow> (UserItemData \<times> err option) \<times> 's" where
  "SetFavorite S userID itemID fav s =
     (let d' = (ud_Get S userID itemID s)\<lparr>dIsFavorite := fav\<rparr>
      in case UpsertUserItemData S d' s of (e, s') \<Rightarrow> ((d', e), s'))"

text \<open>\<open>sortByLastPlayedDesc\<close>: the inner loop moves \<open>x\<close> left through the sorted prefix, here
  given in reverse, while it was played after its neighbour.\<close>

fun sift_left :: "UserItemData \<Rightarrow> UserItemData list \<Rightarrow> UserItemData list" where
  "sift_left x [] = [x]"
| "sift_left x (y # ys) =
     (if After (dLastPlayedAt x) (dLastPlayedAt y) then y # sift_left x ys else x # y # ys)"

definition sortByLastPlayedDesc :: "UserItemData list \<Rightarrow> UserItemData list" where
  "sortByLastPlayedDesc ds = rev (foldl (\<lambda>acc x. sift_left x acc) [] ds)"

definition in_progress :: "UserItemData \<Rightarrow> bool" where
  "in_progress d \<longleftrightarrow> dPlaybackPositionTicks d > 0 \<and> \<not> dPlayed d"

definition Resumable :: "'s Store \<Rightarrow> string \<Rightarrow> 's \<Rightarrow> string list" where
  "Resumable S userID s =
     (case ListUserItemData S userID s of
        Inl e \<Rightarrow> []
      | Inr l \<Rightarrow> map dItemID (sortByLastPlayedDesc (filter in_progress l)))"

section \<open>The sort\<close>

lemma mset_sift_left [simp]: "mset (sift_left x ys) = add_mset x (mset ys)"
  by (induction ys) auto

lemma set_sift_left [simp]: "set (sift_left x ys) = insert x (set ys)"
  by (induction ys) auto

lemma sorted_sift_left:
  "sorted_wrt (\<lambda>a b. dLastPlayedAt a \<le> dLastPlayedAt b) ys \<Longrightarrow>
   sorted_wrt (\<lambda>a b. dLastPlayedAt a \<le> dLastPlayedAt b) (sift_left x ys)"
  by (induction ys) (auto simp: After_def)

lemma sort_fold:
  assumes "sorted_wrt (\<lambda>a b. dLastPlayedAt a \<le> dLastPlayedAt b) acc"
  shows "sorted_wrt (\<lambda>a b. dLastPlayedAt a \<le> dLastPlayedAt b) (foldl (\<lambda>acc x. sift_left x acc) acc ds) \<and>
    mset (foldl (\<lambda>acc x. sift_left x acc) acc ds) = mset acc + mset ds"
  using assms
proof (induction ds arbitrary: acc)
  case (Cons d ds)
  from Cons.IH [OF sorted_sift_left [OF Cons.prems, of d]] show ?case by simp
qed simp

lemma sort_sorted:
  "sorted_wrt (\<lambda>a b. dLastPlayedAt a \<ge> dLastPlayedAt b) (sortByLastPlayedDesc ds)"
  using sort_fold [of "[]" ds] by (simp add: sortByLastPlayedDesc_def sorted_wrt_rev)

lemma sort_mset: "mset (sortByLastPlayedDesc ds) = mset ds"
  using sort_fold [of "[]" ds] by (simp add: sortByLastPlayedDesc_def)

section \<open>Over a store that meets the contract\<close>

definition pair_data :: "absstore \<Rightarrow> string \<Rightarrow> string \<Rightarrow> UserItemData" where
  "pair_data a u i = (case aUserData a (userDataKey u i) of None \<Rightarrow> zeroItemData u i | Some d \<Rightarrow> d)"

lemma userDataKey_inject:
  assumes "no_nul u" "no_nul u'"
  shows "userDataKey u i = userDataKey u' i' \<longleftrightarrow> u = u' \<and> i = i'"
  using idxKey_inject [OF assms] by (simp add: userDataKey_idxKey)

context userdata_store begin

lemma ud_Get_pair: "inv s \<Longrightarrow> ud_Get S u i s = pair_data (abs s) u i"
  by (simp add: ud_Get_def pair_data_def GetUserItemData_ref lookup_or_def split: option.splits)

lemma pair_data_key:
  assumes "inv s" "no_nul u" "no_nul (dUserID (pair_data (abs s) u i))"
  shows "dUserID (pair_data (abs s) u i) = u \<and> dItemID (pair_data (abs s) u i) = i"
proof (cases "aUserData (abs s) (userDataKey u i)")
  case (Some d)
  then have d: "pair_data (abs s) u i = d" by (simp add: pair_data_def)
  from userdata_key [OF assms(1) Some] userDataKey_inject [OF assms(2), of "dUserID d"] assms(3) [unfolded d]
  show ?thesis unfolding d by simp
qed (simp add: pair_data_def zeroItemData_def)

text \<open>An upsert of a pair's record changes that pair and no other.\<close>

lemma upsert_pair:
  assumes "inv s" "no_nul (dUserID d)" "no_nul (dItemID d)" "UpsertUserItemData S d s = (None, s')"
  shows "inv s' \<and> pair_data (abs s') (dUserID d) (dItemID d) = d \<and>
    (\<forall>u i. no_nul u \<longrightarrow> (u, i) \<noteq> (dUserID d, dItemID d) \<longrightarrow> pair_data (abs s') u i = pair_data (abs s) u i)"
proof -
  have "inv s'" and a: "abs s' = (abs s)\<lparr>aUserData := (aUserData (abs s))(userDataKey (dUserID d) (dItemID d) \<mapsto> d)\<rparr>"
    using UpsertUserItemData_ref [OF assms(1-3)] unfolding assms(4)
    by (auto dest!: step_ok_nil simp: spec_UpsertUserItemData_def)
  then show ?thesis using userDataKey_inject [OF _ assms(2)] by (auto simp: pair_data_def)
qed

lemma Resumable_ok:
  assumes "inv s"
  shows "\<exists>ds. Resumable S u s = map dItemID ds \<and>
    set ds = {d. \<exists>k. aUserData (abs s) k = Some d \<and> dUserID d = u \<and> in_progress d} \<and>
    sorted_wrt (\<lambda>a b. dLastPlayedAt a \<ge> dLastPlayedAt b) ds"
proof -
  obtain l where l: "ListUserItemData S u s = Inr l"
    "enumerates l (map_where (\<lambda>d. dUserID d = u) (aUserData (abs s)))"
    using ListUserItemData_ref [OF assms] by blast
  let ?ds = "sortByLastPlayedDesc (filter in_progress l)"
  have "set ?ds = set (filter in_progress l)" using sort_mset mset_eq_setD by blast
  moreover have "set l = {d. \<exists>k. aUserData (abs s) k = Some d \<and> dUserID d = u}"
    unfolding enumerates_set [OF l(2)] by (auto simp: ran_def map_where_def split: option.splits)
  ultimately show ?thesis using sort_sorted l(1) by (intro exI [of _ ?ds]) (auto simp: Resumable_def)
qed

end

end
