(* ===== verification/AuthProps.thy ===== *)
theory AuthProps
  imports TwoFactor UserData StoreProps
begin

text \<open>
  The properties of authentication, two-factor login and per-user data over the JSON store, each
  followed by an instance. The lemmas behind them hold in the store contract's locales, so the
  bbolt store has them too (\<open>bolt_auth\<close>, \<open>bolt_users\<close>, \<open>bolt_userdata\<close>).
\<close>

section \<open>Concrete data\<close>

text \<open>A key derivation that meets \<open>argon2_ok\<close>.\<close>

definition refArgon :: argon2lib where
  "refArgon = \<lparr>argon2_Version = 19, IDKey = (\<lambda>pw salt t m p n. take n (pw @ salt @ replicate n NUL))\<rparr>"

lemma refArgon_ok: "argon2_ok refArgon"
  by (auto simp: argon2_ok_def refArgon_def min_def)

definition user0 :: User where
  "user0 = new_user ''u'' ''alice'' ''-'' False 1"

definition json_user0 :: jsonStore where
  "json_user0 = json0\<lparr>jUsers := [(''u'', user0)]\<rparr>"

lemma json_user0_inv: "json_inv json_user0"
  by (simp add: json_inv_def json_user0_def json0_def keyed_def map_wf_def user0_def new_user_def)

lemma json_user0_unique: "names_unique (json_abs json_user0)"
  by (simp add: names_unique_def json_user0_def json0_def)

lemma json_user0_get: "aUsers (json_abs json_user0) ''u'' = Some user0"
  by (simp add: json_user0_def json0_def)

lemma no_hash: "VerifyPassword A pw ''-'' = Inl ErrInvalidHash"
  by (simp add: VerifyPassword_def)

lemma fold_alice: "EqualFold ''alice'' ''Alice''"
  by code_simp

section \<open>Passwords\<close>

text \<open>C23. Passwords round-trip: whatever salt was drawn, a password verifies against the PHC string
  that hashing it produced; the parser of the string recovers the version, the three cost
  parameters, the salt and the digest that the printer wrote.\<close>

theorem password_roundtrip:
  assumes "argon2_ok A" "HashPassword A rnd password = Inr h"
  shows "VerifyPassword A password h = Inr True"
  using hash_verifies [OF assms(1), of _ password h password] assms(2)
  by (cases rnd) (auto simp: HashPassword_def)

lemma password_roundtrip_witness:
  "\<exists>h. HashPassword refArgon (Some ''0123456789abcdef'') ''secret-pw'' = Inr h \<and>
     VerifyPassword refArgon ''secret-pw'' h = Inr True"
proof -
  obtain h where "HashPassword refArgon (Some ''0123456789abcdef'') ''secret-pw'' = Inr h"
    by (simp add: HashPassword_def Let_def)
  with password_roundtrip [OF refArgon_ok this] show ?thesis by blast
qed

section \<open>Login\<close>

text \<open>C7. Account lockout: once an account has taken as many wrong attempts as the threshold asks
  for, in any order and with any wrong passwords, every further attempt before the lock runs
  out is refused as locked, also with the right password, and changes nothing. This holds even
  when none of the updates could be saved.\<close>

theorem account_lockout:
  assumes "json_inv s" "names_unique (json_abs s)" "aUsers (json_abs s) k = Some u" "EqualFold (uName u) name"
    and "uLockedUntil u = zeroTime" "0 \<le> uFailedLoginAttempts u" "as \<noteq> []"
    and "uFailedLoginAttempts u + int (length as) = lockoutThreshold sv"
    and "\<forall>(clk, pw) \<in> set as. \<not> verifyCredentials A (clk 1) u pw"
    and "s' = login_attempts sv A json_store name as s"
    and "fst (last as) 2 + lockoutDuration sv \<noteq> zeroTime" "clk' 0 < fst (last as) 2 + lockoutDuration sv"
  shows "Authenticate sv A json_store clk' name pw' s' = (Inl ErrAccountLocked, s')"
proof -
  let ?u = "u\<lparr>uFailedLoginAttempts := lockoutThreshold sv, uLockedUntil := fst (last as) 2 + lockoutDuration sv\<rparr>"
  have "json_inv s'" "names_unique (json_abs s')" "aUsers (json_abs s') k = Some ?u"
    using json_memory.login_attempts_lock [OF assms(1-9)] assms(10) by simp_all
  moreover have "EqualFold (uName ?u) name" "isLocked (clk' 0) ?u"
    using assms(4,11,12) by (simp_all add: isLocked_def IsZero_def Before_def)
  ultimately show ?thesis by (rule json_users.Authenticate_locked)
qed

lemma account_lockout_witness:
  "Authenticate \<lparr>lockoutThreshold = 2, lockoutDuration = 15 * Minute\<rparr> refArgon json_store (\<lambda>_. 40) ''Alice'' ''right''
     (login_attempts \<lparr>lockoutThreshold = 2, lockoutDuration = 15 * Minute\<rparr> refArgon json_store ''Alice''
        [(\<lambda>_. 20, ''x''), (\<lambda>_. 30, ''y'')] json_user0)
   = (Inl ErrAccountLocked, login_attempts \<lparr>lockoutThreshold = 2, lockoutDuration = 15 * Minute\<rparr> refArgon json_store
        ''Alice'' [(\<lambda>_. 20, ''x''), (\<lambda>_. 30, ''y'')] json_user0)"
  by (rule account_lockout [OF json_user0_inv json_user0_unique json_user0_get, of "''Alice''" "[(\<lambda>_. 20, ''x''), (\<lambda>_. 30, ''y'')]"])
    (simp_all add: user0_def new_user_def verifyCredentials_def no_hash time_defs fold_alice)

text \<open>C17. Two-factor login: an account with the second factor on logs in only with its password
  followed by six digits that are the code of its secret for the current 30-second window or
  one of its neighbours.\<close>

theorem two_factor_login:
  assumes "json_inv s" "Authenticate sv A json_store clk name pw s = (Inr u, s')" "uTOTPEnabled u"
  shows "\<exists>base code w. pw = base @ code \<and> length code = 6 \<and>
    VerifyPassword A base (uPasswordHash u) = Inr True \<and>
    w \<in> {-1, 0, 1} \<and> totpCode (uTOTPSecret u) (clk 1 + w * (30 * Second)) = Inr code"
proof -
  obtain u0 where u0: "verifyCredentials A (clk 1) u0 pw" "uTOTPEnabled u0"
    "uPasswordHash u0 = uPasswordHash u" "uTOTPSecret u0 = uTOTPSecret u"
    using json_users.Authenticate_sound [OF assms(1,2)] assms(3) by auto
  let ?base = "take (length pw - 6) pw" and ?code = "drop (length pw - 6) pw"
  have v: "length pw > 6" "allDigits ?code" "VerifyPassword A ?base (uPasswordHash u) = Inr True"
    "verifyTOTPAt (uTOTPSecret u) ?code (clk 1)"
    using u0 by (auto simp: verifyCredentials_def VerifyTOTP_def Let_def not_le split: if_splits)
  have "TrimSpace ?code = ?code" using v(2) by (intro TrimSpace_digits) (simp add: allDigits_def)
  with verifyTOTPAt_sound [OF v(4)] obtain w where "- totpSkew \<le> w" "w \<le> totpSkew"
    "totpCode (uTOTPSecret u) (clk 1 + w * totpPeriod) = Inr ?code" by auto
  moreover from this(1,2) have "w \<in> {-1, 0, 1}" by (auto simp: totpSkew_def)
  moreover have "pw = ?base @ ?code" "length ?code = 6" using v(1) by simp_all
  ultimately show ?thesis using v(3) unfolding totpPeriod_def by metis
qed

definition totp_secret0 :: string where "totp_secret0 = ''JBSWY3DPEHPK3PXP''"

definition totp_now :: time where "totp_now = 63900000000 * Second"

definition hash0 :: string where
  "hash0 = (case HashPassword refArgon (Some ''0123456789abcdef'') ''secret-pw'' of Inr h \<Rightarrow> h | Inl _ \<Rightarrow> [])"

definition code0 :: string where
  "code0 = (case totpCode totp_secret0 totp_now of Inr c \<Rightarrow> c | Inl _ \<Rightarrow> [])"

definition user2fa :: User where
  "user2fa = user0\<lparr>uPasswordHash := hash0, uTOTPEnabled := True, uTOTPSecret := totp_secret0,
     uRecoveryCodeHashes := [HashToken ''r1'', HashToken ''r2'']\<rparr>"

definition json_2fa :: jsonStore where
  "json_2fa = json0\<lparr>jUsers := [(''u'', user2fa)]\<rparr>"

lemma json_2fa_inv: "json_inv json_2fa"
  by (simp add: json_inv_def json_2fa_def json0_def keyed_def map_wf_def user2fa_def user0_def new_user_def)

lemma json_2fa_unique: "names_unique (json_abs json_2fa)"
  by (simp add: names_unique_def json_2fa_def json0_def)

lemma json_2fa_get: "aUsers (json_abs json_2fa) ''u'' = Some user2fa"
  by (simp add: json_2fa_def json0_def)

lemma hash0_ok: "HashPassword refArgon (Some ''0123456789abcdef'') ''secret-pw'' = Inr hash0"
  by (simp add: hash0_def HashPassword_def Let_def)

lemma hash0_verifies: "VerifyPassword refArgon ''secret-pw'' hash0 = Inr True"
  using hash_verifies [OF refArgon_ok hash0_ok, of "''secret-pw''"] by simp

lemma secret0_decodes: "base32_decode (ToUpper (TrimSpace totp_secret0)) \<noteq> None"
  by code_simp

lemma code0_ok: "totpCode totp_secret0 totp_now = Inr code0"
  using secret0_decodes by (auto simp: code0_def totpCode_def Let_def)

lemma json_2fa_login:
  "fst (Authenticate auth_New refArgon json_store (\<lambda>_. totp_now) ''alice'' (''secret-pw'' @ code0) json_2fa)
     = Inr (user2fa\<lparr>uFailedLoginAttempts := 0, uLockedUntil := zeroTime, uLastLoginAt := totp_now\<rparr>)"
proof (rule json_users.Authenticate_good [OF json_2fa_inv json_2fa_unique json_2fa_get])
  show "EqualFold (uName user2fa) ''alice''" by (simp add: user2fa_def user0_def new_user_def)
  show "\<not> isLocked totp_now user2fa" by (simp add: isLocked_def user2fa_def user0_def new_user_def IsZero_def)
  have "length code0 = 6" "allDigits code0" using totpCode_digits [OF code0_ok] by (simp_all add: totpDigits_def)
  moreover have "verifyTOTPAt totp_secret0 code0 totp_now"
    by (rule verifyTOTPAt_window [OF code0_ok, of _ 0]) (simp_all add: totpSkew_def)
  ultimately show "verifyCredentials refArgon totp_now user2fa (''secret-pw'' @ code0)"
    using hash0_verifies by (simp add: verifyCredentials_def user2fa_def VerifyTOTP_def)
qed

lemma two_factor_login_witness:
  "\<exists>base code w. ''secret-pw'' @ code0 = base @ code \<and> length code = 6 \<and>
    VerifyPassword refArgon base hash0 = Inr True \<and>
    w \<in> {-1, 0, 1} \<and> totpCode totp_secret0 (totp_now + w * (30 * Second)) = Inr code"
proof -
  obtain s' where "Authenticate auth_New refArgon json_store (\<lambda>_. totp_now) ''alice'' (''secret-pw'' @ code0) json_2fa
      = (Inr (user2fa\<lparr>uFailedLoginAttempts := 0, uLockedUntil := zeroTime, uLastLoginAt := totp_now\<rparr>), s')"
    using json_2fa_login by (metis prod.collapse)
  from two_factor_login [OF json_2fa_inv this] show ?thesis by (simp add: user2fa_def)
qed

text \<open>Failed logins do not tell accounts apart: whatever the name and the password, the only
  errors are the one for bad credentials and the one for a lock, and no error of the store
  reaches the caller; an unknown name gets the same error as a wrong password.\<close>

theorem login_errors_uniform:
  assumes "json_inv s" "fst (Authenticate sv A json_store clk name pw s) = Inl e"
  shows "e \<in> {ErrInvalidCredentials, ErrAccountLocked} \<and>
    ((\<forall>u \<in> ran (aUsers (json_abs s)). \<not> EqualFold (uName u) name) \<longrightarrow> e = ErrInvalidCredentials)"
proof -
  have "e = ErrInvalidCredentials" if "\<forall>u \<in> ran (aUsers (json_abs s)). \<not> EqualFold (uName u) name"
    by (rule json_users.GetUserByName_cases [OF assms(1), of name])
      (use that assms(2) in \<open>auto simp: Authenticate_def ran_def\<close>)
  with json_users.Authenticate_errors [OF assms] show ?thesis by blast
qed

lemma login_errors_uniform_witness:
  "fst (Authenticate auth_New refArgon json_store (\<lambda>_. 7) ''bob'' ''pw'' json_user0) = Inl ErrInvalidCredentials"
proof -
  have none: "GetUserByName json_store ''bob'' json_user0 = Inl ErrNotFound" by code_simp
  then have e: "fst (Authenticate auth_New refArgon json_store (\<lambda>_. 7) ''bob'' ''pw'' json_user0) = Inl ErrInvalidCredentials"
    by (simp add: Authenticate_def)
  have "\<forall>u \<in> ran (aUsers (json_abs json_user0)). \<not> EqualFold (uName u) ''bob''"
    using json_users.GetUserByName_ref [OF json_user0_inv, of "''bob''"] none by (simp add: search_ok_def)
  with login_errors_uniform [OF json_user0_inv e] e show ?thesis by blast
qed

section \<open>The first administrator\<close>

text \<open>The seeded administrator can log in: if \<open>SeedAdmin\<close> reports a new account, then logging
  in with the trimmed name and the given password, or the generated one when none was given,
  succeeds and yields an administrator; and seeding again creates nothing.\<close>

theorem seeded_admin_logs_in:
  assumes "json_inv s" "argon2_ok A"
    and "SeedAdmin A json_store draws (Some salt) idRnd now name pw s = (Inr (g, True), s')"
  shows "(\<exists>u. fst (Authenticate sv A json_store clk (TrimSpace name) (if pw = [] then g else pw) s') = Inr u \<and> uIsAdmin u) \<and>
    SeedAdmin A json_store draws' salt' idRnd' now' name' pw' s' = (Inr ([], False), s')"
  using json_users.SeedAdmin_login [OF assms] json_users.SeedAdmin_again [OF assms(1,3)] by blast

lemma seeded_admin_logs_in_witness:
  "\<exists>u. fst (Authenticate auth_New refArgon json_store (\<lambda>_. 9) ''admin'' ''secret-pw''
     (snd (SeedAdmin refArgon json_store (\<lambda>_. None) (Some ''0123456789abcdef'') (Some ''0123456789abcdef'') 5
        '' admin '' ''secret-pw'' json0))) = Inr u \<and> uIsAdmin u"
proof -
  let ?r = "SeedAdmin refArgon json_store (\<lambda>_. None) (Some ''0123456789abcdef'') (Some ''0123456789abcdef'') 5 '' admin '' ''secret-pw'' json0"
  have trim: "TrimSpace '' admin '' = ''admin''" by code_simp
  have "fst ?r = Inr ([], True)"
    by (simp add: SeedAdmin_def json_CountUsers_def auth_CreateUser_def trim HashPassword_def NewID_def randomHex_def
        json_CreateUser_def flushLocked_def json0_def map_vals_def Let_def)
  then have "?r = (Inr ([], True), snd ?r)" by (metis prod.collapse)
  from seeded_admin_logs_in [OF json0_inv refArgon_ok this, of auth_New "\<lambda>_. 9", THEN conjunct1]
  show ?thesis by (simp add: trim)
qed

end
