(* ===== verification/AccountProps.thy ===== *)
theory AccountProps
  imports AuthProps
begin

text \<open>
  The properties of sessions, of two-factor enrollment and recovery, and of per-user item data
  over the JSON store, each followed by an instance.
\<close>

section \<open>Sessions\<close>



section \<open>Two-factor enrollment and recovery\<close>

text \<open>C16. Recovery codes work once: a successful recovery took the account's password and one of
  its recovery codes, and turns the second factor off and forgets every code, so no further
  recovery of that account succeeds, with the same code or any other.\<close>

theorem recovery_code_once:
  assumes "json_inv s" "names_unique (json_abs s)" "RecoverTOTP sv A json_store clk name pw code s = (None, s')"
  shows "(\<exists>u. aUsers (json_abs s) (uID u) = Some u \<and> EqualFold (uName u) name \<and>
      VerifyPassword A pw (uPasswordHash u) = Inr True \<and> HashToken code \<in> set (uRecoveryCodeHashes u) \<and>
      aUsers (json_abs s') (uID u) = Some ((clearTOTP u)\<lparr>uFailedLoginAttempts := 0\<rparr>)) \<and>
    fst (RecoverTOTP sv A json_store clk' name pw' code' s') \<noteq> None"
proof -
  obtain u where u: "aUsers (json_abs s) (uID u) = Some u" "EqualFold (uName u) name"
    "VerifyPassword A pw (uPasswordHash u) = Inr True" "HashToken code \<in> set (uRecoveryCodeHashes u)" "json_inv s'"
    "json_abs s' = (json_abs s)\<lparr>aUsers := (aUsers (json_abs s))(uID u \<mapsto> (clearTOTP u)\<lparr>uFailedLoginAttempts := 0\<rparr>)\<rparr>"
    using json_users.RecoverTOTP_ok [OF assms(1,3)] by blast
  let ?u = "(clearTOTP u)\<lparr>uFailedLoginAttempts := 0\<rparr>"
  have "names_unique (json_abs s')"
    unfolding u(6) by (rule names_unique_update [OF assms(2) u(1) _ json_users.user_key [OF assms(1)]])
      (simp add: clearTOTP_def)
  moreover have "aUsers (json_abs s') (uID u) = Some ?u" unfolding u(6) by simp
  moreover have "EqualFold (uName ?u) name" using u(2) by (simp add: clearTOTP_def)
  ultimately have "GetUserByName json_store name s' = Inr ?u" by (rule json_users.GetUserByName_found [OF u(5)])
  then have "fst (RecoverTOTP sv A json_store clk' name pw' code' s') \<noteq> None"
    by (simp add: RecoverTOTP_def clearTOTP_def)
  with u show ?thesis by auto
qed

lemma recovery_code_once_witness:
  "\<exists>s'. RecoverTOTP auth_New refArgon json_store (\<lambda>_. 9) ''alice'' ''secret-pw'' ''r1'' json_2fa = (None, s') \<and>
     fst (RecoverTOTP auth_New refArgon json_store (\<lambda>_. 9) ''alice'' ''secret-pw'' ''r2'' s') \<noteq> None"
proof -
  let ?r = "RecoverTOTP auth_New refArgon json_store (\<lambda>_. 9) ''alice'' ''secret-pw'' ''r1'' json_2fa"
  have "EqualFold (uName user2fa) ''alice''" by (simp add: user2fa_def user0_def new_user_def)
  from json_users.GetUserByName_found [OF json_2fa_inv json_2fa_unique json_2fa_get this]
  have get: "GetUserByName json_store ''alice'' json_2fa = Inr user2fa" .
  have c: "consumeRecoveryCode user2fa ''r1'' = (True, user2fa\<lparr>uRecoveryCodeHashes := [HashToken ''r2'']\<rparr>)"
    by (simp add: consumeRecoveryCode_def user2fa_def ConstantTimeEqual_def)
  have "fst ?r = None"
    using get c hash0_verifies
    by (simp add: RecoverTOTP_def isLocked_def IsZero_def user2fa_def user0_def new_user_def clearTOTP_def
        json_UpdateUser_def json_2fa_def json0_def flushLocked_def Let_def)
  then have "?r = (None, snd ?r)" by (metis prod.collapse)
  with recovery_code_once [OF json_2fa_inv json_2fa_unique this] show ?thesis by blast
qed

text \<open>Activation: \<open>ActivateTOTP\<close> hands out recovery codes only when a secret was pending and the
  code given is valid for it; it makes exactly that secret the account's second factor, stores
  the hashes of the ten codes, and each code handed out would then be accepted.\<close>

theorem activation_confirms_secret:
  assumes "json_inv s" "ActivateTOTP json_store rnd now k code s = (Inr codes, s')"
  shows "\<exists>u u'. aUsers (json_abs s) k = Some u \<and> \<not> uTOTPEnabled u \<and> uPendingTOTPSecret u \<noteq> [] \<and>
    VerifyTOTP now (uPendingTOTPSecret u) code \<and>
    aUsers (json_abs s') k = Some u' \<and> uTOTPEnabled u' \<and> uTOTPSecret u' = uPendingTOTPSecret u \<and>
    uPendingTOTPSecret u' = [] \<and> length codes = 10 \<and>
    (\<forall>c \<in> set codes. c \<noteq> [] \<longrightarrow> fst (consumeRecoveryCode u' c))"
  using json_users.ActivateTOTP_ok [OF assms]
  by (force simp: consume_iff recoveryCodeCount_def)

definition user_pending :: User where
  "user_pending = user0\<lparr>uPendingTOTPSecret := totp_secret0\<rparr>"

definition json_pending :: jsonStore where
  "json_pending = json0\<lparr>jUsers := [(''u'', user_pending)]\<rparr>"

lemma json_pending_inv: "json_inv json_pending"
  by (simp add: json_inv_def json_pending_def json0_def keyed_def map_wf_def user_pending_def user0_def new_user_def)

lemma activation_confirms_secret_witness:
  "\<exists>codes s' u'. ActivateTOTP json_store (\<lambda>n. Some ''abcde'') totp_now ''u'' code0 json_pending = (Inr codes, s') \<and>
     aUsers (json_abs s') ''u'' = Some u' \<and> uTOTPSecret u' = totp_secret0"
proof -
  have valid: "VerifyTOTP totp_now totp_secret0 code0"
    unfolding VerifyTOTP_def by (rule verifyTOTPAt_window [OF code0_ok, of _ 0]) (simp_all add: totpSkew_def)
  have "\<exists>p. NewRecoveryCodes n (\<lambda>_. Some ''abcde'') = Inr p" for n
  proof (induction n)
    case (Suc n)
    then obtain a b where "NewRecoveryCodes n (\<lambda>_. Some ''abcde'') = Inr (a, b)" by auto
    then show ?case by (simp add: randomHex_def)
  qed simp
  then obtain codes hashes where c: "NewRecoveryCodes recoveryCodeCount (\<lambda>_. Some ''abcde'') = Inr (codes, hashes)"
    by (metis surj_pair)
  have get: "GetUserByID json_store ''u'' json_pending = Inr user_pending" by code_simp
  have "totp_secret0 \<noteq> []" by (simp add: totp_secret0_def)
  then have "\<exists>s'. ActivateTOTP json_store (\<lambda>n. Some ''abcde'') totp_now ''u'' code0 json_pending = (Inr codes, s')"
    unfolding ActivateTOTP_def get
    using valid c by (simp add: user_pending_def user0_def new_user_def json_UpdateUser_def json_pending_def
        json0_def flushLocked_def Let_def)
  then obtain s' where run: "ActivateTOTP json_store (\<lambda>n. Some ''abcde'') totp_now ''u'' code0 json_pending = (Inr codes, s')" ..
  from activation_confirms_secret [OF json_pending_inv this] run show ?thesis
    by (auto simp: json_pending_def json0_def user_pending_def)
qed

text \<open>Clock drift: a code computed for an instant up to 30 seconds before or after is accepted,
  and whatever is accepted is the code of the current window or a neighbour.\<close>

theorem totp_window:
  assumes "totpCode secret (now + w * (30 * Second)) = Inr code"
  shows "(w \<in> {-1, 0, 1} \<longrightarrow> verifyTOTPAt secret code now) \<and>
    (verifyTOTPAt secret code now \<longrightarrow>
       (\<exists>v \<in> {-1, 0, 1}. totpCode secret (now + v * (30 * Second)) = Inr code))"
proof -
  have "TrimSpace code = code"
    using totpCode_digits [OF assms] by (intro TrimSpace_digits) (simp add: allDigits_def)
  moreover have "verifyTOTPAt secret code now" if "w \<in> {-1, 0, 1}"
    by (rule verifyTOTPAt_window [OF assms, of now w]) (use that in \<open>auto simp: totpPeriod_def totpSkew_def\<close>)
  moreover have "v \<in> {-1, 0, 1}" if "- totpSkew \<le> v" "v \<le> totpSkew" for v
    using that by (auto simp: totpSkew_def)
  ultimately show ?thesis using verifyTOTPAt_sound [of secret code now] unfolding totpPeriod_def by metis
qed

lemma totp_window_witness: "verifyTOTPAt totp_secret0 code0 (totp_now + 30 * Second)"
proof -
  have "totpCode totp_secret0 (totp_now + 30 * Second + (-1) * (30 * Second)) = Inr code0"
    using code0_ok by simp
  from totp_window [OF this] show ?thesis by simp
qed

section \<open>Playback state\<close>

text \<open>A progress report moves one mark: it stores the position, never a negative one, and leaves
  the played, favorite and count marks of the pair alone, and the data of every other user and
  item.\<close>

theorem report_position_isolated:
  assumes "json_inv s" "no_nul u" "no_nul i" "no_nul (dUserID (ud_Get json_store u i s))"
    and "ReportPosition json_store now u i ticks s = (None, s')"
  shows "ud_Get json_store u i s' = (ud_Get json_store u i s)\<lparr>dPlaybackPositionTicks := max 0 ticks, dLastPlayedAt := now\<rparr> \<and>
    (\<forall>u' i'. no_nul u' \<longrightarrow> (u', i') \<noteq> (u, i) \<longrightarrow> ud_Get json_store u' i' s' = ud_Get json_store u' i' s)"
proof -
  let ?d = "(ud_Get json_store u i s)\<lparr>dPlaybackPositionTicks := max 0 ticks, dLastPlayedAt := now\<rparr>"
  note get = json_userdata.ud_Get_pair
  have key: "dUserID ?d = u" "dItemID ?d = i"
    using json_userdata.pair_data_key [OF assms(1,2), of i] assms(4) by (simp_all add: get [OF assms(1)])
  have "UpsertUserItemData json_store ?d s = (None, s')"
    using assms(5) by (simp add: ReportPosition_def Let_def max_def split: if_splits)
  from json_userdata.upsert_pair [OF assms(1) _ _ this] key assms(2,3)
  have "json_inv s'" "pair_data (json_abs s') u i = ?d"
    "\<forall>u' i'. no_nul u' \<longrightarrow> (u', i') \<noteq> (u, i) \<longrightarrow> pair_data (json_abs s') u' i' = pair_data (json_abs s) u' i'"
    by simp_all
  then show ?thesis using get [OF assms(1)] get [of s'] by simp
qed

lemma report_position_isolated_witness:
  "dPlaybackPositionTicks (ud_Get json_store ''u'' ''i'' (snd (ReportPosition json_store 7 ''u'' ''i'' (-5) json0))) = 0"
proof -
  have g: "ud_Get json_store ''u'' ''i'' json0 = zeroItemData ''u'' ''i''" by code_simp
  have "fst (ReportPosition json_store 7 ''u'' ''i'' (-5) json0) = None" by code_simp
  then have "ReportPosition json_store 7 ''u'' ''i'' (-5) json0 = (None, snd (ReportPosition json_store 7 ''u'' ''i'' (-5) json0))"
    by (metis prod.collapse)
  from report_position_isolated [OF json0_inv _ _ _ this] show ?thesis
    by (simp add: g zeroItemData_def no_nul_def NUL_def)
qed

text \<open>The continue-watching list: it holds exactly the user's items with a resume position that
  are not watched, most recently played first.\<close>

theorem resumable_exact:
  assumes "json_inv s"
  shows "\<exists>ds. Resumable json_store u s = map dItemID ds \<and>
    set ds = {d. \<exists>k. aUserData (json_abs s) k = Some d \<and> dUserID d = u \<and>
      dPlaybackPositionTicks d > 0 \<and> \<not> dPlayed d} \<and>
    sorted_wrt (\<lambda>a b. dLastPlayedAt a \<ge> dLastPlayedAt b) ds"
  using json_userdata.Resumable_ok [OF assms, of u] unfolding in_progress_def .

lemma resumable_exact_witness: "\<exists>ds. Resumable json_store ''u'' json0 = map dItemID ds \<and> set ds = {}"
  using resumable_exact [OF json0_inv, of "''u''"] by (auto simp: json0_def)

end
