(* ===== verification/Paths.thy ===== *)
theory Paths
  imports Prelude
begin

text \<open>
  The functions of \<open>path/filepath\<close> the code uses, for Unix paths: \<open>Clean\<close>, \<open>Join\<close>, \<open>IsAbs\<close>,
  \<open>Rel\<close>, \<open>Base\<close>, \<open>Ext\<close>. A path is cleaned by walking its elements with a stack, as the
  library does in place. The main fact is \<open>Rel_contained\<close>: a target whose relative path does
  not climb lies below the base, element by element.
\<close>

definition slash :: char where "slash = CHR ''/''"
definition dot :: string where "dot = ''.''"
definition dotdot :: string where "dotdot = ''..''"

definition IsAbs :: "string \<Rightarrow> bool" where
  "IsAbs p \<longleftrightarrow> HasPrefix p ''/''"

definition clean_step :: "bool \<Rightarrow> string \<Rightarrow> string list \<Rightarrow> string list" where
  "clean_step rooted c out =
     (if c = [] \<or> c = dot then out
      else if c = dotdot then
        (if out \<noteq> [] \<and> last out \<noteq> dotdot then butlast out
         else if rooted then out else out @ [dotdot])
      else out @ [c])"

text \<open>The elements of a cleaned path.\<close>

definition elements :: "string \<Rightarrow> string list" where
  "elements p = fold (clean_step (IsAbs p)) (Split p slash) []"

definition Clean :: "string \<Rightarrow> string" where
  "Clean p = (let body = Join (elements p) ''/'' in
     if IsAbs p then slash # body else if body = [] then dot else body)"

text \<open>\<open>filepath.Join\<close>.\<close>

definition JoinPath :: "string list \<Rightarrow> string" where
  "JoinPath ps = (let qs = filter (\<lambda>p. p \<noteq> []) ps in if qs = [] then [] else Clean (Join qs ''/''))"

fun strip_common :: "string list \<Rightarrow> string list \<Rightarrow> string list \<times> string list" where
  "strip_common (b # bs) (t # ts) = (if b = t then strip_common bs ts else (b # bs, t # ts))"
| "strip_common bs ts = (bs, ts)"

text \<open>The elements of a relative target: a cleaned \<open>"."\<close> is one element.\<close>

definition target_elements :: "string \<Rightarrow> string list" where
  "target_elements p = (if \<not> IsAbs p \<and> elements p = [] then [dot] else elements p)"

definition Rel :: "string \<Rightarrow> string \<Rightarrow> string option" where
  "Rel base targ =
     (if Clean base = Clean targ then Some dot
      else if IsAbs base \<noteq> IsAbs targ then None
      else case strip_common (elements base) (target_elements targ) of
        (bs, ts) \<Rightarrow>
          if bs \<noteq> [] \<and> hd bs = dotdot then None
          else Some (Join (replicate (length bs) dotdot @ ts) ''/''))"

text \<open>\<open>filepath.Base\<close> and \<open>filepath.Ext\<close>.\<close>

definition Base :: "string \<Rightarrow> string" where
  "Base p = (if p = [] then dot
     else let q = rev (dropWhile (\<lambda>c. c = slash) (rev p)) in
       if q = [] then ''/'' else rev (takeWhile (\<lambda>c. c \<noteq> slash) (rev q)))"

definition Ext :: "string \<Rightarrow> string" where
  "Ext p = (let tl = rev (takeWhile (\<lambda>c. c \<noteq> slash) (rev p)) in
     if CHR ''.'' \<in> set tl then CHR ''.'' # rev (takeWhile (\<lambda>c. c \<noteq> CHR ''.'') (rev tl)) else [])"

section \<open>Elements of a cleaned path\<close>

text \<open>Climbing elements come first, and a rooted path has none.\<close>

definition clean_form :: "bool \<Rightarrow> string list \<Rightarrow> bool" where
  "clean_form rooted es \<longleftrightarrow> (\<exists>n cs. es = replicate n dotdot @ cs \<and> dotdot \<notin> set cs \<and> (rooted \<longrightarrow> n = 0))
     \<and> (\<forall>e \<in> set es. e \<noteq> [] \<and> e \<noteq> dot \<and> slash \<notin> set e)"

lemma dots_distinct [simp]: "dot \<noteq> dotdot" "dotdot \<noteq> dot" "dot \<noteq> []" "dotdot \<noteq> []" "slash \<notin> set dotdot" "slash \<notin> set dot"
  by (simp_all add: dot_def dotdot_def slash_def)

lemma Split_elements: "c \<in> set (Split s sep) \<Longrightarrow> sep \<notin> set c"
  by (induction s arbitrary: c) (auto split: list.splits if_splits)

lemma clean_step_form:
  assumes "clean_form rooted out" "slash \<notin> set c"
  shows "clean_form rooted (clean_step rooted c out)"
proof -
  obtain n cs where out: "out = replicate n dotdot @ cs" "dotdot \<notin> set cs" "rooted \<longrightarrow> n = 0"
    and ok: "\<forall>e \<in> set out. e \<noteq> [] \<and> e \<noteq> dot \<and> slash \<notin> set e"
    using assms(1) unfolding clean_form_def by blast
  consider "c = [] \<or> c = dot" | "c = dotdot" "cs \<noteq> []" | "c = dotdot" "cs = []"
    | "c \<noteq> []" "c \<noteq> dot" "c \<noteq> dotdot" by blast
  then show ?thesis
  proof cases
    case 1
    then show ?thesis using assms(1) by (auto simp: clean_step_def)
  next
    case 2
    then have "last out \<noteq> dotdot" using out(1,2) by (metis last_append last_in_set)
    then have "clean_step rooted c out = replicate n dotdot @ butlast cs"
      using 2 out(1) by (simp add: clean_step_def butlast_append)
    moreover have "dotdot \<notin> set (butlast cs)" using out(2) in_set_butlastD by fastforce
    moreover have "\<forall>e \<in> set (replicate n dotdot @ butlast cs). e \<noteq> [] \<and> e \<noteq> dot \<and> slash \<notin> set e"
      using ok out(1) in_set_butlastD by fastforce
    ultimately show ?thesis using out(3) unfolding clean_form_def by metis
  next
    case 3
    show ?thesis
    proof (cases rooted)
      case True
      with 3 out assms(1) show ?thesis by (simp add: clean_step_def)
    next
      case False
      have "last out = dotdot" if "out \<noteq> []" using that 3(2) out(1) by (cases n) auto
      then have "clean_step rooted c out = replicate (Suc n) dotdot @ []"
        using 3 False out(1) by (auto simp: clean_step_def replicate_append_same)
      then show ?thesis using False ok out(1) unfolding clean_form_def
        by (metis append_Nil2 dots_distinct(2,4,5) empty_iff empty_set in_set_replicate)
    qed
  next
    case 4
    then have "clean_step rooted c out = replicate n dotdot @ (cs @ [c])"
      by (simp add: clean_step_def out(1))
    moreover have "dotdot \<notin> set (cs @ [c])" using 4 out(2) by auto
    moreover have "\<forall>e \<in> set (replicate n dotdot @ (cs @ [c])). e \<noteq> [] \<and> e \<noteq> dot \<and> slash \<notin> set e"
      using ok out(1) 4 assms(2) by auto
    ultimately show ?thesis using out(3) unfolding clean_form_def by metis
  qed
qed

lemma fold_clean_form:
  "clean_form rooted out \<Longrightarrow> \<forall>c \<in> set cs. slash \<notin> set c \<Longrightarrow> clean_form rooted (fold (clean_step rooted) cs out)"
  by (induction cs arbitrary: out) (simp_all add: clean_step_form)

lemma elements_form: "clean_form (IsAbs p) (elements p)"
  unfolding elements_def by (rule fold_clean_form) (auto simp: clean_form_def dest: Split_elements)

lemma elements_no_climb: "IsAbs p \<Longrightarrow> dotdot \<notin> set (elements p)"
  using elements_form [of p] by (auto simp: clean_form_def)

section \<open>Relative paths that do not climb\<close>

lemma strip_common_split:
  "strip_common bs ts = (bs', ts') \<Longrightarrow> \<exists>c. bs = c @ bs' \<and> ts = c @ ts'"
proof (induction bs ts rule: strip_common.induct)
  case (1 b bs t ts)
  then show ?case by (auto split: if_splits)
qed auto

definition climbs :: "string \<Rightarrow> bool" where
  "climbs rel \<longleftrightarrow> rel = dotdot \<or> HasPrefix rel (dotdot @ ''/'')"

lemma Join_Cons: "es \<noteq> [] \<Longrightarrow> Join (e # es) sep = e @ sep @ Join es sep"
  by (cases es) auto

lemma climbs_Join: "climbs (Join (dotdot # es) ''/'')"
  by (cases "es = []") (auto simp: climbs_def Join_Cons HasPrefix_def dotdot_def)

lemma Split_Join_sep: "es \<noteq> [] \<Longrightarrow> \<forall>e \<in> set es. sep \<notin> set e \<Longrightarrow> Split (Join es [sep]) sep = es"
proof (induction es rule: list_nonempty_induct)
  case (single e)
  then show ?case by (simp add: Split_no_sep)
next
  case (cons e es)
  then show ?case by (simp add: Join_Cons Split_append)
qed

lemma Split_Join: "es \<noteq> [] \<Longrightarrow> \<forall>e \<in> set es. slash \<notin> set e \<Longrightarrow> Split (Join es ''/'') slash = es"
  using Split_Join_sep [of es slash] by (simp add: slash_def)

lemma Clean_eq_elements: "Clean a = Clean b \<Longrightarrow> IsAbs a = IsAbs b \<Longrightarrow> elements a = elements b"
proof -
  assume eq: "Clean a = Clean b" "IsAbs a = IsAbs b"
  have inj: "Join es ''/'' = Join fs ''/'' \<Longrightarrow> es = fs"
    if "\<forall>e \<in> set es. e \<noteq> [] \<and> e \<noteq> dot \<and> slash \<notin> set e" "\<forall>e \<in> set fs. e \<noteq> [] \<and> e \<noteq> dot \<and> slash \<notin> set e" for es fs
  proof -
    have sp: "Split (Join gs ''/'') slash = (if gs = [] then [[]] else gs)"
      if "\<forall>e \<in> set gs. e \<noteq> [] \<and> e \<noteq> dot \<and> slash \<notin> set e" for gs
      using Split_Join [of gs] that by auto
    assume "Join es ''/'' = Join fs ''/''"
    then have "(if es = [] then [[]] else es) = (if fs = [] then [[]] else fs)"
      using sp [OF that(1)] sp [OF that(2)] by metis
    with that show "es = fs" by (auto split: if_splits)
  qed
  have ok: "\<forall>e \<in> set (elements p). e \<noteq> [] \<and> e \<noteq> dot \<and> slash \<notin> set e" for p
    using elements_form [of p] by (simp add: clean_form_def)
  have notdot: "Join (elements p) ''/'' \<noteq> dot" for p
  proof (cases "elements p")
    case (Cons e es)
    with ok [of p] show ?thesis
      by (cases "es = []") (auto simp: Join_Cons dot_def append_eq_Cons_conv)
  qed (simp add: dot_def)
  from eq have "Join (elements a) ''/'' = Join (elements b) ''/''"
    using notdot [of a] notdot [of b] by (auto simp: Clean_def Let_def split: if_splits)
  then show ?thesis by (rule inj [OF ok ok])
qed

theorem Rel_contained:
  assumes "Rel base targ = Some rel" "\<not> climbs rel" "IsAbs base"
  shows "IsAbs targ \<and> (\<exists>rest. elements targ = elements base @ rest \<and> dotdot \<notin> set rest)"
proof (cases "Clean base = Clean targ")
  case True
  have "IsAbs targ"
  proof (rule ccontr)
    assume "\<not> IsAbs targ"
    with True assms(3) have "Clean targ = slash # Join (elements base) ''/''" by (simp add: Clean_def Let_def)
    moreover have "Clean targ = (if Join (elements targ) ''/'' = [] then dot else Join (elements targ) ''/'')"
      using \<open>\<not> IsAbs targ\<close> by (simp add: Clean_def Let_def)
    ultimately have "Join (elements targ) ''/'' = slash # Join (elements base) ''/''"
      by (auto simp: dot_def slash_def split: if_splits)
    moreover have "\<forall>e \<in> set (elements targ). e \<noteq> [] \<and> slash \<notin> set e"
      using elements_form [of targ] by (simp add: clean_form_def)
    ultimately show False
      by (cases "elements targ"; cases "tl (elements targ) = []") (auto simp: Join_Cons append_eq_Cons_conv)
  qed
  with Clean_eq_elements [OF True] assms(3) show ?thesis by simp
next
  case False
  with assms(1) have abs: "IsAbs targ = IsAbs base" by (auto simp: Rel_def split: if_splits)
  obtain bs ts where st: "strip_common (elements base) (target_elements targ) = (bs, ts)"
    by (cases "strip_common (elements base) (target_elements targ)")
  have te: "target_elements targ = elements targ" using abs assms(3) by (simp add: target_elements_def)
  have rel: "rel = Join (replicate (length bs) dotdot @ ts) ''/''"
    using assms(1) False abs st by (auto simp: Rel_def split: if_splits)
  have "bs = []"
  proof (cases bs)
    case (Cons b bs')
    then have "climbs rel" unfolding rel using climbs_Join by simp
    with assms(2) show ?thesis by simp
  qed simp
  with strip_common_split [OF st] te have "elements targ = elements base @ ts" by auto
  moreover have "dotdot \<notin> set (elements targ)" using elements_no_climb abs assms(3) by simp
  ultimately show ?thesis using abs assms(3) by auto
qed

section \<open>Joining\<close>

text \<open>An element that stays as it is.\<close>

definition plain :: "string \<Rightarrow> bool" where
  "plain e \<longleftrightarrow> e \<noteq> [] \<and> e \<noteq> dot \<and> e \<noteq> dotdot \<and> slash \<notin> set e"

lemma Split_snoc: "Split (s @ sep # t) sep = Split s sep @ Split t sep"
  by (induction s) (auto split: list.splits)

lemma fold_plain: "\<forall>e \<in> set es. plain e \<Longrightarrow> fold (clean_step rooted) es out = out @ es"
  by (induction es arbitrary: out) (auto simp: plain_def clean_step_def)

lemma elements_plain: "IsAbs p \<Longrightarrow> \<forall>e \<in> set (elements p). plain e"
  using elements_form [of p] elements_no_climb [of p] by (auto simp: clean_form_def plain_def)

lemma IsAbs_Cons: "IsAbs (c # p) \<longleftrightarrow> c = slash"
  by (simp add: IsAbs_def HasPrefix_def slash_def)

lemma elements_Clean: "IsAbs p \<Longrightarrow> elements (Clean p) = elements p \<and> IsAbs (Clean p)"
proof -
  assume abs: "IsAbs p"
  let ?es = "elements p"
  have c: "Clean p = slash # Join ?es ''/''" using abs by (simp add: Clean_def Let_def)
  have pl: "\<forall>e \<in> set ?es. plain e" by (rule elements_plain [OF abs])
  then have ns: "\<forall>e \<in> set ?es. slash \<notin> set e" by (simp add: plain_def)
  have "fold (clean_step True) (Split (slash # Join ?es ''/'') slash) [] = ?es"
  proof (cases "?es = []")
    case True
    then show ?thesis by (simp add: clean_step_def)
  next
    case False
    with Split_Join [OF False ns] fold_plain [OF pl, of True "[]"] show ?thesis by (simp add: clean_step_def)
  qed
  then show ?thesis unfolding c by (simp add: elements_def [of "slash # _"] IsAbs_Cons)
qed

lemma JoinPath_elements:
  assumes "IsAbs base" "plain e"
  shows "elements (JoinPath [base, e]) = elements base @ [e] \<and> IsAbs (JoinPath [base, e])"
proof -
  have ne: "base \<noteq> []" "e \<noteq> []" using assms by (auto simp: IsAbs_def HasPrefix_def plain_def)
  let ?p = "base @ slash # e"
  have j: "JoinPath [base, e] = Clean ?p" using ne by (simp add: JoinPath_def Let_def slash_def)
  have a: "IsAbs ?p" using assms(1) ne by (cases base) (simp_all add: IsAbs_Cons)
  have "elements ?p = fold (clean_step (IsAbs base)) (Split base slash @ [e]) []"
    using a assms by (simp add: elements_def Split_snoc plain_def Split_no_sep)
  then have "elements ?p = elements base @ [e]"
    using assms(2) by (simp add: elements_def clean_step_def plain_def)
  with elements_Clean [OF a] show ?thesis by (simp add: j)
qed

end
