(* ===== verification/Dvr.thy ===== *)
theory Dvr
  imports StoreOps Security Paths
begin

text \<open>
  Package \<open>internal/dvr\<close>: the recorder that turns timers into captures. Its state is the store,
  the map of active captures, the running ffmpeg processes, and the contexts that were
  cancelled. What the outside decides is in \<open>dvrEnv\<close>: the stream address of a channel, whether
  a capture process starts, the size of a file. Readings of the clock and of the random source
  are arguments. Each method is one step; \<open>finalize\<close> is the step of a process that exits.
\<close>

record Airing =
  aiProgramID :: string
  aiChannelID :: string
  aiChannelName :: string
  aiTitle :: string
  aiStart :: time
  aiStop :: time

record dvrEnv =
  deDir :: string
  deStreamURL :: "string \<Rightarrow> string option"
  deCmdStart :: "string \<Rightarrow> bool"
  deStat :: "string \<Rightarrow> int option"

record 's dvr =
  dvStore :: 's
  dvActive :: "string list"
  dvProcs :: "(string \<times> string list) list"
  dvCancelled :: "string list"
  dvStopped :: bool

text \<open>\<open>New\<close>: \<open>lookPath\<close> is what \<open>exec.LookPath\<close> finds.\<close>

definition dvr_New :: "(string \<Rightarrow> string option) \<Rightarrow> bool \<Rightarrow> string \<Rightarrow> 's \<Rightarrow> 's dvr option" where
  "dvr_New lookPath mkdirOk ffmpegPath s =
     (let bin = (if ffmpegPath = [] then (case lookPath ''ffmpeg'' of None \<Rightarrow> [] | Some p \<Rightarrow> p)
                 else if lookPath ffmpegPath = None then [] else ffmpegPath)
      in if bin = [] then None
         else if \<not> mkdirOk then None
         else Some \<lparr>dvStore = s, dvActive = [], dvProcs = [], dvCancelled = [], dvStopped = False\<rparr>)"

section \<open>Titles\<close>

definition title_char :: "char \<Rightarrow> bool" where
  "title_char c \<longleftrightarrow> (CHR ''a'' \<le> c \<and> c \<le> CHR ''z'') \<or> is_digit c"

fun normalize_loop :: "bool \<Rightarrow> string \<Rightarrow> string" where
  "normalize_loop prevSpace [] = []"
| "normalize_loop prevSpace (c # cs) =
     (if title_char c then c # normalize_loop False cs
      else if \<not> prevSpace then CHR '' '' # normalize_loop True cs
      else normalize_loop prevSpace cs)"

definition normalizeTitle :: "string \<Rightarrow> string" where
  "normalizeTitle s =
     (let out = normalize_loop True (ToLower s)
      in if out \<noteq> [] \<and> last out = CHR '' '' then butlast out else out)"

definition titleMatches :: "string \<Rightarrow> string \<Rightarrow> bool" where
  "titleMatches airing series =
     (if series = [] \<or> airing = [] then False
      else if airing = series then True
      else HasPrefix airing (series @ '' ''))"

section \<open>Captures\<close>

text \<open>\<open>int(duration.Seconds())\<close> of a duration is its whole seconds; one below a second, negative
  ones too, becomes one second.\<close>

definition captureArgs :: "string \<Rightarrow> string \<Rightarrow> duration \<Rightarrow> string list" where
  "captureArgs input path dur =
     (let secs = dur div Second; secs = (if secs < 1 then 1 else secs)
      in [''-nostdin'', ''-y'', ''-i'', input, ''-t'', Itoa secs, ''-c'', ''copy'', ''-f'', ''mpegts'', path])"

definition put_status :: "'s Store \<Rightarrow> Recording \<Rightarrow> 's dvr \<Rightarrow> 's dvr" where
  "put_status S rec r = r\<lparr>dvStore := snd (UpdateRecording S rec (dvStore r))\<rparr>"

text \<open>\<open>maybeStart\<close> changes the record it is given and the recorder; \<open>now\<close> is its first reading of
  the clock and \<open>later\<close> the one behind \<open>time.Until\<close>.\<close>

definition maybeStart :: "dvrEnv \<Rightarrow> 's Store \<Rightarrow> time \<Rightarrow> time \<Rightarrow> Recording \<Rightarrow> 's dvr \<Rightarrow> Recording \<times> 's dvr" where
  "maybeStart env S now later rec r =
     (if After (rStartAt rec) now \<or> \<not> After (rEndAt rec) now then (rec, r)
      else if rID rec \<in> set (dvActive r) then (rec, r)
      else case deStreamURL env (rChannelID rec) of
        None \<Rightarrow> let rec1 = rec\<lparr>rStatus := RecFailed\<rparr> in (rec1, put_status S rec1 r)
      | Some upstream \<Rightarrow>
          let path = JoinPath [deDir env, rID rec @ ''.ts''];
              dur = rEndAt rec - later;
              r1 = r\<lparr>dvActive := dvActive r @ [rID rec]\<rparr>;
              rec1 = rec\<lparr>rPath := path, rStatus := RecRecording\<rparr>;
              r2 = put_status S rec1 r1
          in if deCmdStart env (rID rec)
             then (rec1, r2\<lparr>dvProcs := dvProcs r2 @ [(rID rec, captureArgs upstream path dur)]\<rparr>)
             else let r3 = r2\<lparr>dvActive := filter (\<lambda>k. k \<noteq> rID rec) (dvActive r2)\<rparr>;
                      rec2 = rec1\<lparr>rStatus := RecFailed\<rparr>
                  in (rec2, put_status S rec2 r3))"

definition finalize :: "dvrEnv \<Rightarrow> 's Store \<Rightarrow> string \<Rightarrow> 's dvr \<Rightarrow> 's dvr" where
  "finalize env S k r =
     (let r1 = r\<lparr>dvActive := filter (\<lambda>j. j \<noteq> k) (dvActive r),
                 dvProcs := filter (\<lambda>(j, _). j \<noteq> k) (dvProcs r)\<rparr>
      in case GetRecording S k (dvStore r1) of
           Inl e \<Rightarrow> r1
         | Inr rec \<Rightarrow>
             if rStatus rec = RecCancelled then r1
             else let ok = (case deStat env (rPath rec) of None \<Rightarrow> False | Some sz \<Rightarrow> sz > 0)
                  in put_status S (rec\<lparr>rStatus := if ok then RecCompleted else RecFailed\<rparr>) r1)"

section \<open>Timers\<close>

definition filterRecordings :: "'s Store \<Rightarrow> (Recording \<Rightarrow> bool) \<Rightarrow> 's dvr \<Rightarrow> Recording list" where
  "filterRecordings S keep r =
     (case ListRecordings S (dvStore r) of Inl e \<Rightarrow> [] | Inr l \<Rightarrow> filter keep l)"

text \<open>\<open>Schedule\<close> reads the clock for the window, for \<open>CreatedAt\<close>, and twice in \<open>maybeStart\<close>.\<close>

definition Schedule :: "dvrEnv \<Rightarrow> 's Store \<Rightarrow> (nat \<Rightarrow> time) \<Rightarrow> string option \<Rightarrow> string \<Rightarrow> string \<Rightarrow> string \<Rightarrow> string \<Rightarrow>
    time \<Rightarrow> time \<Rightarrow> 's dvr \<Rightarrow> (err + Recording) \<times> 's dvr" where
  "Schedule env S clk idRnd channelID channelName programID name start stop r =
     (if Before stop (clk 0) \<or> \<not> After stop start
      then (Inl (ErrMsg ''dvr: invalid recording window''), r)
      else case NewID idRnd of
        Inl e \<Rightarrow> (Inl e, r)
      | Inr ident \<Rightarrow>
          let rec = \<lparr>rID = ident, rChannelID = channelID, rChannelName = channelName,
                rProgramID = programID, rName = name, rPath = [], rStartAt = start, rEndAt = stop,
                rStatus = RecScheduled, rCreatedAt = clk 1, rSeriesTimerID = []\<rparr>
          in case CreateRecording S rec (dvStore r) of
               (Some e, s') \<Rightarrow> (Inl e, r\<lparr>dvStore := s'\<rparr>)
             | (None, s') \<Rightarrow>
                 (case maybeStart env S (clk 2) (clk 3) rec (r\<lparr>dvStore := s'\<rparr>) of
                    (rec', r') \<Rightarrow> (Inr rec', r')))"

definition dvr_Cancel :: "'s Store \<Rightarrow> string \<Rightarrow> 's dvr \<Rightarrow> err option \<times> 's dvr" where
  "dvr_Cancel S k r =
     (case GetRecording S k (dvStore r) of
        Inl e \<Rightarrow> (Some e, r)
      | Inr rec \<Rightarrow>
          if k \<in> set (dvActive r) then (None, r\<lparr>dvCancelled := k # dvCancelled r\<rparr>)
          else if rStatus rec = RecScheduled then
            (case UpdateRecording S (rec\<lparr>rStatus := RecCancelled\<rparr>) (dvStore r) of
               (e, s') \<Rightarrow> (e, r\<lparr>dvStore := s'\<rparr>))
          else (None, r))"

definition Timers :: "'s Store \<Rightarrow> 's dvr \<Rightarrow> Recording list" where
  "Timers S r = filterRecordings S (\<lambda>rec. rStatus rec = RecScheduled \<or> rStatus rec = RecRecording) r"

definition Recordings :: "'s Store \<Rightarrow> 's dvr \<Rightarrow> Recording list" where
  "Recordings S r = filterRecordings S (\<lambda>rec. rStatus rec = RecCompleted) r"

definition dvr_Recording :: "'s Store \<Rightarrow> string \<Rightarrow> 's dvr \<Rightarrow> Recording option" where
  "dvr_Recording S k r = (case GetRecording S k (dvStore r) of Inl e \<Rightarrow> None | Inr rec \<Rightarrow> Some rec)"

definition hasParentEscape :: "string \<Rightarrow> bool" where
  "hasParentEscape rel \<longleftrightarrow> rel = ''..'' \<or> (length rel \<ge> 3 \<and> take 3 rel = ''../'')"

definition StreamPath :: "dvrEnv \<Rightarrow> 's Store \<Rightarrow> string \<Rightarrow> 's dvr \<Rightarrow> string option" where
  "StreamPath env S k r =
     (case GetRecording S k (dvStore r) of
        Inl e \<Rightarrow> None
      | Inr rec \<Rightarrow>
          if rStatus rec \<noteq> RecCompleted \<or> rPath rec = [] then None
          else (case Rel (deDir env) (rPath rec) of
              None \<Rightarrow> None
            | Some rel \<Rightarrow> if rel = ''..'' \<or> IsAbs rel \<or> hasParentEscape rel then None
                          else Some (rPath rec)))"

text \<open>The loop of \<open>tick\<close> over the recordings it listed; the \<open>n\<close>-th reading of the clock onwards
  is that of the coming \<open>maybeStart\<close>.\<close>

fun tick_loop :: "dvrEnv \<Rightarrow> 's Store \<Rightarrow> (nat \<Rightarrow> time) \<Rightarrow> nat \<Rightarrow> Recording list \<Rightarrow> 's dvr \<Rightarrow> 's dvr" where
  "tick_loop env S clk n [] r = r"
| "tick_loop env S clk n (rec # recs) r =
     (if \<not> After (rEndAt rec) (clk 0) then
        tick_loop env S clk n recs (put_status S (rec\<lparr>rStatus := RecFailed\<rparr>) r)
      else if \<not> After (rStartAt rec) (clk 0) then
        tick_loop env S clk (n + 2) recs (snd (maybeStart env S (clk n) (clk (n + 1)) rec r))
      else tick_loop env S clk n recs r)"

definition tick :: "dvrEnv \<Rightarrow> 's Store \<Rightarrow> (nat \<Rightarrow> time) \<Rightarrow> 's dvr \<Rightarrow> 's dvr" where
  "tick env S clk r =
     tick_loop env S clk 1 (filterRecordings S (\<lambda>rec. rStatus rec = RecScheduled) r) r"

fun resume_loop :: "dvrEnv \<Rightarrow> 's Store \<Rightarrow> (nat \<Rightarrow> time) \<Rightarrow> nat \<Rightarrow> Recording list \<Rightarrow> 's dvr \<Rightarrow> 's dvr" where
  "resume_loop env S clk n [] r = r"
| "resume_loop env S clk n (rec # recs) r =
     (if After (rEndAt rec) (clk 0) then
        resume_loop env S clk (n + 2) recs (snd (maybeStart env S (clk n) (clk (n + 1)) rec r))
      else resume_loop env S clk n recs (finalize env S (rID rec) r))"

definition resume :: "dvrEnv \<Rightarrow> 's Store \<Rightarrow> (nat \<Rightarrow> time) \<Rightarrow> 's dvr \<Rightarrow> 's dvr" where
  "resume env S clk r =
     resume_loop env S clk 1 (filterRecordings S (\<lambda>rec. rStatus rec = RecRecording) r) r"

definition dvr_Close :: "'s dvr \<Rightarrow> 's dvr" where
  "dvr_Close r = r\<lparr>dvStopped := True, dvCancelled := dvActive r @ dvCancelled r\<rparr>"

section \<open>Series timers\<close>

definition scheduleFromAiring :: "dvrEnv \<Rightarrow> 's Store \<Rightarrow> (nat \<Rightarrow> time) \<Rightarrow> string option \<Rightarrow> SeriesTimer \<Rightarrow> Airing \<Rightarrow>
    's dvr \<Rightarrow> (err + Recording) \<times> 's dvr" where
  "scheduleFromAiring env S clk idRnd st a r =
     (case Schedule env S clk idRnd (aiChannelID a) (aiChannelName a) (aiProgramID a) (aiTitle a)
             (aiStart a) (aiStop a) r of
        (Inl e, r1) \<Rightarrow> (Inl e, r1)
      | (Inr rec, r1) \<Rightarrow>
          let rec1 = rec\<lparr>rSeriesTimerID := tID st\<rparr> in (Inr rec1, put_status S rec1 r1))"

text \<open>Whether the inner loop of \<open>expandSeries\<close> reaches the call for an airing.\<close>

definition airing_wanted :: "SeriesTimer \<Rightarrow> time \<Rightarrow> string list \<Rightarrow> Airing \<Rightarrow> bool" where
  "airing_wanted st now recorded a \<longleftrightarrow>
     \<not> (Before (aiStop a) now \<or> aiProgramID a = [] \<or> aiProgramID a \<in> set recorded) \<and>
     \<not> (\<not> tRecordAnyChannel st \<and> tChannelID st \<noteq> [] \<and> aiChannelID a \<noteq> tChannelID st) \<and>
     titleMatches (normalizeTitle (aiTitle a)) (normalizeTitle (tName st))"

text \<open>The two loops. \<open>recorded\<close> lists the program IDs that are covered, \<open>i\<close> counts the calls: call
  \<open>i\<close> draws its identifier from \<open>rnd i\<close> and reads the clock as \<open>clk i\<close>.\<close>

fun expand_airings :: "dvrEnv \<Rightarrow> 's Store \<Rightarrow> time \<Rightarrow> (nat \<Rightarrow> nat \<Rightarrow> time) \<Rightarrow> (nat \<Rightarrow> string option) \<Rightarrow> SeriesTimer \<Rightarrow>
    Airing list \<Rightarrow> nat \<times> string list \<times> 's dvr \<Rightarrow> nat \<times> string list \<times> 's dvr" where
  "expand_airings env S now clk rnd st [] x = x"
| "expand_airings env S now clk rnd st (a # as) (i, recorded, r) =
     (if \<not> airing_wanted st now recorded a then expand_airings env S now clk rnd st as (i, recorded, r)
      else case scheduleFromAiring env S (clk i) (rnd i) st a r of
        (Inl e, r1) \<Rightarrow> expand_airings env S now clk rnd st as (Suc i, recorded, r1)
      | (Inr rec, r1) \<Rightarrow> expand_airings env S now clk rnd st as (Suc i, aiProgramID a # recorded, r1))"

definition expandSeries :: "dvrEnv \<Rightarrow> 's Store \<Rightarrow> time \<Rightarrow> (nat \<Rightarrow> nat \<Rightarrow> time) \<Rightarrow> (nat \<Rightarrow> string option) \<Rightarrow>
    (time \<Rightarrow> time \<Rightarrow> Airing list) option \<Rightarrow> 's dvr \<Rightarrow> 's dvr" where
  "expandSeries env S now clk rnd programs r =
     (case programs of
        None \<Rightarrow> r
      | Some fn \<Rightarrow>
          (case ListSeriesTimers S (dvStore r) of
             Inl e \<Rightarrow> r
           | Inr timers \<Rightarrow>
               if timers = [] then r
               else let airings = fn now (now + 14 * 24 * Hour);
                        recorded = filter (\<lambda>p. p \<noteq> []) (map rProgramID (filterRecordings S (\<lambda>_. True) r))
                    in snd (snd (fold (\<lambda>st. expand_airings env S now clk rnd st airings) timers (0, recorded, r)))))"

definition ScheduleSeries :: "dvrEnv \<Rightarrow> 's Store \<Rightarrow> time \<Rightarrow> time \<Rightarrow> (nat \<Rightarrow> nat \<Rightarrow> time) \<Rightarrow> string option \<Rightarrow>
    (nat \<Rightarrow> string option) \<Rightarrow> (time \<Rightarrow> time \<Rightarrow> Airing list) option \<Rightarrow> string \<Rightarrow> string \<Rightarrow> string \<Rightarrow> bool \<Rightarrow>
    's dvr \<Rightarrow> (err + SeriesTimer) \<times> 's dvr" where
  "ScheduleSeries env S created now clk idRnd rnd programs channelID channelName name recordAny r =
     (if name = [] then (Inl (ErrMsg ''dvr: series timer needs a name''), r)
      else case NewID idRnd of
        Inl e \<Rightarrow> (Inl e, r)
      | Inr ident \<Rightarrow>
          let st = \<lparr>tID = ident, tChannelID = channelID, tChannelName = channelName, tName = name,
                tRecordAnyChannel = recordAny, tCreatedAt = created\<rparr>
          in case CreateSeriesTimer S st (dvStore r) of
               (Some e, s') \<Rightarrow> (Inl e, r\<lparr>dvStore := s'\<rparr>)
             | (None, s') \<Rightarrow> (Inr st, expandSeries env S now clk rnd programs (r\<lparr>dvStore := s'\<rparr>)))"

definition CancelSeries :: "'s Store \<Rightarrow> string \<Rightarrow> 's dvr \<Rightarrow> err option \<times> 's dvr" where
  "CancelSeries S k r = (case DeleteSeriesTimer S k (dvStore r) of (e, s') \<Rightarrow> (e, r\<lparr>dvStore := s'\<rparr>))"

definition SeriesTimers :: "'s Store \<Rightarrow> 's dvr \<Rightarrow> SeriesTimer list" where
  "SeriesTimers S r = (case ListSeriesTimers S (dvStore r) of Inl e \<Rightarrow> [] | Inr l \<Rightarrow> l)"

end
