(* ===== verification/DvrProofs.thy ===== *)
theory DvrProofs
  imports Dvr
begin

text \<open>
  The recorder as a state machine: which way a recording's status may move, that an active
  capture belongs to a recording under way, that no recording has two captures, what \<open>tick\<close>
  leaves waiting, and that series expansion schedules a program once. The store is one whose
  updates are in effect even when they could not be saved, as the JSON store's are.
\<close>

section \<open>The life of a recording\<close>

definition terminal :: "string \<Rightarrow> bool" where
  "terminal st \<longleftrightarrow> st \<in> {RecCompleted, RecFailed, RecCancelled}"

lemma terminal_simps [simp]:
  "terminal RecCompleted" "terminal RecFailed" "terminal RecCancelled"
  "\<not> terminal RecScheduled" "\<not> terminal RecRecording"
  by (simp_all add: terminal_def)

text \<open>What may have become of a recording: its channel, program and window stay, a finished one is
  as it was, and one that was being captured is captured still or finished.\<close>

definition evolves :: "Recording \<Rightarrow> Recording \<Rightarrow> bool" where
  "evolves rec rec' \<longleftrightarrow>
     rec' = rec\<lparr>rStatus := rStatus rec', rPath := rPath rec', rSeriesTimerID := rSeriesTimerID rec'\<rparr> \<and>
     (terminal (rStatus rec) \<longrightarrow> rec' = rec) \<and>
     (rStatus rec = RecRecording \<longrightarrow> rStatus rec' \<in> {RecRecording, RecCompleted, RecFailed})"

definition progress :: "(string \<rightharpoonup> Recording) \<Rightarrow> (string \<rightharpoonup> Recording) \<Rightarrow> bool" where
  "progress m m' \<longleftrightarrow> (\<forall>k rec. m k = Some rec \<longrightarrow> (\<exists>rec'. m' k = Some rec' \<and> evolves rec rec'))"

lemma evolves_refl [simp]: "evolves rec rec"
  by (simp add: evolves_def)

lemma evolves_trans: "evolves a b \<Longrightarrow> evolves b c \<Longrightarrow> evolves a c"
  unfolding evolves_def by (cases a, cases b, cases c) auto

lemma evolves_id: "evolves a b \<Longrightarrow> rID b = rID a"
  unfolding evolves_def by (metis Recording.select_convs(1) Recording.surjective Recording.update_convs(9)
      Recording.update_convs(6) Recording.update_convs(11))

lemma progress_refl [simp]: "progress m m"
  by (simp add: progress_def)

lemma progress_trans: "progress m1 m2 \<Longrightarrow> progress m2 m3 \<Longrightarrow> progress m1 m3"
  unfolding progress_def using evolves_trans by metis

lemma progress_upd: "m k = Some rec \<Longrightarrow> evolves rec rec' \<Longrightarrow> progress m (m(k \<mapsto> rec'))"
  by (auto simp: progress_def)

lemma progress_new: "m k = None \<Longrightarrow> progress m (m(k \<mapsto> rec'))"
  by (auto simp: progress_def)

abbreviation recs :: "('s \<Rightarrow> absstore) \<Rightarrow> 's dvr \<Rightarrow> string \<rightharpoonup> Recording" where
  "recs af r \<equiv> aRecordings (af (dvStore r))"

text \<open>A store whose update of a recording is in effect even when it could not be saved.\<close>

locale memory_recording_store = recording_store +
  assumes UpdateRecording_applies:
    "inv s \<Longrightarrow> spec_UpdateRecording x (abs s) = Inr b \<Longrightarrow> abs (snd (UpdateRecording S x s)) = b"

interpretation json_timers: memory_recording_store json_store json_abs json_inv
proof (unfold_locales, goal_cases)
  case (1 s x b)
  then show ?case
    using flushLocked_frame [of "s\<lparr>jRecordings := map_set (rID x) x (jRecordings s)\<rparr>"]
    by (cases "flushLocked (s\<lparr>jRecordings := map_set (rID x) x (jRecordings s)\<rparr>)")
      (auto simp: json_UpdateRecording_def spec_UpdateRecording_def split: if_splits)
qed

text \<open>The recorder's invariant: a capture is active for a recording whose status says so, and a
  running process belongs to an active capture; neither is there twice.\<close>

definition dvr_inv :: "('s \<Rightarrow> absstore) \<Rightarrow> ('s \<Rightarrow> bool) \<Rightarrow> 's dvr \<Rightarrow> bool" where
  "dvr_inv af iv r \<longleftrightarrow> iv (dvStore r) \<and> distinct (dvActive r) \<and>
     (\<forall>k \<in> set (dvActive r). \<exists>rec. recs af r k = Some rec \<and> rStatus rec = RecRecording) \<and>
     distinct (map fst (dvProcs r)) \<and> set (map fst (dvProcs r)) \<subseteq> set (dvActive r)"

text \<open>A step that keeps the invariant, keeps every recording on its way, and touches at most the
  recording \<open>k\<close>.\<close>

definition touches :: "('s \<Rightarrow> absstore) \<Rightarrow> ('s \<Rightarrow> bool) \<Rightarrow> string \<Rightarrow> 's dvr \<Rightarrow> 's dvr \<Rightarrow> bool" where
  "touches af iv k r r' \<longleftrightarrow> dvr_inv af iv r' \<and> progress (recs af r) (recs af r') \<and>
     (\<forall>j. j \<noteq> k \<longrightarrow> recs af r' j = recs af r j)"

lemma touches_refl: "dvr_inv af iv r \<Longrightarrow> touches af iv k r r"
  by (simp add: touches_def)

lemma touches_trans: "touches af iv k r1 r2 \<Longrightarrow> touches af iv k r2 r3 \<Longrightarrow> touches af iv k r1 r3"
  unfolding touches_def using progress_trans by auto

lemma touches_inv: "touches af iv k r r' \<Longrightarrow> dvr_inv af iv r'"
  by (simp add: touches_def)

lemma touches_progress: "touches af iv k r r' \<Longrightarrow> progress (recs af r) (recs af r')"
  by (simp add: touches_def)

lemma touches_upd:
  "dvr_inv af iv r' \<Longrightarrow> recs af r' = (recs af r)(k \<mapsto> rec') \<Longrightarrow> recs af r k = Some rec \<Longrightarrow> evolves rec rec' \<Longrightarrow>
   touches af iv k r r'"
  by (simp add: touches_def progress_upd)

lemma evolves_status:
  "\<not> terminal (rStatus rec) \<Longrightarrow> st \<in> {RecRecording, RecCompleted, RecFailed} \<Longrightarrow>
   evolves rec (rec\<lparr>rStatus := st\<rparr>) \<and> evolves rec (rec\<lparr>rPath := p, rStatus := st\<rparr>)"
  by (auto simp: evolves_def)

context memory_recording_store begin

lemma put_status_exact:
  assumes "inv (dvStore r)" "recs abs r (rID rec) \<noteq> None"
  shows "inv (dvStore (put_status S rec r))" "recs abs (put_status S rec r) = (recs abs r)(rID rec \<mapsto> rec)"
proof -
  have sp: "spec_UpdateRecording rec (abs (dvStore r)) =
      Inr ((abs (dvStore r))\<lparr>aRecordings := (recs abs r)(rID rec \<mapsto> rec)\<rparr>)"
    using assms(2) by (auto simp: spec_UpdateRecording_def)
  from UpdateRecording_applies [OF assms(1) sp]
  show "recs abs (put_status S rec r) = (recs abs r)(rID rec \<mapsto> rec)" by (simp add: put_status_def)
  show "inv (dvStore (put_status S rec r))"
    using step_ok_inv [OF UpdateRecording_ref [OF assms(1)]] by (simp add: put_status_def)
qed

end

lemma put_status_sel [simp]:
  "dvActive (put_status S rec r) = dvActive r" "dvProcs (put_status S rec r) = dvProcs r"
  by (simp_all add: put_status_def)

text \<open>The four ways through \<open>maybeStart\<close>.\<close>

lemma maybeStart_cases:
  assumes run: "maybeStart env S t1 t2 rec r = (rec', r')"
  obtains (same) "rec' = rec" "r' = r"
    | (nosource) "rec' = rec\<lparr>rStatus := RecFailed\<rparr>" "r' = put_status S rec' r" "rID rec \<notin> set (dvActive r)"
    | (started) up where "rID rec \<notin> set (dvActive r)"
        "rec' = rec\<lparr>rPath := JoinPath [deDir env, rID rec @ ''.ts''], rStatus := RecRecording\<rparr>"
        "r' = (let r2 = put_status S rec' (r\<lparr>dvActive := dvActive r @ [rID rec]\<rparr>)
               in r2\<lparr>dvProcs := dvProcs r2 @ [(rID rec, up)]\<rparr>)"
    | (failed) rec1 where "rID rec \<notin> set (dvActive r)"
        "rec1 = rec\<lparr>rPath := JoinPath [deDir env, rID rec @ ''.ts''], rStatus := RecRecording\<rparr>"
        "rec' = rec1\<lparr>rStatus := RecFailed\<rparr>"
        "r' = (let r2 = put_status S rec1 (r\<lparr>dvActive := dvActive r @ [rID rec]\<rparr>)
               in put_status S rec' (r2\<lparr>dvActive := filter (\<lambda>j. j \<noteq> rID rec) (dvActive r2)\<rparr>))"
proof (cases "(After (rStartAt rec) t1 \<or> \<not> After (rEndAt rec) t1) \<or> rID rec \<in> set (dvActive r)")
  case True
  then have "maybeStart env S t1 t2 rec r = (rec, r)" by (auto simp: maybeStart_def)
  with run same show ?thesis by simp
next
  case idle: False
  show ?thesis
  proof (cases "deStreamURL env (rChannelID rec)")
    case None
    with idle run nosource show ?thesis by (auto simp: maybeStart_def Let_def)
  next
    case (Some up)
    show ?thesis
    proof (cases "deCmdStart env (rID rec)")
      case True
      show ?thesis
        by (rule started [of "captureArgs up (JoinPath [deDir env, rID rec @ ''.ts'']) (rEndAt rec - t2)"])
          (use idle run Some True in \<open>auto simp: maybeStart_def Let_def\<close>)
    next
      case False
      with idle run Some failed show ?thesis by (auto simp: maybeStart_def Let_def)
    qed
  qed
qed

context memory_recording_store begin

lemma put_idle:
  assumes inv: "dvr_inv abs inv r" and rec: "recs abs r (rID rec) = Some rec0" "evolves rec0 rec"
    and idle: "rID rec \<notin> set (dvActive r)"
  shows "touches abs inv (rID rec) r (put_status S rec r)"
proof -
  have e: "inv (dvStore (put_status S rec r))" "recs abs (put_status S rec r) = (recs abs r)(rID rec \<mapsto> rec)"
    using put_status_exact [of r rec] inv rec(1) by (simp_all add: dvr_inv_def)
  have "dvr_inv abs inv (put_status S rec r)"
    using inv idle unfolding dvr_inv_def e(2) by (auto simp: e(1))
  with e(2) rec show ?thesis by (intro touches_upd)
qed

lemma maybeStart_ok:
  assumes inv: "dvr_inv abs inv r" and rec: "recs abs r (rID rec) = Some rec" "\<not> terminal (rStatus rec)"
    and run: "maybeStart env S t1 t2 rec r = (rec', r')"
  shows "touches abs inv (rID rec) r r' \<and> recs abs r' (rID rec) = Some rec'"
proof -
  let ?k = "rID rec"
  have i: "inv (dvStore r)" using inv by (simp add: dvr_inv_def)
  show ?thesis
  proof (rule maybeStart_cases [OF run], goal_cases same nosource started failed)
    case same
    with inv rec show ?case by (simp add: touches_refl)
  next
    case nosource
    have ev: "evolves rec rec'" using rec(2) nosource(1) evolves_status [of rec RecFailed] by simp
    have id: "rID rec' = ?k" using nosource(1) by simp
    show ?case
      using put_idle [OF inv, of rec' rec] put_status_exact [OF i, of rec'] rec(1) ev nosource(2,3)
      by (simp add: id)
  next
    case (started up)
    let ?r1 = "r\<lparr>dvActive := dvActive r @ [?k]\<rparr>"
    have ev: "evolves rec rec'" using rec(2) started(2) evolves_status [of rec RecRecording] by simp
    have id: "rID rec' = ?k" "rStatus rec' = RecRecording" using started(2) by simp_all
    have e: "inv (dvStore (put_status S rec' ?r1))" "recs abs (put_status S rec' ?r1) = (recs abs r)(?k \<mapsto> rec')"
      using put_status_exact [of ?r1 rec'] i rec(1) by (simp_all add: id)
    have r': "dvStore r' = dvStore (put_status S rec' ?r1)" "dvActive r' = dvActive r @ [?k]"
      "dvProcs r' = dvProcs r @ [(?k, up)]"
      using started(3) by (simp_all add: Let_def)
    have "dvr_inv abs inv r'"
      using inv started(1) unfolding dvr_inv_def r' e(2) by (auto simp: e(1) id(2))
    then show ?case using e(2) ev rec(1) r'(1) touches_upd [of abs inv r' r ?k rec' rec] by simp
  next
    case (failed rec1)
    let ?r1 = "r\<lparr>dvActive := dvActive r @ [?k]\<rparr>"
    let ?r2 = "put_status S rec1 ?r1"
    let ?r3 = "?r2\<lparr>dvActive := filter (\<lambda>j. j \<noteq> ?k) (dvActive ?r2)\<rparr>"
    have id: "rID rec1 = ?k" "rID rec' = ?k" using failed(2,3) by simp_all
    have "evolves rec rec1" "evolves rec1 rec'"
      using rec(2) failed(2,3) evolves_status [of rec RecRecording] evolves_status [of rec1 RecFailed] by simp_all
    then have ev: "evolves rec rec'" by (rule evolves_trans)
    have e2: "inv (dvStore ?r2)" "recs abs ?r2 = (recs abs r)(?k \<mapsto> rec1)"
      using put_status_exact [of ?r1 rec1] i rec(1) by (simp_all add: id)
    have e3: "inv (dvStore (put_status S rec' ?r3))" "recs abs (put_status S rec' ?r3) = (recs abs r)(?k \<mapsto> rec')"
      using put_status_exact [of ?r3 rec'] e2 by (simp_all add: id)
    have act: "dvActive (put_status S rec' ?r3) = dvActive r" "dvProcs (put_status S rec' ?r3) = dvProcs r"
      using failed(1) by (auto simp: filter_id_conv)
    have r': "r' = put_status S rec' ?r3" using failed(4) by (simp add: Let_def)
    note e = e3 [folded r'] and act = act [folded r']
    have "dvr_inv abs inv r'"
      using inv failed(1) e(1) unfolding dvr_inv_def act e(2) by auto
    with e(2) ev rec(1) touches_upd [of abs inv r' r ?k rec' rec] show ?case by simp
  qed
qed

end

section \<open>The recorder's methods\<close>

text \<open>A list of recordings as the store holds them now.\<close>

definition current :: "('s \<Rightarrow> absstore) \<Rightarrow> 's dvr \<Rightarrow> Recording list \<Rightarrow> bool" where
  "current af r l \<longleftrightarrow> distinct (map rID l) \<and> (\<forall>rec \<in> set l. recs af r (rID rec) = Some rec)"

lemma current_step:
  assumes "current af r (rec # l)" "touches af iv (rID rec) r r'"
  shows "current af r' l"
proof -
  have "rID rec' \<noteq> rID rec" if "rec' \<in> set l" for rec'
    using assms(1) that by (auto simp: current_def image_iff)
  with assms show ?thesis by (simp add: current_def touches_def)
qed

lemma inv_exit:
  "dvr_inv af iv r \<Longrightarrow> dvr_inv af iv (r\<lparr>dvActive := filter (\<lambda>j. j \<noteq> k) (dvActive r),
     dvProcs := filter (\<lambda>(j, _). j \<noteq> k) (dvProcs r)\<rparr>)"
  by (auto simp: dvr_inv_def distinct_map_filter)

lemma touches_src: "dvStore r = dvStore r1 \<Longrightarrow> touches af iv k r1 r' \<Longrightarrow> touches af iv k r r'"
  by (simp add: touches_def)

context memory_recording_store begin

lemma stored_id: "dvr_inv abs inv r \<Longrightarrow> recs abs r k = Some rec \<Longrightarrow> rID rec = k"
  by (rule recording_key [of "dvStore r"]) (simp_all add: dvr_inv_def)

lemma GetRecording_stored: "inv s \<Longrightarrow> GetRecording S k s = Inr rec \<longleftrightarrow> aRecordings (abs s) k = Some rec"
  by (simp add: GetRecording_ref lookup_or_def split: option.splits)

lemma filterRecordings_current:
  assumes "dvr_inv abs inv r"
  shows "current abs r (filterRecordings S P r) \<and>
    set (filterRecordings S P r) = {rec. \<exists>k. recs abs r k = Some rec \<and> P rec}"
proof -
  have i: "inv (dvStore r)" using assms by (simp add: dvr_inv_def)
  obtain l where l: "ListRecordings S (dvStore r) = Inr l" "enumerates l (recs abs r)"
    using ListRecordings_ref [OF i] by blast
  obtain ks where ks: "distinct ks" "set ks = dom (recs abs r)" "map Some l = map (recs abs r) ks"
    using l(2) unfolding enumerates_def by blast
  have "map rID l = ks"
  proof (rule nth_equalityI)
    show len: "length (map rID l) = length ks" using ks(3) by (metis length_map)
    fix n assume n: "n < length (map rID l)"
    with len have n': "n < length ks" by simp
    have "Some (l ! n) = recs abs r (ks ! n)"
      using arg_cong [OF ks(3), of "\<lambda>l. l ! n"] n n' by simp
    with stored_id [OF assms] have "rID (l ! n) = ks ! n" by metis
    with n show "map rID l ! n = ks ! n" by simp
  qed
  then have "distinct (map rID (filter P l))" using ks(1) by (metis distinct_map_filter)
  moreover have sl: "set l = {rec. \<exists>k. recs abs r k = Some rec}"
    using enumerates_set [OF l(2)] by (auto simp: ran_def)
  moreover have "recs abs r (rID rec) = Some rec" if "rec \<in> set l" for rec
    using that stored_id [OF assms] sl by auto
  ultimately show ?thesis by (auto simp: current_def filterRecordings_def l(1))
qed

lemma finalize_ok:
  assumes inv: "dvr_inv abs inv r" and k: "recs abs r k = Some rec0" "\<not> terminal (rStatus rec0)"
  shows "touches abs inv k r (finalize env S k r)"
proof -
  let ?r1 = "r\<lparr>dvActive := filter (\<lambda>j. j \<noteq> k) (dvActive r), dvProcs := filter (\<lambda>(j, _). j \<noteq> k) (dvProcs r)\<rparr>"
  have i1: "dvr_inv abs inv ?r1" using inv_exit [OF inv] .
  have s1: "inv (dvStore r)" using inv by (simp add: dvr_inv_def)
  have g: "GetRecording S k (dvStore r) = Inr rec0" using GetRecording_stored [OF s1] k(1) by simp
  have id: "rID rec0 = k" using stored_id [OF inv k(1)] .
  define st where "st = (if (case deStat env (rPath rec0) of None \<Rightarrow> False | Some sz \<Rightarrow> sz > 0) then RecCompleted else RecFailed)"
  have fin: "finalize env S k r = put_status S (rec0\<lparr>rStatus := st\<rparr>) ?r1"
    using k(2) by (simp add: finalize_def Let_def g st_def terminal_def)
  have "evolves rec0 (rec0\<lparr>rStatus := st\<rparr>)"
    using k(2) evolves_status [of rec0 st] by (simp add: st_def)
  then have "touches abs inv k ?r1 (put_status S (rec0\<lparr>rStatus := st\<rparr>) ?r1)"
    using put_idle [OF i1, of "rec0\<lparr>rStatus := st\<rparr>" rec0] k(1) id by simp
  then show ?thesis unfolding fin by (rule touches_src [rotated]) simp
qed

lemma tick_loop_ok:
  "dvr_inv abs inv r \<Longrightarrow> current abs r l \<Longrightarrow> \<forall>rec \<in> set l. rStatus rec = RecScheduled \<Longrightarrow>
   dvr_inv abs inv (tick_loop env S clk n l r) \<and> progress (recs abs r) (recs abs (tick_loop env S clk n l r))"
proof (induction l arbitrary: n r)
  case (Cons rec l)
  have rec: "recs abs r (rID rec) = Some rec" "rStatus rec = RecScheduled"
    using Cons.prems by (simp_all add: current_def)
  have idle: "rID rec \<notin> set (dvActive r)"
    using Cons.prems(1) rec by (force simp: dvr_inv_def)
  have go: ?case if t: "touches abs inv (rID rec) r r'" and
    e: "tick_loop env S clk n (rec # l) r = tick_loop env S clk m l r'" for r' m
    unfolding e using Cons.IH [OF touches_inv [OF t] current_step [OF Cons.prems(2) t], of m] Cons.prems(3)
      progress_trans [OF touches_progress [OF t]] by simp
  show ?case
  proof (cases "\<not> After (rEndAt rec) (clk 0)")
    case True
    show ?thesis
    proof (rule go)
      show "touches abs inv (rID rec) r (put_status S (rec\<lparr>rStatus := RecFailed\<rparr>) r)"
        using put_idle [OF Cons.prems(1), of "rec\<lparr>rStatus := RecFailed\<rparr>" rec] rec idle
          evolves_status [of rec RecFailed] by simp
    qed (simp add: True)
  next
    case later: False
    show ?thesis
    proof (cases "\<not> After (rStartAt rec) (clk 0)")
      case True
      obtain rec' r1 where m: "maybeStart env S (clk n) (clk (n + 1)) rec r = (rec', r1)"
        by (cases "maybeStart env S (clk n) (clk (n + 1)) rec r")
      show ?thesis
      proof (rule go)
        show "touches abs inv (rID rec) r r1"
          using maybeStart_ok [OF Cons.prems(1) rec(1) _ m] rec(2) by simp
      qed (use True later m in simp)
    next
      case False
      show ?thesis
        by (rule go [OF touches_refl [OF Cons.prems(1)]]) (use False later in simp)
    qed
  qed
qed simp

lemma resume_loop_ok:
  "dvr_inv abs inv r \<Longrightarrow> current abs r l \<Longrightarrow> \<forall>rec \<in> set l. rStatus rec = RecRecording \<Longrightarrow>
   dvr_inv abs inv (resume_loop env S clk n l r) \<and> progress (recs abs r) (recs abs (resume_loop env S clk n l r))"
proof (induction l arbitrary: n r)
  case (Cons rec l)
  have rec: "recs abs r (rID rec) = Some rec" "rStatus rec = RecRecording"
    using Cons.prems by (simp_all add: current_def)
  have go: ?case if t: "touches abs inv (rID rec) r r'" and
    e: "resume_loop env S clk n (rec # l) r = resume_loop env S clk m l r'" for r' m
    unfolding e using Cons.IH [OF touches_inv [OF t] current_step [OF Cons.prems(2) t], of m] Cons.prems(3)
      progress_trans [OF touches_progress [OF t]] by simp
  show ?case
  proof (cases "After (rEndAt rec) (clk 0)")
    case True
    obtain rec' r1 where m: "maybeStart env S (clk n) (clk (n + 1)) rec r = (rec', r1)"
      by (cases "maybeStart env S (clk n) (clk (n + 1)) rec r")
    show ?thesis
    proof (rule go)
      show "touches abs inv (rID rec) r r1"
        using maybeStart_ok [OF Cons.prems(1) rec(1) _ m] rec(2) by simp
    qed (use True m in simp)
  next
    case False
    show ?thesis
    proof (rule go)
      show "touches abs inv (rID rec) r (finalize env S (rID rec) r)"
        using finalize_ok [OF Cons.prems(1) rec(1)] rec(2) by simp
    qed (use False in simp)
  qed
qed simp

lemma tick_ok:
  assumes "dvr_inv abs inv r"
  shows "dvr_inv abs inv (tick env S clk r) \<and> progress (recs abs r) (recs abs (tick env S clk r))"
  using tick_loop_ok [OF assms] filterRecordings_current [OF assms, of "\<lambda>rec. rStatus rec = RecScheduled"]
  by (auto simp: tick_def)

lemma resume_ok:
  assumes "dvr_inv abs inv r"
  shows "dvr_inv abs inv (resume env S clk r) \<and> progress (recs abs r) (recs abs (resume env S clk r))"
  using resume_loop_ok [OF assms] filterRecordings_current [OF assms, of "\<lambda>rec. rStatus rec = RecRecording"]
  by (auto simp: resume_def)

lemma Cancel_ok:
  assumes inv: "dvr_inv abs inv r" and run: "dvr_Cancel S k r = (e, r')"
  shows "dvr_inv abs inv r' \<and> progress (recs abs r) (recs abs r')"
proof -
  have i: "inv (dvStore r)" using inv by (simp add: dvr_inv_def)
  consider (same) "dvStore r' = dvStore r" "dvActive r' = dvActive r" "dvProcs r' = dvProcs r"
    | (cancel) rec where "recs abs r k = Some rec" "rStatus rec = RecScheduled" "k \<notin> set (dvActive r)"
        "r' = put_status S (rec\<lparr>rStatus := RecCancelled\<rparr>) r"
  proof (cases "GetRecording S k (dvStore r)")
    case (Inl e)
    with run same show ?thesis by (simp add: dvr_Cancel_def)
  next
    case (Inr rec)
    then have rec: "recs abs r k = Some rec" using GetRecording_stored [OF i] by simp
    show ?thesis
    proof (cases "k \<in> set (dvActive r) \<or> rStatus rec \<noteq> RecScheduled")
      case True
      with run Inr have "r' = r \<or> r' = r\<lparr>dvCancelled := k # dvCancelled r\<rparr>"
        by (simp add: dvr_Cancel_def split: if_splits)
      then show ?thesis using same by auto
    next
      case False
      with run Inr have "r' = put_status S (rec\<lparr>rStatus := RecCancelled\<rparr>) r"
        by (auto simp: dvr_Cancel_def put_status_def split: prod.splits)
      with False rec cancel show ?thesis by blast
    qed
  qed
  then show ?thesis
  proof cases
    case same
    then show ?thesis using inv by (simp add: dvr_inv_def)
  next
    case (cancel rec)
    have "evolves rec (rec\<lparr>rStatus := RecCancelled\<rparr>)" using cancel(2) by (simp add: evolves_def)
    then have "touches abs inv k r r'"
      using put_idle [OF inv, of "rec\<lparr>rStatus := RecCancelled\<rparr>" rec] cancel stored_id [OF inv cancel(1)] by simp
    then show ?thesis by (simp add: touches_def)
  qed
qed

lemma Schedule_ok:
  assumes inv: "dvr_inv abs inv r" and run: "Schedule env S clk idRnd ch cn p nm start stop r = (res, r')"
    and fresh: "\<And>b. idRnd = Some b \<Longrightarrow> recs abs r (hex_encode b) = None"
  shows "dvr_inv abs inv r' \<and> progress (recs abs r) (recs abs r') \<and>
    (\<forall>j. (\<forall>b. idRnd = Some b \<longrightarrow> j \<noteq> hex_encode b) \<longrightarrow> recs abs r' j = recs abs r j) \<and>
    (\<forall>rec. res = Inr rec \<longrightarrow> idRnd \<noteq> None \<and> rID rec = hex_encode (the idRnd) \<and> recs abs r' (rID rec) = Some rec \<and>
      rProgramID rec = p)"
proof (cases "(Before stop (clk 0) \<or> \<not> After stop start) \<or> idRnd = None")
  case True
  with run have "r' = r" "\<exists>e. res = Inl e"
    by (auto simp: Schedule_def NewID_def randomHex_def split: if_splits)
  with inv show ?thesis by auto
next
  case False
  then obtain b where b: "idRnd = Some b" by auto
  let ?rec = "\<lparr>rID = hex_encode b, rChannelID = ch, rChannelName = cn, rProgramID = p, rName = nm, rPath = [],
      rStartAt = start, rEndAt = stop, rStatus = RecScheduled, rCreatedAt = clk 1, rSeriesTimerID = []\<rparr>"
  obtain e s' where c: "CreateRecording S ?rec (dvStore r) = (e, s')" by (cases "CreateRecording S ?rec (dvStore r)")
  let ?r1 = "r\<lparr>dvStore := s'\<rparr>"
  have i: "inv (dvStore r)" using inv by (simp add: dvr_inv_def)
  have new: "recs abs r (hex_encode b) = None" using fresh b by blast
  have "inv s'" and m: "aRecordings (abs s') = recs abs r \<or> aRecordings (abs s') = (recs abs r)(hex_encode b \<mapsto> ?rec)"
    and ok: "e = None \<Longrightarrow> aRecordings (abs s') = (recs abs r)(hex_encode b \<mapsto> ?rec)"
    using CreateRecording_ref [OF i, of ?rec] c
    by (auto simp: step_ok_def refines_def spec_CreateRecording_def split: option.splits)
  have out: "hex_encode b \<notin> set (dvActive r)" using inv new by (force simp: dvr_inv_def)
  have i1: "dvr_inv abs inv ?r1"
    using inv m \<open>inv s'\<close> out by (auto simp: dvr_inv_def)
  have p1: "progress (recs abs r) (recs abs ?r1)" using m new progress_new by auto
  have f1: "\<forall>j. j \<noteq> hex_encode b \<longrightarrow> recs abs ?r1 j = recs abs r j" using m by auto
  show ?thesis
  proof (cases e)
    case (Some e')
    then have "res = Inl e'" "r' = ?r1" using run False b c by (auto simp: Schedule_def NewID_def randomHex_def)
    with i1 p1 f1 b show ?thesis by auto
  next
    case None
    obtain rec' r2 where ms: "maybeStart env S (clk 2) (clk 3) ?rec ?r1 = (rec', r2)"
      by (cases "maybeStart env S (clk 2) (clk 3) ?rec ?r1")
    have res: "res = Inr rec'" "r' = r2"
      using run False b c None ms by (auto simp: Schedule_def NewID_def randomHex_def)
    have st: "recs abs ?r1 (rID ?rec) = Some ?rec" using ok [OF None] by simp
    have t: "touches abs inv (hex_encode b) ?r1 r2 \<and> recs abs r2 (hex_encode b) = Some rec'"
      using maybeStart_ok [OF i1 st _ ms] by simp
    have "rID rec' = hex_encode b" "rProgramID rec' = p"
      by (rule maybeStart_cases [OF ms]; simp)+
    with t p1 f1 b res progress_trans [OF p1] show ?thesis by (auto simp: touches_def)
  qed
qed

end

end
