(* ===== verification/DvrSeries.thy ===== *)
theory DvrSeries
  imports DvrProofs
begin

text \<open>
  Series expansion, the recorder's step relation with what every history of it preserves, the
  completeness of \<open>tick\<close>, the confinement of stream paths, and the canonical form of titles.
\<close>

section \<open>Series expansion keeps the invariant\<close>

text \<open>Identifiers drawn from call \<open>i\<close> on are new and differ from each other.\<close>

definition fresh_from :: "(nat \<Rightarrow> string option) \<Rightarrow> nat \<Rightarrow> (string \<rightharpoonup> Recording) \<Rightarrow> bool" where
  "fresh_from rnd i m \<longleftrightarrow>
     (\<forall>n b. i \<le> n \<longrightarrow> rnd n = Some b \<longrightarrow> m (hex_encode b) = None) \<and>
     (\<forall>n k b. rnd n = Some b \<longrightarrow> rnd k = Some b \<longrightarrow> n = k)"

lemma fresh_from_step:
  assumes "fresh_from rnd i m" "\<And>j. (\<forall>b. rnd i = Some b \<longrightarrow> j \<noteq> hex_encode b) \<Longrightarrow> m' j = m j"
  shows "fresh_from rnd (Suc i) m'"
  unfolding fresh_from_def
proof (intro conjI allI impI)
  fix n b assume n: "Suc i \<le> n" "rnd n = Some b"
  have "hex_encode b \<noteq> hex_encode b'" if "rnd i = Some b'" for b'
  proof
    assume "hex_encode b = hex_encode b'"
    then have "b = b'" by (simp add: hex_inject)
    with assms(1) that n have "n = i" unfolding fresh_from_def by blast
    with n show False by simp
  qed
  then have "m' (hex_encode b) = m (hex_encode b)" using assms(2) by blast
  with assms(1) n show "m' (hex_encode b) = None" unfolding fresh_from_def by (metis Suc_leD)
next
  fix n k b assume "rnd n = Some b" "rnd k = Some b"
  with assms(1) show "n = k" unfolding fresh_from_def by blast
qed

context memory_recording_store begin

lemma put_same_status:
  assumes "dvr_inv abs inv r" "recs abs r (rID rec) = Some rec0" "rStatus rec = rStatus rec0"
  shows "dvr_inv abs inv (put_status S rec r) \<and> recs abs (put_status S rec r) = (recs abs r)(rID rec \<mapsto> rec)"
proof -
  have e: "inv (dvStore (put_status S rec r))" "recs abs (put_status S rec r) = (recs abs r)(rID rec \<mapsto> rec)"
    using put_status_exact [of r rec] assms by (simp_all add: dvr_inv_def)
  show ?thesis using assms e(1) unfolding dvr_inv_def e(2) by force
qed

lemma scheduleFromAiring_ok:
  assumes inv: "dvr_inv abs inv r" and run: "scheduleFromAiring env S clk idRnd st a r = (res, r')"
    and fresh: "\<And>b. idRnd = Some b \<Longrightarrow> recs abs r (hex_encode b) = None"
  shows "dvr_inv abs inv r' \<and> progress (recs abs r) (recs abs r') \<and>
    (\<forall>j. (\<forall>b. idRnd = Some b \<longrightarrow> j \<noteq> hex_encode b) \<longrightarrow> recs abs r' j = recs abs r j) \<and>
    (\<forall>rec. res = Inr rec \<longrightarrow> idRnd \<noteq> None \<and> recs abs r' (hex_encode (the idRnd)) = Some rec \<and>
       rProgramID rec = aiProgramID a)"
proof -
  obtain res1 r1 where sch: "Schedule env S clk idRnd (aiChannelID a) (aiChannelName a) (aiProgramID a)
      (aiTitle a) (aiStart a) (aiStop a) r = (res1, r1)"
    by (cases "Schedule env S clk idRnd (aiChannelID a) (aiChannelName a) (aiProgramID a)
      (aiTitle a) (aiStart a) (aiStop a) r")
  note ok = Schedule_ok [OF inv sch fresh]
  show ?thesis
  proof (cases res1)
    case (Inl e)
    with run sch have "res = Inl e" "r' = r1" by (simp_all add: scheduleFromAiring_def)
    with ok show ?thesis by simp
  next
    case (Inr rec)
    let ?rec = "rec\<lparr>rSeriesTimerID := tID st\<rparr>"
    have res: "res = Inr ?rec" "r' = put_status S ?rec r1"
      using run sch Inr by (simp_all add: scheduleFromAiring_def Let_def)
    from ok Inr obtain b where b: "idRnd = Some b" "rID rec = hex_encode b"
      "recs abs r1 (hex_encode b) = Some rec" "rProgramID rec = aiProgramID a" by auto
    have p: "dvr_inv abs inv r'" "recs abs r' = (recs abs r1)(hex_encode b \<mapsto> ?rec)"
      using put_same_status [of r1 ?rec rec] ok b res(2) by simp_all
    have "progress (recs abs r) (recs abs r')"
      unfolding progress_def
    proof (intro allI impI)
      fix k x assume k: "recs abs r k = Some x"
      with fresh b(1) have "k \<noteq> hex_encode b" by auto
      with p(2) ok b(1) k show "\<exists>x'. recs abs r' k = Some x' \<and> evolves x x'" by auto
    qed
    with p ok b res show ?thesis by auto
  qed
qed

lemma expand_airings_ok:
  assumes "dvr_inv abs inv r" "fresh_from rnd i (recs abs r)"
    and "expand_airings env S now clk rnd st as (i, recorded, r) = (i', recorded', r')"
  shows "dvr_inv abs inv r' \<and> progress (recs abs r) (recs abs r') \<and> fresh_from rnd i' (recs abs r')"
  using assms
proof (induction as arbitrary: i recorded r)
  case (Cons a as)
  show ?case
  proof (cases "airing_wanted st now recorded a")
    case False
    with Cons.prems Cons.IH [OF Cons.prems(1,2)] show ?thesis by simp
  next
    case True
    obtain res r1 where sch: "scheduleFromAiring env S (clk i) (rnd i) st a r = (res, r1)"
      by (cases "scheduleFromAiring env S (clk i) (rnd i) st a r")
    have new: "\<And>b. rnd i = Some b \<Longrightarrow> recs abs r (hex_encode b) = None"
      using Cons.prems(2) unfolding fresh_from_def by blast
    note ok = scheduleFromAiring_ok [OF Cons.prems(1) sch new]
    have f: "fresh_from rnd (Suc i) (recs abs r1)"
      using ok by (intro fresh_from_step [OF Cons.prems(2)]) blast
    obtain rec1 where "expand_airings env S now clk rnd st as (Suc i, rec1, r1) = (i', recorded', r')"
      using Cons.prems(3) True sch by (cases res) auto
    from Cons.IH [OF _ f this] ok progress_trans [of "recs abs r" "recs abs r1" "recs abs r'"] show ?thesis by blast
  qed
qed simp

lemma expand_timers_ok:
  assumes "dvr_inv abs inv r" "fresh_from rnd i (recs abs r)"
    and "fold (\<lambda>st. expand_airings env S now clk rnd st as) timers (i, recorded, r) = (i', recorded', r')"
  shows "dvr_inv abs inv r' \<and> progress (recs abs r) (recs abs r') \<and> fresh_from rnd i' (recs abs r')"
  using assms
proof (induction timers arbitrary: i recorded r)
  case (Cons st timers)
  obtain i1 rec1 r1 where e: "expand_airings env S now clk rnd st as (i, recorded, r) = (i1, rec1, r1)"
    by (metis prod_cases3)
  note ok = expand_airings_ok [OF Cons.prems(1,2) e]
  from Cons.prems(3) e have "fold (\<lambda>st. expand_airings env S now clk rnd st as) timers (i1, rec1, r1) = (i', recorded', r')"
    by simp
  from Cons.IH [OF _ _ this] ok progress_trans [of "recs abs r" "recs abs r1" "recs abs r'"] show ?case by blast
qed simp

lemma expandSeries_ok:
  assumes "dvr_inv abs inv r" "fresh_from rnd 0 (recs abs r)"
  shows "dvr_inv abs inv (expandSeries env S now clk rnd programs r) \<and>
    progress (recs abs r) (recs abs (expandSeries env S now clk rnd programs r))"
proof (cases "\<exists>fn timers. programs = Some fn \<and> ListSeriesTimers S (dvStore r) = Inr timers \<and> timers \<noteq> []")
  case True
  then obtain fn timers where t: "programs = Some fn" "ListSeriesTimers S (dvStore r) = Inr timers" "timers \<noteq> []"
    by blast
  let ?as = "fn now (now + 14 * 24 * Hour)"
  let ?rc = "filter (\<lambda>p. p \<noteq> []) (map rProgramID (filterRecordings S (\<lambda>_. True) r))"
  obtain i' rc' r' where e: "fold (\<lambda>st. expand_airings env S now clk rnd st ?as) timers (0, ?rc, r) = (i', rc', r')"
    by (metis prod_cases3)
  have "expandSeries env S now clk rnd programs r = r'"
    using e by (simp add: expandSeries_def t Let_def)
  with expand_timers_ok [OF assms e] show ?thesis by simp
next
  case False
  then have "expandSeries env S now clk rnd programs r = r"
    by (auto simp: expandSeries_def split: option.splits sum.splits)
  with assms(1) show ?thesis by simp
qed

lemma series_store_frame:
  assumes "inv s"
  shows "inv (snd (CreateSeriesTimer S y s)) \<and> aRecordings (abs (snd (CreateSeriesTimer S y s))) = aRecordings (abs s)"
    and "inv (snd (DeleteSeriesTimer S k s)) \<and> aRecordings (abs (snd (DeleteSeriesTimer S k s))) = aRecordings (abs s)"
  using CreateSeriesTimer_ref [OF assms, of y] DeleteSeriesTimer_ref [OF assms, of k]
  by (auto simp: step_ok_def refines_def spec_CreateSeriesTimer_def spec_DeleteSeriesTimer_def
      split: option.splits if_splits sum.splits)

end

lemma dvr_inv_store:
  "dvr_inv af iv r \<Longrightarrow> iv s' \<Longrightarrow> aRecordings (af s') = recs af r \<Longrightarrow> dvr_inv af iv (r\<lparr>dvStore := s'\<rparr>)"
  by (simp add: dvr_inv_def)

lemma ScheduleSeries_cases:
  assumes run: "ScheduleSeries env S created now clk idRnd rnd programs ch cn nm any r = (res, r')"
  obtains "r' = r" | st where "r' = r\<lparr>dvStore := snd (CreateSeriesTimer S st (dvStore r))\<rparr>"
    | st where "r' = expandSeries env S now clk rnd programs (r\<lparr>dvStore := snd (CreateSeriesTimer S st (dvStore r))\<rparr>)"
proof (cases "nm = [] \<or> (\<exists>e. NewID idRnd = Inl e)")
  case True
  then have "r' = r" using run by (auto simp: ScheduleSeries_def split: if_splits)
  then show ?thesis by (rule that)
next
  case False
  then obtain ident where ident: "NewID idRnd = Inr ident" by (cases "NewID idRnd") auto
  let ?st = "\<lparr>tID = ident, tChannelID = ch, tChannelName = cn, tName = nm, tRecordAnyChannel = any, tCreatedAt = created\<rparr>"
  obtain e s' where c: "CreateSeriesTimer S ?st (dvStore r) = (e, s')" by (cases "CreateSeriesTimer S ?st (dvStore r)")
  show ?thesis
    using run False ident c that(2,3) [of ?st] by (cases e) (auto simp: ScheduleSeries_def Let_def)
qed

section \<open>The step relation\<close>

text \<open>One step: a method call, a capture process that exits, or a restart of the server, which
  forgets the captures and resumes. A drawn identifier is one no recording has.\<close>

inductive dvr_step :: "dvrEnv \<Rightarrow> 's Store \<Rightarrow> ('s \<Rightarrow> absstore) \<Rightarrow> 's dvr \<Rightarrow> 's dvr \<Rightarrow> bool"
  for env S af where
  schedule: "Schedule env S clk idRnd ch cn p nm start stop r = (res, r') \<Longrightarrow>
    (\<forall>b. idRnd = Some b \<longrightarrow> recs af r (hex_encode b) = None) \<Longrightarrow> dvr_step env S af r r'"
| cancel: "dvr_Cancel S k r = (e, r') \<Longrightarrow> dvr_step env S af r r'"
| tick: "dvr_step env S af r (tick env S clk r)"
| exit: "k \<in> fst ` set (dvProcs r) \<Longrightarrow> dvr_step env S af r (finalize env S k r)"
| expand: "fresh_from rnd 0 (recs af r) \<Longrightarrow> dvr_step env S af r (expandSeries env S now fclk rnd programs r)"
| series: "ScheduleSeries env S created now fclk idRnd rnd programs ch cn nm any r = (sres, r') \<Longrightarrow>
    fresh_from rnd 0 (recs af r) \<Longrightarrow> dvr_step env S af r r'"
| unseries: "CancelSeries S k r = (e, r') \<Longrightarrow> dvr_step env S af r r'"
| close: "dvr_step env S af r (dvr_Close r)"
| restart: "dvr_step env S af r
    (resume env S clk (r\<lparr>dvActive := [], dvProcs := [], dvCancelled := [], dvStopped := False\<rparr>))"

context memory_recording_store begin

lemma dvr_step_ok:
  "dvr_step env S abs r r' \<Longrightarrow> dvr_inv abs inv r \<Longrightarrow> dvr_inv abs inv r' \<and> progress (recs abs r) (recs abs r')"
proof (induction rule: dvr_step.induct)
  case (schedule clk idRnd ch cn p nm start stop r res r')
  then show ?case using Schedule_ok [of r] by blast
next
  case (cancel k r e r')
  then show ?case using Cancel_ok by blast
next
  case (tick r clk)
  then show ?case by (rule tick_ok)
next
  case (exit k r)
  then obtain rec where "recs abs r k = Some rec" "rStatus rec = RecRecording"
    by (force simp: dvr_inv_def)
  with finalize_ok [OF exit.prems] show ?case by (auto simp: touches_def)
next
  case (expand rnd r now fclk programs)
  then show ?case by (intro expandSeries_ok)
next
  case (series created now fclk idRnd rnd programs ch cn nm any r sres r')
  have i: "inv (dvStore r)" using series.prems by (simp add: dvr_inv_def)
  have store: "dvr_inv abs inv (r\<lparr>dvStore := snd (CreateSeriesTimer S st (dvStore r))\<rparr>)"
    "recs abs (r\<lparr>dvStore := snd (CreateSeriesTimer S st (dvStore r))\<rparr>) = recs abs r" for st
    using series_store_frame(1) [OF i, of st] dvr_inv_store [OF series.prems] by simp_all
  consider "r' = r" | st where "r' = r\<lparr>dvStore := snd (CreateSeriesTimer S st (dvStore r))\<rparr>"
    | st where "r' = expandSeries env S now fclk rnd programs (r\<lparr>dvStore := snd (CreateSeriesTimer S st (dvStore r))\<rparr>)"
    using series.hyps(1)
    by (rule ScheduleSeries_cases)
  then show ?case
  proof cases
    case 3
    with expandSeries_ok [OF store(1)] series.hyps(2) store(2) show ?thesis by simp
  qed (use series.prems store in simp_all)
next
  case (unseries k r e r')
  have i: "inv (dvStore r)" using unseries.prems by (simp add: dvr_inv_def)
  have "r' = r\<lparr>dvStore := snd (DeleteSeriesTimer S k (dvStore r))\<rparr>"
    using unseries.hyps by (auto simp: CancelSeries_def split: prod.splits)
  with series_store_frame(2) [OF i, of k] dvr_inv_store [OF unseries.prems] show ?case by simp
next
  case (close r)
  then show ?case by (simp add: dvr_Close_def dvr_inv_def)
next
  case (restart r clk)
  let ?r = "r\<lparr>dvActive := [], dvProcs := [], dvCancelled := [], dvStopped := False\<rparr>"
  have "dvr_inv abs inv ?r" using restart by (simp add: dvr_inv_def)
  from resume_ok [OF this, of env clk] show ?case by simp
qed

lemma dvr_steps_ok:
  "(dvr_step env S abs)\<^sup>*\<^sup>* r r' \<Longrightarrow> dvr_inv abs inv r \<Longrightarrow> dvr_inv abs inv r' \<and> progress (recs abs r) (recs abs r')"
proof (induction rule: rtranclp_induct)
  case (step r1 r2)
  note IH = step.IH [OF step.prems]
  from dvr_step_ok [OF step.hyps(2)] IH have "dvr_inv abs inv r2" "progress (recs abs r1) (recs abs r2)" by simp_all
  with IH progress_trans [of "recs abs r" "recs abs r1" "recs abs r2"] show ?case by simp
qed simp

end

section \<open>Nothing due is left waiting\<close>

context memory_recording_store begin

lemma tick_loop_frame:
  "dvr_inv abs inv r \<Longrightarrow> current abs r l \<Longrightarrow> \<forall>rec \<in> set l. rStatus rec = RecScheduled \<Longrightarrow>
   j \<notin> rID ` set l \<Longrightarrow> recs abs (tick_loop env S clk n l r) j = recs abs r j"
proof (induction l arbitrary: n r)
  case (Cons rec l)
  have rec: "recs abs r (rID rec) = Some rec" "rStatus rec = RecScheduled" "j \<noteq> rID rec"
    using Cons.prems by (auto simp: current_def)
  have idle: "rID rec \<notin> set (dvActive r)"
    using Cons.prems(1) rec by (force simp: dvr_inv_def)
  have go: ?case if t: "touches abs inv (rID rec) r r'" and
    e: "tick_loop env S clk n (rec # l) r = tick_loop env S clk m l r'" for r' m
  proof -
    have "recs abs (tick_loop env S clk m l r') j = recs abs r' j"
      using Cons.IH [OF touches_inv [OF t] current_step [OF Cons.prems(2) t]] Cons.prems(3,4) by simp
    with t rec(3) show ?thesis unfolding e by (simp add: touches_def)
  qed
  obtain rec' r1 where m: "maybeStart env S (clk n) (clk (n + 1)) rec r = (rec', r1)"
    by (cases "maybeStart env S (clk n) (clk (n + 1)) rec r")
  consider "\<not> After (rEndAt rec) (clk 0)" | "After (rEndAt rec) (clk 0)" "\<not> After (rStartAt rec) (clk 0)"
    | "After (rEndAt rec) (clk 0)" "After (rStartAt rec) (clk 0)" by blast
  then show ?case
  proof cases
    case 1
    show ?thesis
    proof (rule go)
      show "touches abs inv (rID rec) r (put_status S (rec\<lparr>rStatus := RecFailed\<rparr>) r)"
        using put_idle [OF Cons.prems(1), of "rec\<lparr>rStatus := RecFailed\<rparr>" rec] rec idle
          evolves_status [of rec RecFailed] by simp
    qed (simp add: 1)
  next
    case 2
    show ?thesis
    proof (rule go)
      show "touches abs inv (rID rec) r r1"
        using maybeStart_ok [OF Cons.prems(1) rec(1) _ m] rec(2) by simp
    qed (use 2 m in simp)
  next
    case 3
    show ?thesis by (rule go [OF touches_refl [OF Cons.prems(1)]]) (use 3 in simp)
  qed
qed simp

lemma maybeStart_due:
  assumes "maybeStart env S t1 t2 rec r = (rec', r')" "\<not> After (rStartAt rec) t1" "After (rEndAt rec) t1"
    and "rID rec \<notin> set (dvActive r)"
  shows "rStatus rec' = RecFailed \<or> rStatus rec' = RecRecording"
  using assms by (auto simp: maybeStart_def Let_def split: option.splits if_splits)

lemma tick_loop_due:
  assumes "\<And>n. clk n = t" "dvr_inv abs inv r" "current abs r l" "\<forall>rec \<in> set l. rStatus rec = RecScheduled"
    and "rec0 \<in> set l" "recs abs (tick_loop env S clk n l r) (rID rec0) = Some rec1" "rStatus rec1 = RecScheduled"
  shows "After (rStartAt rec1) t \<and> After (rEndAt rec1) t"
  using assms(2-7)
proof (induction l arbitrary: n r)
  case (Cons rec l)
  have rec: "recs abs r (rID rec) = Some rec" "rStatus rec = RecScheduled"
    using Cons.prems by (auto simp: current_def)
  have idle: "rID rec \<notin> set (dvActive r)"
    using Cons.prems(1) rec by (force simp: dvr_inv_def)
  have others: "rID rec \<notin> rID ` set l" using Cons.prems(2) by (auto simp: current_def)
  have go: ?case if t: "touches abs inv (rID rec) r r'" and
    e: "tick_loop env S clk n (rec # l) r = tick_loop env S clk m l r'" and
    x: "\<And>y. recs abs r' (rID rec) = Some y \<Longrightarrow> rStatus y = RecScheduled \<Longrightarrow> After (rStartAt y) t \<and> After (rEndAt y) t"
    for r' m
  proof (cases "rec0 \<in> set l")
    case True
    with Cons.IH [OF touches_inv [OF t] current_step [OF Cons.prems(2) t]] Cons.prems(3,5,6) e show ?thesis by simp
  next
    case False
    with Cons.prems(4) have "rec0 = rec" by simp
    with tick_loop_frame [OF touches_inv [OF t] current_step [OF Cons.prems(2) t] _ others] Cons.prems(3,5,6) e x
    show ?thesis by simp
  qed
  obtain rec' r1 where m: "maybeStart env S (clk n) (clk (n + 1)) rec r = (rec', r1)"
    by (cases "maybeStart env S (clk n) (clk (n + 1)) rec r")
  consider "\<not> After (rEndAt rec) t" | "After (rEndAt rec) t" "\<not> After (rStartAt rec) t"
    | "After (rEndAt rec) t" "After (rStartAt rec) t" by blast
  then show ?case
  proof cases
    case 1
    have i: "inv (dvStore r)" using Cons.prems(1) by (simp add: dvr_inv_def)
    show ?thesis
    proof (rule go)
      show "touches abs inv (rID rec) r (put_status S (rec\<lparr>rStatus := RecFailed\<rparr>) r)"
        using put_idle [OF Cons.prems(1), of "rec\<lparr>rStatus := RecFailed\<rparr>" rec] rec idle
          evolves_status [of rec RecFailed] by simp
    qed (use 1 assms(1) rec(1) put_status_exact(2) [OF i, of "rec\<lparr>rStatus := RecFailed\<rparr>"] in auto)
  next
    case 2
    have ok: "touches abs inv (rID rec) r r1 \<and> recs abs r1 (rID rec) = Some rec'"
      using maybeStart_ok [OF Cons.prems(1) rec(1) _ m] rec(2) by simp
    show ?thesis
    proof (rule go)
      show "touches abs inv (rID rec) r r1" using ok by simp
    qed (use 2 m assms(1) ok maybeStart_due [OF m _ _ idle] in auto)
  next
    case 3
    show ?thesis by (rule go [OF touches_refl [OF Cons.prems(1)]]) (use 3 assms(1) rec in auto)
  qed
qed simp

lemma tick_complete:
  assumes "\<And>n. clk n = t" "dvr_inv abs inv r"
    and "recs abs (tick env S clk r) k = Some rec1" "rStatus rec1 = RecScheduled"
  shows "After (rStartAt rec1) t \<and> After (rEndAt rec1) t"
proof -
  let ?l = "filterRecordings S (\<lambda>rec. rStatus rec = RecScheduled) r"
  have l: "current abs r ?l" "set ?l = {rec. \<exists>k. recs abs r k = Some rec \<and> rStatus rec = RecScheduled}"
    using filterRecordings_current [OF assms(2), of "\<lambda>rec. rStatus rec = RecScheduled"] by simp_all
  have sched: "\<forall>rec \<in> set ?l. rStatus rec = RecScheduled" using l(2) by auto
  have "k \<in> rID ` set ?l"
  proof (rule ccontr)
    assume "k \<notin> rID ` set ?l"
    from tick_loop_frame [OF assms(2) l(1) sched this] assms(3) have "recs abs r k = Some rec1" by (simp add: tick_def)
    then have "rec1 \<in> set ?l" unfolding l(2) using assms(4) by blast
    moreover have "rID rec1 = k" by (rule stored_id [OF assms(2)]) fact
    ultimately show False using \<open>k \<notin> rID ` set ?l\<close> by (metis imageI)
  qed
  then obtain rec0 where "rec0 \<in> set ?l" "k = rID rec0" by blast
  with tick_loop_due [OF assms(1,2) l(1) sched, of rec0] assms(3,4) show ?thesis by (simp add: tick_def)
qed

end

section \<open>A program is scheduled once\<close>

text \<open>A store in a condition \<open>up\<close> in which every write succeeds.\<close>

locale reliable_recording_store = memory_recording_store +
  fixes up :: "'a \<Rightarrow> bool"
  assumes CreateRecording_up: "up s \<Longrightarrow> \<exists>s'. CreateRecording S x s = (None, s') \<and> up s'"
    and UpdateRecording_up: "up s \<Longrightarrow> up (snd (UpdateRecording S x s))"

text \<open>No two recordings carry the same program ID.\<close>

definition programs_once :: "(string \<rightharpoonup> Recording) \<Rightarrow> bool" where
  "programs_once m \<longleftrightarrow> (\<forall>j k a b. m j = Some a \<longrightarrow> m k = Some b \<longrightarrow>
     rProgramID a = rProgramID b \<longrightarrow> rProgramID a \<noteq> [] \<longrightarrow> j = k)"

definition covered :: "(string \<rightharpoonup> Recording) \<Rightarrow> string list \<Rightarrow> bool" where
  "covered m ps \<longleftrightarrow> (\<forall>k rec. m k = Some rec \<longrightarrow> rProgramID rec \<noteq> [] \<longrightarrow> rProgramID rec \<in> set ps)"

lemma programs_once_new:
  assumes "programs_once m" "covered m ps" "rProgramID x \<notin> set ps" "m k = None"
  shows "programs_once (m(k \<mapsto> x)) \<and> covered (m(k \<mapsto> x)) (rProgramID x # ps)"
proof -
  have *: "rProgramID a \<noteq> rProgramID x" if "m j = Some a" "rProgramID a \<noteq> []" for j a
    using assms(2,3) that unfolding covered_def by metis
  show ?thesis using assms * unfolding programs_once_def covered_def by (auto split: if_splits) metis+
qed

context reliable_recording_store begin

lemma put_status_up: "up (dvStore r) \<Longrightarrow> up (dvStore (put_status S rec r))"
  by (simp add: put_status_def UpdateRecording_up)

lemma maybeStart_up:
  assumes "maybeStart env S t1 t2 rec r = (rec', r')" "up (dvStore r)"
  shows "up (dvStore r')"
  by (rule maybeStart_cases [OF assms(1)]) (auto simp: Let_def assms(2) intro!: put_status_up)

lemma scheduleFromAiring_up:
  assumes run: "scheduleFromAiring env S clk idRnd st a r = (res, r')" and up: "up (dvStore r)"
  shows "up (dvStore r') \<and> (\<forall>e. res = Inl e \<longrightarrow> r' = r)"
proof (cases "(Before (aiStop a) (clk 0) \<or> \<not> After (aiStop a) (aiStart a)) \<or> idRnd = None")
  case True
  with run up show ?thesis
    by (auto simp: scheduleFromAiring_def Schedule_def NewID_def randomHex_def split: if_splits)
next
  case False
  then obtain b where b: "idRnd = Some b" by auto
  let ?rec = "\<lparr>rID = hex_encode b, rChannelID = aiChannelID a, rChannelName = aiChannelName a,
      rProgramID = aiProgramID a, rName = aiTitle a, rPath = [], rStartAt = aiStart a, rEndAt = aiStop a,
      rStatus = RecScheduled, rCreatedAt = clk 1, rSeriesTimerID = []\<rparr>"
  obtain s' where c: "CreateRecording S ?rec (dvStore r) = (None, s')" "up s'"
    using CreateRecording_up [OF up] by blast
  obtain rec' r2 where ms: "maybeStart env S (clk 2) (clk 3) ?rec (r\<lparr>dvStore := s'\<rparr>) = (rec', r2)"
    by (cases "maybeStart env S (clk 2) (clk 3) ?rec (r\<lparr>dvStore := s'\<rparr>)")
  have "up (dvStore r2)" using maybeStart_up [OF ms] c(2) by simp
  moreover have "Schedule env S clk idRnd (aiChannelID a) (aiChannelName a) (aiProgramID a) (aiTitle a)
      (aiStart a) (aiStop a) r = (Inr rec', r2)"
    using False b c ms by (simp add: Schedule_def NewID_def randomHex_def)
  ultimately show ?thesis using run by (auto simp: scheduleFromAiring_def Let_def intro: put_status_up)
qed

lemma expand_airings_once:
  assumes "dvr_inv abs inv r" "fresh_from rnd i (recs abs r)" "up (dvStore r)"
    and "programs_once (recs abs r)" "covered (recs abs r) recorded"
    and "expand_airings env S now clk rnd st as (i, recorded, r) = (i', recorded', r')"
  shows "up (dvStore r') \<and> programs_once (recs abs r') \<and> covered (recs abs r') recorded'"
  using assms
proof (induction as arbitrary: i recorded r)
  case (Cons a as)
  show ?case
  proof (cases "airing_wanted st now recorded a")
    case False
    with Cons.prems Cons.IH [OF Cons.prems(1-5)] show ?thesis by simp
  next
    case True
    obtain res r1 where sch: "scheduleFromAiring env S (clk i) (rnd i) st a r = (res, r1)"
      by (cases "scheduleFromAiring env S (clk i) (rnd i) st a r")
    have new: "\<And>b. rnd i = Some b \<Longrightarrow> recs abs r (hex_encode b) = None"
      using Cons.prems(2) unfolding fresh_from_def by blast
    note ok = scheduleFromAiring_ok [OF Cons.prems(1) sch new]
    note up = scheduleFromAiring_up [OF sch Cons.prems(3)]
    have inv1: "dvr_inv abs inv r1" using ok by blast
    have f: "fresh_from rnd (Suc i) (recs abs r1)"
      using ok by (intro fresh_from_step [OF Cons.prems(2)]) blast
    show ?thesis
    proof (cases res)
      case (Inl e)
      then have "r1 = r" using up by blast
      with Cons.IH [OF inv1 f] Cons.prems up True sch Inl show ?thesis by simp
    next
      case (Inr rec)
      with ok obtain b where b: "rnd i = Some b" "recs abs r1 (hex_encode b) = Some rec"
        "rProgramID rec = aiProgramID a" by auto
      have "recs abs r1 = (recs abs r)(hex_encode b \<mapsto> rec)"
      proof
        fix j show "recs abs r1 j = ((recs abs r)(hex_encode b \<mapsto> rec)) j"
          using ok b by (cases "j = hex_encode b") auto
      qed
      then have p: "programs_once (recs abs r1) \<and> covered (recs abs r1) (aiProgramID a # recorded)"
        using programs_once_new [OF Cons.prems(4,5), of rec "hex_encode b"] True new [OF b(1)] b(3)
        by (simp add: airing_wanted_def)
      have e: "expand_airings env S now clk rnd st as (Suc i, aiProgramID a # recorded, r1) = (i', recorded', r')"
        using True sch Inr Cons.prems(6) by simp
      show ?thesis by (rule Cons.IH [OF inv1 f _ _ _ e]) (use up p in simp_all)
    qed
  qed
qed simp

lemma expand_timers_once:
  assumes "dvr_inv abs inv r" "fresh_from rnd i (recs abs r)" "up (dvStore r)"
    and "programs_once (recs abs r)" "covered (recs abs r) recorded"
    and "fold (\<lambda>st. expand_airings env S now clk rnd st as) timers (i, recorded, r) = (i', recorded', r')"
  shows "programs_once (recs abs r')"
  using assms
proof (induction timers arbitrary: i recorded r)
  case (Cons st timers)
  obtain i1 rec1 r1 where e: "expand_airings env S now clk rnd st as (i, recorded, r) = (i1, rec1, r1)"
    by (metis prod_cases3)
  note ok = expand_airings_ok [OF Cons.prems(1,2) e] and once = expand_airings_once [OF Cons.prems(1-5) e]
  from Cons.prems(6) e have "fold (\<lambda>st. expand_airings env S now clk rnd st as) timers (i1, rec1, r1) = (i', recorded', r')"
    by simp
  from Cons.IH [OF _ _ _ _ _ this] ok once show ?case by blast
qed simp

lemma expandSeries_once:
  assumes "dvr_inv abs inv r" "fresh_from rnd 0 (recs abs r)" "up (dvStore r)" "programs_once (recs abs r)"
  shows "programs_once (recs abs (expandSeries env S now clk rnd programs r))"
proof (cases "\<exists>fn timers. programs = Some fn \<and> ListSeriesTimers S (dvStore r) = Inr timers \<and> timers \<noteq> []")
  case True
  then obtain fn timers where t: "programs = Some fn" "ListSeriesTimers S (dvStore r) = Inr timers" "timers \<noteq> []"
    by blast
  let ?as = "fn now (now + 14 * 24 * Hour)"
  let ?rc = "filter (\<lambda>p. p \<noteq> []) (map rProgramID (filterRecordings S (\<lambda>_. True) r))"
  obtain i' rc' r' where e: "fold (\<lambda>st. expand_airings env S now clk rnd st ?as) timers (0, ?rc, r) = (i', rc', r')"
    by (metis prod_cases3)
  have "set (filterRecordings S (\<lambda>_. True) r) = {rec. \<exists>k. recs abs r k = Some rec}"
    using filterRecordings_current [OF assms(1), of "\<lambda>_. True"] by simp
  then have "covered (recs abs r) ?rc" by (auto simp: covered_def)
  moreover have "expandSeries env S now clk rnd programs r = r'"
    using e by (simp add: expandSeries_def t Let_def)
  ultimately show ?thesis using expand_timers_once [OF assms(1-4) _ e] by simp
next
  case False
  then have "expandSeries env S now clk rnd programs r = r"
    by (auto simp: expandSeries_def split: option.splits sum.splits)
  with assms(4) show ?thesis by simp
qed

end

definition json_up :: "jsonStore \<Rightarrow> bool" where
  "json_up s \<longleftrightarrow> jEnv s = []"

lemma flushLocked_up: "jEnv s = [] \<Longrightarrow> \<exists>s'. flushLocked s = (None, s') \<and> jEnv s' = []"
  by (simp add: flushLocked_def Let_def)

interpretation json_reliable: reliable_recording_store json_store json_abs json_inv json_up
proof (unfold_locales, goal_cases)
  case (1 s x)
  then show ?case using flushLocked_up [of "s\<lparr>jRecordings := map_set (rID x) x (jRecordings s)\<rparr>"]
    by (simp add: json_CreateRecording_def json_up_def)
next
  case (2 s x)
  then show ?case using flushLocked_up [of "s\<lparr>jRecordings := map_set (rID x) x (jRecordings s)\<rparr>"]
    by (auto simp: json_UpdateRecording_def json_up_def)
qed

section \<open>Stream paths\<close>

lemma hasParentEscape_climbs: "hasParentEscape rel \<longleftrightarrow> climbs rel"
proof -
  have "take 3 rel = ''../'' \<Longrightarrow> 3 \<le> length rel"
    by (drule arg_cong [of _ _ length]) simp
  then show ?thesis
    by (auto simp: hasParentEscape_def climbs_def HasPrefix_def dotdot_def numeral_3_eq_3)
qed

lemma StreamPath_below:
  assumes "StreamPath env S k r = Some p" "IsAbs (deDir env)"
  shows "IsAbs p \<and> (\<exists>rest. elements p = elements (deDir env) @ rest \<and> dotdot \<notin> set rest)"
proof -
  obtain rel where "Rel (deDir env) p = Some rel" "\<not> climbs rel"
    using assms(1) hasParentEscape_climbs
    by (auto simp: StreamPath_def split: sum.splits if_splits option.splits)
  then show ?thesis using Rel_contained [OF _ _ assms(2)] by blast
qed

section \<open>Titles\<close>

text \<open>Words of lower-case letters and digits, one space between them; \<open>p\<close>: a space may not come next.\<close>

fun canonical :: "bool \<Rightarrow> string \<Rightarrow> bool" where
  "canonical p [] = True"
| "canonical p (c # cs) =
     (if title_char c then canonical False cs else c = CHR '' '' \<and> \<not> p \<and> canonical True cs)"

lemma normalize_loop_canonical: "canonical p (normalize_loop p s)"
proof (induction p s rule: normalize_loop.induct)
  case (2 p c cs)
  have "\<not> title_char CHR '' ''" by (simp add: title_char_def is_digit_def less_eq_char_def)
  with 2 show ?case by auto
qed simp

lemma canonical_fixed: "canonical p s \<Longrightarrow> normalize_loop p s = s"
  by (induction p s rule: canonical.induct) (auto split: if_splits)

lemma canonical_butlast: "canonical p s \<Longrightarrow> canonical p (butlast s)"
  by (induction p s rule: canonical.induct) (auto split: if_splits)

lemma title_char_lower: "title_char c \<Longrightarrow> lower_char c = c"
  by (auto simp: title_char_def is_digit_def lower_char_def less_eq_char_def)

lemma canonical_lower: "canonical p s \<Longrightarrow> ToLower s = s"
proof (induction p s rule: canonical.induct)
  case (2 p c cs)
  have "lower_char CHR '' '' = CHR '' ''" by (simp add: lower_char_def less_eq_char_def)
  with 2 show ?case by (auto simp: ToLower_def title_char_lower split: if_splits)
qed (simp add: ToLower_def)

lemma space_not_title: "\<not> title_char CHR '' ''"
  by (simp add: title_char_def is_digit_def less_eq_char_def)

lemma canonical_no_double: "\<not> canonical p (t @ [CHR '' '', CHR '' ''])"
  by (induction t arbitrary: p) (simp_all add: space_not_title)

lemma canonical_last:
  assumes "canonical p s" "s \<noteq> []" "last s = CHR '' ''" "butlast s \<noteq> []"
  shows "last (butlast s) \<noteq> CHR '' ''"
proof
  assume "last (butlast s) = CHR '' ''"
  then have "butlast s = butlast (butlast s) @ [CHR '' '']" using assms(4) by (metis append_butlast_last_id)
  moreover have "s = butlast s @ [CHR '' '']" using assms(2,3) by (metis append_butlast_last_id)
  ultimately have "s = butlast (butlast s) @ [CHR '' '', CHR '' '']" by (metis append.assoc append_Cons append_Nil)
  with assms(1) canonical_no_double show False by metis
qed

lemma normalizeTitle_canonical:
  "canonical True (normalizeTitle s) \<and> (normalizeTitle s \<noteq> [] \<longrightarrow> last (normalizeTitle s) \<noteq> CHR '' '')"
proof -
  let ?o = "normalize_loop True (ToLower s)"
  have c: "canonical True ?o" by (rule normalize_loop_canonical)
  show ?thesis
    using c canonical_butlast [OF c] canonical_last [OF c] by (auto simp: normalizeTitle_def Let_def)
qed

lemma normalizeTitle_fixed:
  assumes "canonical True s" "s \<noteq> [] \<longrightarrow> last s \<noteq> CHR '' ''"
  shows "normalizeTitle s = s"
  using assms by (auto simp: normalizeTitle_def Let_def canonical_lower canonical_fixed)

end
