(* ===== verification/DvrProps.thy ===== *)
theory DvrProps
  imports DvrSeries StoreProps
begin

text \<open>
  The properties of the recorder over the JSON store, each followed by an instance on concrete
  data.
\<close>

section \<open>Concrete data\<close>

definition env0 :: dvrEnv where
  "env0 = \<lparr>deDir = ''/rec'', deStreamURL = (\<lambda>ch. if ch = ''c'' then Some ''http://up/1'' else None),
     deCmdStart = (\<lambda>_. True), deStat = (\<lambda>p. Some 7)\<rparr>"

definition dvr0 :: "jsonStore dvr" where
  "dvr0 = \<lparr>dvStore = json0, dvActive = [], dvProcs = [], dvCancelled = [], dvStopped = False\<rparr>"

lemma dvr0_inv: "dvr_inv json_abs json_inv dvr0"
  by (simp add: dvr_inv_def dvr0_def json0_inv)

lemma dvr0_recs: "recs json_abs dvr0 j = None"
  by (simp add: dvr0_def json0_def)

lemma dvr0_get: "map_get (jRecordings (dvStore dvr0)) j = None"
  by (simp add: dvr0_def json0_def)

section \<open>Histories of the recorder\<close>


definition dvr1 :: "jsonStore dvr" where
  "dvr1 = snd (Schedule env0 json_store (\<lambda>_. 10) (Some ''x'') ''c'' ''One'' ''p'' ''News'' 5 20 dvr0)"

definition rec1 :: Recording where
  "rec1 = \<lparr>rID = ''78'', rChannelID = ''c'', rChannelName = ''One'', rProgramID = ''p'', rName = ''News'',
     rPath = ''/rec/78.ts'', rStartAt = 5, rEndAt = 20, rStatus = RecRecording, rCreatedAt = 10,
     rSeriesTimerID = []\<rparr>"

lemma dvr1_rec: "recs json_abs dvr1 ''78'' = Some rec1 \<and> ''78'' \<in> fst ` set (dvProcs dvr1)"
  by code_simp

lemma dvr1_step: "dvr_step env0 json_store json_abs dvr0 dvr1"
proof -
  have "Schedule env0 json_store (\<lambda>_. 10) (Some ''x'') ''c'' ''One'' ''p'' ''News'' 5 20 dvr0 =
    (fst (Schedule env0 json_store (\<lambda>_. 10) (Some ''x'') ''c'' ''One'' ''p'' ''News'' 5 20 dvr0), dvr1)"
    by (simp add: dvr1_def)
  then show ?thesis by (rule dvr_step.schedule) (simp add: dvr0_get)
qed


section \<open>The scheduler\<close>

text \<open>C20. After a tick at time \<open>t\<close> every recording that is still Scheduled is one whose start and
  end lie after \<open>t\<close>: every due one was started, or was marked Failed.\<close>

theorem tick_starts_all_due:
  assumes "\<And>n. clk n = t" "dvr_inv json_abs json_inv r"
    and "recs json_abs (tick env json_store clk r) k = Some rec" "rStatus rec = RecScheduled"
  shows "t < rStartAt rec \<and> t < rEndAt rec"
  using json_timers.tick_complete [OF assms] by (simp add: After_def)

definition dvr2 :: "jsonStore dvr" where
  "dvr2 = snd (Schedule env0 json_store (\<lambda>_. 10) (Some ''x'') ''c'' ''One'' ''p'' ''News'' 15 20 dvr0)"

lemma tick_starts_all_due_witness:
  "\<exists>rec. recs json_abs (tick env0 json_store (\<lambda>_. 12) dvr2) ''78'' = Some rec \<and> 12 < rStartAt rec"
proof -
  have "Schedule env0 json_store (\<lambda>_. 10) (Some ''x'') ''c'' ''One'' ''p'' ''News'' 15 20 dvr0 =
    (fst (Schedule env0 json_store (\<lambda>_. 10) (Some ''x'') ''c'' ''One'' ''p'' ''News'' 15 20 dvr0), dvr2)"
    by (simp add: dvr2_def)
  then have "dvr_step env0 json_store json_abs dvr0 dvr2" by (rule dvr_step.schedule) (simp add: dvr0_get)
  then have i: "dvr_inv json_abs json_inv dvr2" using json_timers.dvr_step_ok [OF _ dvr0_inv] by blast
  have "map_option rStatus (recs json_abs (tick env0 json_store (\<lambda>_. 12) dvr2) ''78'') = Some RecScheduled"
    by code_simp
  then obtain rec where "recs json_abs (tick env0 json_store (\<lambda>_. 12) dvr2) ''78'' = Some rec" "rStatus rec = RecScheduled"
    by auto
  with tick_starts_all_due [OF _ i, of "\<lambda>_. 12" 12 env0 "''78''" rec] show ?thesis by simp
qed

section \<open>Series\<close>


definition series0 :: SeriesTimer where
  "series0 = \<lparr>tID = ''t'', tChannelID = [], tChannelName = [], tName = ''The News'', tRecordAnyChannel = True,
     tCreatedAt = 1\<rparr>"

definition airing0 :: "string \<Rightarrow> time \<Rightarrow> Airing" where
  "airing0 p t = \<lparr>aiProgramID = p, aiChannelID = ''c'', aiChannelName = ''One'', aiTitle = ''The NEWS: late'',
     aiStart = t, aiStop = t + 5\<rparr>"

definition dvr3 :: "jsonStore dvr" where
  "dvr3 = dvr0\<lparr>dvStore := json0\<lparr>jSeriesTimers := [(''t'', series0), (''t2'', series0\<lparr>tID := ''t2''\<rparr>)]\<rparr>\<rparr>"

definition draw3 :: "nat \<Rightarrow> string option" where
  "draw3 n = (if n = 0 then Some ''x'' else if n = 1 then Some ''y'' else None)"

definition guide3 :: "time \<Rightarrow> time \<Rightarrow> Airing list" where
  "guide3 a b = [airing0 ''p'' 20, airing0 ''p'' 40, airing0 ''q'' 60]"

lemma expand3: "map_option rProgramID (recs json_abs (expandSeries env0 json_store 10 (\<lambda>_ _. 10) draw3 (Some guide3) dvr3) ''78'') = Some ''p'' \<and>
    map_option rProgramID (recs json_abs (expandSeries env0 json_store 10 (\<lambda>_ _. 10) draw3 (Some guide3) dvr3) ''79'') = Some ''q''"
  by code_simp


text \<open>C24. A race between a capture that ends at once and the expansion of a series:
  \<open>scheduleFromAiring\<close> writes the copy \<open>Schedule\<close> gave it back to the store. When the capture's
  process exits between the two, \<open>finalize\<close> has already stored the final status, and the stale
  copy overwrites it: the recording says Recording again although no capture and no process is
  left for it.\<close>

theorem series_stale_write:
  assumes "dvr_inv json_abs json_inv r" "\<And>b. idRnd = Some b \<Longrightarrow> recs json_abs r (hex_encode b) = None"
    and "Schedule env json_store clk idRnd ch cn p nm start stop r = (Inr rec, r1)" "rStatus rec = RecRecording"
    and "r2 = finalize env json_store (rID rec) r1"
    and "r3 = put_status json_store (rec\<lparr>rSeriesTimerID := tID st\<rparr>) r2"
  shows "(\<exists>x. recs json_abs r2 (rID rec) = Some x \<and> rStatus x \<in> {RecCompleted, RecFailed}) \<and>
    (\<exists>x. recs json_abs r3 (rID rec) = Some x \<and> rStatus x = RecRecording) \<and>
    rID rec \<notin> set (dvActive r3) \<and> rID rec \<notin> fst ` set (dvProcs r3)"
proof -
  let ?k = "rID rec"
  have s: "dvr_inv json_abs json_inv r1" "recs json_abs r1 ?k = Some rec"
    using json_timers.Schedule_ok [OF assms(1,3,2)] by blast+
  have i: "json_inv (dvStore r1)" using s(1) by (simp add: dvr_inv_def)
  have g: "GetRecording json_store ?k (dvStore r1) = Inr rec"
    using json_timers.GetRecording_stored [OF i] s(2) by simp
  let ?r1 = "r1\<lparr>dvActive := filter (\<lambda>j. j \<noteq> ?k) (dvActive r1), dvProcs := filter (\<lambda>(j, _). j \<noteq> ?k) (dvProcs r1)\<rparr>"
  obtain x where x: "r2 = put_status json_store x ?r1" "rID x = ?k" "rStatus x \<in> {RecCompleted, RecFailed}"
    using assms(5) g assms(4)
    by (auto simp: finalize_def Let_def RecRecording_def RecCancelled_def split: option.splits if_splits)
  have r2: "json_inv (dvStore r2)" "recs json_abs r2 ?k = Some x" "dvActive r2 = dvActive ?r1" "dvProcs r2 = dvProcs ?r1"
    using json_timers.put_status_exact [of ?r1 x] i s(2) x(1,2) by simp_all
  have "recs json_abs r3 ?k = Some (rec\<lparr>rSeriesTimerID := tID st\<rparr>)"
    using json_timers.put_status_exact(2) [of r2 "rec\<lparr>rSeriesTimerID := tID st\<rparr>"] r2 assms(6) by simp
  with r2 x assms(4,6) show ?thesis by auto
qed

lemma series_stale_write_witness:
  "\<exists>x. recs json_abs (put_status json_store (rec1\<lparr>rSeriesTimerID := ''t''\<rparr>) (finalize env0 json_store ''78'' dvr1)) ''78'' = Some x
     \<and> rStatus x = RecRecording"
proof -
  have run: "Schedule env0 json_store (\<lambda>_. 10) (Some ''x'') ''c'' ''One'' ''p'' ''News'' 5 20 dvr0 = (Inr rec1, dvr1)"
    unfolding dvr1_def by (rule prod_eqI) (simp_all, code_simp)
  have id: "rID rec1 = ''78''" "rStatus rec1 = RecRecording" by (simp_all add: rec1_def)
  from series_stale_write [OF dvr0_inv _ run id(2) refl refl, of series0] show ?thesis
    by (auto simp: id(1) dvr0_get series0_def)
qed

section \<open>Streams and titles\<close>

text \<open>C22. Whatever path a recording in the store carries, a path \<open>StreamPath\<close> gives out is an
  absolute one that continues the path of the recordings' directory, element by element, and
  climbs nowhere.\<close>

theorem stream_path_confined:
  assumes "StreamPath env S k r = Some p" "IsAbs (deDir env)"
  shows "IsAbs p \<and> (\<exists>rest. elements p = elements (deDir env) @ rest \<and> dotdot \<notin> set rest)"
  by (rule StreamPath_below) (fact assms)+

definition dvr4 :: "jsonStore dvr" where
  "dvr4 = dvr0\<lparr>dvStore := json0\<lparr>jRecordings := [(''78'', rec1\<lparr>rStatus := RecCompleted\<rparr>),
     (''79'', rec1\<lparr>rID := ''79'', rPath := ''/rec/../etc/passwd'', rStatus := RecCompleted\<rparr>)]\<rparr>\<rparr>"

lemma StreamPath_hostile: "StreamPath env0 json_store ''79'' dvr4 = None"
  by code_simp

lemma stream_path_confined_witness: "IsAbs ''/rec/78.ts'' \<and> StreamPath env0 json_store ''78'' dvr4 = Some ''/rec/78.ts''"
proof -
  have *: "StreamPath env0 json_store ''78'' dvr4 = Some ''/rec/78.ts''" by code_simp
  from stream_path_confined [OF this] * show ?thesis by (simp add: env0_def IsAbs_def HasPrefix_def slash_def)
qed

text \<open>\<open>normalizeTitle\<close> yields a canonical form: words of lower-case letters and digits with one
  space between them and none at the ends; a title already in that form is unchanged, so
  normalizing twice is normalizing once.\<close>

theorem normalize_title_canonical:
  "canonical True (normalizeTitle s) \<and> (normalizeTitle s \<noteq> [] \<longrightarrow> last (normalizeTitle s) \<noteq> CHR '' '') \<and>
   normalizeTitle (normalizeTitle s) = normalizeTitle s"
  using normalizeTitle_canonical [of s] normalizeTitle_fixed [of "normalizeTitle s"] by blast

lemma normalize_title_canonical_witness:
  "normalizeTitle (normalizeTitle ''  The NEWS: 10pm! '') = ''the news 10pm''"
proof -
  have "normalizeTitle ''  The NEWS: 10pm! '' = ''the news 10pm''" by code_simp
  with normalize_title_canonical [of "''  The NEWS: 10pm! ''"] show ?thesis by simp
qed

end
