(* ===== verification/Numbers.thy ===== *)
theory Numbers
  imports Crypto Complex_Main "HOL-Library.Log_Nat"
begin

text \<open>
  Numbers as Go's library reads and prints them: \<open>strconv.ParseInt\<close>, \<open>Atoi\<close>, \<open>ParseBool\<close> and
  \<open>FormatFloat\<close>, and \<open>float64\<close> arithmetic as exact rational arithmetic followed by \<open>fl64\<close>, the
  rounding to 53 significant bits, ties to even. Exponents are unbounded: the code's values are
  far from the ends of the range of \<open>float64\<close>.
\<close>

section \<open>Integers\<close>

datatype num_err = ErrSyntax | ErrRange

fun parse_uint_loop :: "nat \<Rightarrow> string \<Rightarrow> num_err + nat" where
  "parse_uint_loop n [] = Inr n"
| "parse_uint_loop n (c # cs) =
     (if \<not> is_digit c then Inl ErrSyntax
      else let n1 = 10 * n + (of_char c - 48) in
        if n1 \<ge> 2 ^ 64 then Inl ErrRange else parse_uint_loop n1 cs)"

definition ParseUint :: "string \<Rightarrow> num_err + nat" where
  "ParseUint s = (if s = [] then Inl ErrSyntax else parse_uint_loop 0 s)"

text \<open>The value comes with an error too: 0 for bad syntax, the nearest bound out of range.\<close>

definition ParseInt :: "string \<Rightarrow> int \<times> num_err option" where
  "ParseInt s =
     (let neg = HasPrefix s ''-''; ds = (if neg \<or> HasPrefix s ''+'' then drop 1 s else s)
      in case ParseUint ds of
           Inl ErrSyntax \<Rightarrow> (0, Some ErrSyntax)
         | Inl ErrRange \<Rightarrow> (if neg then - (2 ^ 63) else 2 ^ 63 - 1, Some ErrRange)
         | Inr n \<Rightarrow>
             if \<not> neg \<and> n \<ge> 2 ^ 63 then (2 ^ 63 - 1, Some ErrRange)
             else if neg \<and> n > 2 ^ 63 then (- (2 ^ 63), Some ErrRange)
             else (if neg then - int n else int n, None))"

definition Atoi :: "string \<Rightarrow> int \<times> num_err option" where
  "Atoi = ParseInt"

definition ParseBool :: "string \<Rightarrow> bool" where
  "ParseBool s \<longleftrightarrow> s \<in> {''1'', ''t'', ''T'', ''TRUE'', ''true'', ''True''}"

lemma is_digit_of_nat: "n < 10 \<Longrightarrow> is_digit (char_of (48 + n :: nat))"
  by (simp add: is_digit_def less_eq_char_def of_char_mod_256)

lemma digits_nat_digits: "set (digits_nat n) \<subseteq> Collect is_digit"
  by (induction n rule: digits_nat.induct) (subst digits_nat.simps, simp add: is_digit_of_nat)

lemma digits_nat_ne [simp]: "digits_nat n \<noteq> []"
  by (subst digits_nat.simps) simp

lemma parse_uint_append:
  "parse_uint_loop n (s @ t) = (case parse_uint_loop n s of Inl e \<Rightarrow> Inl e | Inr k \<Rightarrow> parse_uint_loop k t)"
  by (induction n s rule: parse_uint_loop.induct) (simp_all add: Let_def)

lemma parse_digits_nat: "n < 2 ^ 64 \<Longrightarrow> parse_uint_loop 0 (digits_nat n) = Inr n"
proof (induction n rule: digits_nat.induct)
  case (1 n)
  have d: "(of_char (char_of (48 + k) :: char) :: nat) = 48 + k" if "k < 10" for k
    using that by (simp add: of_char_mod_256)
  show ?case
  proof (cases "n < 10")
    case True
    then show ?thesis by (subst digits_nat.simps) (simp add: is_digit_of_nat d Let_def)
  next
    case False
    then have "n div 10 < 2 ^ 64" using "1.prems" by simp
    with False 1 show ?thesis
      by (subst digits_nat.simps) (simp add: is_digit_of_nat d Let_def parse_uint_append)
  qed
qed

lemma parse_digits_range: "n \<ge> 2 ^ 64 \<Longrightarrow> parse_uint_loop 0 (digits_nat n) = Inl ErrRange"
proof (induction n rule: digits_nat.induct)
  case (1 n)
  have d: "(of_char (char_of (48 + k) :: char) :: nat) = 48 + k" if "k < 10" for k
    using that by (simp add: of_char_mod_256)
  have n: "\<not> n < 10" using "1.prems" by simp
  show ?case
  proof (cases "n div 10 < 2 ^ 64")
    case True
    with n "1.prems" parse_digits_nat [OF True] show ?thesis
      by (subst digits_nat.simps) (simp add: is_digit_of_nat d Let_def parse_uint_append)
  next
    case False
    with n "1.IH" show ?thesis
      by (subst digits_nat.simps) (simp add: parse_uint_append)
  qed
qed

lemma digit_not_sign: "is_digit c \<Longrightarrow> c \<noteq> CHR ''-'' \<and> c \<noteq> CHR ''+''"
  by (auto simp: is_digit_def less_eq_char_def)

lemma digits_no_sign: "\<not> HasPrefix (digits_nat n) ''-''" "\<not> HasPrefix (digits_nat n) ''+''"
proof -
  obtain c cs where c: "digits_nat n = c # cs" by (cases "digits_nat n") simp_all
  then have "is_digit c" using digits_nat_digits [of n] by auto
  from digit_not_sign [OF this] c
  show "\<not> HasPrefix (digits_nat n) ''-''" "\<not> HasPrefix (digits_nat n) ''+''"
    by (simp_all add: HasPrefix_def)
qed

text \<open>\<open>ParseInt\<close> undoes \<open>Itoa\<close> on the 64-bit integers.\<close>

lemma ParseInt_Itoa:
  assumes "- (2 ^ 63) \<le> i" "i < 2 ^ 63"
  shows "ParseInt (Itoa i) = (i, None)"
proof (cases "i < 0")
  case True
  then have n: "nat (- i) \<le> 2 ^ 63" "nat (- i) < 2 ^ 64" using assms by (simp_all add: nat_le_iff nat_less_iff)
  have s: "Itoa i = CHR ''-'' # digits_nat (nat (- i))" using True by (simp add: Itoa_def)
  show ?thesis
    unfolding ParseInt_def s using True n parse_digits_nat [OF n(2)]
    by (simp add: HasPrefix_def ParseUint_def Let_def)
next
  case False
  then have n: "nat i < 2 ^ 63" "nat i < 2 ^ 64" using assms by (simp_all add: nat_less_iff)
  have s: "Itoa i = digits_nat (nat i)" using False by (simp add: Itoa_def)
  show ?thesis
    unfolding ParseInt_def s using False n parse_digits_nat [OF n(2)] digits_no_sign [of "nat i"]
    by (simp add: ParseUint_def Let_def)
qed

lemma digits_nat_inject: "digits_nat a = digits_nat b \<longleftrightarrow> a = b"
proof
  have val: "foldl (\<lambda>a c. 10 * a + (of_char c - 48)) 0 (digits_nat n) = n" for n
  proof (induction n rule: digits_nat.induct)
    case (1 n)
    have d: "(of_char (char_of (48 + k) :: char) :: nat) = 48 + k" if "k < 10" for k
      using that by (simp add: of_char_mod_256)
    show ?case by (cases "n < 10"; subst digits_nat.simps) (simp_all add: 1 d)
  qed
  assume "digits_nat a = digits_nat b"
  then show "a = b" using val [of a] val [of b] by metis
qed simp

lemma Itoa_inject: "Itoa a = Itoa b \<longleftrightarrow> a = b"
proof -
  have "CHR ''-'' # digits_nat m \<noteq> digits_nat n" for m n
    using digits_no_sign(1) [of n] by (metis HasPrefix_append append_Cons append_Nil)
  note ne = this this [symmetric]
  show ?thesis by (auto simp: Itoa_def digits_nat_inject ne)
qed

section \<open>Floating point\<close>

definition round_even :: "rat \<Rightarrow> int" where
  "round_even x = (let f = floor x; d = x - of_int f in
     if d < 1 / 2 then f else if d > 1 / 2 then f + 1 else if even f then f else f + 1)"

definition pow2 :: "int \<Rightarrow> rat" where
  "pow2 e = (if 0 \<le> e then 2 ^ nat e else 1 / 2 ^ nat (- e))"

text \<open>The exponent \<open>e\<close> with \<open>2^e \<le> x < 2^(e+1)\<close> of a positive \<open>x\<close>.\<close>

definition exponent :: "rat \<Rightarrow> int" where
  "exponent x = (case quotient_of x of (n, d) \<Rightarrow>
     let e = int (floorlog 2 (nat n)) - int (floorlog 2 (nat d)) in if pow2 e \<le> x then e else e - 1)"

definition fl64 :: "rat \<Rightarrow> rat" where
  "fl64 x = (if x = 0 then 0
     else let a = \<bar>x\<bar>; u = pow2 (exponent a - 52) in sgn x * (of_int (round_even (a / u)) * u))"

text \<open>\<open>strconv.FormatFloat(x, 'f', 3, 64)\<close>.\<close>

definition FormatFloat3 :: "rat \<Rightarrow> string" where
  "FormatFloat3 x =
     (let n = nat (round_even (\<bar>x\<bar> * 1000)); frac = n mod 1000
      in (if x < 0 then ''-'' else []) @ digits_nat (n div 1000) @ ''.'' @
         digits_nat (frac div 100) @ digits_nat (frac div 10 mod 10) @ digits_nat (frac mod 10))"

text \<open>\<open>float64(ticks) / 1e7\<close>.\<close>

definition ticksToSeconds :: "int \<Rightarrow> rat" where
  "ticksToSeconds ticks = fl64 (fl64 (of_int ticks) / 10000000)"

text \<open>\<open>time.Time.Sub\<close>, which saturates, and \<open>time.Duration.Seconds\<close>.\<close>

definition TimeSub :: "time \<Rightarrow> time \<Rightarrow> duration" where
  "TimeSub t u = max (- (2 ^ 63)) (min (2 ^ 63 - 1) (t - u))"

definition Seconds :: "duration \<Rightarrow> rat" where
  "Seconds d = (let q = \<bar>d\<bar> div Second; r = \<bar>d\<bar> mod Second in
     of_int (sgn d) * fl64 (of_int q + fl64 (of_int r / 1000000000)))"

lemma round_even_bounds: "of_int (round_even x) \<le> x + 1 / 2 \<and> x - 1 / 2 \<le> of_int (round_even x)"
proof -
  let ?f = "floor x" and ?d = "x - of_int (floor x)"
  have d: "of_int ?f \<le> x" "x < of_int ?f + 1" by linarith+
  show ?thesis
    by (cases "?d < 1 / 2"; cases "?d > 1 / 2"; cases "even ?f"; simp add: round_even_def Let_def; use d in linarith)
qed

lemma round_even_int [simp]: "round_even (of_int i) = i"
  by (simp add: round_even_def)

lemma round_even_mono: "x \<le> y \<Longrightarrow> round_even x \<le> round_even y"
proof -
  assume xy: "x \<le> y"
  show ?thesis
  proof (cases "floor x = floor y")
    case True
    then show ?thesis using xy by (auto simp: round_even_def Let_def)
  next
    case False
    then have "floor x + 1 \<le> floor y" using floor_mono [OF xy] by linarith
    moreover have "round_even x \<le> floor x + 1" "floor y \<le> round_even y"
      by (simp_all add: round_even_def Let_def)
    ultimately show ?thesis by linarith
  qed
qed

lemma pow2_pos [simp]: "pow2 e > 0"
  by (simp add: pow2_def)

lemma pow2_ne [simp]: "pow2 e \<noteq> 0"
  using pow2_pos [of e] by linarith

lemma pow2_Suc: "pow2 (e + 1) = 2 * pow2 e"
proof -
  consider "e \<ge> 0" | "e = -1" | "e < -1" by linarith
  then show ?thesis
  proof cases
    case 1
    then show ?thesis by (simp add: pow2_def nat_add_distrib)
  next
    case 2
    then show ?thesis by (simp add: pow2_def)
  next
    case 3
    then have "nat (- e) = Suc (nat (- e - 1))" by simp
    then have "(2 :: rat) ^ nat (- e) = 2 * 2 ^ nat (- e - 1)" by (metis power_Suc)
    with 3 show ?thesis by (simp add: pow2_def)
  qed
qed

lemma pow2_add_nat: "pow2 (e + int n) = 2 ^ n * pow2 e"
proof (induction n)
  case (Suc n)
  have "pow2 (e + int (Suc n)) = pow2 ((e + int n) + 1)" by (simp add: algebra_simps)
  with Suc show ?case by (simp add: pow2_Suc)
qed simp

lemma pow2_mono: "a \<le> b \<Longrightarrow> pow2 a \<le> pow2 b"
proof -
  assume "a \<le> b"
  then have "pow2 b = 2 ^ nat (b - a) * pow2 a" using pow2_add_nat [of a "nat (b - a)"] by simp
  moreover have "1 * pow2 a \<le> 2 ^ nat (b - a) * pow2 a"
    by (rule mult_right_mono) (simp_all add: less_imp_le)
  ultimately show ?thesis by simp
qed

lemma pow2_diff: "pow2 (int a - int b) = 2 ^ a / 2 ^ b"
proof (cases "b \<le> a")
  case True
  then have "nat (int a - int b) = a - b" by simp
  with True show ?thesis by (simp add: pow2_def power_diff)
next
  case False
  then have "nat (- (int a - int b)) = b - a" by simp
  moreover have "(2 :: rat) ^ (b - a) = 2 ^ b / 2 ^ a" using False by (intro power_diff) simp_all
  ultimately show ?thesis using False by (simp add: pow2_def)
qed

lemma exponent_bounds:
  assumes "x > 0"
  shows "pow2 (exponent x) \<le> x \<and> x < pow2 (exponent x + 1)"
proof -
  obtain n d where q: "quotient_of x = (n, d)" by (cases "quotient_of x")
  then have d: "d > 0" and x: "x = of_int n / of_int d"
    using quotient_of_denom_pos quotient_of_div by blast+
  have n: "n > 0" using assms d by (simp add: x zero_less_divide_iff)
  let ?N = "floorlog 2 (nat n)" and ?D = "floorlog 2 (nat d)"
  have N: "2 ^ (?N - 1) \<le> nat n" "nat n < 2 ^ ?N" and D: "2 ^ (?D - 1) \<le> nat d" "nat d < 2 ^ ?D" and p: "?N > 0" "?D > 0"
    using n d floorlog_bounds [of "nat n" 2] floorlog_bounds [of "nat d" 2] by (simp_all add: floorlog_def)
  have c: "(of_int n :: rat) = of_nat (nat n)" "(of_int d :: rat) = of_nat (nat d)" using n d by simp_all
  have r: "(2 :: rat) ^ (?N - 1) \<le> of_int n" "of_int n < (2 :: rat) ^ ?N"
    "(2 :: rat) ^ (?D - 1) \<le> of_int d" "of_int d < (2 :: rat) ^ ?D"
    unfolding c using N D by (metis of_nat_le_iff of_nat_less_iff of_nat_power of_nat_numeral)+
  have up: "x < pow2 (int ?N - int ?D + 1)"
  proof -
    have "x < 2 ^ ?N / 2 ^ (?D - 1)" unfolding x using r n d by (intro frac_less) simp_all
    also have "\<dots> = pow2 (int ?N - int (?D - 1))" by (rule pow2_diff [symmetric])
    finally show ?thesis using p by (simp add: of_nat_diff algebra_simps)
  qed
  have low: "pow2 (int ?N - int ?D - 1) \<le> x"
  proof -
    have "pow2 (int (?N - 1) - int ?D) = 2 ^ (?N - 1) / 2 ^ ?D" by (rule pow2_diff)
    also have "\<dots> \<le> x" unfolding x using r n d by (intro frac_le) simp_all
    finally show ?thesis using p by (simp add: of_nat_diff algebra_simps)
  qed
  show ?thesis
    using up low by (simp add: exponent_def q Let_def)
qed

lemma exponent_mono: "0 < x \<Longrightarrow> x \<le> y \<Longrightarrow> exponent x \<le> exponent y"
proof (rule ccontr)
  assume *: "0 < x" "x \<le> y" "\<not> exponent x \<le> exponent y"
  then have "pow2 (exponent y + 1) \<le> pow2 (exponent x)" by (intro pow2_mono) simp
  with * exponent_bounds [of x] exponent_bounds [of y] show False by linarith
qed

text \<open>The significand of a positive number has 53 bits.\<close>

lemma significand_bounds:
  assumes "x > 0"
  shows "2 ^ 52 \<le> round_even (x / pow2 (exponent x - 52)) \<and> round_even (x / pow2 (exponent x - 52)) \<le> 2 ^ 53"
proof -
  let ?u = "pow2 (exponent x - 52)"
  have "pow2 (exponent x) = 2 ^ 52 * ?u" "pow2 (exponent x + 1) = 2 ^ 53 * ?u"
    using pow2_add_nat [of "exponent x - 52" 52] pow2_add_nat [of "exponent x - 52" 53]
    by (simp_all add: algebra_simps)
  then have "of_int (2 ^ 52) \<le> x / ?u" "x / ?u \<le> of_int (2 ^ 53)"
    using exponent_bounds [OF assms] by (simp_all add: le_divide_eq divide_le_eq less_imp_le)
  from round_even_mono [OF this(1)] round_even_mono [OF this(2)] show ?thesis by (simp only: round_even_int)
qed

lemma fl64_pos: "x > 0 \<Longrightarrow> fl64 x = of_int (round_even (x / pow2 (exponent x - 52))) * pow2 (exponent x - 52)"
  by (simp add: fl64_def Let_def)

lemma fl64_0 [simp]: "fl64 0 = 0"
  by (simp add: fl64_def)

lemma fl64_nonneg: "0 \<le> x \<Longrightarrow> 0 \<le> fl64 x"
proof (cases "x = 0")
  case False
  assume "0 \<le> x"
  with False have x: "x > 0" by simp
  have "0 \<le> round_even (x / pow2 (exponent x - 52))" using significand_bounds [OF x] by (auto intro: order_trans [of 0 "2 ^ 52"])
  then show ?thesis unfolding fl64_pos [OF x] by (simp add: less_imp_le)
qed simp

lemma fl64_binade:
  assumes "x > 0"
  shows "pow2 (exponent x) \<le> fl64 x \<and> fl64 x \<le> pow2 (exponent x + 1)"
proof -
  let ?u = "pow2 (exponent x - 52)" and ?r = "round_even (x / pow2 (exponent x - 52))"
  have "pow2 (exponent x) = of_int (2 ^ 52) * ?u" "pow2 (exponent x + 1) = of_int (2 ^ 53) * ?u"
    using pow2_add_nat [of "exponent x - 52" 52] pow2_add_nat [of "exponent x - 52" 53]
    by (simp_all add: algebra_simps)
  moreover have "(of_int (2 ^ 52) :: rat) \<le> of_int ?r" "(of_int ?r :: rat) \<le> of_int (2 ^ 53)"
    using significand_bounds [OF assms] by (simp_all only: of_int_le_iff)
  ultimately show ?thesis unfolding fl64_pos [OF assms] by (simp add: mult_right_mono less_imp_le)
qed

lemma fl64_mono: "0 \<le> x \<Longrightarrow> x \<le> y \<Longrightarrow> fl64 x \<le> fl64 y"
proof (cases "x = 0")
  case True
  assume "0 \<le> x" "x \<le> y"
  with True fl64_nonneg [of y] show ?thesis by simp
next
  case False
  assume "0 \<le> x" "x \<le> y"
  with False have x: "0 < x" and y: "0 < y" by simp_all
  show ?thesis
  proof (cases "exponent x = exponent y")
    case True
    let ?u = "pow2 (exponent y - 52)"
    have "x / ?u \<le> y / ?u" using \<open>x \<le> y\<close> by (simp add: divide_right_mono less_imp_le)
    from round_even_mono [OF this] show ?thesis
      unfolding fl64_pos [OF x] fl64_pos [OF y] True by (intro mult_right_mono) (simp_all add: less_imp_le)
  next
    case False
    with exponent_mono [OF x \<open>x \<le> y\<close>] have "exponent x + 1 \<le> exponent y" by simp
    from pow2_mono [OF this] fl64_binade [OF x] fl64_binade [OF y] show ?thesis by linarith
  qed
qed

text \<open>Rounding changes a number by at most one part in \<open>2^53\<close>.\<close>

lemma fl64_error: "0 \<le> x \<Longrightarrow> fl64 x \<le> x + x / 2 ^ 53 \<and> x - x / 2 ^ 53 \<le> fl64 x"
proof (cases "x = 0")
  case False
  assume "0 \<le> x"
  with False have x: "0 < x" by simp
  let ?u = "pow2 (exponent x - 52)"
  let ?r = "of_int (round_even (x / ?u)) :: rat"
  have "?r \<le> x / ?u + 1 / 2" "x / ?u - 1 / 2 \<le> ?r" using round_even_bounds by blast+
  then have "?r * ?u \<le> (x / ?u + 1 / 2) * ?u" "(x / ?u - 1 / 2) * ?u \<le> ?r * ?u"
    by (simp_all add: mult_right_mono less_imp_le)
  moreover have "(x / ?u + 1 / 2) * ?u = x + ?u / 2" "(x / ?u - 1 / 2) * ?u = x - ?u / 2"
    by (simp_all add: distrib_right left_diff_distrib)
  ultimately have b: "fl64 x \<le> x + ?u / 2" "x - ?u / 2 \<le> fl64 x"
    unfolding fl64_pos [OF x] by simp_all
  have "2 ^ 52 * ?u = pow2 (exponent x)" using pow2_add_nat [of "exponent x - 52" 52] by simp
  then have "?u / 2 \<le> x / 2 ^ 53" using exponent_bounds [OF x] by (simp add: field_simps)
  with b show ?thesis by linarith
qed simp

lemma fl64_small_nat:
  assumes "n < 2 ^ 53"
  shows "fl64 (of_nat n) = of_nat n"
proof (cases "n = 0")
  case False
  then have x: "(of_nat n :: rat) > 0" by simp
  let ?x = "of_nat n :: rat"
  have e: "0 \<le> exponent ?x"
  proof (rule ccontr)
    assume "\<not> 0 \<le> exponent ?x"
    then have "pow2 (exponent ?x + 1) \<le> pow2 0" by (intro pow2_mono) simp
    with exponent_bounds [OF x] have "?x < 1" by (simp add: pow2_def)
    with False show False by simp
  qed
  have e52: "exponent ?x \<le> 52"
  proof (rule ccontr)
    assume "\<not> exponent ?x \<le> 52"
    then have "pow2 53 \<le> pow2 (exponent ?x)" by (intro pow2_mono) simp
    with exponent_bounds [OF x] have "2 ^ 53 \<le> ?x" by (simp add: pow2_def)
    with assms have "(of_nat (2 ^ 53) :: rat) \<le> of_nat n" by simp
    with assms show False by (simp only: of_nat_le_iff)
  qed
  define k where "k = nat (52 - exponent ?x)"
  have u: "pow2 (exponent ?x - 52) = 1 / 2 ^ k"
    using e52 by (auto simp: pow2_def k_def)
  have "?x / (1 / 2 ^ k) = of_int (int n * 2 ^ k)" by simp
  then show ?thesis unfolding fl64_pos [OF x] u by (simp only: round_even_int) simp
qed simp

end
