(* ===== verification/Transcode.thy ===== *)
theory Transcode
  imports Numbers Security Paths "HOL-Library.Signed_Division"
begin

unbundle bit_operations_syntax

text \<open>
  Package \<open>internal/transcode\<close>: the adaptive ladder (\<open>abr.go\<close>), the command lines and the
  sessions of the HLS transcoder (\<open>hls.go\<close>), subtitle extraction (\<open>subtitle.go\<close>) and what is kept
  of ffprobe's output (\<open>probe.go\<close>). ffmpeg, ffprobe and the file system are arguments: what a
  start, a directory or a read answers.
\<close>

section \<open>The adaptive ladder\<close>

record Rendition =
  rdName :: string
  rdHeight :: int
  rdWidth :: int
  rdVideoKbps :: int
  rdAudioKbps :: int
  rdBandwidth :: int

definition AutoRendition :: Rendition where
  "AutoRendition = \<lparr>rdName = ''auto'', rdHeight = 0, rdWidth = 0, rdVideoKbps = 0, rdAudioKbps = 128,
     rdBandwidth = 3000000\<rparr>"

definition ladderHeights :: "int list" where "ladderHeights = [1080, 720, 480, 360]"

definition videoKbpsFor :: "int \<Rightarrow> int" where
  "videoKbpsFor h = (if h \<ge> 1080 then 5000 else if h \<ge> 720 then 2800 else if h \<ge> 480 then 1400
     else if h \<ge> 360 then 800 else 500)"

definition audioKbpsFor :: "int \<Rightarrow> int" where
  "audioKbpsFor h = (if h \<ge> 1080 then 160 else if h \<ge> 480 then 128 else 96)"

definition evenWidth :: "int \<Rightarrow> int \<Rightarrow> int \<Rightarrow> int" where
  "evenWidth srcW srcH targetH =
     (if srcW \<le> 0 \<or> srcH \<le> 0 then 0
      else let w = wrap64 (srcW * targetH) sdiv srcH in (w + 1) AND NOT 1)"

definition ladder_heights :: "int \<Rightarrow> int list" where
  "ladder_heights height = take 4 (height # filter (\<lambda>h. h < height) ladderHeights)"

definition rendition_for :: "int \<Rightarrow> int \<Rightarrow> int \<Rightarrow> int \<Rightarrow> Rendition" where
  "rendition_for width height bitrate h =
     (let vk0 = videoKbpsFor h;
          srcKbps = bitrate sdiv 1000;
          vk = (if bitrate > 0 \<and> h = height \<and> srcKbps > 0 \<and> srcKbps < vk0 then srcKbps else vk0);
          ak = audioKbpsFor h
      in \<lparr>rdName = Itoa h, rdHeight = h, rdWidth = evenWidth width height h, rdVideoKbps = vk,
          rdAudioKbps = ak, rdBandwidth = (vk + ak) * 1100\<rparr>)"

definition SelectRenditions :: "int \<Rightarrow> int \<Rightarrow> int \<Rightarrow> Rendition list" where
  "SelectRenditions width height bitrate =
     (if height \<le> 0 then
        [if bitrate > rdBandwidth AutoRendition then AutoRendition\<lparr>rdBandwidth := bitrate\<rparr> else AutoRendition]
      else map (rendition_for width height bitrate) (ladder_heights height))"

section \<open>Command lines\<close>

definition playlistName :: string where "playlistName = ''index.m3u8''"
definition segmentGlob :: string where "segmentGlob = ''seg%05d.ts''"

definition sessionDir :: "string \<Rightarrow> string" where
  "sessionDir key = hex_encode (take 16 (sha256 key))"

definition liveArgs :: "string \<Rightarrow> string \<Rightarrow> bool \<Rightarrow> string list" where
  "liveArgs input dir reencode =
     [''-nostdin'', ''-fflags'', ''+genpts'', ''-i'', input] @
     (if reencode
      then [''-c:v'', ''libx264'', ''-preset'', ''veryfast'', ''-crf'', ''23'',
            ''-c:a'', ''aac'', ''-ac'', ''2'', ''-b:a'', ''128k'']
      else [''-c'', ''copy'']) @
     [''-f'', ''hls'', ''-hls_time'', ''4'', ''-hls_list_size'', ''6'',
      ''-hls_flags'', ''delete_segments+temp_file+independent_segments'',
      ''-hls_segment_type'', ''mpegts'',
      ''-hls_segment_filename'', JoinPath [dir, segmentGlob], JoinPath [dir, playlistName]]"

definition ffmpegArgs :: "string \<Rightarrow> string \<Rightarrow> rat \<Rightarrow> Rendition \<Rightarrow> string list" where
  "ffmpegArgs input dir startSeconds r =
     [''-nostdin''] @
     (if startSeconds > 0 then [''-ss'', FormatFloat3 startSeconds] else []) @
     [''-i'', input, ''-map'', ''0:v:0'', ''-map'', ''0:a:0?''] @
     (if rdHeight r > 0 \<and> rdVideoKbps r > 0
      then [''-vf'', ''scale=-2:'' @ Itoa (rdHeight r), ''-c:v'', ''libx264'', ''-preset'', ''veryfast'',
            ''-b:v'', Itoa (rdVideoKbps r) @ ''k'',
            ''-maxrate'', Itoa (rdVideoKbps r * 107 div 100) @ ''k'',
            ''-bufsize'', Itoa (rdVideoKbps r * 3 div 2) @ ''k'']
      else [''-c:v'', ''libx264'', ''-preset'', ''veryfast'', ''-crf'', ''23'']) @
     (let audioKbps = (if rdAudioKbps r \<le> 0 then 128 else rdAudioKbps r)
      in [''-c:a'', ''aac'', ''-ac'', ''2'', ''-b:a'', Itoa audioKbps @ ''k'', ''-f'', ''hls'', ''-hls_time'', ''6'',
          ''-hls_playlist_type'', ''vod'', ''-hls_list_size'', ''0'', ''-hls_segment_type'', ''mpegts'',
          ''-hls_flags'', ''independent_segments+temp_file'',
          ''-hls_segment_filename'', JoinPath [dir, segmentGlob], JoinPath [dir, playlistName]])"

section \<open>Sessions\<close>

text \<open>\<open>hsDone\<close> says whether the session's process has exited. The manager's \<open>hmProcs\<close> are the
  processes not cancelled and not exited, by the key of their session, and \<open>hmDirs\<close> the
  directories below \<open>hmBaseDir\<close> that exist.\<close>

record hlsSession =
  hsID :: string
  hsDir :: string
  hsLastAccess :: time
  hsDone :: bool

record hlsManager =
  hmBin :: string
  hmBaseDir :: string
  hmSessions :: "hlsSession gomap"
  hmMaxSessions :: nat
  hmIdleTimeout :: duration
  hmProcs :: "(string \<times> string list) list"
  hmDirs :: "string list"
  hmStopped :: bool

definition resolveBinary :: "(string \<Rightarrow> string option) \<Rightarrow> string \<Rightarrow> string \<Rightarrow> string" where
  "resolveBinary lookPath explicit name =
     (if explicit \<noteq> [] then (if lookPath explicit \<noteq> None then explicit else [])
      else case lookPath name of None \<Rightarrow> [] | Some p \<Rightarrow> p)"

definition NewProber :: "(string \<Rightarrow> string option) \<Rightarrow> string \<Rightarrow> string option" where
  "NewProber lookPath path =
     (let bin = resolveBinary lookPath path ''ffprobe'' in if bin = [] then None else Some bin)"

definition NewManager :: "(string \<Rightarrow> string option) \<Rightarrow> bool \<Rightarrow> string \<Rightarrow> string \<Rightarrow> hlsManager option" where
  "NewManager lookPath mkdirOk path baseDir =
     (let bin = resolveBinary lookPath path ''ffmpeg''
      in if bin = [] then None
         else if \<not> mkdirOk then None
         else Some \<lparr>hmBin = bin, hmBaseDir = baseDir, hmSessions = [], hmMaxSessions = 4,
           hmIdleTimeout = 2 * Minute, hmProcs = [], hmDirs = [], hmStopped = False\<rparr>)"

definition killLocked :: "string \<Rightarrow> hlsManager \<Rightarrow> hlsManager" where
  "killLocked k m =
     (case map_get (hmSessions m) k of
        None \<Rightarrow> m
      | Some s \<Rightarrow> m\<lparr>hmProcs := filter (\<lambda>(j, _). j \<noteq> k) (hmProcs m),
                   hmDirs := filter (\<lambda>d. d \<noteq> hsDir s) (hmDirs m),
                   hmSessions := map_del k (hmSessions m)\<rparr>)"

text \<open>The loop keeps the ID and the time of the oldest session so far.\<close>

fun oldest_loop :: "string \<times> time \<Rightarrow> hlsSession gomap \<Rightarrow> string \<times> time" where
  "oldest_loop o1 [] = o1"
| "oldest_loop (oldestID, oldest) ((k, s) # ss) =
     (if oldestID = [] \<or> Before (hsLastAccess s) oldest then oldest_loop (k, hsLastAccess s) ss
      else oldest_loop (oldestID, oldest) ss)"

definition evictOldestLocked :: "hlsManager \<Rightarrow> hlsManager" where
  "evictOldestLocked m =
     (let oldestID = fst (oldest_loop ([], zeroTime) (hmSessions m))
      in if oldestID \<noteq> [] then killLocked oldestID m else m)"

text \<open>\<open>ensure\<close>: \<open>mkdirOk\<close> and \<open>startOk\<close> are the answers of \<open>MkdirAll\<close> and of starting ffmpeg.\<close>

definition ensure :: "bool \<Rightarrow> bool \<Rightarrow> time \<Rightarrow> string \<Rightarrow> (string \<Rightarrow> string list) \<Rightarrow> hlsManager \<Rightarrow> (err + hlsSession) \<times> hlsManager" where
  "ensure mkdirOk startOk now key buildArgs m =
     (case map_get (hmSessions m) key of
        Some s \<Rightarrow> let s' = s\<lparr>hsLastAccess := now\<rparr> in (Inr s', m\<lparr>hmSessions := map_set key s' (hmSessions m)\<rparr>)
      | None \<Rightarrow>
          let m1 = (if length (hmSessions m) \<ge> hmMaxSessions m then evictOldestLocked m else m);
              dir = JoinPath [hmBaseDir m1, sessionDir key]
          in if \<not> mkdirOk then (Inl (ErrIO ''transcode: session dir''), m1)
             else if \<not> startOk
             then (Inl (ErrIO ''transcode: starting ffmpeg''), m1\<lparr>hmDirs := filter (\<lambda>d. d \<noteq> dir) (hmDirs m1)\<rparr>)
             else let s = \<lparr>hsID = key, hsDir = dir, hsLastAccess = now, hsDone = False\<rparr>
                  in (Inr s, m1\<lparr>hmSessions := map_set key s (hmSessions m1),
                                hmProcs := hmProcs m1 @ [(key, buildArgs dir)],
                                hmDirs := dir # filter (\<lambda>d. d \<noteq> dir) (hmDirs m1)\<rparr>))"

definition EnsureSession :: "bool \<Rightarrow> bool \<Rightarrow> time \<Rightarrow> string \<Rightarrow> string \<Rightarrow> rat \<Rightarrow> Rendition \<Rightarrow> hlsManager \<Rightarrow> (err + hlsSession) \<times> hlsManager" where
  "EnsureSession mkdirOk startOk now key inputPath startSeconds r =
     ensure mkdirOk startOk now key (\<lambda>dir. ffmpegArgs inputPath dir startSeconds r)"

definition EnsureLiveSession :: "bool \<Rightarrow> bool \<Rightarrow> time \<Rightarrow> string \<Rightarrow> string \<Rightarrow> hlsManager \<Rightarrow> (err + hlsSession) \<times> hlsManager" where
  "EnsureLiveSession mkdirOk startOk now key inputURL =
     ensure mkdirOk startOk now key (\<lambda>dir. liveArgs inputURL dir False)"

definition EnsureLiveTranscodeSession :: "bool \<Rightarrow> bool \<Rightarrow> time \<Rightarrow> string \<Rightarrow> string \<Rightarrow> hlsManager \<Rightarrow> (err + hlsSession) \<times> hlsManager" where
  "EnsureLiveTranscodeSession mkdirOk startOk now key inputURL =
     ensure mkdirOk startOk now key (\<lambda>dir. liveArgs inputURL dir True)"

definition hls_Stop :: "string \<Rightarrow> hlsManager \<Rightarrow> hlsManager" where
  "hls_Stop key = killLocked key"

definition hls_get :: "time \<Rightarrow> string \<Rightarrow> hlsManager \<Rightarrow> hlsSession option \<times> hlsManager" where
  "hls_get now key m =
     (case map_get (hmSessions m) key of
        None \<Rightarrow> (None, m)
      | Some s \<Rightarrow> let s' = s\<lparr>hsLastAccess := now\<rparr> in (Some s', m\<lparr>hmSessions := map_set key s' (hmSessions m)\<rparr>))"

text \<open>A process exits on its own: its session, if it still has one, is done.\<close>

definition hls_exit :: "string \<Rightarrow> hlsManager \<Rightarrow> hlsManager" where
  "hls_exit k m = m\<lparr>hmProcs := filter (\<lambda>(j, _). j \<noteq> k) (hmProcs m),
     hmSessions := map (\<lambda>(j, s). (j, if j = k then s\<lparr>hsDone := True\<rparr> else s)) (hmSessions m)\<rparr>"

text \<open>One round of \<open>reaper\<close>, and \<open>Close\<close>: both range over the map and kill entries as they go.\<close>

definition reap :: "time \<Rightarrow> hlsManager \<Rightarrow> hlsManager" where
  "reap now m =
     (let cutoff = now - hmIdleTimeout m
      in fold (\<lambda>(k, s) m1. if Before (hsLastAccess s) cutoff then killLocked k m1 else m1) (hmSessions m) m)"

definition cleanDir :: "hlsManager \<Rightarrow> hlsManager" where
  "cleanDir m = m\<lparr>hmDirs := []\<rparr>"

definition hls_Close :: "hlsManager \<Rightarrow> hlsManager" where
  "hls_Close m = cleanDir (fold (\<lambda>(k, s) m1. killLocked k m1) (hmSessions m) (m\<lparr>hmStopped := True\<rparr>))"

section \<open>Playlists and segments\<close>

text \<open>One round of a waiting loop: what reading the file gives (\<open>None\<close>: an error), whether the
  process has exited, what a second reading gives then, and the clock.\<close>

record poll =
  plRead :: "string option"
  plDone :: bool
  plReadAgain :: "string option"
  plNow :: time

definition nonempty_read :: "string option \<Rightarrow> bool" where
  "nonempty_read d \<longleftrightarrow> (case d of None \<Rightarrow> False | Some s \<Rightarrow> s \<noteq> [])"

text \<open>The result once the loop returns; \<open>None\<close> while it is still waiting after these rounds.\<close>

fun playlist_loop :: "time \<Rightarrow> poll list \<Rightarrow> (err + string) option" where
  "playlist_loop deadline [] = None"
| "playlist_loop deadline (p # ps) =
     (if nonempty_read (plRead p) then Some (Inr (the (plRead p)))
      else if plDone p then
        (if nonempty_read (plReadAgain p) then Some (Inr (the (plReadAgain p))) else Some (Inl ErrSessionFailed))
      else if After (plNow p) deadline then Some (Inl (ErrMsg ''transcode: playlist not ready''))
      else playlist_loop deadline ps)"

definition Playlist :: "time \<Rightarrow> time \<Rightarrow> (string \<Rightarrow> poll list) \<Rightarrow> string \<Rightarrow> hlsManager \<Rightarrow> (err + string) option \<times> hlsManager" where
  "Playlist t0 t1 polls key m =
     (case hls_get t0 key m of
        (None, m') \<Rightarrow> (Some (Inl ErrUnavailable), m')
      | (Some s, m') \<Rightarrow> (playlist_loop (t1 + 15 * Second) (polls (JoinPath [hsDir s, playlistName])), m'))"

text \<open>\<open>segmentName\<close>: \<open>seg\<close>, one to six digits, \<open>.ts\<close>.\<close>

definition segmentName :: "string \<Rightarrow> bool" where
  "segmentName s \<longleftrightarrow> HasPrefix s ''seg'' \<and> HasSuffix s ''.ts'' \<and>
     (let ds = drop 3 (take (length s - 3) s) in 1 \<le> length ds \<and> length ds \<le> 6 \<and> list_all is_digit ds)"

text \<open>A round of the loop in \<open>Segment\<close>: whether a regular file is there, and the clock.\<close>

fun segment_loop :: "time \<Rightarrow> string \<Rightarrow> (bool \<times> time) list \<Rightarrow> (err + string) option" where
  "segment_loop deadline path [] = None"
| "segment_loop deadline path ((isFile, now) # ps) =
     (if isFile then Some (Inr path)
      else if After now deadline then Some (Inl (ErrMsg ''transcode: segment not ready''))
      else segment_loop deadline path ps)"

definition Segment :: "time \<Rightarrow> time \<Rightarrow> (string \<Rightarrow> (bool \<times> time) list) \<Rightarrow> string \<Rightarrow> string \<Rightarrow> hlsManager \<Rightarrow> (err + string) option \<times> hlsManager" where
  "Segment t0 t1 polls key name m =
     (if \<not> segmentName name then (Some (Inl (ErrMsg ''transcode: invalid segment name'')), m)
      else case hls_get t0 key m of
        (None, m') \<Rightarrow> (Some (Inl ErrUnavailable), m')
      | (Some s, m') \<Rightarrow>
          let path = JoinPath [hsDir s, name] in (segment_loop (t1 + 20 * Second) path (polls path), m'))"

section \<open>Subtitles and probing\<close>

definition maxSubtitleBytes :: nat where "maxSubtitleBytes = 8 * 2 ^ 20"

definition subtitleArgs :: "string \<Rightarrow> int \<Rightarrow> string list" where
  "subtitleArgs input streamIndex =
     [''-v'', ''error'', ''-i'', input, ''-map'', ''0:'' @ Itoa streamIndex, ''-c:s'', ''webvtt'', ''-f'', ''webvtt'', ''pipe:1'']"

text \<open>\<open>run\<close> answers a command line: \<open>None\<close> when it does not start, else what it writes, whether
  reading fails, and whether it exits well.\<close>

definition ExtractSubtitle :: "(string list \<Rightarrow> (string \<times> bool \<times> bool) option) \<Rightarrow> string \<Rightarrow> int \<Rightarrow> err + string" where
  "ExtractSubtitle run input streamIndex =
     (case run (subtitleArgs input streamIndex) of
        None \<Rightarrow> Inl (ErrIO ''transcode: starting subtitle extraction'')
      | Some (output, readOk, exitOk) \<Rightarrow>
          let data = take maxSubtitleBytes output
          in if \<not> exitOk then Inl (ErrIO ''transcode: extracting subtitle'')
             else if \<not> readOk then Inl (ErrIO ''read'')
             else if data = [] then Inl (ErrMsg ''transcode: empty subtitle output'')
             else Inr data)"

record StreamInfo =
  siIndex :: int
  siType :: string
  siCodec :: string
  siLanguage :: string
  siChannels :: int
  siWidth :: int
  siHeight :: int
  siIsDefault :: bool
  siTitle :: string

record ProbeResult =
  pbDurationTicks :: int
  pbBitrate :: int
  pbWidth :: int
  pbHeight :: int
  pbVideoCodec :: string
  pbAudioCodec :: string
  pbStreams :: "StreamInfo list"

record ffprobeStream =
  fsIndex :: int
  fsCodecName :: string
  fsCodecType :: string
  fsWidth :: int
  fsHeight :: int
  fsChannels :: int
  fsTags :: "string gomap"
  fsDisposition :: "int gomap"

record ffprobeOutput =
  foStreams :: "ffprobeStream list"
  foDuration :: string
  foBitRate :: string

definition tag_or_empty :: "string gomap \<Rightarrow> string \<Rightarrow> string" where
  "tag_or_empty m k = (case map_get m k of None \<Rightarrow> [] | Some v \<Rightarrow> v)"

definition stream_info :: "ffprobeStream \<Rightarrow> string \<Rightarrow> StreamInfo" where
  "stream_info s ty = \<lparr>siIndex = fsIndex s, siType = ty, siCodec = fsCodecName s,
     siLanguage = tag_or_empty (fsTags s) ''language'', siChannels = fsChannels s, siWidth = fsWidth s,
     siHeight = fsHeight s, siIsDefault = (map_get (fsDisposition s) ''default'' = Some 1),
     siTitle = tag_or_empty (fsTags s) ''title''\<rparr>"

definition add_stream :: "ffprobeStream \<Rightarrow> ProbeResult \<Rightarrow> ProbeResult" where
  "add_stream s res =
     (if fsCodecType s = ''video'' then
        let res1 = (if pbVideoCodec res = []
              then res\<lparr>pbVideoCodec := fsCodecName s, pbWidth := fsWidth s, pbHeight := fsHeight s\<rparr> else res)
        in res1\<lparr>pbStreams := pbStreams res1 @ [stream_info s ''Video'']\<rparr>
      else if fsCodecType s = ''audio'' then
        let res1 = (if pbAudioCodec res = [] then res\<lparr>pbAudioCodec := fsCodecName s\<rparr> else res)
        in res1\<lparr>pbStreams := pbStreams res1 @ [stream_info s ''Audio'']\<rparr>
      else if fsCodecType s = ''subtitle'' then res\<lparr>pbStreams := pbStreams res @ [stream_info s ''Subtitle'']\<rparr>
      else res)"

text \<open>\<open>Probe\<close> on ffprobe's decoded output (\<open>None\<close>: it failed or did not parse). \<open>parseTicks\<close> is
  \<open>ParseFloat\<close> followed by the conversion to ticks.\<close>

definition Probe :: "(string \<Rightarrow> int option) \<Rightarrow> ffprobeOutput option \<Rightarrow> err + ProbeResult" where
  "Probe parseTicks out =
     (case out of
        None \<Rightarrow> Inl (ErrIO ''transcode: ffprobe failed'')
      | Some raw \<Rightarrow>
          let ticks = (case parseTicks (TrimSpace (foDuration raw)) of None \<Rightarrow> 0 | Some t \<Rightarrow> t);
              bitrate = (case Atoi (TrimSpace (foBitRate raw)) of (br, None) \<Rightarrow> br | (_, Some e) \<Rightarrow> 0)
          in Inr (fold add_stream (foStreams raw)
               \<lparr>pbDurationTicks = ticks, pbBitrate = bitrate, pbWidth = 0, pbHeight = 0, pbVideoCodec = [],
                pbAudioCodec = [], pbStreams = []\<rparr>))"

end
