(* ===== verification/TranscodeProps.thy ===== *)
theory TranscodeProps
  imports Transcode
begin

unbundle bit_operations_syntax

text \<open>
  The session manager's invariant and step relation, and the properties of the transcoder.
\<close>

section \<open>Killing sessions\<close>

definition mgr_inv :: "hlsManager \<Rightarrow> bool" where
  "mgr_inv m \<longleftrightarrow> map_wf (hmSessions m) \<and> 0 < hmMaxSessions m \<and> length (hmSessions m) \<le> hmMaxSessions m \<and>
     (\<forall>(k, s) \<in> set (hmSessions m). k \<noteq> [] \<and> hsID s = k \<and> hsDir s = JoinPath [hmBaseDir m, sessionDir k]) \<and>
     distinct (map fst (hmProcs m)) \<and> set (map fst (hmProcs m)) \<subseteq> set (map fst (hmSessions m)) \<and>
     set (hmDirs m) \<subseteq> (\<lambda>k. JoinPath [hmBaseDir m, sessionDir k]) ` fst ` set (hmSessions m)"

lemma map_del_length: "map_get m k \<noteq> None \<Longrightarrow> length (map_del k m) < length m"
proof -
  assume "map_get m k \<noteq> None"
  then obtain v where "(k, v) \<in> set m" by (metis map_of_SomeD not_None_eq)
  then show ?thesis unfolding map_del_def by (intro length_filter_less) auto
qed

lemma map_del_length_le: "length (map_del k m) \<le> length m"
  by (simp add: map_del_def)

lemma fst_map_del: "fst ` set (map_del k m) = fst ` set m - {k}"
  by (force simp: map_del_def)

lemma set_map_del: "set (map_del k m) = {(j, v) \<in> set m. j \<noteq> k}"
  by (auto simp: map_del_def)

lemma killLocked_fields [simp]:
  "hmMaxSessions (killLocked k m) = hmMaxSessions m" "hmBaseDir (killLocked k m) = hmBaseDir m"
  "hmIdleTimeout (killLocked k m) = hmIdleTimeout m"
  by (simp_all add: killLocked_def split: option.splits)

lemma map_del_absent: "map_get m k = None \<Longrightarrow> map_del k m = m"
  unfolding map_del_def by (rule filter_True) (force simp: map_of_eq_None_iff)

lemma killLocked_sessions: "hmSessions (killLocked k m) = map_del k (hmSessions m)"
  by (simp add: killLocked_def map_del_absent split: option.splits)

lemma killLocked_inv:
  assumes "mgr_inv m"
  shows "mgr_inv (killLocked k m)"
proof (cases "map_get (hmSessions m) k")
  case None
  with assms show ?thesis by (simp add: killLocked_def)
next
  case (Some s)
  have wf: "map_wf (hmSessions m)" using assms by (simp add: mgr_inv_def)
  have s: "(k, s) \<in> set (hmSessions m)" by (rule map_of_SomeD) (rule Some)
  then have kdir: "hsDir s = JoinPath [hmBaseDir m, sessionDir k]" using assms by (auto simp: mgr_inv_def)
  have "set (hmDirs m) \<subseteq> (\<lambda>k. JoinPath [hmBaseDir m, sessionDir k]) ` fst ` set (hmSessions m)"
    using assms by (simp add: mgr_inv_def)
  then have dirs: "set (filter (\<lambda>d. d \<noteq> hsDir s) (hmDirs m)) \<subseteq>
      (\<lambda>k. JoinPath [hmBaseDir m, sessionDir k]) ` fst ` set (map_del k (hmSessions m))"
    unfolding fst_map_del set_filter
  proof (intro subsetI)
    fix d assume d: "d \<in> {d \<in> set (hmDirs m). d \<noteq> hsDir s}"
    then have "d \<in> (\<lambda>k. JoinPath [hmBaseDir m, sessionDir k]) ` fst ` set (hmSessions m)"
      using \<open>set (hmDirs m) \<subseteq> _\<close> by blast
    then obtain j where j: "j \<in> fst ` set (hmSessions m)" "d = JoinPath [hmBaseDir m, sessionDir j]"
      by (rule imageE)
    with d kdir have "j \<noteq> k" by auto
    with j show "d \<in> (\<lambda>k. JoinPath [hmBaseDir m, sessionDir k]) ` (fst ` set (hmSessions m) - {k})" by blast
  qed
  have "fst ` set (hmProcs m) \<subseteq> fst ` set (hmSessions m)" using assms by (simp add: mgr_inv_def)
  then have procs: "set (map fst (filter (\<lambda>(j, _). j \<noteq> k) (hmProcs m))) \<subseteq> set (map fst (map_del k (hmSessions m)))"
    unfolding set_map fst_map_del by auto
  have d: "distinct (map fst (filter (\<lambda>(j, _). j \<noteq> k) (hmProcs m)))"
    using assms by (simp add: mgr_inv_def distinct_map_filter)
  have len: "length (map_del k (hmSessions m)) \<le> hmMaxSessions m"
    using assms map_del_length_le [of k "hmSessions m"] by (simp add: mgr_inv_def)
  have each: "\<forall>(j, s) \<in> set (map_del k (hmSessions m)). j \<noteq> [] \<and> hsID s = j \<and> hsDir s = JoinPath [hmBaseDir m, sessionDir j]"
    using assms unfolding mgr_inv_def set_map_del by blast
  have wf': "map_wf (map_del k (hmSessions m))" "0 < hmMaxSessions m" using assms by (simp_all add: mgr_inv_def)
  have "killLocked k m = m\<lparr>hmProcs := filter (\<lambda>(j, _). j \<noteq> k) (hmProcs m),
      hmDirs := filter (\<lambda>d. d \<noteq> hsDir s) (hmDirs m), hmSessions := map_del k (hmSessions m)\<rparr>"
    using Some by (simp add: killLocked_def)
  then show ?thesis unfolding mgr_inv_def using dirs procs d len each wf' by simp
qed

lemma fold_kill_inv:
  "mgr_inv m \<Longrightarrow> mgr_inv (fold (\<lambda>(k, s) m1. if P s then killLocked k m1 else m1) l m)"
  by (induction l arbitrary: m) (auto simp: killLocked_inv)

lemma fold_kill_sessions:
  "hmSessions (fold (\<lambda>(k, s) m1. if P s then killLocked k m1 else m1) l m) =
   filter (\<lambda>(k, _). \<not> (\<exists>s. (k, s) \<in> set l \<and> P s)) (hmSessions m)"
proof (induction l arbitrary: m)
  case (Cons e l)
  obtain k s where e: "e = (k, s)" by (cases e)
  show ?case
    unfolding Cons.prems
    by (cases "P s") (auto simp: Cons.IH e killLocked_sessions map_del_def intro!: filter_cong)
qed (simp add: case_prod_beta)

section \<open>The oldest session\<close>

lemma oldest_loop_min:
  assumes "oldest_loop (k0, t0) ss = (k, t)" "k0 \<noteq> []" "\<forall>(j, s) \<in> set ss. j \<noteq> []"
  shows "k \<noteq> [] \<and> t \<le> t0 \<and> (\<forall>(j, s) \<in> set ss. t \<le> hsLastAccess s) \<and>
    ((k, t) = (k0, t0) \<or> (\<exists>s. (k, s) \<in> set ss \<and> t = hsLastAccess s))"
  using assms
proof (induction ss arbitrary: k0 t0)
  case (Cons e ss)
  obtain j s where e: "e = (j, s)" by (cases e)
  show ?case
  proof (cases "hsLastAccess s < t0")
    case True
    then have "oldest_loop (j, hsLastAccess s) ss = (k, t)" "j \<noteq> []" using Cons.prems e by (simp_all add: Before_def)
    from Cons.IH [OF this] Cons.prems(3) True show ?thesis by (auto simp: e)
  next
    case False
    then have "oldest_loop (k0, t0) ss = (k, t)" using Cons.prems e by (simp add: Before_def)
    from Cons.IH [OF this Cons.prems(2)] Cons.prems(3) False show ?thesis by (auto simp: e)
  qed
qed simp

text \<open>Eviction kills a session that no other was used before.\<close>

lemma evict_oldest:
  assumes "mgr_inv m" "hmSessions m \<noteq> []"
  shows "\<exists>k s. map_get (hmSessions m) k = Some s \<and> evictOldestLocked m = killLocked k m \<and>
    (\<forall>(j, s') \<in> set (hmSessions m). hsLastAccess s \<le> hsLastAccess s')"
proof -
  have wf: "map_wf (hmSessions m)" and ne: "\<forall>(j, s) \<in> set (hmSessions m). j \<noteq> []"
    using assms(1) by (auto simp: mgr_inv_def)
  obtain k0 s0 ss where l: "hmSessions m = (k0, s0) # ss" using assms(2) by (cases "hmSessions m") auto
  obtain k t where o1: "oldest_loop (k0, hsLastAccess s0) ss = (k, t)" by (cases "oldest_loop (k0, hsLastAccess s0) ss")
  have min: "k \<noteq> []" "t \<le> hsLastAccess s0" "\<forall>(j, s) \<in> set ss. t \<le> hsLastAccess s"
    "(k, t) = (k0, hsLastAccess s0) \<or> (\<exists>s. (k, s) \<in> set ss \<and> t = hsLastAccess s)"
    using oldest_loop_min [OF o1] ne l by auto
  then obtain s where s: "(k, s) \<in> set (hmSessions m)" "t = hsLastAccess s" using l by auto
  have "oldest_loop ([], zeroTime) (hmSessions m) = (k, t)" using o1 l by simp
  then have "evictOldestLocked m = killLocked k m" using min(1) by (simp add: evictOldestLocked_def)
  moreover have "map_get (hmSessions m) k = Some s" using s(1) map_wf_in [OF wf, of k s] by simp
  moreover have "\<forall>(j, s') \<in> set (hmSessions m). hsLastAccess s \<le> hsLastAccess s'" using min s(2) l by auto
  ultimately show ?thesis by blast
qed

section \<open>Steps\<close>

inductive hls_step :: "hlsManager \<Rightarrow> hlsManager \<Rightarrow> bool" where
  ensure: "key \<noteq> [] \<Longrightarrow> hls_step m (snd (ensure mkdirOk startOk now key buildArgs m))"
| stop: "hls_step m (hls_Stop key m)"
| playlist: "hls_step m (snd (Playlist t0 t1 polls key m))"
| segment: "hls_step m (snd (Segment t0 t1 files key name m))"
| exit: "hls_step m (hls_exit key m)"
| reap: "hls_step m (reap now m)"
| close: "hls_step m (hls_Close m)"

lemma set_map_set:
  assumes "map_wf m"
  shows "set (map_set k v m) = insert (k, v) {(j, w) \<in> set m. j \<noteq> k}"
proof -
  have "(j, w) \<in> set (map_set k v m) \<longleftrightarrow> (j, w) \<in> insert (k, v) {(j, w) \<in> set m. j \<noteq> k}" for j w
    using map_wf_in [of "map_set k v m" j w] map_wf_in [OF assms, of j w] map_wf_set [OF assms, of k v] by auto
  then show ?thesis by auto
qed

lemma length_map_set: "length (map_set k v m) = (if map_get m k = None then Suc (length m) else length m)"
  by (induction m) (auto simp: map_set_def)

lemma fst_map_set: "fst ` set (map_set k v m) = insert k (fst ` set m)"
  by (simp add: map_set_def dom_update)

lemma touch_inv:
  assumes "mgr_inv m" "map_get (hmSessions m) k = Some s"
  shows "mgr_inv (m\<lparr>hmSessions := map_set k (s\<lparr>hsLastAccess := now\<rparr>) (hmSessions m)\<rparr>)"
proof -
  have wf: "map_wf (hmSessions m)" using assms by (simp add: mgr_inv_def)
  have s: "(k, s) \<in> set (hmSessions m)" by (rule map_of_SomeD) (rule assms(2))
  have k: "k \<in> fst ` set (hmSessions m)" using s by force
  have dirs: "set (hmDirs m) \<subseteq> (\<lambda>k. JoinPath [hmBaseDir m, sessionDir k]) ` insert k (fst ` set (hmSessions m))"
    using assms by (auto simp: mgr_inv_def)
  have "fst ` set (hmProcs m) \<subseteq> insert k (fst ` set (hmSessions m))" using assms by (auto simp: mgr_inv_def)
  moreover have "\<forall>(j, t) \<in> set (map_set k (s\<lparr>hsLastAccess := now\<rparr>) (hmSessions m)).
      j \<noteq> [] \<and> hsID t = j \<and> hsDir t = JoinPath [hmBaseDir m, sessionDir j]"
    using assms s by (auto simp: mgr_inv_def set_map_set [OF wf])
  ultimately show ?thesis
    using assms dirs wf by (simp add: mgr_inv_def length_map_set fst_map_set)
qed

lemma hls_get_inv: "mgr_inv m \<Longrightarrow> mgr_inv (snd (hls_get now k m))"
  by (auto simp: hls_get_def Let_def touch_inv split: option.splits)

lemma hls_exit_inv:
  assumes "mgr_inv m"
  shows "mgr_inv (hls_exit k m)"
proof -
  let ?f = "\<lambda>(j, s). (j, if j = k then s\<lparr>hsDone := True\<rparr> else s)"
  have f: "fst \<circ> ?f = fst" by auto
  have keys: "map fst (map ?f l) = map fst l" for l by (simp only: map_map f)
  have fk: "fst ` ?f ` set l = fst ` set l" for l by (simp only: image_comp f)
  have "\<forall>(j, s) \<in> set (map ?f (hmSessions m)). j \<noteq> [] \<and> hsID s = j \<and> hsDir s = JoinPath [hmBaseDir m, sessionDir j]"
    using assms by (auto simp: mgr_inv_def)
  moreover have "fst ` set (filter (\<lambda>(j, _). j \<noteq> k) (hmProcs m)) \<subseteq> fst ` set (hmSessions m)"
    using assms by (auto simp: mgr_inv_def)
  ultimately show ?thesis
    using assms unfolding mgr_inv_def hls_exit_def map_wf_def
    by (simp add: distinct_map_filter del: map_map list.map_comp) (simp add: keys fk f flip: image_comp)
qed

text \<open>What is left once there is room for a new session.\<close>

lemma make_room:
  assumes "mgr_inv m"
  defines "m1 \<equiv> (if length (hmSessions m) \<ge> hmMaxSessions m then evictOldestLocked m else m)"
  shows "mgr_inv m1 \<and> length (hmSessions m1) < hmMaxSessions m1 \<and> hmBaseDir m1 = hmBaseDir m \<and>
    hmMaxSessions m1 = hmMaxSessions m \<and> set (hmSessions m1) \<subseteq> set (hmSessions m)"
proof (cases "length (hmSessions m) \<ge> hmMaxSessions m")
  case True
  then have "hmSessions m \<noteq> []" using assms(1) by (auto simp: mgr_inv_def)
  from evict_oldest [OF assms(1) this] obtain k s where k: "map_get (hmSessions m) k = Some s"
    "evictOldestLocked m = killLocked k m" by blast
  have "length (map_del k (hmSessions m)) < length (hmSessions m)" using k(1) by (intro map_del_length) simp
  moreover have "length (hmSessions m) \<le> hmMaxSessions m" using assms(1) by (simp add: mgr_inv_def)
  ultimately show ?thesis
    using True k killLocked_inv [OF assms(1), of k] by (auto simp: m1_def killLocked_sessions set_map_del)
next
  case False
  with assms(1) show ?thesis by (simp add: m1_def)
qed

lemma ensure_inv:
  assumes "mgr_inv m" "key \<noteq> []"
  shows "mgr_inv (snd (ensure mkdirOk startOk now key buildArgs m))"
proof (cases "map_get (hmSessions m) key")
  case (Some s)
  with touch_inv [OF assms(1) Some] show ?thesis by (simp add: ensure_def Let_def)
next
  case None
  define m1 where "m1 = (if length (hmSessions m) \<ge> hmMaxSessions m then evictOldestLocked m else m)"
  have m1: "mgr_inv m1" "length (hmSessions m1) < hmMaxSessions m1" "set (hmSessions m1) \<subseteq> set (hmSessions m)"
    using make_room [OF assms(1)] unfolding m1_def by blast+
  have "key \<notin> fst ` set (hmSessions m)" using None by (simp add: map_of_eq_None_iff)
  then have fresh: "key \<notin> fst ` set (hmSessions m1)" using m1(3) by blast
  then have none: "map_get (hmSessions m1) key = None" by (simp add: map_of_eq_None_iff)
  have wf: "map_wf (hmSessions m1)" using m1(1) by (simp add: mgr_inv_def)
  let ?dir = "JoinPath [hmBaseDir m1, sessionDir key]"
  let ?s = "\<lparr>hsID = key, hsDir = ?dir, hsLastAccess = now, hsDone = False\<rparr>"
  have same: "{(j, w) \<in> set (hmSessions m1). j \<noteq> key} = set (hmSessions m1)" using fresh by force
  have fail: "mgr_inv (m1\<lparr>hmDirs := filter (\<lambda>d. d \<noteq> ?dir) (hmDirs m1)\<rparr>)"
    using m1(1) by (auto simp: mgr_inv_def)
  have pk: "key \<notin> fst ` set (hmProcs m1)" using m1(1) fresh by (auto simp: mgr_inv_def)
  have new: "mgr_inv (m1\<lparr>hmSessions := map_set key ?s (hmSessions m1), hmProcs := hmProcs m1 @ [(key, buildArgs ?dir)],
      hmDirs := ?dir # filter (\<lambda>d. d \<noteq> ?dir) (hmDirs m1)\<rparr>)"
    using m1(1,2) assms(2) none pk wf
    by (auto simp: mgr_inv_def length_map_set set_map_set same fst_map_set)
  show ?thesis
    using None m1(1) fail new unfolding ensure_def m1_def [symmetric] by (simp add: Let_def)
qed

lemma hls_step_inv: "hls_step m m' \<Longrightarrow> mgr_inv m \<Longrightarrow> mgr_inv m'"
proof (induction rule: hls_step.induct)
  case (ensure key m mkdirOk startOk now buildArgs)
  then show ?case by (intro ensure_inv)
next
  case (stop m key)
  then show ?case by (simp add: hls_Stop_def killLocked_inv)
next
  case (playlist m t0 t1 polls key)
  with hls_get_inv [of m t0 key] show ?case by (auto simp: Playlist_def split: prod.splits option.splits)
next
  case (segment m t0 t1 files key name)
  with hls_get_inv [of m t0 key] show ?case
    by (auto simp: Segment_def Let_def split: prod.splits option.splits)
next
  case (exit m key)
  then show ?case by (rule hls_exit_inv [rotated])
next
  case (reap m now)
  then show ?case by (simp add: reap_def Let_def fold_kill_inv)
next
  case (close m)
  then have "mgr_inv (m\<lparr>hmStopped := True\<rparr>)" by (simp add: mgr_inv_def)
  from fold_kill_inv [OF this, of "\<lambda>_. True" "hmSessions m"] show ?case
    by (simp add: hls_Close_def cleanDir_def mgr_inv_def)
qed

lemma hls_steps_inv: "hls_step\<^sup>*\<^sup>* m m' \<Longrightarrow> mgr_inv m \<Longrightarrow> mgr_inv m'"
  by (induction rule: rtranclp_induct) (auto simp: hls_step_inv)

lemma NewManager_inv: "NewManager lp ok path dir = Some m \<Longrightarrow> mgr_inv m \<and> hmMaxSessions m = 4"
  by (auto simp: NewManager_def Let_def mgr_inv_def split: if_splits)

lemma hls_step_max: "hls_step m m' \<Longrightarrow> hmMaxSessions m' = hmMaxSessions m"
proof (induction rule: hls_step.induct)
  case (ensure key m mkdirOk startOk now buildArgs)
  have "hmMaxSessions (evictOldestLocked m) = hmMaxSessions m" by (simp add: evictOldestLocked_def Let_def)
  then show ?case by (simp add: ensure_def Let_def split: option.splits)
next
  case (reap m now)
  have "hmMaxSessions (fold (\<lambda>(k, s) m1. if P s then killLocked k m1 else m1) l m) = hmMaxSessions m" for P l
    by (induction l arbitrary: m) auto
  then show ?case by (simp add: reap_def Let_def)
next
  case (close m)
  have "hmMaxSessions (fold (\<lambda>(k, s) m1. killLocked k m1) l m) = hmMaxSessions m" for l m
    by (induction l arbitrary: m) auto
  from this [of "hmSessions m" "m\<lparr>hmStopped := True\<rparr>"] show ?case by (simp add: hls_Close_def cleanDir_def)
qed (auto simp: hls_Stop_def Playlist_def Segment_def hls_get_def hls_exit_def Let_def split: option.splits)

lemma hls_steps_max: "hls_step\<^sup>*\<^sup>* m m' \<Longrightarrow> hmMaxSessions m' = hmMaxSessions m"
  by (induction rule: rtranclp_induct) (auto simp: hls_step_max)

section \<open>What the sessions guarantee\<close>


definition mgr0 :: hlsManager where
  "mgr0 = \<lparr>hmBin = ''/bin/ffmpeg'', hmBaseDir = ''/t'', hmSessions = [], hmMaxSessions = 4,
     hmIdleTimeout = 2 * Minute, hmProcs = [], hmDirs = [], hmStopped = False\<rparr>"

lemma mgr0_new: "NewManager (\<lambda>n. Some (''/bin/'' @ n)) True [] ''/t'' = Some mgr0"
  by (simp add: NewManager_def resolveBinary_def mgr0_def)


text \<open>At the cap a request for a new key kills one session, and no session was used less
  recently than that one; below the cap none is killed. Every other session stays, and the
  new one is there with a directory of its own name below the base directory.\<close>

theorem ensure_evicts_oldest:
  assumes "mgr_inv m" "key \<noteq> []" "map_get (hmSessions m) key = None"
    and "ensure True True now key buildArgs m = (res, m')"
  shows "(\<exists>s. res = Inr s \<and> map_get (hmSessions m') key = Some s \<and> hsLastAccess s = now \<and>
      hsDir s = JoinPath [hmBaseDir m, sessionDir key] \<and> (key, buildArgs (hsDir s)) \<in> set (hmProcs m')) \<and>
    (if length (hmSessions m) < hmMaxSessions m
     then \<forall>k. k \<noteq> key \<longrightarrow> map_get (hmSessions m') k = map_get (hmSessions m) k
     else (\<exists>k0 s0. map_get (hmSessions m) k0 = Some s0 \<and> map_get (hmSessions m') k0 = None \<and>
        (\<forall>(j, s) \<in> set (hmSessions m). hsLastAccess s0 \<le> hsLastAccess s) \<and>
        (\<forall>k. k \<noteq> key \<longrightarrow> k \<noteq> k0 \<longrightarrow> map_get (hmSessions m') k = map_get (hmSessions m) k)))"
proof -
  define m1 where "m1 = (if length (hmSessions m) \<ge> hmMaxSessions m then evictOldestLocked m else m)"
  let ?dir = "JoinPath [hmBaseDir m1, sessionDir key]"
  let ?s = "\<lparr>hsID = key, hsDir = ?dir, hsLastAccess = now, hsDone = False\<rparr>"
  have base: "hmBaseDir m1 = hmBaseDir m" using make_room [OF assms(1)] unfolding m1_def by blast
  have r: "res = Inr ?s" "m' = m1\<lparr>hmSessions := map_set key ?s (hmSessions m1),
      hmProcs := hmProcs m1 @ [(key, buildArgs ?dir)], hmDirs := ?dir # filter (\<lambda>d. d \<noteq> ?dir) (hmDirs m1)\<rparr>"
    using assms(3,4) unfolding ensure_def m1_def [symmetric] by (simp_all add: Let_def)
  have full: "\<exists>k0 s0. map_get (hmSessions m) k0 = Some s0 \<and> m1 = killLocked k0 m \<and>
      (\<forall>(j, s) \<in> set (hmSessions m). hsLastAccess s0 \<le> hsLastAccess s)"
    if "length (hmSessions m) = hmMaxSessions m"
  proof -
    have "hmSessions m \<noteq> []" using that assms(1) by (auto simp: mgr_inv_def)
    from evict_oldest [OF assms(1) this] that show ?thesis unfolding m1_def by force
  qed
  have sess: "map_get (hmSessions m') = (map_get (hmSessions m1))(key \<mapsto> ?s)" using r(2) by (simp add: fun_eq_iff)
  have "m1 = m" if "length (hmSessions m) < hmMaxSessions m" using that by (simp add: m1_def)
  moreover have "\<exists>k0 s0. map_get (hmSessions m) k0 = Some s0 \<and> map_get (hmSessions m') k0 = None \<and>
        (\<forall>(j, s) \<in> set (hmSessions m). hsLastAccess s0 \<le> hsLastAccess s) \<and>
        (\<forall>k. k \<noteq> key \<longrightarrow> k \<noteq> k0 \<longrightarrow> map_get (hmSessions m') k = map_get (hmSessions m) k)"
    if "\<not> length (hmSessions m) < hmMaxSessions m"
  proof -
    have at_cap: "length (hmSessions m) = hmMaxSessions m" using that assms(1) by (simp add: mgr_inv_def)
    obtain k0 s0 where k0: "map_get (hmSessions m) k0 = Some s0" "m1 = killLocked k0 m"
      "\<forall>(j, s) \<in> set (hmSessions m). hsLastAccess s0 \<le> hsLastAccess s" using full [OF at_cap] by blast
    have "k0 \<noteq> key" using k0(1) assms(3) by auto
    with k0 show ?thesis unfolding sess by (auto simp: killLocked_sessions)
  qed
  moreover have "map_get (hmSessions m') key = Some ?s" by (simp add: sess)
  moreover have "(key, buildArgs ?dir) \<in> set (hmProcs m')" by (simp add: r(2))
  ultimately show ?thesis using r(1) base sess by simp
qed

definition mgr_full :: hlsManager where
  "mgr_full = mgr0\<lparr>hmSessions := map (\<lambda>(k, t). (k, \<lparr>hsID = k, hsDir = JoinPath [''/t'', sessionDir k],
     hsLastAccess = t, hsDone = True\<rparr>)) [(''a'', 5), (''b'', 3), (''c'', 8), (''d'', 4)]\<rparr>"

lemma mgr_full_inv: "mgr_inv mgr_full"
  by (simp add: mgr_inv_def mgr_full_def mgr0_def map_wf_def)

lemma ensure_evicts_oldest_witness:
  "\<exists>k0 s0. map_get (hmSessions mgr_full) k0 = Some s0 \<and> hsLastAccess s0 \<le> 3 \<and>
     map_get (hmSessions (snd (EnsureLiveSession True True 9 ''k'' ''http://up'' mgr_full))) k0 = None"
proof -
  let ?r = "EnsureLiveSession True True 9 ''k'' ''http://up'' mgr_full"
  have run: "ensure True True 9 ''k'' (\<lambda>dir. liveArgs ''http://up'' dir False) mgr_full = (fst ?r, snd ?r)"
    by (simp add: EnsureLiveSession_def)
  have "map_get (hmSessions mgr_full) ''k'' = None" "\<not> length (hmSessions mgr_full) < hmMaxSessions mgr_full"
    by (simp_all add: mgr_full_def mgr0_def)
  with ensure_evicts_oldest [OF mgr_full_inv _ _ run] obtain k0 s0 where
    "map_get (hmSessions mgr_full) k0 = Some s0" "map_get (hmSessions (snd ?r)) k0 = None"
    "\<forall>(j, s) \<in> set (hmSessions mgr_full). hsLastAccess s0 \<le> hsLastAccess s" by auto
  moreover from this(3) have "hsLastAccess s0 \<le> 3" by (simp add: mgr_full_def)
  ultimately show ?thesis by blast
qed

text \<open>A round of the reaper kills exactly the sessions that were not used during the idle
  timeout: a session stays, as it was, if and only if its last use is not before the cutoff.\<close>

theorem reap_exact:
  assumes "mgr_inv m"
  shows "map_get (hmSessions (reap now m)) k =
    (case map_get (hmSessions m) k of None \<Rightarrow> None
     | Some s \<Rightarrow> if hsLastAccess s < now - hmIdleTimeout m then None else Some s)"
proof -
  have wf: "map_wf (hmSessions m)" using assms by (simp add: mgr_inv_def)
  have "hmSessions (reap now m) =
      filter (\<lambda>(k, _). \<not> (\<exists>s. (k, s) \<in> set (hmSessions m) \<and> Before (hsLastAccess s) (now - hmIdleTimeout m))) (hmSessions m)"
    by (simp add: reap_def Let_def fold_kill_sessions)
  also have "\<dots> = filter (\<lambda>(_, s). \<not> Before (hsLastAccess s) (now - hmIdleTimeout m)) (hmSessions m)"
    by (rule filter_cong) (use map_wf_in [OF wf] in auto)
  finally show ?thesis using map_of_filter_val [OF wf, of "\<lambda>s. \<not> Before (hsLastAccess s) (now - hmIdleTimeout m)"]
    by (auto simp: Before_def split: option.splits)
qed

lemma reap_exact_witness:
  "map_get (hmSessions (reap (4 + 2 * Minute) mgr_full)) ''b'' = None \<and>
   map_get (hmSessions (reap (4 + 2 * Minute) mgr_full)) ''d'' \<noteq> None"
  by (simp add: reap_exact [OF mgr_full_inv]) (simp add: mgr_full_def mgr0_def)

section \<open>Segments and playlists\<close>

lemma HasSuffix_split: "HasSuffix s p \<Longrightarrow> s = take (length s - length p) s @ p"
proof -
  assume "HasSuffix s p"
  then obtain zs where "rev s = rev p @ zs" by (auto simp: HasSuffix_def HasPrefix_prefix prefix_def)
  then have "s = rev zs @ p" by (metis rev_append rev_rev_ident)
  then show ?thesis by simp
qed

lemma segmentName_plain: "segmentName s \<Longrightarrow> plain s"
proof -
  assume s: "segmentName s"
  let ?n = "length s - 3" and ?ds = "drop 3 (take (length s - 3) s)"
  have ds: "list_all is_digit ?ds" "1 \<le> length ?ds" using s by (simp_all add: segmentName_def Let_def)
  have tl: "s = take ?n s @ ''.ts''" using s HasSuffix_split [of s "''.ts''"] by (simp add: segmentName_def numeral_3_eq_3)
  have "take 3 s = ''seg''" using s by (simp add: segmentName_def HasPrefix_def numeral_3_eq_3)
  moreover have "3 \<le> ?n" using ds(2) by auto
  ultimately have "take 3 (take ?n s) = ''seg''" by (simp add: min_absorb1)
  then have "take ?n s = ''seg'' @ ?ds" by (metis append_take_drop_id)
  with tl have e: "s = ''seg'' @ ?ds @ ''.ts''" by (metis append.assoc)
  have "slash \<notin> set ?ds" using ds(1) by (auto simp: list_all_iff is_digit_def slash_def less_eq_char_def)
  then have "slash \<notin> set s" by (subst e) (simp add: slash_def)
  moreover have "s \<noteq> []" "hd s = CHR ''s''" by (subst e, simp)+
  ultimately show ?thesis by (auto simp: plain_def dot_def dotdot_def segmentName_def HasPrefix_def)
qed

lemma segment_loop_path: "segment_loop dl path ps = Some (Inr p) \<Longrightarrow> p = path"
  by (induction dl path ps rule: segment_loop.induct) (auto split: if_splits)

lemma hex_plain: "hex_encode bs \<noteq> [] \<Longrightarrow> plain (hex_encode bs)"
proof -
  assume ne: "hex_encode bs \<noteq> []"
  have "set (hex_encode bs) \<subseteq> set hex_alphabet"
    unfolding hex_encode_def by (rule radix_encode_set) (simp_all add: hex_alphabet_def)
  moreover have "slash \<notin> set hex_alphabet" "CHR ''.'' \<notin> set hex_alphabet"
    by (simp_all add: hex_alphabet_def slash_def)
  ultimately show ?thesis using ne by (auto simp: plain_def dot_def dotdot_def)
qed

lemma sessionDir_plain: "plain (sessionDir key)"
proof -
  have "length (sessionDir key) = 32"
    by (simp add: sessionDir_def hex_encode_def length_radix_encode)
  then have "sessionDir key \<noteq> []" by auto
  then show ?thesis unfolding sessionDir_def by (rule hex_plain)
qed

text \<open>C25. A path \<open>Segment\<close> gives out is that of the named segment in the directory of its own
  session, two elements below the base directory; whatever name the client asks for, nothing
  else is ever served, and a name that is not \<open>seg\<close>, digits and \<open>.ts\<close> is refused.\<close>

theorem segment_confined:
  assumes "mgr_inv m" "IsAbs (hmBaseDir m)" "Segment t0 t1 files key name m = (Some (Inr path), m')"
  shows "segmentName name \<and> elements path = elements (hmBaseDir m) @ [sessionDir key, name]"
proof -
  have n: "segmentName name" using assms(3) by (simp add: Segment_def split: if_splits)
  with assms(3) obtain s where g: "hls_get t0 key m = (Some s, m')"
    "segment_loop (t1 + 20 * Second) (JoinPath [hsDir s, name]) (files (JoinPath [hsDir s, name])) = Some (Inr path)"
    by (auto simp: Segment_def Let_def split: prod.splits option.splits)
  from g(1) obtain s0 where s0: "map_get (hmSessions m) key = Some s0" "hsDir s = hsDir s0"
    by (auto simp: hls_get_def Let_def split: option.splits)
  have "(key, s0) \<in> set (hmSessions m)" by (rule map_of_SomeD) (rule s0(1))
  then have "hsDir s0 = JoinPath [hmBaseDir m, sessionDir key]" using assms(1) by (auto simp: mgr_inv_def)
  with s0(2) JoinPath_elements [OF assms(2) sessionDir_plain [of key]]
  have d: "elements (hsDir s) = elements (hmBaseDir m) @ [sessionDir key]" "IsAbs (hsDir s)" by simp_all
  have "path = JoinPath [hsDir s, name]" using segment_loop_path g(2) by blast
  with JoinPath_elements [OF d(2) segmentName_plain [OF n]] d(1) n show ?thesis by simp
qed

lemma segment_confined_witness:
  "\<exists>path. fst (Segment 9 9 (\<lambda>p. [(False, 9), (True, 10)]) ''a'' ''seg00001.ts'' mgr_full) = Some (Inr path) \<and>
     elements path = elements ''/t'' @ [sessionDir ''a'', ''seg00001.ts'']"
proof -
  let ?r = "Segment 9 9 (\<lambda>p. [(False, 9), (True, 10)]) ''a'' ''seg00001.ts'' mgr_full"
  have n: "segmentName ''seg00001.ts''" by code_simp
  obtain path where "?r = (Some (Inr path), snd ?r)"
    using n by (simp add: Segment_def hls_get_def mgr_full_def Let_def After_def Second_def)
  with segment_confined [OF mgr_full_inv _ this] have "elements path = elements ''/t'' @ [sessionDir ''a'', ''seg00001.ts'']"
    by (simp add: mgr_full_def mgr0_def IsAbs_def HasPrefix_def)
  with \<open>?r = (Some (Inr path), snd ?r)\<close> show ?thesis by (metis fst_conv)
qed

lemma playlist_loop_stops:
  "p \<in> set ps \<Longrightarrow> After (plNow p) dl \<Longrightarrow> playlist_loop dl ps \<noteq> None"
  by (induction ps) auto

lemma playlist_loop_data: "playlist_loop dl ps = Some (Inr d) \<Longrightarrow> d \<noteq> []"
  by (induction dl ps rule: playlist_loop.induct) (auto simp: nonempty_read_def split: if_splits option.splits)



section \<open>The ladder\<close>

lemma and_not_1: "(x :: int) AND NOT 1 = x - x mod 2"
  by (subst and_int_rec) (simp add: minus_mod_eq_mult_div)

lemma and_minus_2: "(x :: int) AND - 2 = x - x mod 2"
  using and_not_1 [of x] by simp

lemma evenWidth_bounds:
  assumes "0 < srcW" "0 < srcH" "0 < h" "h \<le> srcH" "srcW * srcH < 2 ^ 63"
  shows "even (evenWidth srcW srcH h) \<and> srcW * h div srcH \<le> evenWidth srcW srcH h \<and>
    evenWidth srcW srcH h \<le> srcW * h div srcH + 1"
proof -
  have le: "srcW * h \<le> srcW * srcH" using assms by simp
  have pos: "0 < srcW * h" using assms by simp
  have w: "wrap64 (srcW * h) = srcW * h" by (rule wrap64_id) (use le pos assms(5) in linarith)+
  have "wrap64 (srcW * h) sdiv srcH = srcW * h div srcH"
    using pos assms(2) by (simp add: w signed_divide_int_def)
  then have "evenWidth srcW srcH h = (srcW * h div srcH + 1) - (srcW * h div srcH + 1) mod 2"
    using assms by (simp add: evenWidth_def Let_def and_minus_2)
  moreover have "even (w + 1 - (w + 1) mod 2) \<and> w \<le> w + 1 - (w + 1) mod 2 \<and> w + 1 - (w + 1) mod 2 \<le> w + 1" for w :: int
    by presburger
  ultimately show ?thesis by simp
qed



text \<open>The ladder is not ordered by bit rate when the source is thrifty: for a source higher than
  720 lines with a bit rate between 1000 and 2800 kilobits, only the top rung is capped by it, so the
  second rung, of lower resolution, asks for more than the first and more than the source has.\<close>

theorem ladder_second_rung_exceeds_source:
  assumes "720 < height" "1000000 \<le> bitrate" "bitrate < 2800000"
  shows "\<exists>r0 r1 rest. SelectRenditions width height bitrate = r0 # r1 # rest \<and> rdHeight r1 < rdHeight r0 \<and>
    rdVideoKbps r0 < rdVideoKbps r1 \<and> bitrate < rdVideoKbps r1 * 1000"
proof -
  have s: "bitrate sdiv 1000 = bitrate div 1000" using assms(2) by (simp add: signed_divide_int_def)
  have b: "0 < bitrate div 1000" "bitrate div 1000 < 2800" using assms(2,3) by auto
  have top: "rdVideoKbps (rendition_for width height bitrate height) = bitrate div 1000"
    using assms s b by (simp add: rendition_for_def Let_def videoKbpsFor_def)
  define h1 where "h1 = (if 1080 < height then 1080 else 720 :: int)"
  have "\<exists>tl. ladder_heights height = height # h1 # tl"
    using assms(1) by (cases "1080 < height") (simp_all add: ladder_heights_def ladderHeights_def h1_def)
  then obtain tl where hs: "ladder_heights height = height # h1 # tl" by blast
  have h1: "h1 < height" "2800 \<le> videoKbpsFor h1" using assms(1) by (auto simp: h1_def videoKbpsFor_def)
  then have "rdVideoKbps (rendition_for width height bitrate h1) = videoKbpsFor h1"
    by (simp add: rendition_for_def Let_def)
  with top b h1 assms hs show ?thesis
    by (simp add: SelectRenditions_def) (simp add: rendition_for_def Let_def)
qed

lemma ladder_second_rung_exceeds_source_witness:
  "\<exists>r0 r1 rest. SelectRenditions 1920 1080 1000000 = r0 # r1 # rest \<and> rdVideoKbps r0 < rdVideoKbps r1"
  using ladder_second_rung_exceeds_source [of 1080 1000000 1920] by auto

end
