(* ===== verification/LiveTv.thy ===== *)
theory LiveTv
  imports Numbers Security Paths "HOL-Library.Product_Lexorder"
begin

text \<open>
  Package \<open>internal/livetv\<close>: playlists (\<open>m3u.go\<close>), the guide (\<open>xmltv.go\<close>), the matching of names
  (\<open>match.go\<close>) and the service that holds both (\<open>service.go\<close>). The regular expressions are written
  out as scanners. The network, the file system, gzip and the XML decoder are arguments.
\<close>

section \<open>Playlists\<close>

record Channel =
  chID :: string
  chTvgID :: string
  chName :: string
  chNumber :: string
  chLogo :: string
  chGroup :: string
  chURL :: string

definition quote :: char where "quote = CHR 0x22"

definition attr_char :: "char \<Rightarrow> bool" where
  "attr_char c \<longleftrightarrow> (CHR ''a'' \<le> c \<and> c \<le> CHR ''z'') \<or> (CHR ''A'' \<le> c \<and> c \<le> CHR ''Z'') \<or> is_digit c \<or> c = CHR ''-''"

text \<open>\<open>attrRe.FindAllStringSubmatch\<close>: a run of attribute characters, \<open>="\<close>, a value, \<open>"\<close>; where the
  attempt fails the search goes on one byte further.\<close>

function find_attrs :: "string \<Rightarrow> (string \<times> string) list" where
  "find_attrs s =
     (if s = [] then []
      else let key = takeWhile attr_char s; rest = dropWhile attr_char s;
               val = takeWhile (\<lambda>c. c \<noteq> quote) (drop 2 rest); after = dropWhile (\<lambda>c. c \<noteq> quote) (drop 2 rest)
           in if key \<noteq> [] \<and> HasPrefix rest [CHR ''='', quote] \<and> after \<noteq> []
              then (key, val) # find_attrs (tl after)
              else find_attrs (tl s))"
  by pat_completeness auto

termination
proof (relation "measure length", goal_cases)
  case 1
  then show ?case by simp
next
  case (2 s key rest val after)
  have "length after \<le> length (drop 2 rest)" unfolding 2(5) by (rule length_dropWhile_le)
  moreover have "length rest \<le> length s" unfolding 2(3) by (rule length_dropWhile_le)
  moreover have "after \<noteq> []" using 2(6) by blast
  ultimately show ?case by (cases after) auto
next
  case (3 s key rest val after)
  then show ?case by simp
qed

declare find_attrs.simps [simp del]

text \<open>\<open>strings.ReplaceAll(s, "\r\n", "\n")\<close>.\<close>

fun unix_lines :: "string \<Rightarrow> string" where
  "unix_lines (a # b # s) =
     (if a = CHR 0x0D \<and> b = CHR 0x0A then CHR 0x0A # unix_lines s else a # unix_lines (b # s))"
| "unix_lines s = s"

definition playlist_lines :: "string \<Rightarrow> string list" where
  "playlist_lines data = Split (unix_lines data) (CHR 0x0A)"

fun guide_attr :: "(string \<times> string) list \<Rightarrow> string" where
  "guide_attr [] = []"
| "guide_attr ((k, v) # as) =
     (if ToLower k \<in> {''url-tvg'', ''x-tvg-url'', ''tvg-url''} \<and> v \<noteq> [] then v else guide_attr as)"

fun guide_url_loop :: "string list \<Rightarrow> string" where
  "guide_url_loop [] = []"
| "guide_url_loop (raw # lines) =
     (let line = TrimSpace raw in
      if \<not> HasPrefix line ''#EXTM3U'' then guide_url_loop lines else guide_attr (find_attrs line))"

definition M3UGuideURL :: "string \<Rightarrow> string" where
  "M3UGuideURL data = guide_url_loop (playlist_lines data)"

text \<open>The first comma outside quotes: what follows it and what precedes it.\<close>

fun split_name_loop :: "bool \<Rightarrow> string \<Rightarrow> string \<Rightarrow> (string \<times> string) option" where
  "split_name_loop inQuotes before [] = None"
| "split_name_loop inQuotes before (c # cs) =
     (if c = quote then split_name_loop (\<not> inQuotes) (before @ [c]) cs
      else if c = CHR '','' \<and> \<not> inQuotes then Some (cs, before)
      else split_name_loop inQuotes (before @ [c]) cs)"

definition splitDisplayName :: "string \<Rightarrow> string \<times> string \<times> bool" where
  "splitDisplayName s = (case split_name_loop False [] s of
     None \<Rightarrow> ([], s, False) | Some (name, rest) \<Rightarrow> (name, rest, True))"

definition set_attr :: "string \<times> string \<Rightarrow> Channel \<Rightarrow> Channel" where
  "set_attr kv ch =
     (case kv of (k, val) \<Rightarrow> let key = ToLower k in
      if key = ''tvg-id'' then ch\<lparr>chTvgID := val\<rparr>
      else if key = ''tvg-name'' then (if chName ch = [] then ch\<lparr>chName := val\<rparr> else ch)
      else if key = ''tvg-logo'' then ch\<lparr>chLogo := val\<rparr>
      else if key = ''tvg-chno'' \<or> key = ''channel-number'' then ch\<lparr>chNumber := val\<rparr>
      else if key = ''group-title'' then ch\<lparr>chGroup := val\<rparr>
      else ch)"

definition noChannel :: Channel where
  "noChannel = \<lparr>chID = [], chTvgID = [], chName = [], chNumber = [], chLogo = [], chGroup = [], chURL = []\<rparr>"

definition parseExtInf :: "string \<Rightarrow> Channel" where
  "parseExtInf s =
     (case splitDisplayName s of (name, rest, ok) \<Rightarrow>
        fold set_attr (find_attrs rest) (if ok then noChannel\<lparr>chName := TrimSpace name\<rparr> else noChannel))"

definition channelID :: "Channel \<Rightarrow> string" where
  "channelID ch = (let seed = (if chTvgID ch = [] then chURL ch else chTvgID ch)
     in hex_encode (take 16 (sha256 (''livetv:'' @ seed))))"

definition finalizeChannel :: "Channel \<Rightarrow> int \<Rightarrow> Channel" where
  "finalizeChannel ch autoNum =
     (let ch1 = (if chName ch = [] then ch\<lparr>chName := ''Channel '' @ Itoa autoNum\<rparr> else ch);
          ch2 = (if chNumber ch1 = [] then ch1\<lparr>chNumber := Itoa autoNum\<rparr> else ch1)
      in ch2\<lparr>chID := channelID ch2\<rparr>)"

definition isStreamURL :: "string \<Rightarrow> bool" where
  "isStreamURL s \<longleftrightarrow> HasPrefix s ''http://'' \<or> HasPrefix s ''https://'' \<or> HasPrefix s ''rtmp://'' \<or> HasPrefix s ''rtsp://''"

text \<open>The loop over the lines: the pending entry, the number of channels so far, and the lines left.\<close>

fun m3u_loop :: "Channel option \<Rightarrow> int \<Rightarrow> string list \<Rightarrow> Channel list" where
  "m3u_loop pending autoNum [] = []"
| "m3u_loop pending autoNum (raw # lines) =
     (let line = TrimSpace raw in
      if line = [] \<or> line = ''#EXTM3U'' then m3u_loop pending autoNum lines
      else if HasPrefix line ''#EXTINF:'' then m3u_loop (Some (parseExtInf (drop 8 line))) autoNum lines
      else if HasPrefix line ''#EXTGRP:'' then
        m3u_loop (case pending of None \<Rightarrow> None
          | Some ch \<Rightarrow> if chGroup ch = [] then Some (ch\<lparr>chGroup := TrimSpace (drop 8 line)\<rparr>) else Some ch) autoNum lines
      else if HasPrefix line ''#'' then m3u_loop pending autoNum lines
      else case pending of
          None \<Rightarrow> m3u_loop None autoNum lines
        | Some ch \<Rightarrow>
            if \<not> isStreamURL line then m3u_loop None autoNum lines
            else finalizeChannel (ch\<lparr>chURL := line\<rparr>) (autoNum + 1) # m3u_loop None (autoNum + 1) lines)"

definition ParseM3U :: "string \<Rightarrow> Channel list" where
  "ParseM3U data = m3u_loop None 0 (playlist_lines data)"

section \<open>Times of the guide\<close>

text \<open>\<open>time.Parse\<close> for the two layouts. Numbers are read as the library reads them: four digits of
  year, then two digits each, but the hour may have one; a fraction after the seconds is taken
  though the layout has none; a blank of the layout stands for any run of blanks.\<close>

definition digit_at :: "string \<Rightarrow> nat \<Rightarrow> bool" where
  "digit_at s i \<longleftrightarrow> i < length s \<and> is_digit (s ! i)"

definition getnum :: "bool \<Rightarrow> string \<Rightarrow> (nat \<times> string) option" where
  "getnum fixed s =
     (if \<not> digit_at s 0 then None
      else if \<not> digit_at s 1 then (if fixed then None else Some (digits_value (take 1 s), drop 1 s))
      else Some (digits_value (take 2 s), drop 2 s))"

definition isLeap :: "nat \<Rightarrow> bool" where
  "isLeap y \<longleftrightarrow> y mod 4 = 0 \<and> (y mod 100 \<noteq> 0 \<or> y mod 400 = 0)"

definition daysIn :: "nat \<Rightarrow> nat \<Rightarrow> nat" where
  "daysIn mo y = (if mo = 2 then (if isLeap y then 29 else 28) else if mo \<in> {4, 6, 9, 11} then 30 else 31)"

text \<open>Days from 0001-01-01 to a date of the proleptic Gregorian calendar.\<close>

definition days_before_year :: "int \<Rightarrow> int" where
  "days_before_year y = (let p = y - 1 in 365 * p + p div 4 - p div 100 + p div 400)"

definition dayNumber :: "nat \<Rightarrow> nat \<Rightarrow> nat \<Rightarrow> int" where
  "dayNumber y mo d = days_before_year (int y) + int (sum_list (map (\<lambda>m. daysIn m y) [1..<mo])) + int d - 1"

definition parse_fraction :: "string \<Rightarrow> int \<times> string" where
  "parse_fraction s =
     (if length s \<ge> 2 \<and> (hd s = CHR ''.'' \<or> hd s = CHR '','') \<and> digit_at s 1
      then let ds = takeWhile is_digit (tl s); kept = take 9 ds
           in (int (digits_value kept) * 10 ^ (9 - length kept), dropWhile is_digit (tl s))
      else (0, s))"

definition in_range :: "nat \<Rightarrow> nat \<Rightarrow> nat \<times> string \<Rightarrow> (nat \<times> string) option" where
  "in_range lo hi r = (if lo \<le> fst r \<and> fst r \<le> hi then Some r else None)"

text \<open>The instant of \<open>20060102150405\<close> and what follows it.\<close>

definition parse_stamp :: "string \<Rightarrow> (time \<times> string) option" where
  "parse_stamp s =
     (if length s < 4 \<or> \<not> list_all is_digit (take 4 s) then None
      else let y = digits_value (take 4 s) in
        Option.bind (Option.bind (getnum True (drop 4 s)) (in_range 1 12)) (\<lambda>(mo, s1).
        Option.bind (getnum True s1) (\<lambda>(d, s2).
        Option.bind (Option.bind (getnum False s2) (in_range 0 23)) (\<lambda>(h, s3).
        Option.bind (Option.bind (getnum True s3) (in_range 0 59)) (\<lambda>(mi, s4).
        Option.bind (Option.bind (getnum True s4) (in_range 0 59)) (\<lambda>(sec, s5).
          let (nsec, s6) = parse_fraction s5
          in if d < 1 \<or> d > daysIn mo y then None
             else Some (((dayNumber y mo d * 24 + int h) * 60 + int mi) * Minute + int sec * Second + nsec, s6)))))))"

definition parse_zone :: "string \<Rightarrow> int option" where
  "parse_zone s =
     (if length s \<noteq> 5 \<or> (hd s \<noteq> CHR ''+'' \<and> hd s \<noteq> CHR ''-'') then None
      else case (getnum True (take 2 (drop 1 s)), getnum True (drop 3 s)) of
          (Some (hh, _), Some (mm, _)) \<Rightarrow>
            if hh > 24 \<or> mm > 60 then None
            else Some ((if hd s = CHR ''-'' then -1 else 1) * (int hh * 60 + int mm) * Minute)
        | _ \<Rightarrow> None)"

definition parseXMLTVTime :: "string \<Rightarrow> time option" where
  "parseXMLTVTime raw =
     (let s = TrimSpace raw in
      if s = [] then None
      else case parse_stamp s of
        None \<Rightarrow> None
      | Some (t, rest) \<Rightarrow>
          if rest = [] then Some t
          else if hd rest \<noteq> CHR '' '' then None
          else map_option (\<lambda>off. t - off) (parse_zone (dropWhile (\<lambda>c. c = CHR '' '') rest)))"

section \<open>The guide\<close>

record Program =
  pgID :: string
  pgChannelTvgID :: string
  pgTitle :: string
  pgDescription :: string
  pgCategory :: string
  pgStart :: time
  pgStop :: time

record guideChannel =
  gcID :: string
  gcNames :: "string list"

record xmltvChannel =
  xcID :: string
  xcDisplayNames :: "string list"

record xmltvProgramme =
  xpStart :: string
  xpStop :: string
  xpChannel :: string
  xpTitle :: string
  xpDesc :: string
  xpCat :: string

record xmltvDoc =
  xdChannels :: "xmltvChannel list"
  xdProgrammes :: "xmltvProgramme list"

definition programID :: "string \<Rightarrow> time \<Rightarrow> string \<Rightarrow> string" where
  "programID channel start title =
     hex_encode (take 16 (sha256 (''program:'' @ channel @ '':'' @ Itoa (Unix start) @ '':'' @ title)))"

definition guide_channel :: "xmltvChannel \<Rightarrow> guideChannel option" where
  "guide_channel c = (if xcID c = [] then None
     else Some \<lparr>gcID = xcID c, gcNames = filter (\<lambda>n. n \<noteq> []) (map TrimSpace (xcDisplayNames c))\<rparr>)"

definition guide_program :: "xmltvProgramme \<Rightarrow> Program option" where
  "guide_program p =
     (if xpChannel p = [] then None
      else case parseXMLTVTime (xpStart p) of
        None \<Rightarrow> None
      | Some start \<Rightarrow>
          let stop = (case parseXMLTVTime (xpStop p) of None \<Rightarrow> start + 30 * Minute | Some t \<Rightarrow> t);
              title = TrimSpace (xpTitle p)
          in Some \<lparr>pgID = programID (xpChannel p) start title, pgChannelTvgID = xpChannel p, pgTitle = title,
               pgDescription = TrimSpace (xpDesc p), pgCategory = TrimSpace (xpCat p), pgStart = start, pgStop = stop\<rparr>)"

definition parseGuide :: "(string \<Rightarrow> xmltvDoc option) \<Rightarrow> string \<Rightarrow> err + Program list \<times> guideChannel list" where
  "parseGuide unmarshal data =
     (case unmarshal data of
        None \<Rightarrow> Inl (ErrIO ''xml'')
      | Some doc \<Rightarrow> Inr (List.map_filter guide_program (xdProgrammes doc), List.map_filter guide_channel (xdChannels doc)))"

definition ParseXMLTV :: "(string \<Rightarrow> xmltvDoc option) \<Rightarrow> string \<Rightarrow> err + Program list" where
  "ParseXMLTV unmarshal data = (case parseGuide unmarshal data of Inl e \<Rightarrow> Inl e | Inr (progs, _) \<Rightarrow> Inr progs)"

section \<open>Names\<close>

definition alnum :: "char \<Rightarrow> bool" where
  "alnum c \<longleftrightarrow> (CHR ''a'' \<le> c \<and> c \<le> CHR ''z'') \<or> is_digit c"

definition word_char :: "char \<Rightarrow> bool" where
  "word_char c \<longleftrightarrow> alnum c \<or> (CHR ''A'' \<le> c \<and> c \<le> CHR ''Z'') \<or> c = CHR ''_''"

text \<open>The alternatives of \<open>qualityTokenRe\<close> in order, the optional parts written out greedily.\<close>

definition qualityTokens :: "string list" where
  "qualityTokens = [''fhd'', ''uhd'', ''hd'', ''sd'', ''4k'', ''8k'', ''hq'', ''1080p'', ''1080'', ''720p'', ''720'',
     ''576p'', ''576'', ''540p'', ''540'', ''480p'', ''480'', ''hevc'', ''h .265'', ''h 265'', ''h.265'', ''h265'',
     ''h .264'', ''h 264'', ''h.264'', ''h264'', ''raw'', ''feed'', ''backup'', ''alt'', ''vip'', ''multi'', ''geo'']"

text \<open>The length of the token at the head of \<open>s\<close>, given whether a word character precedes it. The
  text is in lower case already.\<close>

definition token_len :: "bool \<Rightarrow> string \<Rightarrow> nat option" where
  "token_len prevWord s =
     (if prevWord then None
      else map_option length (find (\<lambda>t. HasPrefix s t \<and> (drop (length t) s = [] \<or> \<not> word_char (s ! length t))) qualityTokens))"

lemma qualityTokens_nonempty: "list_all (\<lambda>t. t \<noteq> []) qualityTokens"
  by (simp add: qualityTokens_def)

lemma token_len_pos:
  assumes "token_len w s = Some n"
  shows "0 < n"
proof -
  obtain t where t: "find (\<lambda>t. HasPrefix s t \<and> (drop (length t) s = [] \<or> \<not> word_char (s ! length t))) qualityTokens = Some t"
    "n = length t"
    using assms by (auto simp: token_len_def split: if_splits)
  from t(1) have "t \<in> set qualityTokens" by (auto simp: find_Some_iff)
  with qualityTokens_nonempty t(2) show ?thesis by (auto simp: list_all_iff)
qed

function strip_tokens :: "bool \<Rightarrow> string \<Rightarrow> string" where
  "strip_tokens prevWord [] = []"
| "strip_tokens prevWord (c # cs) =
     (case token_len prevWord (c # cs) of
        Some n \<Rightarrow> CHR '' '' # strip_tokens True (drop n (c # cs))
      | None \<Rightarrow> c # strip_tokens (word_char c) cs)"
  by pat_completeness auto

termination
  by (relation "measure (\<lambda>(_, s). length s)") (auto dest: token_len_pos)

text \<open>The UTF-8 encodings of the marks that \<open>unicodeMarks\<close> drops.\<close>

definition unicodeMarks :: "string list" where
  "unicodeMarks =
     [[CHR 0xE1, CHR 0xB5, CHR 0x81, CHR 0xE1, CHR 0xB4, CHR 0xB4, CHR 0xE1, CHR 0xB4, CHR 0xB0],
      [CHR 0xE1, CHR 0xB4, CHR 0xB4, CHR 0xE1, CHR 0xB4, CHR 0xB0],
      [CHR 0xE1, CHR 0xB4, CHR 0xB1, CHR 0xE1, CHR 0xB4, CHR 0xB0],
      [CHR 0xE2, CHR 0x81, CHR 0xBF, CHR 0xE1, CHR 0xB5, CHR 0x89, CHR 0xCA, CHR 0xB7],
      [CHR 0xE1, CHR 0xB4, CHR 0xBA, CHR 0xE1, CHR 0xB4, CHR 0xB1, CHR 0xE1, CHR 0xB5, CHR 0x82]]"

text \<open>\<open>n\<close> bytes of a dropped mark are still to be skipped.\<close>

fun strip_marks :: "nat \<Rightarrow> string \<Rightarrow> string" where
  "strip_marks n [] = []"
| "strip_marks (Suc n) (c # cs) = strip_marks n cs"
| "strip_marks 0 (c # cs) =
     (case find (\<lambda>m. HasPrefix (c # cs) m) unicodeMarks of
        Some m \<Rightarrow> strip_marks (length m - 1) cs
      | None \<Rightarrow> c # strip_marks 0 cs)"

definition normalizeChannelName :: "string \<Rightarrow> string" where
  "normalizeChannelName s = filter alnum (strip_tokens False (strip_marks 0 (ToLower s)))"

definition index_name :: "string \<Rightarrow> string \<Rightarrow> string gomap \<Rightarrow> string gomap" where
  "index_name ident name idx =
     (let k = normalizeChannelName name
      in if k \<noteq> [] \<and> map_get idx k = None then map_set k ident idx else idx)"

definition buildNameIndex :: "guideChannel list \<Rightarrow> string gomap" where
  "buildNameIndex channels = fold (\<lambda>c. fold (index_name (gcID c)) (gcNames c)) channels []"

end
