(* ===== verification/LiveTvService.thy ===== *)
theory LiveTvService
  imports LiveTv
begin

text \<open>
  The service of \<open>livetv/service.go\<close>: the channels and the guide it holds, how a reload replaces
  them, and the lookups. Its lock makes each method one step. The network and the file system
  are the fields of \<open>netEnv\<close>; \<open>sort.SliceStable\<close> is the stable sort of the library.
\<close>

record netEnv =
  neGet :: "string \<Rightarrow> (int \<times> string) option"
  neReadFile :: "string \<Rightarrow> string option"
  neGunzip :: "string \<Rightarrow> string option"
  neUnmarshal :: "string \<Rightarrow> xmltvDoc option"

record liveTv =
  lvPlaylist :: string
  lvRefresh :: duration
  lvGuide :: string
  lvLogoDir :: string
  lvAliases :: "string gomap"
  lvChannels :: "Channel list"
  lvByID :: "Channel gomap"
  lvPrograms :: "Program list gomap"
  lvNameIndex :: "string gomap"
  lvGuideStart :: time
  lvGuideEnd :: time
  lvLoadedAt :: time
  lvStopped :: bool

record GuideEntry =
  geChannelID :: string
  geProgram :: Program

definition NewService :: "string \<Rightarrow> duration \<Rightarrow> liveTv option" where
  "NewService playlist refresh =
     (if TrimSpace playlist = [] then None
      else Some \<lparr>lvPlaylist = playlist, lvRefresh = (if refresh \<le> 0 then 12 * Hour else refresh), lvGuide = [],
        lvLogoDir = [], lvAliases = [], lvChannels = [], lvByID = [], lvPrograms = [], lvNameIndex = [],
        lvGuideStart = zeroTime, lvGuideEnd = zeroTime, lvLoadedAt = zeroTime, lvStopped = False\<rparr>)"

definition SetGuide :: "string \<Rightarrow> liveTv \<Rightarrow> liveTv" where
  "SetGuide src s = s\<lparr>lvGuide := TrimSpace src\<rparr>"

definition SetAliases :: "string gomap \<Rightarrow> liveTv \<Rightarrow> liveTv" where
  "SetAliases aliases s = s\<lparr>lvAliases :=
     fold (\<lambda>(name, tvg) idx. let k = normalizeChannelName name in
       if k \<noteq> [] \<and> tvg \<noteq> [] then map_set k tvg idx else idx) aliases []\<rparr>"

definition SetLogoCache :: "string \<Rightarrow> liveTv \<Rightarrow> liveTv" where
  "SetLogoCache dir s = s\<lparr>lvLogoDir := dir\<rparr>"

section \<open>Fetching\<close>

definition maybeGunzip :: "netEnv \<Rightarrow> string \<Rightarrow> string" where
  "maybeGunzip env data =
     (if length data < 2 \<or> data ! 0 \<noteq> CHR 0x1F \<or> data ! 1 \<noteq> CHR 0x8B then data
      else case neGunzip env data of
        None \<Rightarrow> data
      | Some out \<Rightarrow> let out = take (256 * 2 ^ 20) out in if out = [] then data else out)"

definition fetch :: "netEnv \<Rightarrow> string \<Rightarrow> err + string" where
  "fetch env src =
     (if HasPrefix src ''http://'' \<or> HasPrefix src ''https://'' then
        (case neGet env src of
           None \<Rightarrow> Inl (ErrIO ''livetv: fetching'')
         | Some (status, body) \<Rightarrow>
             if status \<noteq> 200 then Inl (ErrIO ''livetv: fetching: status'')
             else Inr (maybeGunzip env (take (64 * 2 ^ 20) body)))
      else case neReadFile env src of
        None \<Rightarrow> Inl (ErrIO ''read'')
      | Some data \<Rightarrow> Inr (maybeGunzip env data))"

definition splitSources :: "string \<Rightarrow> string list" where
  "splitSources s = filter (\<lambda>p. p \<noteq> []) (map TrimSpace (Split s (CHR '','')))"

section \<open>The guide\<close>

record guideData =
  gdByTvg :: "Program list gomap"
  gdNameIndex :: "string gomap"
  gdStart :: time
  gdEnd :: time

definition add_program :: "Program \<Rightarrow> guideData \<Rightarrow> guideData" where
  "add_program p g =
     (let old = (case map_get (gdByTvg g) (pgChannelTvgID p) of None \<Rightarrow> [] | Some l \<Rightarrow> l)
      in g\<lparr>gdByTvg := map_set (pgChannelTvgID p) (old @ [p]) (gdByTvg g),
           gdStart := (if IsZero (gdStart g) \<or> Before (pgStart p) (gdStart g) then pgStart p else gdStart g),
           gdEnd := (if IsZero (gdEnd g) \<or> After (pgStop p) (gdEnd g) then pgStop p else gdEnd g)\<rparr>)"

definition emptyGuide :: guideData where
  "emptyGuide = \<lparr>gdByTvg = [], gdNameIndex = [], gdStart = zeroTime, gdEnd = zeroTime\<rparr>"

definition groupPrograms :: "Program list \<Rightarrow> guideData" where
  "groupPrograms progs =
     (let g = fold add_program progs emptyGuide
      in g\<lparr>gdByTvg := map (\<lambda>(k, l). (k, sort_key pgStart l)) (gdByTvg g)\<rparr>)"

definition load_source :: "netEnv \<Rightarrow> string \<Rightarrow> Program list \<times> guideChannel list \<Rightarrow> Program list \<times> guideChannel list" where
  "load_source env src acc =
     (case fetch env src of
        Inl e \<Rightarrow> acc
      | Inr data \<Rightarrow>
          (case parseGuide (neUnmarshal env) data of
             Inl e \<Rightarrow> acc
           | Inr (progs, channels) \<Rightarrow> (fst acc @ progs, snd acc @ channels)))"

definition loadGuide :: "netEnv \<Rightarrow> string list \<Rightarrow> guideData" where
  "loadGuide env sources =
     (case fold (load_source env) sources ([], []) of (all, chans) \<Rightarrow>
        if all = [] then emptyGuide
        else (groupPrograms all)\<lparr>gdNameIndex := buildNameIndex chans\<rparr>)"

text \<open>\<open>reload\<close>: a channel list whose IDs repeat leaves the last one of each in \<open>byID\<close>.\<close>

definition index_channels :: "Channel list \<Rightarrow> Channel gomap" where
  "index_channels chs = fold (\<lambda>c m. map_set (chID c) c m) chs []"

definition reload :: "netEnv \<Rightarrow> time \<Rightarrow> liveTv \<Rightarrow> err option \<times> liveTv" where
  "reload env now s =
     (case fetch env (lvPlaylist s) of
        Inl e \<Rightarrow> (Some e, s)
      | Inr data \<Rightarrow>
          let channels = ParseM3U data;
              sources = splitSources (lvGuide s);
              sources = (if sources = [] then
                  (let headerURL = M3UGuideURL data in if headerURL \<noteq> [] then splitSources headerURL else sources)
                else sources);
              guide = loadGuide env sources
          in (None, s\<lparr>lvChannels := channels, lvByID := index_channels channels, lvPrograms := gdByTvg guide,
                lvNameIndex := gdNameIndex guide, lvGuideStart := gdStart guide, lvGuideEnd := gdEnd guide,
                lvLoadedAt := now\<rparr>))"

definition lv_Close :: "liveTv \<Rightarrow> liveTv" where
  "lv_Close s = s\<lparr>lvStopped := True\<rparr>"

section \<open>Lookups\<close>

definition resolveTvgIDLocked :: "liveTv \<Rightarrow> Channel \<Rightarrow> string" where
  "resolveTvgIDLocked s ch =
     (let norm = normalizeChannelName (chName ch) in
      case map_get (lvAliases s) norm of
        Some i \<Rightarrow> i
      | None \<Rightarrow>
          if chTvgID ch \<noteq> [] \<and> map_get (lvPrograms s) (chTvgID ch) \<noteq> None then chTvgID ch
          else case map_get (lvNameIndex s) norm of Some i \<Rightarrow> i | None \<Rightarrow> chTvgID ch)"

definition programs_of :: "liveTv \<Rightarrow> string \<Rightarrow> Program list" where
  "programs_of s tvg = (case map_get (lvPrograms s) tvg of None \<Rightarrow> [] | Some l \<Rightarrow> l)"

definition channel_entries :: "liveTv \<Rightarrow> time \<Rightarrow> time \<Rightarrow> Channel \<Rightarrow> GuideEntry list" where
  "channel_entries s from to ch =
     (let tvg = resolveTvgIDLocked s ch in
      if tvg = [] then []
      else map (\<lambda>p. \<lparr>geChannelID = chID ch, geProgram = p\<rparr>)
             (filter (\<lambda>p. After (pgStop p) from \<and> Before (pgStart p) to) (programs_of s tvg)))"

definition Programs :: "string list \<Rightarrow> time \<Rightarrow> time \<Rightarrow> liveTv \<Rightarrow> GuideEntry list" where
  "Programs channelIDs from to s =
     (let targets = (if channelIDs = [] then lvChannels s else List.map_filter (map_get (lvByID s)) channelIDs)
      in sort_key (\<lambda>e. pgStart (geProgram e)) (concat (map (channel_entries s from to) targets)))"

definition CurrentProgram :: "string \<Rightarrow> time \<Rightarrow> liveTv \<Rightarrow> GuideEntry option" where
  "CurrentProgram cid now s =
     (case map_get (lvByID s) cid of
        None \<Rightarrow> None
      | Some ch \<Rightarrow>
          let tvg = resolveTvgIDLocked s ch in
          if tvg = [] then None
          else map_option (\<lambda>p. \<lparr>geChannelID = chID ch, geProgram = p\<rparr>)
                 (find (\<lambda>p. \<not> After (pgStart p) now \<and> After (pgStop p) now) (programs_of s tvg)))"

definition GuideWindow :: "liveTv \<Rightarrow> time \<times> time" where
  "GuideWindow s = (lvGuideStart s, lvGuideEnd s)"

fun numeric_loop :: "int \<Rightarrow> string \<Rightarrow> int" where
  "numeric_loop n [] = n"
| "numeric_loop n (c # cs) = (if is_digit c then numeric_loop (wrap64 (n * 10 + int (of_char c - 48))) cs else n)"

definition numeric :: "string \<Rightarrow> int" where
  "numeric s = (if s = [] \<or> \<not> is_digit (hd s) then 2 ^ 30 else numeric_loop 0 s)"

definition lv_Channels :: "liveTv \<Rightarrow> Channel list" where
  "lv_Channels s = sort_key (\<lambda>c. (numeric (chNumber c), chName c)) (lvChannels s)"

definition lv_Channel :: "string \<Rightarrow> liveTv \<Rightarrow> Channel option" where
  "lv_Channel i s = map_get (lvByID s) i"

definition StreamURL :: "string \<Rightarrow> liveTv \<Rightarrow> string option" where
  "StreamURL i s = (case lv_Channel i s of None \<Rightarrow> None | Some c \<Rightarrow> Some (chURL c))"

definition lv_Count :: "liveTv \<Rightarrow> nat" where
  "lv_Count s = length (lvChannels s)"

section \<open>Logos\<close>

definition logoExt :: "string \<Rightarrow> string" where
  "logoExt u =
     (let v = ToLower (hd (Split u (CHR ''?''))) in
      if HasSuffix v ''.png'' then ''.png''
      else if HasSuffix v ''.webp'' then ''.webp''
      else if HasSuffix v ''.gif'' then ''.gif''
      else ''.jpg'')"

definition logoContentType :: "string \<Rightarrow> string" where
  "logoContentType ext =
     (if ext = ''.png'' then ''image/png'' else if ext = ''.webp'' then ''image/webp''
      else if ext = ''.gif'' then ''image/gif'' else ''image/jpeg'')"

text \<open>\<open>LogoPath\<close> over the files of the cache directory; the two flags are the answers of the write
  and of the rename. The result is the path and its content type.\<close>

definition LogoPath :: "netEnv \<Rightarrow> bool \<Rightarrow> bool \<Rightarrow> string \<Rightarrow> liveTv \<Rightarrow> string gomap \<Rightarrow> (string \<times> string) option \<times> string gomap" where
  "LogoPath env writeOk renameOk cid s fs =
     (case lv_Channel cid s of
        None \<Rightarrow> (None, fs)
      | Some c \<Rightarrow>
          if chLogo c = [] \<or> lvLogoDir s = [] then (None, fs)
          else
            let ext = logoExt (chLogo c);
                dest = JoinPath [lvLogoDir s, cid @ ext];
                found = (case map_get fs dest of None \<Rightarrow> False | Some content \<Rightarrow> content \<noteq> [])
            in if found then (Some (dest, logoContentType ext), fs)
               else case fetch env (chLogo c) of
                 Inl e \<Rightarrow> (None, fs)
               | Inr data \<Rightarrow>
                   if data = [] \<or> length data > 8 * 2 ^ 20 then (None, fs)
                   else if \<not> writeOk then (None, fs)
                   else if \<not> renameOk then (None, map_set (dest @ ''.tmp'') data fs)
                   else (Some (dest, logoContentType ext), map_set dest data (map_del (dest @ ''.tmp'') fs)))"

end
