(* ===== verification/LiveTvProps.thy ===== *)
theory LiveTvProps
  imports LiveTvService
begin

text \<open>
  The properties of the playlist parser, the guide and the Live TV service.
\<close>

section \<open>Playlists\<close>

lemma finalizeChannel_ok:
  "chName (finalizeChannel ch n) \<noteq> [] \<and> chNumber (finalizeChannel ch n) \<noteq> [] \<and>
   chURL (finalizeChannel ch n) = chURL ch \<and> chTvgID (finalizeChannel ch n) = chTvgID ch \<and>
   chID (finalizeChannel ch n) = channelID (finalizeChannel ch n)"
proof -
  have "Itoa n \<noteq> []" by (simp add: Itoa_def)
  then show ?thesis by (auto simp: finalizeChannel_def Let_def channelID_def)
qed

lemma m3u_loop_ok:
  "c \<in> set (m3u_loop pending n lines) \<Longrightarrow>
   isStreamURL (chURL c) \<and> chName c \<noteq> [] \<and> chNumber c \<noteq> [] \<and> chID c = channelID c"
proof (induction pending n lines rule: m3u_loop.induct)
  case (2 pending n raw lines)
  then show ?case
    using finalizeChannel_ok by (auto simp: Let_def split: if_splits option.splits)
qed simp

lemma m3u_loop_urls: "c \<in> set (m3u_loop pending n lines) \<Longrightarrow> chURL c \<in> TrimSpace ` set lines"
proof (induction pending n lines rule: m3u_loop.induct)
  case (2 pending n raw lines)
  then show ?case
    using finalizeChannel_ok by (auto simp: Let_def split: if_splits option.splits)
qed simp

text \<open>Whatever the playlist holds, every channel the parser yields has a stream address of one
  of the four schemes, which is a line of the playlist, a name and a number that are not empty,
  and the ID derived from its guide ID or address, 32 hexadecimal digits long.\<close>

theorem m3u_channels_valid:
  assumes "c \<in> set (ParseM3U data)"
  shows "isStreamURL (chURL c) \<and> chURL c \<in> TrimSpace ` set (playlist_lines data) \<and>
    chName c \<noteq> [] \<and> chNumber c \<noteq> [] \<and> chID c = channelID c \<and> length (chID c) = 32"
proof -
  have "length (channelID c) = 32" by (simp add: channelID_def Let_def hex_encode_def length_radix_encode)
  then show ?thesis
    using m3u_loop_ok m3u_loop_urls assms unfolding ParseM3U_def by metis
qed

section \<open>Reading back a written playlist\<close>

text \<open>A playlist as a tool would write it, every attribute present.\<close>

definition write_attr :: "string \<Rightarrow> string \<Rightarrow> string" where
  "write_attr key val = CHR '' '' # key @ [CHR ''='', quote] @ val @ [quote]"

definition write_extinf :: "Channel \<Rightarrow> string" where
  "write_extinf c = ''#EXTINF:-1'' @ write_attr ''tvg-id'' (chTvgID c) @ write_attr ''tvg-logo'' (chLogo c) @
     write_attr ''tvg-chno'' (chNumber c) @ write_attr ''group-title'' (chGroup c) @ '','' @ chName c"

definition write_playlist :: "Channel list \<Rightarrow> string" where
  "write_playlist cs = Join (''#EXTM3U'' # concat (map (\<lambda>c. [write_extinf c, chURL c]) cs)) [CHR 0x0A]"

definition no_break :: "string \<Rightarrow> bool" where
  "no_break s \<longleftrightarrow> CHR 0x0A \<notin> set s \<and> CHR 0x0D \<notin> set s"

definition writable :: "Channel \<Rightarrow> bool" where
  "writable c \<longleftrightarrow> (\<forall>s \<in> {chTvgID c, chLogo c, chNumber c, chGroup c}. no_break s \<and> quote \<notin> set s) \<and>
     no_break (chName c) \<and> no_break (chURL c) \<and> chName c \<noteq> [] \<and> chNumber c \<noteq> [] \<and> TrimSpace (chName c) = chName c \<and>
     TrimSpace (chURL c) = chURL c \<and> isStreamURL (chURL c) \<and> chID c = channelID c"

lemma find_attrs_skip:
  assumes "s \<noteq> []" "takeWhile attr_char s = [] \<or> \<not> HasPrefix (dropWhile attr_char s) [CHR ''='', quote]"
  shows "find_attrs s = find_attrs (tl s)"
  by (subst find_attrs.simps) (use assms in \<open>auto simp: Let_def\<close>)

lemma find_attrs_written:
  assumes "list_all attr_char key" "key \<noteq> []" "quote \<notin> set val"
  shows "find_attrs (write_attr key val @ s) = (key, val) # find_attrs s"
proof -
  have sp: "\<not> attr_char CHR '' ''" "\<not> attr_char CHR ''=''"
    by (simp_all add: attr_char_def is_digit_def less_eq_char_def)
  have all: "\<forall>c \<in> set key. attr_char c" using assms(1) by (simp add: list_all_iff)
  let ?t = "key @ [CHR ''='', quote] @ val @ quote # s"
  have tw: "takeWhile attr_char ?t = key" "dropWhile attr_char ?t = CHR ''='' # quote # val @ quote # s"
    using all sp(2) by (simp_all add: takeWhile_append2 dropWhile_append2)
  have vq: "\<forall>c \<in> set val. c \<noteq> quote" using assms(3) by blast
  then have vw: "takeWhile (\<lambda>c. c \<noteq> quote) (val @ quote # s) = val" "dropWhile (\<lambda>c. c \<noteq> quote) (val @ quote # s) = quote # s"
    by (simp_all add: takeWhile_append2 dropWhile_append2)
  have "find_attrs (CHR '' '' # ?t) = find_attrs ?t" using sp(1) by (subst find_attrs_skip) simp_all
  also have "\<dots> = (key, val) # find_attrs s"
    by (subst find_attrs.simps) (use assms(2) tw vw in \<open>simp add: Let_def HasPrefix_def\<close>)
  finally show ?thesis by (simp add: write_attr_def)
qed

lemma split_name_attr:
  assumes "quote \<notin> set key" "CHR '','' \<notin> set key" "quote \<notin> set val"
  shows "split_name_loop False before (write_attr key val @ s) = split_name_loop False (before @ write_attr key val) s"
proof -
  have q: "quote \<noteq> CHR '','' \<and> quote \<noteq> CHR '' '' \<and> quote \<noteq> CHR ''=''" by (simp add: quote_def)
  have out: "split_name_loop False b (w @ t) = split_name_loop False (b @ w) t"
    if "quote \<notin> set w" "CHR '','' \<notin> set w" for b w t
    using that by (induction w arbitrary: b) auto
  have ins: "split_name_loop True b (w @ t) = split_name_loop True (b @ w) t" if "quote \<notin> set w" for b w t
    using that by (induction w arbitrary: b) auto
  have "write_attr key val @ s = (CHR '' '' # key @ ''='') @ quote # val @ quote # s"
    by (simp add: write_attr_def)
  also have "split_name_loop False before \<dots> = split_name_loop False (before @ CHR '' '' # key @ ''='') (quote # val @ quote # s)"
    by (rule out) (use assms q in \<open>auto simp: quote_def\<close>)
  also have "\<dots> = split_name_loop True (before @ CHR '' '' # key @ ''='' @ [quote]) (val @ quote # s)" by simp
  also have "\<dots> = split_name_loop False (before @ write_attr key val) s"
    using ins [OF assms(3)] by (simp add: write_attr_def)
  finally show ?thesis .
qed

lemma keys_attr: "list_all attr_char ''tvg-id''" "list_all attr_char ''tvg-logo''" "list_all attr_char ''tvg-chno''"
  "list_all attr_char ''group-title''"
  by (simp_all add: attr_char_def is_digit_def less_eq_char_def)

lemma keys_lower: "ToLower ''tvg-id'' = ''tvg-id''" "ToLower ''tvg-logo'' = ''tvg-logo''" "ToLower ''tvg-chno'' = ''tvg-chno''"
  "ToLower ''group-title'' = ''group-title''"
  by code_simp+

lemma parse_written:
  assumes "writable c"
  shows "parseExtInf (drop 8 (write_extinf c)) = c\<lparr>chID := [], chURL := []\<rparr>"
proof -
  let ?attrs = "write_attr ''tvg-id'' (chTvgID c) @ write_attr ''tvg-logo'' (chLogo c) @
     write_attr ''tvg-chno'' (chNumber c) @ write_attr ''group-title'' (chGroup c)"
  have nq: "quote \<notin> set (chTvgID c)" "quote \<notin> set (chLogo c)" "quote \<notin> set (chNumber c)" "quote \<notin> set (chGroup c)"
    and nm: "TrimSpace (chName c) = chName c" using assms by (simp_all add: writable_def)
  have d: "drop 8 (write_extinf c) = ''-1'' @ ?attrs @ CHR '','' # chName c" by (simp add: write_extinf_def)
  have "split_name_loop False [] (''-1'' @ ?attrs @ CHR '','' # chName c) =
      split_name_loop False ''-1'' (?attrs @ CHR '','' # chName c)"
    by (simp add: quote_def)
  also have "\<dots> = split_name_loop False (''-1'' @ ?attrs) (CHR '','' # chName c)"
    using nq by (simp add: split_name_attr quote_def)
  also have "\<dots> = Some (chName c, ''-1'' @ ?attrs)" by (simp add: quote_def)
  finally have sp: "splitDisplayName (drop 8 (write_extinf c)) = (chName c, ''-1'' @ ?attrs, True)"
    by (simp add: splitDisplayName_def d)
  have at: "attr_char CHR ''-''" "attr_char CHR ''1''" "\<not> attr_char CHR '' ''"
    by (simp_all add: attr_char_def is_digit_def less_eq_char_def)
  have w: "\<exists>r. ?attrs = CHR '' '' # r" by (simp add: write_attr_def)
  have "find_attrs (''-1'' @ ?attrs) = find_attrs ?attrs"
    using w at by (auto simp: find_attrs_skip HasPrefix_def)
  also have "\<dots> = find_attrs (?attrs @ [])" by simp
  also have "\<dots> = [(''tvg-id'', chTvgID c), (''tvg-logo'', chLogo c), (''tvg-chno'', chNumber c), (''group-title'', chGroup c)] @ find_attrs []"
    using nq keys_attr by (simp add: find_attrs_written del: append_Nil2)
  also have "find_attrs [] = []" by (subst find_attrs.simps) simp
  finally have fa: "find_attrs (''-1'' @ ?attrs) =
    [(''tvg-id'', chTvgID c), (''tvg-logo'', chLogo c), (''tvg-chno'', chNumber c), (''group-title'', chGroup c)]" by simp
  show ?thesis
    using fa by (simp add: parseExtInf_def sp nm set_attr_def keys_lower noChannel_def)
qed

lemma unix_lines_id: "CHR 0x0D \<notin> set s \<Longrightarrow> unix_lines s = s"
  by (induction s rule: unix_lines.induct) auto

lemma Join_notin: "\<forall>e \<in> set es. x \<notin> set e \<Longrightarrow> x \<notin> set sep \<Longrightarrow> x \<notin> set (Join es sep)"
  by (induction es sep rule: Join.induct) auto

lemma Trim_last: "Trim s cs \<noteq> [] \<Longrightarrow> last (Trim s cs) \<notin> set cs"
proof -
  assume ne: "Trim s cs \<noteq> []"
  let ?t = "dropWhile (\<lambda>c. c \<in> set cs) (rev (dropWhile (\<lambda>c. c \<in> set cs) s))"
  have "?t \<noteq> []" using ne by (simp add: Trim_def)
  then have "hd ?t \<notin> set cs" by (rule hd_dropWhile)
  with \<open>?t \<noteq> []\<close> show ?thesis by (simp add: Trim_def last_rev)
qed

lemma TrimSpace_id: "s \<noteq> [] \<Longrightarrow> hd s \<notin> set spaces \<Longrightarrow> last s \<notin> set spaces \<Longrightarrow> TrimSpace s = s"
proof -
  assume s: "s \<noteq> []" "hd s \<notin> set spaces" "last s \<notin> set spaces"
  have "dropWhile (\<lambda>c. c \<in> set spaces) s = s" using s(1,2) by (cases s) auto
  moreover have "dropWhile (\<lambda>c. c \<in> set spaces) (rev s) = rev s"
    using s(1,3) by (cases "rev s") (auto simp: last_rev)
  ultimately show ?thesis by (simp add: TrimSpace_def Trim_def)
qed

lemma no_break_simps [simp]:
  "no_break (s @ t) \<longleftrightarrow> no_break s \<and> no_break t" "no_break (c # s) \<longleftrightarrow> c \<noteq> CHR 0x0A \<and> c \<noteq> CHR 0x0D \<and> no_break s"
  "no_break []"
  by (auto simp: no_break_def)

lemma no_break_written: "writable c \<Longrightarrow> no_break (write_extinf c) \<and> no_break (chURL c)"
  by (simp add: writable_def write_extinf_def write_attr_def quote_def)

lemma written_lines:
  assumes "\<forall>c \<in> set cs. writable c"
  shows "playlist_lines (write_playlist cs) = ''#EXTM3U'' # concat (map (\<lambda>c. [write_extinf c, chURL c]) cs)"
proof -
  let ?ls = "''#EXTM3U'' # concat (map (\<lambda>c. [write_extinf c, chURL c]) cs)"
  have "list_all no_break (concat (map (\<lambda>c. [write_extinf c, chURL c]) cs))"
    using assms by (induction cs) (simp_all add: no_break_written)
  then have "list_all no_break ?ls" by simp
  then have each: "CHR 0x0A \<notin> set l \<and> CHR 0x0D \<notin> set l" if "l \<in> set ?ls" for l
    using that unfolding no_break_def list_all_iff by (rule bspec)
  then have "CHR 0x0D \<notin> set (Join ?ls [CHR 0x0A])" by (intro Join_notin) simp_all
  then have "unix_lines (Join ?ls [CHR 0x0A]) = Join ?ls [CHR 0x0A]" by (rule unix_lines_id)
  moreover have "Split (Join ?ls [CHR 0x0A]) (CHR 0x0A) = ?ls" by (rule Split_Join_sep) (use each in simp_all)
  ultimately show ?thesis unfolding playlist_lines_def write_playlist_def by (simp only:)
qed

lemma stream_not_directive:
  assumes "isStreamURL s"
  shows "s \<noteq> [] \<and> s \<noteq> ''#EXTM3U'' \<and> \<not> HasPrefix s ''#'' \<and> \<not> HasPrefix s ''#EXTINF:'' \<and> \<not> HasPrefix s ''#EXTGRP:''"
proof -
  obtain c t where "s = c # t" "c = CHR ''h'' \<or> c = CHR ''r''"
    using assms by (cases s) (auto simp: isStreamURL_def HasPrefix_def)
  then show ?thesis by (auto simp: HasPrefix_def)
qed

lemma channelID_upd: "channelID (c\<lparr>chID := i\<rparr>) = channelID c"
  by (simp add: channelID_def)

lemma m3u_loop_written:
  "\<forall>c \<in> set cs. writable c \<Longrightarrow> m3u_loop p n (concat (map (\<lambda>c. [write_extinf c, chURL c]) cs)) = cs"
proof (induction cs arbitrary: p n)
  case (Cons c cs)
  then have w: "writable c" by simp
  let ?e = "write_extinf c"
  have "chName c \<noteq> []" "TrimSpace (chName c) = chName c" using w by (simp_all add: writable_def)
  then have "last (chName c) \<notin> set spaces" using Trim_last [of "chName c" spaces] by (simp add: TrimSpace_def)
  then have "last ?e \<notin> set spaces" using \<open>chName c \<noteq> []\<close> by (simp add: write_extinf_def)
  moreover have "?e \<noteq> []" "hd ?e = CHR ''#''" by (simp_all add: write_extinf_def)
  ultimately have te: "TrimSpace ?e = ?e" by (intro TrimSpace_id) (simp_all add: spaces_def)
  have pe: "HasPrefix ?e ''#EXTINF:''" "?e \<noteq> ''#EXTM3U''" by (simp_all add: write_extinf_def HasPrefix_def)
  have url: "TrimSpace (chURL c) = chURL c" "isStreamURL (chURL c)" using w by (simp_all add: writable_def)
  note nd = stream_not_directive [OF url(2)]
  have "finalizeChannel (c\<lparr>chID := [], chURL := []\<rparr>\<lparr>chURL := chURL c\<rparr>) m = c" for m
  proof -
    have ok: "chName c \<noteq> []" "chNumber c \<noteq> []" "channelID c = chID c" using w by (simp_all add: writable_def)
    have "c\<lparr>chID := [], chURL := []\<rparr>\<lparr>chURL := chURL c\<rparr> = c\<lparr>chID := []\<rparr>" by (cases c) simp
    moreover have "finalizeChannel (c\<lparr>chID := []\<rparr>) m = c\<lparr>chID := chID c\<rparr>"
      using ok by (simp add: finalizeChannel_def Let_def channelID_upd)
    ultimately show ?thesis by (cases c) simp
  qed
  note fin = this
  have IH: "m3u_loop p n (concat (map (\<lambda>c. [write_extinf c, chURL c]) cs)) = cs" for p n using Cons by simp
  have "m3u_loop p n (?e # chURL c # rest) =
      finalizeChannel (c\<lparr>chID := [], chURL := []\<rparr>\<lparr>chURL := chURL c\<rparr>) (n + 1) # m3u_loop None (n + 1) rest" for rest
    using pe nd url by (simp add: te Let_def parse_written [OF w] \<open>?e \<noteq> []\<close>)
  then show ?case using IH fin by simp
qed simp

lemma parse_written_playlist: "\<forall>c \<in> set cs. writable c \<Longrightarrow> ParseM3U (write_playlist cs) = cs"
proof -
  assume w: "\<forall>c \<in> set cs. writable c"
  have "TrimSpace ''#EXTM3U'' = ''#EXTM3U''" by (rule TrimSpace_id) (simp_all add: spaces_def)
  then show ?thesis using m3u_loop_written [OF w] by (simp add: ParseM3U_def written_lines [OF w])
qed


definition channel0 :: "string \<Rightarrow> string \<Rightarrow> Channel" where
  "channel0 num url = (let c = \<lparr>chID = [], chTvgID = ''one.uk'', chName = ''News, Sport'', chNumber = num,
     chLogo = [], chGroup = ''All'', chURL = url\<rparr> in c\<lparr>chID := channelID c\<rparr>)"

lemma channel0_writable: "writable (channel0 ''7'' ''http://up/1'')" "writable (channel0 ''8'' ''http://up/2'')"
proof -
  have "TrimSpace ''News, Sport'' = ''News, Sport''" "TrimSpace ''http://up/1'' = ''http://up/1''"
    "TrimSpace ''http://up/2'' = ''http://up/2''"
    by (rule TrimSpace_id; simp add: spaces_def)+
  then show "writable (channel0 ''7'' ''http://up/1'')" "writable (channel0 ''8'' ''http://up/2'')"
    by (simp_all add: writable_def channel0_def Let_def no_break_def quote_def isStreamURL_def HasPrefix_def channelID_def)
qed


lemma m3u_channels_valid_witness: "chName (channel0 ''7'' ''http://up/1'') \<noteq> [] \<and> isStreamURL (chURL (channel0 ''7'' ''http://up/1''))"
proof -
  let ?c = "channel0 ''7'' ''http://up/1''"
  have "?c \<in> set (ParseM3U (write_playlist [?c]))" by (simp add: parse_written_playlist channel0_writable)
  from m3u_channels_valid [OF this] show ?thesis by blast
qed

end
