(* ===== verification/GuideProps.thy ===== *)
theory GuideProps
  imports LiveTvProps
begin

text \<open>
  The properties of the guide and of the lookups of the Live TV service.
\<close>

section \<open>Grouping\<close>

definition bucket_of :: "string \<Rightarrow> Program list \<Rightarrow> Program list" where
  "bucket_of k progs = filter (\<lambda>p. pgChannelTvgID p = k) progs"

lemma fold_add_program:
  "map_get (gdByTvg (fold add_program progs g)) k =
   (case map_get (gdByTvg g) k of
      None \<Rightarrow> if bucket_of k progs = [] then None else Some (bucket_of k progs)
    | Some l \<Rightarrow> Some (l @ bucket_of k progs))"
proof (induction progs arbitrary: g)
  case (Cons p progs)
  then show ?case
    by (auto simp: add_program_def Let_def bucket_of_def split: option.splits)
qed (simp add: bucket_of_def split: option.splits)

lemma window_step:
  assumes "gdStart g \<noteq> zeroTime \<longrightarrow> (\<forall>q \<in> S. gdStart g \<le> pgStart q)" "gdEnd g \<noteq> zeroTime \<longrightarrow> (\<forall>q \<in> S. pgStop q \<le> gdEnd g)"
    and "S \<noteq> {} \<longrightarrow> gdStart g \<noteq> zeroTime \<and> gdEnd g \<noteq> zeroTime" "pgStart p \<noteq> zeroTime" "pgStop p \<noteq> zeroTime"
  shows "gdStart (add_program p g) \<noteq> zeroTime \<and> gdEnd (add_program p g) \<noteq> zeroTime \<and>
    (\<forall>q \<in> insert p S. gdStart (add_program p g) \<le> pgStart q \<and> pgStop q \<le> gdEnd (add_program p g))"
  using assms by (auto simp: add_program_def Let_def IsZero_def Before_def After_def)

lemma window_fold:
  assumes "\<forall>p \<in> set progs. pgStart p \<noteq> zeroTime \<and> pgStop p \<noteq> zeroTime"
    and "gdStart g \<noteq> zeroTime \<longrightarrow> (\<forall>q \<in> S. gdStart g \<le> pgStart q)" "gdEnd g \<noteq> zeroTime \<longrightarrow> (\<forall>q \<in> S. pgStop q \<le> gdEnd g)"
    and "S \<noteq> {} \<longrightarrow> gdStart g \<noteq> zeroTime \<and> gdEnd g \<noteq> zeroTime"
  shows "\<forall>q \<in> set progs \<union> S. gdStart (fold add_program progs g) \<le> pgStart q \<and> pgStop q \<le> gdEnd (fold add_program progs g)"
  using assms
proof (induction progs arbitrary: g S)
  case (Cons p progs)
  have w: "gdStart (add_program p g) \<noteq> zeroTime \<and> gdEnd (add_program p g) \<noteq> zeroTime \<and>
    (\<forall>q \<in> insert p S. gdStart (add_program p g) \<le> pgStart q \<and> pgStop q \<le> gdEnd (add_program p g))"
    by (rule window_step) (use Cons.prems in simp_all)
  have "\<forall>q \<in> set progs \<union> insert p S. gdStart (fold add_program progs (add_program p g)) \<le> pgStart q \<and>
      pgStop q \<le> gdEnd (fold add_program progs (add_program p g))"
    by (rule Cons.IH) (use Cons.prems w in simp_all)
  then show ?case by simp
qed auto

text \<open>Grouping puts each program into the bucket of its guide channel and into no other; each
  bucket has the channel's programs in order of start, those of equal start in the order of
  the guide; and the window that is returned covers every program.\<close>

theorem guide_grouping_exact:
  assumes "\<forall>p \<in> set progs. pgStart p \<noteq> zeroTime \<and> pgStop p \<noteq> zeroTime"
  shows "map_get (gdByTvg (groupPrograms progs)) k =
      (if \<exists>p \<in> set progs. pgChannelTvgID p = k
       then Some (sort_key pgStart (filter (\<lambda>p. pgChannelTvgID p = k) progs)) else None) \<and>
    (\<forall>p \<in> set progs. gdStart (groupPrograms progs) \<le> pgStart p \<and> pgStop p \<le> gdEnd (groupPrograms progs))"
proof -
  let ?g = "fold add_program progs emptyGuide"
  have "map_get (map (\<lambda>(k, l). (k, sort_key pgStart l)) m) k = map_option (sort_key pgStart) (map_get m k)" for m
    by (induction m) auto
  then have "map_get (gdByTvg (groupPrograms progs)) k = map_option (sort_key pgStart) (map_get (gdByTvg ?g) k)"
    by (simp add: groupPrograms_def Let_def)
  also have "\<dots> = (if bucket_of k progs = [] then None else Some (sort_key pgStart (bucket_of k progs)))"
    by (simp add: fold_add_program emptyGuide_def)
  finally have 1: "map_get (gdByTvg (groupPrograms progs)) k =
      (if bucket_of k progs = [] then None else Some (sort_key pgStart (bucket_of k progs)))" .
  have e: "gdStart emptyGuide = zeroTime" "gdEnd emptyGuide = zeroTime" by (simp_all add: emptyGuide_def)
  have "\<forall>q \<in> set progs \<union> {}. gdStart ?g \<le> pgStart q \<and> pgStop q \<le> gdEnd ?g"
    by (rule window_fold) (use assms e in simp_all)
  moreover have "gdStart (groupPrograms progs) = gdStart ?g" "gdEnd (groupPrograms progs) = gdEnd ?g"
    by (simp_all add: groupPrograms_def Let_def)
  ultimately show ?thesis using 1 by (auto simp: bucket_of_def filter_empty_conv)
qed

definition prog0 :: "string \<Rightarrow> time \<Rightarrow> Program" where
  "prog0 t a = \<lparr>pgID = [], pgChannelTvgID = ''one.uk'', pgTitle = t, pgDescription = [], pgCategory = [], pgStart = a, pgStop = a + 5\<rparr>"

lemma guide_grouping_exact_witness:
  "map_get (gdByTvg (groupPrograms [prog0 ''b'' 30, prog0 ''a'' 10])) ''one.uk'' = Some [prog0 ''a'' 10, prog0 ''b'' 30]"
  using guide_grouping_exact [of "[prog0 ''b'' 30, prog0 ''a'' 10]" "''one.uk''"] by (simp add: prog0_def zeroTime_def)

section \<open>Lookups\<close>



text \<open>\<open>CurrentProgram\<close> reports a program only when it is on at that instant and belongs to the
  channel's guide channel, and reports one whenever there is one.\<close>

theorem current_program_on_air:
  assumes "lv_Channel cid s = Some ch" "resolveTvgIDLocked s ch \<noteq> []"
  shows "(\<forall>e. CurrentProgram cid now s = Some e \<longrightarrow> geProgram e \<in> set (programs_of s (resolveTvgIDLocked s ch)) \<and>
      pgStart (geProgram e) \<le> now \<and> now < pgStop (geProgram e)) \<and>
    ((\<exists>p \<in> set (programs_of s (resolveTvgIDLocked s ch)). pgStart p \<le> now \<and> now < pgStop p) \<longrightarrow>
      CurrentProgram cid now s \<noteq> None)"
  using assms
  by (auto simp: CurrentProgram_def lv_Channel_def Let_def After_def find_Some_iff find_None_iff not_less)

text \<open>An operator's alias for a name applies to every channel whose name normalizes to the same key.\<close>

lemma SetAliases_get:
  assumes "\<forall>(n, t) \<in> set aliases. normalizeChannelName n = k \<longrightarrow> t = tvg" "(name, tvg) \<in> set aliases"
    "normalizeChannelName name = k" "k \<noteq> []" "tvg \<noteq> []"
  shows "map_get (lvAliases (SetAliases aliases s)) k = Some tvg"
proof -
  let ?f = "\<lambda>(name, tvg) idx. let k = normalizeChannelName name in if k \<noteq> [] \<and> tvg \<noteq> [] then map_set k tvg idx else idx"
  have keep: "map_get (fold ?f as idx) k = Some tvg"
    if "map_get idx k = Some tvg" "\<forall>(n, t) \<in> set as. normalizeChannelName n = k \<longrightarrow> t = tvg" for as idx
    using that by (induction as arbitrary: idx) (auto simp: Let_def)
  have "map_get (fold ?f as idx) k = Some tvg"
    if "\<forall>(n, t) \<in> set as. normalizeChannelName n = k \<longrightarrow> t = tvg" "(name, tvg) \<in> set as" for as idx
    using that
  proof (induction as arbitrary: idx)
    case (Cons a as)
    show ?case
    proof (cases "a = (name, tvg)")
      case True
      then have "?f a idx = map_set k tvg idx" using assms(3-5) by (simp add: Let_def)
      with keep [of "map_set k tvg idx" as] Cons.prems(1) show ?thesis by simp
    next
      case False
      with Cons show ?thesis by auto
    qed
  qed simp
  from this [OF assms(1,2)] show ?thesis by (simp add: SetAliases_def)
qed

text \<open>An operator's alias wins over everything the playlist and the guide say: after
  \<open>SetAliases\<close>, any channel whose name normalizes to the same key as an aliased name, in
  whatever case and with whatever quality tag, gets its programs from the alias's guide channel.\<close>

theorem alias_overrides:
  assumes "(name, tvg) \<in> set aliases" "tvg \<noteq> []" "normalizeChannelName name \<noteq> []"
    and "\<forall>(n, t) \<in> set aliases. normalizeChannelName n = normalizeChannelName name \<longrightarrow> t = tvg"
    and "normalizeChannelName (chName ch) = normalizeChannelName name"
  shows "resolveTvgIDLocked (SetAliases aliases s) ch = tvg"
  using SetAliases_get [OF assms(4,1) refl assms(3,2)] assms(5) by (simp add: resolveTvgIDLocked_def Let_def)

definition bbc :: "string \<Rightarrow> Channel" where
  "bbc name = \<lparr>chID = ''i'', chTvgID = ''other'', chName = name, chNumber = [], chLogo = [], chGroup = [], chURL = ''http://u''\<rparr>"

lemma alias_overrides_witness:
  "resolveTvgIDLocked (SetAliases [(''bbc.one'', ''bbc1.uk'')] (the (NewService ''p.m3u'' 0))) (bbc ''BBC One FHD'') = ''bbc1.uk''"
proof -
  have n: "normalizeChannelName ''bbc.one'' = ''bbcone''" "normalizeChannelName ''BBC One FHD'' = ''bbcone''" by code_simp+
  show ?thesis by (rule alias_overrides [of "''bbc.one''"]) (simp_all add: n bbc_def)
qed

section \<open>Reloading\<close>

lemma index_channels_last:
  "map_get (index_channels chs) i = (if \<exists>c \<in> set chs. chID c = i then Some (last (filter (\<lambda>c. chID c = i) chs)) else None)"
proof -
  have "map_get (fold (\<lambda>c m. map_set (chID c) c m) chs m) i =
      (if \<exists>c \<in> set chs. chID c = i then Some (last (filter (\<lambda>c. chID c = i) chs)) else map_get m i)" for m
    by (induction chs arbitrary: m) (auto simp: filter_empty_conv)
  then show ?thesis by (simp add: index_channels_def)
qed

text \<open>A reload that cannot fetch the playlist changes nothing; one that can replaces the
  channels by those of the playlist as a whole, and from then on an ID resolves if and only if a
  listed channel has it, to a listed channel that has it, even if no guide could be read.\<close>

theorem reload_atomic:
  assumes "reload env now s = (e, s')"
  shows "(e \<noteq> None \<longrightarrow> s' = s) \<and>
    (e = None \<longrightarrow> (\<exists>data. fetch env (lvPlaylist s) = Inr data \<and> lvChannels s' = ParseM3U data \<and>
       lvAliases s' = lvAliases s \<and>
       (\<forall>i c. lv_Channel i s' = Some c \<longrightarrow> c \<in> set (lvChannels s') \<and> chID c = i) \<and>
       (\<forall>c \<in> set (lvChannels s'). lv_Channel (chID c) s' \<noteq> None)))"
proof (cases "fetch env (lvPlaylist s)")
  case (Inl x)
  with assms show ?thesis by (auto simp: reload_def)
next
  case (Inr data)
  then have s': "e = None" "lvChannels s' = ParseM3U data" "lvByID s' = index_channels (ParseM3U data)" "lvAliases s' = lvAliases s"
    using assms by (auto simp: reload_def Let_def)
  have "c \<in> set (ParseM3U data) \<and> chID c = i" if "map_get (index_channels (ParseM3U data)) i = Some c" for i c
  proof -
    let ?l = "filter (\<lambda>c. chID c = i) (ParseM3U data)"
    from that have "?l \<noteq> []" "c = last ?l" by (auto simp: index_channels_last filter_empty_conv split: if_splits)
    then have "c \<in> set ?l" using last_in_set by blast
    then show ?thesis by simp
  qed
  then have "\<forall>i c. lv_Channel i s' = Some c \<longrightarrow> c \<in> set (lvChannels s') \<and> chID c = i"
    using s' by (simp add: lv_Channel_def)
  moreover have "\<forall>c \<in> set (lvChannels s'). lv_Channel (chID c) s' \<noteq> None"
    using s' by (auto simp: lv_Channel_def index_channels_last)
  ultimately show ?thesis using s' Inr by blast
qed

definition net0 :: "(string \<Rightarrow> string option) \<Rightarrow> netEnv" where
  "net0 files = \<lparr>neGet = (\<lambda>_. None), neReadFile = files, neGunzip = (\<lambda>_. None), neUnmarshal = (\<lambda>_. None)\<rparr>"

lemma reload_atomic_witness:
  "snd (reload (net0 (\<lambda>_. None)) 9 (the (NewService ''p.m3u'' 0))) = the (NewService ''p.m3u'' 0)"
proof -
  let ?r = "reload (net0 (\<lambda>_. None)) 9 (the (NewService ''p.m3u'' 0))"
  have "fst ?r \<noteq> None"
    by (simp add: reload_def fetch_def net0_def NewService_def TrimSpace_def Trim_def spaces_def HasPrefix_def)
  moreover have "?r = (fst ?r, snd ?r)" by simp
  ultimately show ?thesis using reload_atomic by blast
qed

text \<open>C30. Two entries of a playlist that share a guide ID, such as the two qualities of one station,
  get the same channel ID, since it is derived from the guide ID alone. Both are listed, but the
  earlier one cannot be reached: its ID plays the later one's stream.\<close>

theorem shared_guide_id_shadows:
  assumes "fetch env (lvPlaylist s) = Inr data" "ParseM3U data = xs @ c1 # ys @ c2 # zs"
    and "chTvgID c1 = chTvgID c2" "chTvgID c2 \<noteq> []" "\<forall>c \<in> set zs. chID c \<noteq> chID c2"
    and "reload env now s = (e, s')"
  shows "chID c1 = chID c2 \<and> {c1, c2} \<subseteq> set (lv_Channels s') \<and> StreamURL (chID c1) s' = Some (chURL c2)"
proof -
  have "c1 \<in> set (ParseM3U data)" "c2 \<in> set (ParseM3U data)" by (simp_all add: assms(2))
  then have "chID c1 = channelID c1" "chID c2 = channelID c2"
    using m3u_loop_ok unfolding ParseM3U_def by blast+
  then have ids: "chID c1 = chID c2" using assms(3,4) by (simp add: channelID_def)
  have s': "lvChannels s' = ParseM3U data" "lvByID s' = index_channels (ParseM3U data)"
    using assms(1,6) by (auto simp: reload_def Let_def)
  have "filter (\<lambda>c. chID c = chID c2) zs = []" using assms(5) by (simp add: filter_empty_conv)
  then have "map_get (index_channels (ParseM3U data)) (chID c2) = Some c2"
    unfolding index_channels_last assms(2) by simp
  with ids s' assms(2) show ?thesis by (simp add: StreamURL_def lv_Channel_def lv_Channels_def)
qed

lemma shared_guide_id_shadows_witness:
  "\<exists>s'. snd (reload (net0 (\<lambda>_. Some (write_playlist [channel0 ''7'' ''http://up/1'', channel0 ''8'' ''http://up/2'']))) 9
       (the (NewService ''p.m3u'' 0))) = s' \<and> lv_Count s' = 2 \<and>
     StreamURL (chID (channel0 ''7'' ''http://up/1'')) s' = Some ''http://up/2''"
proof -
  let ?cs = "[channel0 ''7'' ''http://up/1'', channel0 ''8'' ''http://up/2'']"
  let ?env = "net0 (\<lambda>_. Some (write_playlist ?cs))" and ?s = "the (NewService ''p.m3u'' 0)"
  let ?r = "reload ?env 9 ?s"
  have g: "maybeGunzip ?env (write_playlist ?cs) = write_playlist ?cs"
    by (simp add: maybeGunzip_def net0_def)
  have pl: "lvPlaylist ?s = ''p.m3u''"
    by (simp add: NewService_def TrimSpace_def Trim_def spaces_def)
  have f: "fetch ?env (lvPlaylist ?s) = Inr (write_playlist ?cs)"
    unfolding pl fetch_def using g by (simp add: HasPrefix_def net0_def)
  have p: "ParseM3U (write_playlist ?cs) = [] @ channel0 ''7'' ''http://up/1'' # [] @ channel0 ''8'' ''http://up/2'' # []"
    using parse_written_playlist [of ?cs] channel0_writable by simp
  have run: "?r = (fst ?r, snd ?r)" by simp
  have "chTvgID (channel0 ''7'' ''http://up/1'') = chTvgID (channel0 ''8'' ''http://up/2'')"
    "chTvgID (channel0 ''8'' ''http://up/2'') \<noteq> []" "chURL (channel0 ''8'' ''http://up/2'') = ''http://up/2''"
    by (simp_all add: channel0_def Let_def)
  note c = this
  have "\<forall>c \<in> set []. chID c \<noteq> chID (channel0 ''8'' ''http://up/2'')" by simp
  from shared_guide_id_shadows [OF f p c(1,2) this run]
  have "StreamURL (chID (channel0 ''7'' ''http://up/1'')) (snd ?r) = Some (chURL (channel0 ''8'' ''http://up/2''))" by blast
  with c(3) have "StreamURL (chID (channel0 ''7'' ''http://up/1'')) (snd ?r) = Some ''http://up/2''" by (simp only:)
  moreover have "lv_Count (snd ?r) = 2" using f p by (simp add: reload_def lv_Count_def Let_def)
  ultimately show ?thesis by blast
qed

definition lv0 :: liveTv where
  "lv0 = (the (NewService ''p.m3u'' 0))\<lparr>lvByID := [(''i'', bbc ''BBC One'')], lvChannels := [bbc ''BBC One''],
     lvPrograms := [(''other'', [(prog0 ''a'' 10)\<lparr>pgChannelTvgID := ''other''\<rparr>])]\<rparr>"

lemma current_program_on_air_witness: "CurrentProgram ''i'' 12 lv0 \<noteq> None"
proof -
  have c: "lv_Channel ''i'' lv0 = Some (bbc ''BBC One'')" by (simp add: lv0_def lv_Channel_def)
  have n: "normalizeChannelName ''BBC One'' = ''bbcone''" by code_simp
  have sp: "TrimSpace ''p.m3u'' = ''p.m3u''" by (rule TrimSpace_id) (simp_all add: spaces_def)
  have f: "lvAliases lv0 = []" "lvPrograms lv0 = [(''other'', [(prog0 ''a'' 10)\<lparr>pgChannelTvgID := ''other''\<rparr>])]"
    by (simp_all add: lv0_def NewService_def sp)
  have r: "resolveTvgIDLocked lv0 (bbc ''BBC One'') = ''other''"
    by (simp add: resolveTvgIDLocked_def f bbc_def Let_def)
  have "prog0 ''a'' 10\<lparr>pgChannelTvgID := ''other''\<rparr> \<in> set (programs_of lv0 (resolveTvgIDLocked lv0 (bbc ''BBC One'')))"
    by (simp add: r programs_of_def f)
  moreover have "pgStart (prog0 ''a'' 10\<lparr>pgChannelTvgID := ''other''\<rparr>) \<le> 12"
    "12 < pgStop (prog0 ''a'' 10\<lparr>pgChannelTvgID := ''other''\<rparr>)" by (simp_all add: prog0_def)
  moreover have "resolveTvgIDLocked lv0 (bbc ''BBC One'') \<noteq> []" by (simp add: r)
  ultimately show ?thesis using current_program_on_air [OF c, of 12] by blast
qed

end
