(* ===== verification/Regex.thy ===== *)
theory Regex
  imports Prelude
begin

text \<open>
  The part of package \<open>regexp\<close> the code uses: sequences, alternatives, groups, greedy repetition
  of one-byte classes, word boundaries and anchors, matched leftmost-first. \<open>rx_run\<close> lists the
  ways a sequence matches at a position, in the order of preference: the end and the groups.
\<close>

datatype rx =
    Rep "char \<Rightarrow> bool" nat "nat option"
  | Alts "rx list list"
  | Group "rx list"
  | WB
  | BOL
  | EOL

definition regex_word :: "char \<Rightarrow> bool" where
  "regex_word c \<longleftrightarrow> (CHR ''a'' \<le> c \<and> c \<le> CHR ''z'') \<or> (CHR ''A'' \<le> c \<and> c \<le> CHR ''Z'') \<or> is_digit c \<or> c = CHR ''_''"

definition word_at :: "string \<Rightarrow> nat \<Rightarrow> bool" where
  "word_at s i \<longleftrightarrow> i < length s \<and> regex_word (s ! i)"

definition boundary :: "string \<Rightarrow> nat \<Rightarrow> bool" where
  "boundary s i \<longleftrightarrow> (0 < i \<and> word_at s (i - 1)) \<noteq> word_at s i"

text \<open>The numbers of repetitions possible at a position, the greatest first.\<close>

definition rep_counts :: "(char \<Rightarrow> bool) \<Rightarrow> nat \<Rightarrow> nat option \<Rightarrow> string \<Rightarrow> nat \<Rightarrow> nat list" where
  "rep_counts p lo hi s i =
     (let avail = length (takeWhile p (drop i s)); top = (case hi of None \<Rightarrow> avail | Some h \<Rightarrow> min h avail)
      in rev [lo..<Suc top])"

function rx_run :: "rx list \<Rightarrow> string \<Rightarrow> nat \<Rightarrow> (nat \<times> string list) list" where
  "rx_run [] s i = [(i, [])]"
| "rx_run (Rep p lo hi # rs) s i = concat (map (\<lambda>n. rx_run rs s (i + n)) (rep_counts p lo hi s i))"
| "rx_run (Alts as # rs) s i = concat (map (\<lambda>a. rx_run (a @ rs) s i) as)"
| "rx_run (Group g # rs) s i =
     concat (map (\<lambda>(j, caps). map (\<lambda>(k, cs). (k, take (j - i) (drop i s) # caps @ cs)) (rx_run rs s j)) (rx_run g s i))"
| "rx_run (WB # rs) s i = (if boundary s i then rx_run rs s i else [])"
| "rx_run (BOL # rs) s i = (if i = 0 then rx_run rs s i else [])"
| "rx_run (EOL # rs) s i = (if i = length s then rx_run rs s i else [])"
  by pat_completeness auto

termination
proof (relation "measure (\<lambda>(rs, _, _). size_list size rs)", goal_cases)
  case (3 as rs s i a)
  then have "size_list size a \<le> size_list (size_list size) as" by (induction as) auto
  then show ?case by (simp add: size_list_append)
qed auto

text \<open>The leftmost match from a position on: its start, its end, its groups.\<close>

definition rx_find :: "rx list \<Rightarrow> string \<Rightarrow> nat \<Rightarrow> (nat \<times> nat \<times> string list) option" where
  "rx_find rs s i =
     (case find (\<lambda>j. rx_run rs s j \<noteq> []) [i..<Suc (length s)] of
        None \<Rightarrow> None
      | Some j \<Rightarrow> Some (j, hd (rx_run rs s j)))"

lemma find_in_set: "find P xs = Some x \<Longrightarrow> x \<in> set xs"
  by (auto simp: find_Some_iff)

lemma rx_find_start: "rx_find rs s i = Some (j, r) \<Longrightarrow> i \<le> j \<and> j \<le> length s"
  by (auto simp: rx_find_def simp del: upt_Suc split: option.splits dest!: find_in_set)

text \<open>All matches that do not overlap; the patterns of the code match no empty text.\<close>

function find_all :: "rx list \<Rightarrow> string \<Rightarrow> nat \<Rightarrow> (nat \<times> nat \<times> string list) list" where
  "find_all rs s i =
     (case rx_find rs s i of
        None \<Rightarrow> []
      | Some (j, k, caps) \<Rightarrow> if k \<le> i then [] else (j, k, caps) # find_all rs s k)"
  by pat_completeness auto

termination
  by (relation "measure (\<lambda>(rs, s, i). Suc (length s) - i)") (auto dest: rx_find_start)

declare find_all.simps [simp del]

fun replace_matches :: "(string list \<Rightarrow> string) \<Rightarrow> string \<Rightarrow> nat \<Rightarrow> (nat \<times> nat \<times> string list) list \<Rightarrow> string" where
  "replace_matches f s i [] = drop i s"
| "replace_matches f s i ((j, k, caps) # ms) = take (j - i) (drop i s) @ f caps @ replace_matches f s k ms"

definition rx_replace :: "rx list \<Rightarrow> (string list \<Rightarrow> string) \<Rightarrow> string \<Rightarrow> string" where
  "rx_replace rs f s = replace_matches f s 0 (find_all rs s 0)"

text \<open>\<open>FindStringSubmatch\<close>: the whole match and its groups.\<close>

definition rx_submatch :: "rx list \<Rightarrow> string \<Rightarrow> (string \<times> string list) option" where
  "rx_submatch rs s = (case rx_find rs s 0 of None \<Rightarrow> None | Some (j, k, caps) \<Rightarrow> Some (take (k - j) (drop j s), caps))"

section \<open>Notation for patterns\<close>

definition one :: "(char \<Rightarrow> bool) \<Rightarrow> rx" where "one p = Rep p 1 (Some 1)"
definition lit :: "string \<Rightarrow> rx list" where "lit = map (\<lambda>c. one (\<lambda>x. x = c))"
definition lit_ci :: "string \<Rightarrow> rx list" where "lit_ci = map (\<lambda>c. one (\<lambda>x. lower_char x = c))"
definition digits_of :: "nat \<Rightarrow> nat \<Rightarrow> rx" where "digits_of lo hi = Rep is_digit lo (Some hi)"
definition any_of :: "string \<Rightarrow> char \<Rightarrow> bool" where "any_of cs c \<longleftrightarrow> c \<in> set cs"

text \<open>\<open>\s\<close>.\<close>

definition blank :: "char \<Rightarrow> bool" where
  "blank c \<longleftrightarrow> c \<in> {CHR '' '', CHR 0x09, CHR 0x0A, CHR 0x0C, CHR 0x0D}"

end
