(* ===== verification/Naming.thy ===== *)
theory Naming
  imports Regex Numbers Paths Security
begin

text \<open>
  \<open>internal/media/naming.go\<close>: what a file's name and place say about it. Each regular expression
  is the pattern of the source, read into \<open>Regex\<close>. \<open>media/mime.go\<close> is here too.
\<close>

section \<open>Kinds of files\<close>

definition videoExtensions :: "string list" where
  "videoExtensions = [''.mkv'', ''.mp4'', ''.m4v'', ''.avi'', ''.mov'', ''.wmv'', ''.flv'', ''.webm'', ''.mpg'', ''.mpeg'',
     ''.ts'', ''.m2ts'', ''.3gp'', ''.ogv'', ''.divx'']"

definition audioExtensions :: "string list" where
  "audioExtensions = [''.mp3'', ''.flac'', ''.m4a'', ''.aac'', ''.ogg'', ''.oga'', ''.opus'', ''.wav'', ''.wma'', ''.alac'']"

text \<open>The kind and the container; an empty kind is not a media file.\<close>

definition mediaKind :: "string \<Rightarrow> string \<times> string" where
  "mediaKind path =
     (let ext = ToLower (Ext path); container = TrimPrefix ext ''.'' in
      if ext \<in> set videoExtensions then (''Video'', container)
      else if ext \<in> set audioExtensions then (''Audio'', container)
      else ([], []))"

definition StreamContentType :: "string \<Rightarrow> string" where
  "StreamContentType container =
     (let c = ToLower container in
      if c \<in> {''mp4'', ''m4v''} then ''video/mp4''
      else if c = ''mkv'' then ''video/x-matroska''
      else if c = ''webm'' then ''video/webm''
      else if c = ''avi'' then ''video/x-msvideo''
      else if c = ''mov'' then ''video/quicktime''
      else if c = ''wmv'' then ''video/x-ms-wmv''
      else if c = ''flv'' then ''video/x-flv''
      else if c \<in> {''ts'', ''m2ts''} then ''video/mp2t''
      else if c \<in> {''mpg'', ''mpeg''} then ''video/mpeg''
      else if c = ''3gp'' then ''video/3gpp''
      else if c = ''ogv'' then ''video/ogg''
      else if c = ''mp3'' then ''audio/mpeg''
      else if c = ''flac'' then ''audio/flac''
      else if c \<in> {''m4a'', ''aac'', ''alac''} then ''audio/mp4''
      else if c \<in> {''ogg'', ''oga'', ''opus''} then ''audio/ogg''
      else if c = ''wav'' then ''audio/wav''
      else if c = ''wma'' then ''audio/x-ms-wma''
      else ''application/octet-stream'')"

section \<open>Patterns\<close>

definition yearRe :: "rx list" where
  "yearRe = [WB, Alts [lit ''19'' @ [digits_of 2 2], lit ''20'' @ [digits_of 2 2]], WB]"

definition junkTokens :: "string list" where
  "junkTokens = [''1080p'', ''2160p'', ''720p'', ''480p'', ''4k'', ''x264'', ''x265'', ''h264'', ''h265'', ''hevc'', ''aac'', ''ac3'',
     ''dts'', ''bluray'', ''brrip'', ''bdrip'', ''webrip'', ''web-dl'', ''hdtv'', ''dvdrip'', ''remux'', ''proper'', ''repack'']"

definition junkRe :: "rx list" where
  "junkRe = [WB, Alts (map lit_ci junkTokens), WB]"

definition separatorRe :: "rx list" where "separatorRe = [Rep (any_of ''._'') 1 None]"
definition multiSpaceRe :: "rx list" where "multiSpaceRe = [Rep blank 1 None]"

definition trackNumberRe :: "rx list" where
  "trackNumberRe = [BOL, Rep blank 0 None, Group [digits_of 1 3], Rep blank 0 None,
     Rep (\<lambda>c. any_of ''-._)'' c \<or> blank c) 1 None, Rep blank 0 None]"

definition gap :: rx where "gap = Rep (any_of '' ._-'') 0 None"

definition episodeRe :: "rx list" where
  "episodeRe = lit_ci ''s'' @ [Group [digits_of 1 2], gap] @ lit_ci ''e'' @ [Group [digits_of 1 3]]"

definition seasonXEpisode :: "rx list" where
  "seasonXEpisode = [WB, Group [digits_of 1 2]] @ lit_ci ''x'' @ [Group [digits_of 1 3], WB]"

definition seasonFolderRe :: "rx list" where
  "seasonFolderRe = [BOL, Alts [lit_ci ''season'', lit_ci ''series'', lit_ci ''s''], gap, Group [digits_of 1 2], EOL]"

definition episodeTitleCut :: "rx list" where
  "episodeTitleCut = [Alts [lit_ci ''s'' @ [digits_of 1 2, gap] @ lit_ci ''e'' @ [digits_of 1 3],
     [digits_of 1 2] @ lit_ci ''x'' @ [digits_of 1 3]]]"

definition to_space :: "rx list \<Rightarrow> string \<Rightarrow> string" where
  "to_space rs = rx_replace rs (\<lambda>_. '' '')"

section \<open>Titles\<close>

definition atoiDefault :: "string \<Rightarrow> int \<Rightarrow> int" where
  "atoiDefault s def = (case Atoi s of (n, None) \<Rightarrow> n | (_, Some e) \<Rightarrow> def)"

definition containsAny :: "string \<Rightarrow> string list \<Rightarrow> bool" where
  "containsAny s subs \<longleftrightarrow> list_ex (Contains s) subs"

definition cleanTitle :: "string \<Rightarrow> string" where
  "cleanTitle s = TrimSpace (Trim (to_space multiSpaceRe (to_space junkRe (to_space separatorRe s))) '' -()[]'')"

definition stem :: "string \<Rightarrow> string" where
  "stem filename = TrimSuffix filename (Ext filename)"

definition parseName :: "string \<Rightarrow> string \<times> int" where
  "parseName filename =
     (let base = to_space separatorRe (stem filename);
          ms = find_all yearRe base 0;
          (base1, year) = (if ms = [] then (base, 0)
            else case last ms of (i, j, _) \<Rightarrow>
              (take i base, case Atoi (take (j - i) (drop i base)) of (y, None) \<Rightarrow> y | (_, Some e) \<Rightarrow> 0));
          title = TrimSpace (to_space multiSpaceRe (Trim (to_space junkRe base1) '' -()[]''))
      in (if title = [] then stem filename else title, year))"

record trackName =
  tnArtist :: string
  tnAlbum :: string
  tnTrack :: int
  tnTitle :: string

definition parseTrack :: "string list \<Rightarrow> trackName" where
  "parseTrack relParts =
     (let base = stem (last relParts);
          (artist0, album0) =
            (if length relParts \<ge> 3 then (cleanTitle (relParts ! 0), cleanTitle (relParts ! 1))
             else if length relParts = 2 then (cleanTitle (relParts ! 0), ''Unknown Album'')
             else (''Unknown Artist'', ''Unknown Album''));
          (track, rest) = (case rx_submatch trackNumberRe base of
              None \<Rightarrow> (0, base)
            | Some (m, caps) \<Rightarrow> (atoiDefault (caps ! 0) 0, drop (length m) base));
          title = cleanTitle rest
      in \<lparr>tnArtist = (if artist0 = [] then ''Unknown Artist'' else artist0),
          tnAlbum = (if album0 = [] then ''Unknown Album'' else album0),
          tnTrack = track, tnTitle = (if title = [] then cleanTitle base else title)\<rparr>)"

definition inferLibraryType :: "string \<Rightarrow> string" where
  "inferLibraryType folderName =
     (let n = ToLower folderName in
      if containsAny n [''movie'', ''film'', ''cinema''] then ''movies''
      else if containsAny n [''tv'', ''show'', ''series'', ''episode''] then ''tvshows''
      else if containsAny n [''music'', ''audio'', ''song'', ''album''] then ''music''
      else if containsAny n [''home video'', ''homevideo'', ''personal''] then ''homevideos''
      else ''mixed'')"

definition itemTypeFor :: "string \<Rightarrow> string \<Rightarrow> string" where
  "itemTypeFor libraryType kind =
     (if libraryType = ''movies'' then ''Movie''
      else if libraryType = ''tvshows'' then ''Episode''
      else if libraryType = ''music'' then ''Audio''
      else if kind = ''Audio'' then ''Audio'' else ''Video'')"

section \<open>Episodes\<close>

definition episodeTitle :: "string \<Rightarrow> string" where
  "episodeTitle base =
     (let spaced = to_space separatorRe base in
      case rx_find episodeTitleCut spaced 0 of
        None \<Rightarrow> []
      | Some (i, j, _) \<Rightarrow>
          TrimSpace (to_space multiSpaceRe (to_space junkRe (Trim (TrimSpace (drop j spaced)) '' -_.''))))"

definition stripEpisodeTokens :: "string \<Rightarrow> string" where
  "stripEpisodeTokens s = to_space seasonXEpisode (to_space episodeRe s)"

text \<open>The season of the first folder that is named for one.\<close>

fun folder_season :: "string list \<Rightarrow> int option" where
  "folder_season [] = None"
| "folder_season (seg # segs) =
     (case rx_submatch seasonFolderRe seg of
        None \<Rightarrow> folder_season segs
      | Some (m, caps) \<Rightarrow> Some (atoiDefault (caps ! 0) 1))"

definition season_episode :: "string \<Rightarrow> (int \<times> int) option" where
  "season_episode spaced =
     (case rx_submatch episodeRe spaced of
        Some (m, caps) \<Rightarrow> Some (atoiDefault (caps ! 0) 1, atoiDefault (caps ! 1) 0)
      | None \<Rightarrow>
          (case rx_submatch seasonXEpisode spaced of
             Some (m, caps) \<Rightarrow> Some (atoiDefault (caps ! 0) 1, atoiDefault (caps ! 1) 0)
           | None \<Rightarrow> None))"

record episodeName =
  enSeries :: string
  enSeason :: int
  enEpisode :: int
  enTitle :: string

definition parseEpisode :: "string list \<Rightarrow> episodeName" where
  "parseEpisode relParts =
     (let base = stem (last relParts);
          series0 = (if length relParts \<ge> 2 then cleanTitle (relParts ! 0) else cleanTitle (stripEpisodeTokens base));
          (season0, episode0) = (case season_episode (to_space separatorRe base) of None \<Rightarrow> (-1, -1) | Some se \<Rightarrow> se);
          season1 = (if season0 < 0 \<and> length relParts \<ge> 2
            then (case folder_season (butlast relParts) of None \<Rightarrow> season0 | Some n \<Rightarrow> n) else season0);
          season = (if season1 < 0 then 1 else season1);
          episode = (if episode0 < 0 then 0 else episode0);
          title0 = episodeTitle base
      in \<lparr>enSeries = (if series0 = [] then ''Unknown'' else series0), enSeason = season, enEpisode = episode,
          enTitle = (if title0 = [] then (if episode > 0 then ''Episode '' @ Itoa episode else cleanTitle base) else title0)\<rparr>)"

end
