(* ===== verification/Sidecars.thy ===== *)
theory Sidecars
  imports Naming Models
begin

text \<open>
  The files that lie beside a media file: artwork (\<open>media/images.go\<close>) and subtitles
  (\<open>media/subtitles.go\<close>, and the codec table of \<open>media/embedded.go\<close>). The file system is the record
  \<open>mediaFs\<close>; the listing of a directory is read once per scan, so it is a function of the directory.
\<close>

section \<open>The file system\<close>

text \<open>A node as \<open>WalkDir\<close> meets it: a directory with the entries \<open>ReadDir\<close> lists (sorted by name), a
  symbolic link, or any other file with its size and time, unless these cannot be read.\<close>

datatype fsnode =
    NDir "(string \<times> fsnode) list"
  | NLink
  | NFile "(int \<times> time) option"

text \<open>\<open>mfListing\<close> has the names of a directory with whether each is a directory itself; \<open>mfStat\<close> the size
  and time of a path; \<open>mfExts\<close> the order in which the map of image extensions is visited when a stem
  is looked up in a directory, which Go leaves open.\<close>

record mediaFs =
  mfLstat :: "string \<Rightarrow> fsnode option"
  mfListing :: "string \<Rightarrow> (string \<times> bool) list option"
  mfStat :: "string \<Rightarrow> (int \<times> time) option"
  mfExts :: "string \<Rightarrow> string \<Rightarrow> string list"

definition DirOf :: "string \<Rightarrow> string" where
  "DirOf p = Clean (rev (dropWhile (\<lambda>c. c \<noteq> slash) (rev p)))"

definition base_name :: "string \<Rightarrow> string" where
  "base_name path = TrimSuffix (Base path) (Ext path)"

record dirInfo =
  diFiles :: "string list"
  diVideoCount :: nat

definition dir_info :: "mediaFs \<Rightarrow> string \<Rightarrow> dirInfo" where
  "dir_info fs dir =
     (case mfListing fs dir of
        None \<Rightarrow> \<lparr>diFiles = [], diVideoCount = 0\<rparr>
      | Some entries \<Rightarrow>
          let files = map fst (filter (\<lambda>(n, isDir). \<not> isDir) entries)
          in \<lparr>diFiles = files, diVideoCount = length (filter (\<lambda>n. fst (mediaKind n) = ''Video'') files)\<rparr>)"

section \<open>Artwork\<close>

definition imageExtensions :: "string list" where
  "imageExtensions = [''.jpg'', ''.jpeg'', ''.png'', ''.webp'', ''.gif'', ''.bmp'']"

definition imageContentType :: "string \<Rightarrow> string" where
  "imageContentType path =
     (let ext = ToLower (Ext path) in
      if ext = ''.jpg'' \<or> ext = ''.jpeg'' then ''image/jpeg''
      else if ext = ''.png'' then ''image/png''
      else if ext = ''.webp'' then ''image/webp''
      else if ext = ''.gif'' then ''image/gif''
      else if ext = ''.bmp'' then ''image/bmp''
      else ''application/octet-stream'')"

text \<open>From the name in lower case to the name of each image.\<close>

definition lower_images :: "string list \<Rightarrow> string gomap" where
  "lower_images files =
     fold (\<lambda>n m. if ToLower (Ext n) \<in> set imageExtensions then map_set (ToLower n) n m else m) files []"

fun first_image :: "string gomap \<Rightarrow> string \<Rightarrow> string list \<Rightarrow> string option" where
  "first_image lower st [] = None"
| "first_image lower st (ext # exts) =
     (case map_get lower (st @ ext) of Some actual \<Rightarrow> Some actual | None \<Rightarrow> first_image lower st exts)"

fun pickImage :: "mediaFs \<Rightarrow> string gomap \<Rightarrow> string \<Rightarrow> string list \<Rightarrow> string" where
  "pickImage fs lower dir [] = []"
| "pickImage fs lower dir (st # stems) =
     (case first_image lower (ToLower st) (mfExts fs dir st) of
        Some actual \<Rightarrow> JoinPath [dir, actual]
      | None \<Rightarrow> pickImage fs lower dir stems)"

definition findArtwork :: "mediaFs \<Rightarrow> string \<Rightarrow> string \<times> string" where
  "findArtwork fs videoPath =
     (let dir = DirOf videoPath; base = base_name videoPath; di = dir_info fs dir;
          sole = (diVideoCount di = 1); lower = lower_images (diFiles di);
          primary0 = pickImage fs lower dir [base @ ''-poster'', base @ ''-thumb'', base];
          primary = (if primary0 = [] \<and> sole
            then pickImage fs lower dir [''poster'', ''folder'', ''cover'', ''default'', ''movie''] else primary0);
          backdrop0 = pickImage fs lower dir [base @ ''-fanart'', base @ ''-backdrop''];
          backdrop = (if backdrop0 = [] \<and> sole
            then pickImage fs lower dir [''fanart'', ''backdrop'', ''background'', ''art''] else backdrop0)
      in (primary, backdrop))"

definition UnixNano :: "time \<Rightarrow> int" where
  "UnixNano t = wrap64 (t - unixEpochSeconds * Second)"

definition imageTag :: "mediaFs \<Rightarrow> string \<Rightarrow> string" where
  "imageTag fs path =
     (case mfStat fs path of
        None \<Rightarrow> []
      | Some (size1, modTime) \<Rightarrow> hex_encode (take 16 (sha256 (path @ Itoa size1 @ Itoa (UnixNano modTime)))))"

definition applyArtwork :: "mediaFs \<Rightarrow> string \<Rightarrow> MediaItem \<Rightarrow> MediaItem" where
  "applyArtwork fs path item =
     (case findArtwork fs path of (primary, backdrop) \<Rightarrow>
        if primary \<noteq> [] \<or> backdrop \<noteq> [] then
          item\<lparr>mPrimaryImagePath := primary, mPrimaryImageTag := imageTag fs primary,
               mBackdropImagePath := backdrop, mBackdropImageTag := imageTag fs backdrop\<rparr>
        else item)"

definition applyFolderArtwork :: "mediaFs \<Rightarrow> string \<Rightarrow> MediaItem \<Rightarrow> MediaItem" where
  "applyFolderArtwork fs dir item =
     (let lower = lower_images (diFiles (dir_info fs dir));
          p = pickImage fs lower dir [''poster'', ''folder'', ''cover'', ''default'', ''show''];
          item1 = (if p \<noteq> [] then item\<lparr>mPrimaryImagePath := p, mPrimaryImageTag := imageTag fs p\<rparr> else item);
          b = pickImage fs lower dir [''fanart'', ''backdrop'', ''background'', ''art'']
      in if b \<noteq> [] then item1\<lparr>mBackdropImagePath := b, mBackdropImageTag := imageTag fs b\<rparr> else item1)"

section \<open>Subtitles\<close>

definition subtitleExtensions :: "string gomap" where
  "subtitleExtensions =
     [(''.srt'', ''subrip''), (''.vtt'', ''webvtt''), (''.ass'', ''ass''), (''.ssa'', ''ssa''), (''.sub'', ''subrip'')]"

definition languageNames :: "string gomap" where
  "languageNames =
     [(''en'', ''English''), (''eng'', ''English''), (''es'', ''Spanish''), (''spa'', ''Spanish''),
      (''fr'', ''French''), (''fre'', ''French''), (''fra'', ''French''),
      (''de'', ''German''), (''ger'', ''German''), (''deu'', ''German''),
      (''it'', ''Italian''), (''ita'', ''Italian''), (''pt'', ''Portuguese''), (''por'', ''Portuguese''),
      (''ru'', ''Russian''), (''rus'', ''Russian''), (''ja'', ''Japanese''), (''jpn'', ''Japanese''),
      (''ko'', ''Korean''), (''kor'', ''Korean''), (''zh'', ''Chinese''), (''chi'', ''Chinese''), (''zho'', ''Chinese''),
      (''nl'', ''Dutch''), (''dut'', ''Dutch''), (''nld'', ''Dutch''), (''sv'', ''Swedish''), (''swe'', ''Swedish''),
      (''pl'', ''Polish''), (''pol'', ''Polish''), (''ar'', ''Arabic''), (''ara'', ''Arabic'')]"

text \<open>\<open>langTokenRe\<close>: two or three lower-case letters.\<close>

definition lang_token :: "string \<Rightarrow> bool" where
  "lang_token s \<longleftrightarrow> (length s = 2 \<or> length s = 3) \<and> list_all (\<lambda>c. CHR ''a'' \<le> c \<and> c \<le> CHR ''z'') s"

definition subtitle_token :: "string \<Rightarrow> string \<times> bool \<Rightarrow> string \<times> bool" where
  "subtitle_token tok acc =
     (case acc of (lang, forced) \<Rightarrow>
        if tok = [] then acc
        else if tok = ''forced'' then (lang, True)
        else if tok \<in> {''sdh'', ''cc'', ''hi''} then acc
        else if lang = [] \<and> lang_token tok then (tok, forced)
        else acc)"

definition parseSubtitleTokens :: "string \<Rightarrow> string \<times> bool" where
  "parseSubtitleTokens rest = fold subtitle_token (Split rest (CHR ''.'')) ([], False)"

definition subtitleTitle :: "string \<Rightarrow> bool \<Rightarrow> string" where
  "subtitleTitle lang forced =
     (let name = (case map_get languageNames lang of
             Some n \<Rightarrow> n
           | None \<Rightarrow> if lang = [] then ''Subtitle'' else ToUpper lang)
      in if forced then name @ '' (Forced)'' else name)"

definition subtitle_for :: "string \<Rightarrow> string \<Rightarrow> string \<Rightarrow> SubtitleTrack option" where
  "subtitle_for dir baseLower name =
     (let ext = ToLower (Ext name) in
      case map_get subtitleExtensions ext of
        None \<Rightarrow> None
      | Some codec \<Rightarrow>
          let stemLower = ToLower (stem name) in
          if stemLower \<noteq> baseLower \<and> \<not> HasPrefix stemLower (baseLower @ ''.'') then None
          else case parseSubtitleTokens (drop (min (length baseLower) (length stemLower)) stemLower) of
            (lang, forced) \<Rightarrow> Some \<lparr>bPath = JoinPath [dir, name], bLanguage = lang, bCodec = codec,
              bFormat = TrimPrefix ext ''.'', bForced = forced, bTitle = subtitleTitle lang forced\<rparr>)"

definition findSubtitles :: "mediaFs \<Rightarrow> string \<Rightarrow> SubtitleTrack list" where
  "findSubtitles fs videoPath =
     (let dir = DirOf videoPath
      in List.map_filter (subtitle_for dir (ToLower (base_name videoPath))) (diFiles (dir_info fs dir)))"

definition textSubtitleCodecs :: "string list" where
  "textSubtitleCodecs = [''subrip'', ''srt'', ''ass'', ''ssa'', ''mov_text'', ''webvtt'', ''text'', ''subviewer'', ''eia_608'']"

definition IsTextSubtitleCodec :: "string \<Rightarrow> bool" where
  "IsTextSubtitleCodec codec \<longleftrightarrow> codec \<in> set textSubtitleCodecs"

section \<open>WebVTT\<close>

text \<open>\<open>commaDecimalRe\<close> at the head of a text: \<open>dd:dd:dd,ddd\<close>.\<close>

definition timestamp_at :: "string \<Rightarrow> bool" where
  "timestamp_at s \<longleftrightarrow> length s \<ge> 12 \<and> list_all (\<lambda>i. is_digit (s ! i)) [0, 1, 3, 4, 6, 7, 9, 10, 11] \<and>
     s ! 2 = CHR '':'' \<and> s ! 5 = CHR '':'' \<and> s ! 8 = CHR '',''"

text \<open>The leftmost matches in turn; \<open>n\<close> bytes of the last one are still to be copied.\<close>

fun vtt_loop :: "nat \<Rightarrow> string \<Rightarrow> string" where
  "vtt_loop n [] = []"
| "vtt_loop (Suc n) (c # cs) = (if c = CHR '','' then CHR ''.'' else c) # vtt_loop n cs"
| "vtt_loop 0 (c # cs) = c # vtt_loop (if timestamp_at (c # cs) then 11 else 0) cs"

definition vttTimestamp :: "string \<Rightarrow> string" where
  "vttTimestamp line = vtt_loop 0 line"

fun unix_text :: "string \<Rightarrow> string" where
  "unix_text (a # b # s) =
     (if a = CHR 0x0D \<and> b = CHR 0x0A then CHR 0x0A # unix_text s else a # unix_text (b # s))"
| "unix_text s = s"

definition vtt_line :: "string \<Rightarrow> string" where
  "vtt_line line = (if Contains line ''-->'' then vttTimestamp line else line) @ [CHR 0x0A]"

definition SRTToVTT :: "string \<Rightarrow> string" where
  "SRTToVTT srt = ''WEBVTT'' @ [CHR 0x0A, CHR 0x0A] @ concat (map vtt_line (Split (unix_text srt) (CHR 0x0A)))"

end
