(* ===== verification/Scan.thy ===== *)
theory Scan
  imports Sidecars "HOL-Library.Product_Lexorder"
begin

text \<open>
  \<open>internal/media/scan.go\<close>: a library's directory becomes a list of items, flat or as a hierarchy of
  folders. The maps from IDs to folder items are association lists in the order of insertion; the
  sort at the end makes the order in which Go ranges over them immaterial.
\<close>

record scannedFile =
  sfPath :: string
  sfRelParts :: "string list"
  sfKind :: string
  sfContainer :: string
  sfSize :: int
  sfModTime :: time

text \<open>What the walk does with a file: hidden files and other kinds are left out.\<close>

definition visit_file :: "string \<Rightarrow> string \<Rightarrow> string \<Rightarrow> (int \<times> time) option \<Rightarrow> scannedFile list" where
  "visit_file base path name info =
     (if HasPrefix name ''.'' then []
      else case mediaKind path of (kind, container) \<Rightarrow>
        if kind = [] then []
        else case info of
          None \<Rightarrow> []
        | Some (size1, modTime) \<Rightarrow>
            (case Rel base path of
               None \<Rightarrow> []
             | Some rel \<Rightarrow> [\<lparr>sfPath = path, sfRelParts = Split rel slash, sfKind = kind, sfContainer = container,
                            sfSize = size1, sfModTime = modTime\<rparr>]))"

fun walk :: "string \<Rightarrow> string \<Rightarrow> string \<Rightarrow> fsnode \<Rightarrow> scannedFile list"
  and walk_entries :: "string \<Rightarrow> string \<Rightarrow> (string \<times> fsnode) list \<Rightarrow> scannedFile list" where
  "walk base path name (NDir entries) =
     (if path \<noteq> base \<and> HasPrefix name ''.'' then [] else walk_entries base path entries)"
| "walk base path name NLink = []"
| "walk base path name (NFile info) = visit_file base path name info"
| "walk_entries base path [] = []"
| "walk_entries base path ((n, d) # entries) =
     walk base (JoinPath [path, n]) n d @ walk_entries base path entries"

text \<open>A root that cannot be read is skipped like any entry: the callback never returns an error.\<close>

definition collectFiles :: "mediaFs \<Rightarrow> string \<Rightarrow> err + scannedFile list" where
  "collectFiles fs base =
     (case mfLstat fs base of None \<Rightarrow> Inr [] | Some d \<Rightarrow> Inr (walk base base (Base base) d))"

section \<open>Identifiers\<close>

definition hashID :: "string \<Rightarrow> string" where
  "hashID s = hex_encode (take 16 (sha256 s))"

definition itemID :: "string \<Rightarrow> string" where "itemID path = hashID (''item:'' @ path)"
definition seriesID :: "string \<Rightarrow> string \<Rightarrow> string" where
  "seriesID libraryID name = hashID (''series:'' @ libraryID @ '':'' @ ToLower name)"
definition seasonID :: "string \<Rightarrow> int \<Rightarrow> string" where
  "seasonID srs season = hashID (''season:'' @ srs @ '':'' @ Itoa season)"
definition artistID :: "string \<Rightarrow> string \<Rightarrow> string" where
  "artistID libraryID name = hashID (''artist:'' @ libraryID @ '':'' @ ToLower name)"
definition albumID :: "string \<Rightarrow> string \<Rightarrow> string" where
  "albumID aID name = hashID (''album:'' @ aID @ '':'' @ ToLower name)"
definition libraryID :: "string \<Rightarrow> string" where "libraryID path = hashID (''library:'' @ path)"

text \<open>\<open>Sprintf("%05d", n)\<close> and the like.\<close>

definition pad_int :: "nat \<Rightarrow> int \<Rightarrow> string" where
  "pad_int w n = (if n < 0 then CHR ''-'' # zero_pad (w - 1) (nat (- n)) else zero_pad w (nat n))"

section \<open>Flat libraries\<close>

definition emptyItem :: MediaItem where
  "emptyItem = \<lparr>mID = [], mLibraryID = [], mParentID = [], mName = [], mSortName = [], mType = [], mMediaType = [],
     mPath = [], mContainer = [], mProductionYear = 0, mSizeBytes = 0, mDateCreated = zeroTime, mChildCount = 0,
     mSeriesID = [], mSeriesName = [], mSeasonID = [], mIndexNumber = 0, mParentIndexNumber = 0, mArtistID = [],
     mAlbumID = [], mAlbum = [], mAlbumArtist = [], mArtists = [], mRunTimeTicks = 0, mWidth = 0, mHeight = 0,
     mVideoCodec = [], mAudioCodec = [], mBitrate = 0, mStreams = [], mSubtitles = [], mOverview = [],
     mCommunityRating = 0, mGenres = [], mPrimaryImagePath = [], mPrimaryImageTag = [], mBackdropImagePath = [],
     mBackdropImageTag = []\<rparr>"

definition flat_item :: "mediaFs \<Rightarrow> Library \<Rightarrow> scannedFile \<Rightarrow> MediaItem" where
  "flat_item fs lib f =
     (case parseName (Base (sfPath f)) of (title, year) \<Rightarrow>
        (applyArtwork fs (sfPath f)
          (emptyItem\<lparr>mID := itemID (sfPath f), mLibraryID := lID lib, mParentID := lID lib, mName := title,
             mSortName := ToLower title, mType := itemTypeFor (lType lib) (sfKind f), mMediaType := sfKind f,
             mPath := sfPath f, mContainer := sfContainer f, mProductionYear := year, mSizeBytes := sfSize f,
             mDateCreated := sfModTime f\<rparr>))\<lparr>mSubtitles := findSubtitles fs (sfPath f)\<rparr>)"

definition buildFlat :: "mediaFs \<Rightarrow> Library \<Rightarrow> scannedFile list \<Rightarrow> MediaItem list" where
  "buildFlat fs lib files = map (flat_item fs lib) files"

section \<open>Hierarchies\<close>

text \<open>The maps of a build: the folders of the first level, those of the second, and the leaves. Each
  file adds its folders where they are new, and itself to the count of the folder it lies in.\<close>

record hierarchy =
  hyTop :: "MediaItem gomap"
  hyMid :: "MediaItem gomap"
  hyLeaves :: "MediaItem list"

definition bump :: "string \<Rightarrow> MediaItem gomap \<Rightarrow> MediaItem gomap" where
  "bump k m = (case map_get m k of None \<Rightarrow> m | Some x \<Rightarrow> map_set k (x\<lparr>mChildCount := mChildCount x + 1\<rparr>) m)"

definition put_new :: "string \<Rightarrow> MediaItem \<Rightarrow> MediaItem gomap \<Rightarrow> MediaItem gomap" where
  "put_new k x m = (if map_get m k = None then map_set k x m else m)"

definition add_leaf :: "MediaItem \<Rightarrow> MediaItem \<Rightarrow> MediaItem \<Rightarrow> hierarchy \<Rightarrow> hierarchy" where
  "add_leaf t x leaf h =
     \<lparr>hyTop = put_new (mID t) t (hyTop h), hyMid = bump (mID x) (put_new (mID x) x (hyMid h)),
      hyLeaves = hyLeaves h @ [leaf]\<rparr>"

definition new_series :: "mediaFs \<Rightarrow> Library \<Rightarrow> scannedFile \<Rightarrow> MediaItem" where
  "new_series fs lib f =
     (let name = enSeries (parseEpisode (sfRelParts f)); sid = seriesID (lID lib) name
      in applyFolderArtwork fs (JoinPath [lPath lib, sfRelParts f ! 0])
           (emptyItem\<lparr>mID := sid, mLibraryID := lID lib, mParentID := lID lib, mName := name, mSortName := ToLower name,
              mType := ''Series'', mDateCreated := sfModTime f, mSeriesID := sid, mSeriesName := name\<rparr>))"

definition new_season :: "Library \<Rightarrow> scannedFile \<Rightarrow> MediaItem" where
  "new_season lib f =
     (let e = parseEpisode (sfRelParts f); sid = seriesID (lID lib) (enSeries e)
      in emptyItem\<lparr>mID := seasonID sid (enSeason e), mLibraryID := lID lib, mParentID := sid,
           mName := ''Season '' @ Itoa (enSeason e), mSortName := pad_int 5 (enSeason e), mType := ''Season'',
           mDateCreated := sfModTime f, mSeriesID := sid, mSeriesName := enSeries e, mIndexNumber := enSeason e\<rparr>)"

definition new_episode :: "mediaFs \<Rightarrow> Library \<Rightarrow> scannedFile \<Rightarrow> MediaItem" where
  "new_episode fs lib f =
     (let e = parseEpisode (sfRelParts f); sid = seriesID (lID lib) (enSeries e); seid = seasonID sid (enSeason e)
      in (applyArtwork fs (sfPath f)
           (emptyItem\<lparr>mID := itemID (sfPath f), mLibraryID := lID lib, mParentID := seid, mName := enTitle e,
              mSortName := pad_int 5 (enEpisode e), mType := ''Episode'', mMediaType := sfKind f, mPath := sfPath f,
              mContainer := sfContainer f, mSizeBytes := sfSize f, mDateCreated := sfModTime f, mSeriesID := sid,
              mSeriesName := enSeries e, mSeasonID := seid, mIndexNumber := enEpisode e,
              mParentIndexNumber := enSeason e\<rparr>))\<lparr>mSubtitles := findSubtitles fs (sfPath f)\<rparr>)"

definition add_episode :: "mediaFs \<Rightarrow> Library \<Rightarrow> scannedFile \<Rightarrow> hierarchy \<Rightarrow> hierarchy" where
  "add_episode fs lib f = add_leaf (new_series fs lib f) (new_season lib f) (new_episode fs lib f)"

definition emptyHierarchy :: hierarchy where
  "emptyHierarchy = \<lparr>hyTop = [], hyMid = [], hyLeaves = []\<rparr>"

text \<open>The folders of the second level are counted in their parents, and all items listed.\<close>

definition finish_hierarchy :: "(MediaItem \<Rightarrow> string) \<Rightarrow> hierarchy \<Rightarrow> MediaItem list" where
  "finish_hierarchy parent h =
     map_vals (fold (\<lambda>x. bump (parent x)) (map_vals (hyMid h)) (hyTop h)) @ map_vals (hyMid h) @ hyLeaves h"

definition buildEpisodes :: "mediaFs \<Rightarrow> Library \<Rightarrow> scannedFile list \<Rightarrow> MediaItem list" where
  "buildEpisodes fs lib files = finish_hierarchy mSeriesID (fold (add_episode fs lib) files emptyHierarchy)"

definition new_artist :: "mediaFs \<Rightarrow> Library \<Rightarrow> scannedFile \<Rightarrow> MediaItem" where
  "new_artist fs lib f =
     (let name = tnArtist (parseTrack (sfRelParts f)); aid = artistID (lID lib) name
      in applyFolderArtwork fs (JoinPath [lPath lib, sfRelParts f ! 0])
           (emptyItem\<lparr>mID := aid, mLibraryID := lID lib, mParentID := lID lib, mName := name, mSortName := ToLower name,
              mType := ''MusicArtist'', mDateCreated := sfModTime f, mArtistID := aid\<rparr>))"

definition new_album :: "mediaFs \<Rightarrow> Library \<Rightarrow> scannedFile \<Rightarrow> MediaItem" where
  "new_album fs lib f =
     (let t = parseTrack (sfRelParts f); aid = artistID (lID lib) (tnArtist t); alid = albumID aid (tnAlbum t);
          al = emptyItem\<lparr>mID := alid, mLibraryID := lID lib, mParentID := aid, mName := tnAlbum t,
             mSortName := ToLower (tnAlbum t), mType := ''MusicAlbum'', mDateCreated := sfModTime f, mArtistID := aid,
             mAlbumID := alid, mAlbum := tnAlbum t, mAlbumArtist := tnArtist t, mArtists := [tnArtist t]\<rparr>
      in if length (sfRelParts f) \<ge> 3
         then applyFolderArtwork fs (JoinPath [lPath lib, sfRelParts f ! 0, sfRelParts f ! 1]) al else al)"

definition new_track :: "mediaFs \<Rightarrow> Library \<Rightarrow> scannedFile \<Rightarrow> MediaItem" where
  "new_track fs lib f =
     (let t = parseTrack (sfRelParts f); aid = artistID (lID lib) (tnArtist t); alid = albumID aid (tnAlbum t)
      in applyArtwork fs (sfPath f)
           (emptyItem\<lparr>mID := itemID (sfPath f), mLibraryID := lID lib, mParentID := alid, mName := tnTitle t,
              mSortName := pad_int 4 (tnTrack t), mType := ''Audio'', mMediaType := ''Audio'', mPath := sfPath f,
              mContainer := sfContainer f, mSizeBytes := sfSize f, mDateCreated := sfModTime f, mArtistID := aid,
              mAlbumID := alid, mAlbum := tnAlbum t, mAlbumArtist := tnArtist t, mArtists := [tnArtist t],
              mIndexNumber := tnTrack t\<rparr>))"

definition add_track :: "mediaFs \<Rightarrow> Library \<Rightarrow> scannedFile \<Rightarrow> hierarchy \<Rightarrow> hierarchy" where
  "add_track fs lib f = add_leaf (new_artist fs lib f) (new_album fs lib f) (new_track fs lib f)"

definition buildTracks :: "mediaFs \<Rightarrow> Library \<Rightarrow> scannedFile list \<Rightarrow> MediaItem list" where
  "buildTracks fs lib files = finish_hierarchy mArtistID (fold (add_track fs lib) files emptyHierarchy)"

section \<open>The scan\<close>

definition sortItemsStable :: "MediaItem list \<Rightarrow> MediaItem list" where
  "sortItemsStable = sort_key (\<lambda>i. (mSortName i, mID i))"

definition Scan :: "mediaFs \<Rightarrow> Library \<Rightarrow> err + MediaItem list" where
  "Scan fs lib =
     and_then (collectFiles fs (lPath lib)) (\<lambda>files.
       Inr (sortItemsStable
         (if lType lib = ''tvshows'' then buildEpisodes fs lib files
          else if lType lib = ''music'' then buildTracks fs lib files
          else buildFlat fs lib files)))"

end
