(* ===== verification/Media.thy ===== *)
theory Media
  imports Scan Transcode StoreSpec
begin

text \<open>
  \<open>internal/media/service.go\<close> and \<open>embedded.go\<close>: the libraries, their scans, and the queries behind
  the browse endpoints, over an arbitrary store. A lock lets one scan run at a time, so \<open>ScanLibrary\<close>
  is one step; the workers that probe and enrich items touch one item each. The prober, the metadata
  provider and the network are arguments. \<open>sort.Slice\<close> leaves the order of ties open; here they stay
  in the order of the store.
\<close>

section \<open>The service\<close>

record metaResult =
  mrTitle :: string
  mrOverview :: string
  mrYear :: int
  mrRating :: "64 word"
  mrGenres :: "string list"
  mrPrimaryImageURL :: string
  mrBackdropImageURL :: string

record metaProvider =
  pvMovie :: "string \<Rightarrow> int \<Rightarrow> err + metaResult"
  pvSeries :: "string \<Rightarrow> int \<Rightarrow> err + metaResult"

text \<open>\<open>meGet\<close> answers a GET with the status, the body, and whether the body is read without error;
  \<open>meCreate\<close> says whether a file can be created; \<open>meCwd\<close> is the working directory.\<close>

record mediaEnv =
  meFs :: mediaFs
  meGet :: "string \<Rightarrow> (int \<times> string \<times> bool) option"
  meCreate :: "string \<Rightarrow> bool"
  meCwd :: "string option"

text \<open>\<open>mvFiles\<close> are the files below the artwork cache.\<close>

record 's media =
  mvStore :: 's
  mvProber :: "(string \<Rightarrow> err + ProbeResult) option"
  mvEnricher :: "metaProvider option"
  mvMetaCache :: string
  mvFiles :: "string gomap"

definition media_New :: "'s \<Rightarrow> 's media" where
  "media_New st = \<lparr>mvStore = st, mvProber = None, mvEnricher = None, mvMetaCache = [], mvFiles = []\<rparr>"

definition SetProber :: "(string \<Rightarrow> err + ProbeResult) option \<Rightarrow> 's media \<Rightarrow> 's media" where
  "SetProber p m = m\<lparr>mvProber := p\<rparr>"

definition SetEnricher :: "metaProvider option \<Rightarrow> string \<Rightarrow> 's media \<Rightarrow> 's media" where
  "SetEnricher p cacheDir m = m\<lparr>mvEnricher := p, mvMetaCache := cacheDir\<rparr>"

section \<open>Libraries\<close>

definition AbsPath :: "mediaEnv \<Rightarrow> string \<Rightarrow> string option" where
  "AbsPath env p = (if IsAbs p then Some (Clean p) else map_option (\<lambda>wd. JoinPath [wd, p]) (meCwd env))"

definition RegisterLibrary :: "'s Store \<Rightarrow> mediaEnv \<Rightarrow> time \<Rightarrow> string \<Rightarrow> string \<Rightarrow> string \<Rightarrow> 's media \<Rightarrow> (err + Library) \<times> 's media" where
  "RegisterLibrary S env now name libType path m =
     (case AbsPath env path of
        None \<Rightarrow> (Inl (ErrIO ''getwd''), m)
      | Some ap \<Rightarrow>
          (case GetLibraryByPath S ap (mvStore m) of
             Inr existing \<Rightarrow> (Inr existing, m)
           | Inl _ \<Rightarrow>
               let lib = \<lparr>lID = libraryID ap, lName = name, lType = libType, lPath = ap, lItemCount = 0,
                          lCreatedAt = now, lScannedAt = zeroTime\<rparr>
               in case CreateLibrary S lib (mvStore m) of
                    (None, st) \<Rightarrow> (Inr lib, m\<lparr>mvStore := st\<rparr>)
                  | (Some e, st) \<Rightarrow> (if e = ErrConflict then Inr lib else Inl e, m\<lparr>mvStore := st\<rparr>)))"

definition sync_entry :: "'s Store \<Rightarrow> mediaEnv \<Rightarrow> time \<Rightarrow> string \<Rightarrow> string \<times> bool \<Rightarrow> 's media \<Rightarrow> 's media" where
  "sync_entry S env now mediaDir e m =
     (case e of (name, isDir) \<Rightarrow>
        if \<not> isDir \<or> HasPrefix name ''.'' then m
        else let path = JoinPath [mediaDir, name] in
          case GetLibraryByPath S path (mvStore m) of
            Inr _ \<Rightarrow> m
          | Inl _ \<Rightarrow> snd (RegisterLibrary S env now name (inferLibraryType name) path m))"

definition SyncLibrariesFromMediaDir :: "'s Store \<Rightarrow> mediaEnv \<Rightarrow> time \<Rightarrow> string \<Rightarrow> 's media \<Rightarrow> err option \<times> 's media" where
  "SyncLibrariesFromMediaDir S env now mediaDir m =
     (if mediaDir = [] then (None, m)
      else case mfListing (meFs env) mediaDir of
        None \<Rightarrow> (Some (ErrIO ''readdir''), m)
      | Some entries \<Rightarrow> (None, fold (sync_entry S env now mediaDir) entries m))"

section \<open>Probing and enriching\<close>

definition stream_row :: "StreamInfo \<Rightarrow> MediaStreamInfo" where
  "stream_row s = \<lparr>iIndex = siIndex s, iType = siType s, iCodec = siCodec s, iLanguage = siLanguage s,
     iChannels = siChannels s, iWidth = siWidth s, iHeight = siHeight s, iIsDefault = siIsDefault s, iTitle = siTitle s\<rparr>"

definition applyProbe :: "ProbeResult \<Rightarrow> MediaItem \<Rightarrow> MediaItem" where
  "applyProbe res it = it\<lparr>mRunTimeTicks := pbDurationTicks res, mWidth := pbWidth res, mHeight := pbHeight res,
     mVideoCodec := pbVideoCodec res, mAudioCodec := pbAudioCodec res, mBitrate := pbBitrate res,
     mStreams := map stream_row (pbStreams res)\<rparr>"

definition probeItems :: "(string \<Rightarrow> err + ProbeResult) \<Rightarrow> MediaItem list \<Rightarrow> MediaItem list" where
  "probeItems probe items =
     map (\<lambda>it. case probe (mPath it) of Inl _ \<Rightarrow> it | Inr res \<Rightarrow> applyProbe res it) items"

definition cacheImage :: "mediaEnv \<Rightarrow> string \<Rightarrow> string \<Rightarrow> string \<Rightarrow> string gomap \<Rightarrow> string \<times> string gomap" where
  "cacheImage env metaCache name remoteURL files =
     (if metaCache = [] then ([], files)
      else case meGet env remoteURL of
        None \<Rightarrow> ([], files)
      | Some (status, body, readOk) \<Rightarrow>
          if status \<noteq> 200 then ([], files)
          else let e = Ext remoteURL; ext = (if e \<noteq> [] \<and> length e \<le> 5 then e else ''.jpg'');
                   dest = JoinPath [metaCache, name @ ext]
               in if \<not> meCreate env dest then ([], files)
                  else let files' = map_set dest (take (16 * 2 ^ 20) body) files
                       in if \<not> readOk then ([], files') else (dest, files'))"

text \<open>The fields a result fills in before any artwork is fetched.\<close>

definition enrich_text :: "metaResult \<Rightarrow> MediaItem \<Rightarrow> MediaItem" where
  "enrich_text res it =
     (let it1 = (if mrTitle res \<noteq> [] then it\<lparr>mName := mrTitle res\<rparr> else it);
          it2 = it1\<lparr>mOverview := mrOverview res, mCommunityRating := mrRating res, mGenres := mrGenres res\<rparr>
      in if mProductionYear it2 = 0 then it2\<lparr>mProductionYear := mrYear res\<rparr> else it2)"

definition enrich_primary :: "mediaEnv \<Rightarrow> string \<Rightarrow> metaResult \<Rightarrow> MediaItem \<times> string gomap \<Rightarrow> MediaItem \<times> string gomap" where
  "enrich_primary env metaCache res st =
     (case st of (it, files) \<Rightarrow>
        if mPrimaryImagePath it = [] \<and> mrPrimaryImageURL res \<noteq> [] then
          (case cacheImage env metaCache (mID it @ ''-primary'') (mrPrimaryImageURL res) files of (p, files') \<Rightarrow>
             (if p \<noteq> [] then it\<lparr>mPrimaryImagePath := p, mPrimaryImageTag := imageTag (meFs env) p\<rparr> else it, files'))
        else st)"

definition enrich_backdrop :: "mediaEnv \<Rightarrow> string \<Rightarrow> metaResult \<Rightarrow> MediaItem \<times> string gomap \<Rightarrow> MediaItem \<times> string gomap" where
  "enrich_backdrop env metaCache res st =
     (case st of (it, files) \<Rightarrow>
        if mBackdropImagePath it = [] \<and> mrBackdropImageURL res \<noteq> [] then
          (case cacheImage env metaCache (mID it @ ''-backdrop'') (mrBackdropImageURL res) files of (p, files') \<Rightarrow>
             (if p \<noteq> [] then it\<lparr>mBackdropImagePath := p, mBackdropImageTag := imageTag (meFs env) p\<rparr> else it, files'))
        else st)"

definition enrichOne :: "mediaEnv \<Rightarrow> metaProvider \<Rightarrow> string \<Rightarrow> MediaItem \<Rightarrow> string gomap \<Rightarrow> MediaItem \<times> string gomap" where
  "enrichOne env pv metaCache it files =
     (case (if mType it = ''Series'' then pvSeries pv (mName it) (mProductionYear it)
            else pvMovie pv (mName it) (mProductionYear it)) of
        Inl _ \<Rightarrow> (it, files)
      | Inr res \<Rightarrow> enrich_backdrop env metaCache res (enrich_primary env metaCache res (enrich_text res it, files)))"

fun enrichItems :: "mediaEnv \<Rightarrow> metaProvider \<Rightarrow> string \<Rightarrow> MediaItem list \<Rightarrow> string gomap \<Rightarrow> MediaItem list \<times> string gomap" where
  "enrichItems env pv metaCache [] files = ([], files)"
| "enrichItems env pv metaCache (it # its) files =
     (case (if mType it \<noteq> ''Movie'' \<and> mType it \<noteq> ''Series'' then (it, files) else enrichOne env pv metaCache it files) of
        (it', files') \<Rightarrow>
          (case enrichItems env pv metaCache its files' of (its', files'') \<Rightarrow> (it' # its', files'')))"

text \<open>The new item set of a library, and the artwork files after it.\<close>

definition scan_items :: "mediaEnv \<Rightarrow> 's media \<Rightarrow> Library \<Rightarrow> err + MediaItem list \<times> string gomap" where
  "scan_items env m lib =
     and_then (Scan (meFs env) lib) (\<lambda>items.
       let probed = (case mvProber m of None \<Rightarrow> items | Some probe \<Rightarrow> probeItems probe items)
       in Inr (case mvEnricher m of None \<Rightarrow> (probed, mvFiles m)
               | Some pv \<Rightarrow> enrichItems env pv (mvMetaCache m) probed (mvFiles m)))"

definition ScanLibrary :: "'s Store \<Rightarrow> mediaEnv \<Rightarrow> time \<Rightarrow> string \<Rightarrow> 's media \<Rightarrow> err option \<times> 's media" where
  "ScanLibrary S env now k m =
     (case GetLibrary S k (mvStore m) of
        Inl e \<Rightarrow> (Some e, m)
      | Inr lib \<Rightarrow>
          (case scan_items env m lib of
             Inl e \<Rightarrow> (Some e, m)
           | Inr (items, files) \<Rightarrow>
               (case ReplaceLibraryItems S now k items (mvStore m) of
                  (e, st) \<Rightarrow> (e, m\<lparr>mvStore := st, mvFiles := files\<rparr>))))"

definition ScanAll :: "'s Store \<Rightarrow> mediaEnv \<Rightarrow> time \<Rightarrow> 's media \<Rightarrow> err option \<times> 's media" where
  "ScanAll S env now m =
     (case ListLibraries S (mvStore m) of
        Inl e \<Rightarrow> (Some e, m)
      | Inr libs \<Rightarrow> (None, fold (\<lambda>lib m1. snd (ScanLibrary S env now (lID lib) m1)) libs m))"

section \<open>Lists\<close>

definition Libraries :: "'s Store \<Rightarrow> 's media \<Rightarrow> err + Library list" where
  "Libraries S m = and_then (ListLibraries S (mvStore m)) (\<lambda>libs. Inr (sort_key lName libs))"

definition media_Item :: "'s Store \<Rightarrow> string \<Rightarrow> 's media \<Rightarrow> err + MediaItem" where
  "media_Item S k m = GetItem S k (mvStore m)"

definition Seasons :: "'s Store \<Rightarrow> string \<Rightarrow> 's media \<Rightarrow> err + MediaItem list" where
  "Seasons S series m = and_then (AllItems S (mvStore m)) (\<lambda>items.
     Inr (sort_key mIndexNumber (filter (\<lambda>it. mType it = ''Season'' \<and> mSeriesID it = series) items)))"

definition sortEpisodes :: "MediaItem list \<Rightarrow> MediaItem list" where
  "sortEpisodes = sort_key (\<lambda>e. (mSeriesID e, mParentIndexNumber e, mIndexNumber e))"

definition Episodes :: "'s Store \<Rightarrow> string \<Rightarrow> string \<Rightarrow> 's media \<Rightarrow> err + MediaItem list" where
  "Episodes S series season m = and_then (AllItems S (mvStore m)) (\<lambda>items.
     Inr (sortEpisodes (filter (\<lambda>it. mType it = ''Episode'' \<and> mSeriesID it = series \<and>
        (season = [] \<or> mSeasonID it = season)) items)))"

definition ArtistList :: "'s Store \<Rightarrow> string \<Rightarrow> 's media \<Rightarrow> err + MediaItem list" where
  "ArtistList S lib m = and_then (AllItems S (mvStore m)) (\<lambda>items.
     Inr (sort_key mSortName (filter (\<lambda>it. mType it = ''MusicArtist'' \<and> (lib = [] \<or> mLibraryID it = lib)) items)))"

definition AllEpisodes :: "'s Store \<Rightarrow> 's media \<Rightarrow> err + MediaItem list" where
  "AllEpisodes S m = and_then (AllItems S (mvStore m)) (\<lambda>items.
     Inr (sortEpisodes (filter (\<lambda>it. mType it = ''Episode'') items)))"

section \<open>Files behind items\<close>

definition withinRoot :: "string \<Rightarrow> string \<Rightarrow> bool" where
  "withinRoot base p =
     (case Rel base p of
        None \<Rightarrow> False
      | Some rel \<Rightarrow> rel \<noteq> dotdot \<and> \<not> HasPrefix rel (dotdot @ ''/''))"

definition imagePathAllowed :: "'s Store \<Rightarrow> string \<Rightarrow> string \<Rightarrow> 's media \<Rightarrow> bool" where
  "imagePathAllowed S lib path m =
     (if mvMetaCache m \<noteq> [] \<and> withinRoot (mvMetaCache m) path then True
      else case GetLibrary S lib (mvStore m) of
        Inl _ \<Rightarrow> False
      | Inr l \<Rightarrow> withinRoot (lPath l) path)"

record Image =
  imPath :: string
  imContentType :: string
  imTag :: string

definition ItemImage :: "'s Store \<Rightarrow> string \<Rightarrow> string \<Rightarrow> 's media \<Rightarrow> err + Image" where
  "ItemImage S k imageType m =
     and_then (GetItem S k (mvStore m)) (\<lambda>it.
       let ty = ToLower imageType in
       if ty \<noteq> ''primary'' \<and> ty \<noteq> ''backdrop'' then Inl ErrNoImage
       else let (path, tag) = (if ty = ''primary'' then (mPrimaryImagePath it, mPrimaryImageTag it)
                               else (mBackdropImagePath it, mBackdropImageTag it))
            in if path = [] then Inl ErrNoImage
               else if \<not> imagePathAllowed S (mLibraryID it) path m then Inl ErrNoImage
               else Inr \<lparr>imPath = path, imContentType = imageContentType path, imTag = tag\<rparr>)"

text \<open>The check the other three methods share: it rejects only when the library is found.\<close>

definition rejected :: "'s Store \<Rightarrow> MediaItem \<Rightarrow> string \<Rightarrow> 's media \<Rightarrow> bool" where
  "rejected S it path m =
     (case GetLibrary S (mLibraryID it) (mvStore m) of
        Inl _ \<Rightarrow> False
      | Inr lib \<Rightarrow> \<not> withinRoot (lPath lib) path)"

definition ItemSubtitle :: "'s Store \<Rightarrow> string \<Rightarrow> int \<Rightarrow> 's media \<Rightarrow> err + SubtitleTrack" where
  "ItemSubtitle S k index m =
     and_then (GetItem S k (mvStore m)) (\<lambda>it.
       if index < 0 \<or> index \<ge> int (length (mSubtitles it)) then Inl ErrNotFound
       else let tr = mSubtitles it ! nat index
            in if rejected S it (bPath tr) m then Inl ErrNotFound else Inr tr)"

record Stream =
  stPath :: string
  stContainer :: string
  stContentType :: string
  stSize :: int

definition ItemStream :: "'s Store \<Rightarrow> string \<Rightarrow> 's media \<Rightarrow> err + Stream" where
  "ItemStream S k m =
     and_then (GetItem S k (mvStore m)) (\<lambda>it.
       if mPath it = [] then Inl ErrNotFound
       else if rejected S it (mPath it) m then Inl ErrNotFound
       else Inr \<lparr>stPath = mPath it, stContainer = mContainer it, stContentType = StreamContentType (mContainer it),
                 stSize = mSizeBytes it\<rparr>)"

definition EmbeddedSubtitleInput :: "'s Store \<Rightarrow> string \<Rightarrow> int \<Rightarrow> 's media \<Rightarrow> err + string" where
  "EmbeddedSubtitleInput S k streamIndex m =
     and_then (GetItem S k (mvStore m)) (\<lambda>it.
       if mPath it = [] then Inl ErrNotFound
       else if \<not> list_ex (\<lambda>st. iIndex st = streamIndex \<and> iType st = ''Subtitle'' \<and> IsTextSubtitleCodec (iCodec st)) (mStreams it)
       then Inl ErrNotFound
       else if rejected S it (mPath it) m then Inl ErrNotFound
       else Inr (mPath it))"

section \<open>Browsing\<close>

record BrowseQuery =
  bqParentID :: string
  bqIncludeItemTypes :: "string list"
  bqRecursive :: bool
  bqSearchTerm :: string
  bqSortBy :: string
  bqSortDescending :: bool
  bqStartIndex :: int
  bqLimit :: int

definition item_less :: "string \<Rightarrow> MediaItem \<Rightarrow> MediaItem \<Rightarrow> bool" where
  "item_less by1 a b =
     (if by1 = ''Name'' then mName a < mName b
      else if by1 = ''DateCreated'' then Before (mDateCreated a) (mDateCreated b)
      else if by1 = ''ProductionYear'' then
        (if mProductionYear a \<noteq> mProductionYear b then mProductionYear a < mProductionYear b else mSortName a < mSortName b)
      else mSortName a < mSortName b)"

text \<open>A stable sort by a strict order, as \<open>sort.SliceStable\<close>.\<close>

fun insert_by :: "('a \<Rightarrow> 'a \<Rightarrow> bool) \<Rightarrow> 'a \<Rightarrow> 'a list \<Rightarrow> 'a list" where
  "insert_by lt x [] = [x]"
| "insert_by lt x (y # ys) = (if lt y x then y # insert_by lt x ys else x # y # ys)"

definition SliceStable :: "('a \<Rightarrow> 'a \<Rightarrow> bool) \<Rightarrow> 'a list \<Rightarrow> 'a list" where
  "SliceStable lt xs = foldr (insert_by lt) xs []"

definition sortItems :: "string \<Rightarrow> bool \<Rightarrow> MediaItem list \<Rightarrow> MediaItem list" where
  "sortItems by1 desc items = SliceStable (\<lambda>a b. if desc then item_less by1 b a else item_less by1 a b) items"

definition browse_match :: "BrowseQuery \<Rightarrow> MediaItem \<Rightarrow> bool" where
  "browse_match q it \<longleftrightarrow>
     (let types = filter (\<lambda>t. t \<noteq> []) (bqIncludeItemTypes q); search = ToLower (TrimSpace (bqSearchTerm q))
      in (types = [] \<or> mType it \<in> set types) \<and> (search = [] \<or> Contains (ToLower (mName it)) search))"

definition page :: "int \<Rightarrow> int \<Rightarrow> 'a list \<Rightarrow> 'a list" where
  "page startIndex limit xs =
     (let start = (if startIndex < 0 then 0 else startIndex);
          start = (if start > int (length xs) then int (length xs) else start);
          rest = drop (nat start) xs
      in if limit > 0 \<and> limit < int (length rest) then take (nat limit) rest else rest)"

definition Browse :: "'s Store \<Rightarrow> BrowseQuery \<Rightarrow> 's media \<Rightarrow> err + MediaItem list \<times> nat" where
  "Browse S q m =
     and_then (if bqRecursive q \<or> bqParentID q = [] then AllItems S (mvStore m)
               else ListItemsByParent S (bqParentID q) (mvStore m)) (\<lambda>candidates.
       let filtered = sortItems (bqSortBy q) (bqSortDescending q) (filter (browse_match q) candidates)
       in Inr (page (bqStartIndex q) (bqLimit q) filtered, length filtered))"

end
