(* ===== verification/ScanProofs.thy ===== *)
theory ScanProofs
  imports Scan
begin

text \<open>
  What a scan promises: the hierarchy is closed and counted right, and every path it finds continues
  the path of the library by names that are not hidden.
\<close>

section \<open>Artwork changes no other field\<close>

lemma applyArtwork_fields [simp]:
  "mID (applyArtwork fs p i) = mID i" "mLibraryID (applyArtwork fs p i) = mLibraryID i"
  "mParentID (applyArtwork fs p i) = mParentID i" "mType (applyArtwork fs p i) = mType i"
  "mChildCount (applyArtwork fs p i) = mChildCount i" "mPath (applyArtwork fs p i) = mPath i"
  "mSeriesID (applyArtwork fs p i) = mSeriesID i" "mArtistID (applyArtwork fs p i) = mArtistID i"
  by (simp_all add: applyArtwork_def split: prod.splits)

lemma applyFolderArtwork_fields [simp]:
  "mID (applyFolderArtwork fs p i) = mID i" "mLibraryID (applyFolderArtwork fs p i) = mLibraryID i"
  "mParentID (applyFolderArtwork fs p i) = mParentID i" "mType (applyFolderArtwork fs p i) = mType i"
  "mChildCount (applyFolderArtwork fs p i) = mChildCount i" "mPath (applyFolderArtwork fs p i) = mPath i"
  "mSeriesID (applyFolderArtwork fs p i) = mSeriesID i" "mArtistID (applyFolderArtwork fs p i) = mArtistID i"
  by (simp_all add: applyFolderArtwork_def Let_def)

section \<open>Counting children\<close>

lemma map_of_bump:
  "map_of (bump k m) j = (if j = k then map_option (\<lambda>x. x\<lparr>mChildCount := mChildCount x + 1\<rparr>) (map_of m j) else map_of m j)"
  by (simp add: bump_def split: option.splits)

lemma bump_wf [simp]: "map_wf m \<Longrightarrow> map_wf (bump k m)"
  by (simp add: bump_def split: option.splits)

lemma map_of_put_new: "map_of (put_new k x m) j = (if j = k \<and> map_of m j = None then Some x else map_of m j)"
  by (auto simp: put_new_def)

lemma put_new_wf [simp]: "map_wf m \<Longrightarrow> map_wf (put_new k x m)"
  by (simp add: put_new_def)

lemma fold_bump_wf: "map_wf m \<Longrightarrow> map_wf (fold (\<lambda>x. bump (p x)) xs m)"
  by (induction xs arbitrary: m) simp_all

lemma map_of_fold_bump:
  "map_of (fold (\<lambda>x. bump (p x)) xs m) k =
   map_option (\<lambda>t. t\<lparr>mChildCount := mChildCount t + int (length (filter (\<lambda>x. p x = k) xs))\<rparr>) (map_of m k)"
proof (induction xs arbitrary: m)
  case Nil
  then show ?case by (cases "map_of m k") simp_all
next
  case (Cons x xs)
  then show ?case by (cases "map_of m k") (auto simp: map_of_bump)
qed

lemma vals_iff: "map_wf m \<Longrightarrow> x \<in> set (map_vals m) \<longleftrightarrow> (\<exists>k. map_of m k = Some x)"
  by (simp add: set_map_vals ran_def)

section \<open>The hierarchy\<close>

text \<open>Between files: the folders are keyed by their IDs, each of the second level has its parent at
  the first and counts its leaves, and each leaf has its folder.\<close>

definition hier_inv :: "string \<Rightarrow> string \<Rightarrow> string \<Rightarrow> string \<Rightarrow> hierarchy \<Rightarrow> bool" where
  "hier_inv lib t1 t2 t3 h \<longleftrightarrow> map_wf (hyTop h) \<and> map_wf (hyMid h) \<and>
     (\<forall>k x. map_of (hyTop h) k = Some x \<longrightarrow>
        mID x = k \<and> mType x = t1 \<and> mLibraryID x = lib \<and> mParentID x = lib \<and> mChildCount x = 0 \<and> mPath x = []) \<and>
     (\<forall>k x. map_of (hyMid h) k = Some x \<longrightarrow>
        mID x = k \<and> mType x = t2 \<and> mLibraryID x = lib \<and> map_of (hyTop h) (mParentID x) \<noteq> None \<and>
        mChildCount x = int (length (filter (\<lambda>l. mParentID l = k) (hyLeaves h))) \<and> mPath x = []) \<and>
     (\<forall>l \<in> set (hyLeaves h). mType l = t3 \<and> mLibraryID l = lib \<and> map_of (hyMid h) (mParentID l) \<noteq> None)"

lemma hier_inv_wf: "hier_inv lib t1 t2 t3 h \<Longrightarrow> map_wf (hyMid h)"
  by (simp add: hier_inv_def)

lemma hier_inv_empty: "hier_inv lib t1 t2 t3 emptyHierarchy"
  by (simp add: hier_inv_def emptyHierarchy_def)

definition fits :: "string \<Rightarrow> string \<Rightarrow> string \<Rightarrow> string \<Rightarrow> MediaItem \<Rightarrow> MediaItem \<Rightarrow> MediaItem \<Rightarrow> bool" where
  "fits lib t1 t2 t3 t x l \<longleftrightarrow>
     mType t = t1 \<and> mLibraryID t = lib \<and> mParentID t = lib \<and> mChildCount t = 0 \<and> mPath t = [] \<and>
     mType x = t2 \<and> mLibraryID x = lib \<and> mParentID x = mID t \<and> mChildCount x = 0 \<and> mPath x = [] \<and>
     mType l = t3 \<and> mLibraryID l = lib \<and> mParentID l = mID x"

lemma hier_inv_add:
  assumes I: "hier_inv lib t1 t2 t3 h" and F: "fits lib t1 t2 t3 t x l"
  shows "hier_inv lib t1 t2 t3 (add_leaf t x l h)"
proof -
  have top: "map_of (hyTop (add_leaf t x l h)) k = (if k = mID t \<and> map_of (hyTop h) k = None then Some t else map_of (hyTop h) k)" for k
    by (simp add: add_leaf_def map_of_put_new)
  have mid: "map_of (hyMid (add_leaf t x l h)) k =
      (if k = mID x then Some (let y = (case map_of (hyMid h) k of None \<Rightarrow> x | Some y \<Rightarrow> y) in y\<lparr>mChildCount := mChildCount y + 1\<rparr>)
       else map_of (hyMid h) k)" for k
    by (simp add: add_leaf_def map_of_bump map_of_put_new Let_def split: option.splits)
  have none: "filter (\<lambda>m. mParentID m = mID x) (hyLeaves h) = []" if "map_of (hyMid h) (mID x) = None"
    using I that unfolding hier_inv_def by (metis (mono_tags, lifting) filter_False)
  have "map_wf (hyTop (add_leaf t x l h)) \<and> map_wf (hyMid (add_leaf t x l h))"
    using I by (simp add: hier_inv_def add_leaf_def)
  moreover have "mID y = k \<and> mType y = t1 \<and> mLibraryID y = lib \<and> mParentID y = lib \<and> mChildCount y = 0 \<and> mPath y = []"
    if "map_of (hyTop (add_leaf t x l h)) k = Some y" for k y
    using that F I unfolding top by (auto simp: hier_inv_def fits_def split: if_splits)
  moreover have "mID y = k \<and> mType y = t2 \<and> mLibraryID y = lib \<and> map_of (hyTop (add_leaf t x l h)) (mParentID y) \<noteq> None \<and>
      mChildCount y = int (length (filter (\<lambda>m. mParentID m = k) (hyLeaves (add_leaf t x l h)))) \<and> mPath y = []"
    if y: "map_of (hyMid (add_leaf t x l h)) k = Some y" for k y
  proof -
    have leaves: "hyLeaves (add_leaf t x l h) = hyLeaves h @ [l]" by (simp add: add_leaf_def)
    have px: "mParentID l = mID x" "mParentID x = mID t" using F by (simp_all add: fits_def)
    show ?thesis
    proof (cases "k = mID x")
      case False
      then have old: "map_of (hyMid h) k = Some y" using y by (simp add: mid)
      then have "map_of (hyTop h) (mParentID y) \<noteq> None" using I unfolding hier_inv_def by blast
      then have "map_of (hyTop (add_leaf t x l h)) (mParentID y) \<noteq> None" by (simp add: top)
      then show ?thesis using old I False px unfolding hier_inv_def leaves by simp
    next
      case True
      show ?thesis
      proof (cases "map_of (hyMid h) k")
        case None
        then have "y = x\<lparr>mChildCount := mChildCount x + 1\<rparr>" using y True by (simp add: mid)
        then show ?thesis using None True F none px unfolding leaves by (auto simp: fits_def top)
      next
        case (Some z)
        then have yz: "y = z\<lparr>mChildCount := mChildCount z + 1\<rparr>" using y True by (simp add: mid)
        have z: "mID z = k \<and> mType z = t2 \<and> mLibraryID z = lib \<and> map_of (hyTop h) (mParentID z) \<noteq> None \<and>
            mChildCount z = int (length (filter (\<lambda>m. mParentID m = k) (hyLeaves h))) \<and> mPath z = []"
          using Some I unfolding hier_inv_def by blast
        then have "map_of (hyTop (add_leaf t x l h)) (mParentID y) \<noteq> None" by (simp add: yz top)
        then show ?thesis using z yz True px unfolding leaves by simp
      qed
    qed
  qed
  moreover have "mType m = t3 \<and> mLibraryID m = lib \<and> map_of (hyMid (add_leaf t x l h)) (mParentID m) \<noteq> None"
    if "m \<in> set (hyLeaves (add_leaf t x l h))" for m
    using that I F unfolding mid by (auto simp: add_leaf_def hier_inv_def fits_def)
  ultimately show ?thesis unfolding hier_inv_def by blast
qed

lemma hier_inv_fold:
  assumes "\<And>f. fits lib t1 t2 t3 (tops f) (mid f) (leaf f)"
  shows "hier_inv lib t1 t2 t3 h \<Longrightarrow> hier_inv lib t1 t2 t3 (fold (\<lambda>f. add_leaf (tops f) (mid f) (leaf f)) files h)"
  by (induction files arbitrary: h) (simp_all add: hier_inv_add assms)

lemma series_fits: "fits (lID lib) ''Series'' ''Season'' ''Episode'' (new_series fs lib f) (new_season lib f) (new_episode fs lib f)"
  by (simp add: fits_def new_series_def new_season_def new_episode_def emptyItem_def Let_def)

lemma album_fits: "fits (lID lib) ''MusicArtist'' ''MusicAlbum'' ''Audio'' (new_artist fs lib f) (new_album fs lib f) (new_track fs lib f)"
  by (simp add: fits_def new_artist_def new_album_def new_track_def emptyItem_def Let_def)

text \<open>A finished list: every folder counts its children, and every parent is there.\<close>

definition closed_under_parents :: "string \<Rightarrow> string \<Rightarrow> string \<Rightarrow> string \<Rightarrow> MediaItem list \<Rightarrow> bool" where
  "closed_under_parents lib t1 t2 t3 items \<longleftrightarrow>
     (\<forall>x \<in> set items. mLibraryID x = lib \<and> mType x \<in> {t1, t2, t3} \<and>
        (mType x = t1 \<longrightarrow> mParentID x = lib \<and>
           mChildCount x = int (length (filter (\<lambda>y. mType y = t2 \<and> mParentID y = mID x) items))) \<and>
        (mType x = t2 \<longrightarrow> (\<exists>y \<in> set items. mType y = t1 \<and> mID y = mParentID x) \<and>
           mChildCount x = int (length (filter (\<lambda>y. mType y = t3 \<and> mParentID y = mID x) items))) \<and>
        (mType x = t3 \<longrightarrow> (\<exists>y \<in> set items. mType y = t2 \<and> mID y = mParentID x)))"

lemma closed_under_parents_sort:
  "closed_under_parents lib t1 t2 t3 (sort_key f items) \<longleftrightarrow> closed_under_parents lib t1 t2 t3 items"
proof -
  have len: "length (filter P (sort_key f items)) = length (filter P items)" for P
    by (metis mset_filter mset_sort size_mset)
  show ?thesis by (simp add: closed_under_parents_def len)
qed

lemma filter_map_vals_none: "\<forall>x \<in> set xs. \<not> P x \<Longrightarrow> filter P xs = []"
  by (simp add: filter_empty_conv)

lemma finish_closed:
  assumes I: "hier_inv lib t1 t2 t3 h" and p: "\<forall>x \<in> set (map_vals (hyMid h)). p x = mParentID x"
    and ne: "t1 \<noteq> t2" "t1 \<noteq> t3" "t2 \<noteq> t3"
  shows "closed_under_parents lib t1 t2 t3 (finish_hierarchy p h)"
proof -
  define tops where "tops = map_vals (fold (\<lambda>x. bump (p x)) (map_vals (hyMid h)) (hyTop h))"
  define mids where "mids = map_vals (hyMid h)"
  define leaves where "leaves = hyLeaves h"
  have items: "finish_hierarchy p h = tops @ mids @ leaves"
    by (simp add: finish_hierarchy_def tops_def mids_def leaves_def)
  have wf: "map_wf (hyTop h)" "map_wf (hyMid h)" using I by (simp_all add: hier_inv_def)
  have top: "mID x = k \<and> mType x = t1 \<and> mLibraryID x = lib \<and> mParentID x = lib \<and> mChildCount x = 0"
    if "map_of (hyTop h) k = Some x" for k x using I that unfolding hier_inv_def by blast
  have mid: "mID x = k \<and> mType x = t2 \<and> mLibraryID x = lib \<and> map_of (hyTop h) (mParentID x) \<noteq> None \<and>
      mChildCount x = int (length (filter (\<lambda>l. mParentID l = k) leaves))"
    if "map_of (hyMid h) k = Some x" for k x using I that unfolding hier_inv_def leaves_def by blast
  have leaf: "mType l = t3 \<and> mLibraryID l = lib \<and> map_of (hyMid h) (mParentID l) \<noteq> None"
    if "l \<in> set leaves" for l using I that unfolding hier_inv_def leaves_def by blast
  have fp: "filter (\<lambda>x. p x = k) mids = filter (\<lambda>x. mParentID x = k) mids" for k
    using p by (intro filter_cong) (simp_all add: mids_def)
  have tops_iff: "x \<in> set tops \<longleftrightarrow> (\<exists>t k. map_of (hyTop h) k = Some t \<and>
      x = t\<lparr>mChildCount := mChildCount t + int (length (filter (\<lambda>x. mParentID x = k) mids))\<rparr>)" for x
    unfolding tops_def using fp by (auto simp: vals_iff fold_bump_wf wf map_of_fold_bump mids_def)
  have mids_iff: "x \<in> set mids \<longleftrightarrow> (\<exists>k. map_of (hyMid h) k = Some x)" for x
    by (simp add: mids_def vals_iff wf)
  have T: "mType x = t1 \<and> mLibraryID x = lib \<and> mParentID x = lib \<and>
      mChildCount x = int (length (filter (\<lambda>y. mParentID y = mID x) mids))" if "x \<in> set tops" for x
    using that top unfolding tops_iff by force
  have M: "mType x = t2 \<and> mLibraryID x = lib \<and> mChildCount x = int (length (filter (\<lambda>y. mParentID y = mID x) leaves)) \<and>
      (\<exists>y \<in> set tops. mID y = mParentID x)" if "x \<in> set mids" for x
  proof -
    from that obtain k where k: "map_of (hyMid h) k = Some x" unfolding mids_iff by blast
    then obtain t where t: "map_of (hyTop h) (mParentID x) = Some t" using mid by blast
    have "t\<lparr>mChildCount := mChildCount t + int (length (filter (\<lambda>y. mParentID y = mParentID x) mids))\<rparr> \<in> set tops"
      unfolding tops_iff using t by blast
    moreover have "mID t = mParentID x" using top [OF t] by blast
    ultimately show ?thesis using mid [OF k] by (intro conjI bexI) simp_all
  qed
  have L: "mType x = t3 \<and> mLibraryID x = lib \<and> (\<exists>y \<in> set mids. mID y = mParentID x)" if l: "x \<in> set leaves" for x
  proof -
    obtain y where "map_of (hyMid h) (mParentID x) = Some y" using leaf [OF l] by blast
    moreover from this have "mID y = mParentID x" using mid by blast
    ultimately show ?thesis using leaf [OF l] mids_iff by blast
  qed
  have F2: "filter (\<lambda>y. mType y = t2 \<and> P y) (tops @ mids @ leaves) = filter P mids" for P
  proof -
    have "filter (\<lambda>y. mType y = t2 \<and> P y) tops = []" "filter (\<lambda>y. mType y = t2 \<and> P y) leaves = []"
      using T L ne by (auto simp: filter_empty_conv)
    moreover have "filter (\<lambda>y. mType y = t2 \<and> P y) mids = filter P mids" using M by (intro filter_cong) simp_all
    ultimately show ?thesis by simp
  qed
  have F3: "filter (\<lambda>y. mType y = t3 \<and> P y) (tops @ mids @ leaves) = filter P leaves" for P
  proof -
    have "filter (\<lambda>y. mType y = t3 \<and> P y) tops = []" "filter (\<lambda>y. mType y = t3 \<and> P y) mids = []"
      using T M ne by (auto simp: filter_empty_conv)
    moreover have "filter (\<lambda>y. mType y = t3 \<and> P y) leaves = filter P leaves" using L by (intro filter_cong) simp_all
    ultimately show ?thesis by simp
  qed
  show ?thesis
    unfolding closed_under_parents_def items F2 F3
  proof (intro ballI)
    fix x assume "x \<in> set (tops @ mids @ leaves)"
    then consider "x \<in> set tops" | "x \<in> set mids" | "x \<in> set leaves" by auto
    then show "mLibraryID x = lib \<and> mType x \<in> {t1, t2, t3} \<and>
        (mType x = t1 \<longrightarrow> mParentID x = lib \<and> mChildCount x = int (length (filter (\<lambda>y. mParentID y = mID x) mids))) \<and>
        (mType x = t2 \<longrightarrow> (\<exists>y \<in> set (tops @ mids @ leaves). mType y = t1 \<and> mID y = mParentID x) \<and>
           mChildCount x = int (length (filter (\<lambda>y. mParentID y = mID x) leaves))) \<and>
        (mType x = t3 \<longrightarrow> (\<exists>y \<in> set (tops @ mids @ leaves). mType y = t2 \<and> mID y = mParentID x))"
    proof cases
      case 1
      then show ?thesis using T ne by simp
    next
      case 2
      from M [OF 2] obtain y where "y \<in> set tops" "mID y = mParentID x" by blast
      moreover from this have "mType y = t1" using T by blast
      ultimately show ?thesis using M [OF 2] ne by auto
    next
      case 3
      from L [OF 3] obtain y where "y \<in> set mids" "mID y = mParentID x" by blast
      moreover from this have "mType y = t2" using M by blast
      ultimately show ?thesis using L [OF 3] ne by auto
    qed
  qed
qed

lemma mid_parents:
  assumes "\<And>f. p (mid f) = mParentID (mid f)" "\<And>x n. p (x\<lparr>mChildCount := n\<rparr>) = p x"
  shows "\<forall>k x. map_of (hyMid h) k = Some x \<longrightarrow> p x = mParentID x \<Longrightarrow>
    map_of (hyMid (fold (\<lambda>f. add_leaf (tops f) (mid f) (leaf f)) files h)) k = Some x \<Longrightarrow> p x = mParentID x"
proof (induction files arbitrary: h)
  case Nil
  then show ?case by simp
next
  case (Cons f files)
  have "\<forall>k x. map_of (hyMid (add_leaf (tops f) (mid f) (leaf f) h)) k = Some x \<longrightarrow> p x = mParentID x"
    using Cons.prems(1) by (auto simp: add_leaf_def map_of_bump map_of_put_new assms split: if_splits)
  from Cons.IH [OF this] Cons.prems(2) show ?case by simp
qed

lemma buildEpisodes_closed:
  "closed_under_parents (lID lib) ''Series'' ''Season'' ''Episode'' (buildEpisodes fs lib files)"
proof -
  let ?h = "fold (add_episode fs lib) files emptyHierarchy"
  have I: "hier_inv (lID lib) ''Series'' ''Season'' ''Episode'' ?h"
    unfolding add_episode_def [abs_def] by (rule hier_inv_fold [OF series_fits hier_inv_empty])
  have "mSeriesID (new_season lib f) = mParentID (new_season lib f)" for f by (simp add: new_season_def Let_def)
  from mid_parents [where p = mSeriesID and mid = "new_season lib" and h = emptyHierarchy and tops = "new_series fs lib" and leaf = "new_episode fs lib", OF this]
  have "mSeriesID x = mParentID x" if "map_of (hyMid ?h) k = Some x" for k x
    using that unfolding add_episode_def [abs_def] by (simp add: emptyHierarchy_def)
  then have "\<forall>x \<in> set (map_vals (hyMid ?h)). mSeriesID x = mParentID x"
    by (metis vals_iff [OF hier_inv_wf [OF I]])
  then show ?thesis unfolding buildEpisodes_def by (rule finish_closed [OF I]) simp_all
qed

lemma buildTracks_closed:
  "closed_under_parents (lID lib) ''MusicArtist'' ''MusicAlbum'' ''Audio'' (buildTracks fs lib files)"
proof -
  let ?h = "fold (add_track fs lib) files emptyHierarchy"
  have I: "hier_inv (lID lib) ''MusicArtist'' ''MusicAlbum'' ''Audio'' ?h"
    unfolding add_track_def [abs_def] by (rule hier_inv_fold [OF album_fits hier_inv_empty])
  have "mArtistID (new_album fs lib f) = mParentID (new_album fs lib f)" for f by (simp add: new_album_def Let_def)
  from mid_parents [where p = mArtistID and mid = "new_album fs lib" and h = emptyHierarchy and tops = "new_artist fs lib" and leaf = "new_track fs lib", OF this]
  have "mArtistID x = mParentID x" if "map_of (hyMid ?h) k = Some x" for k x
    using that unfolding add_track_def [abs_def] by (simp add: emptyHierarchy_def)
  then have "\<forall>x \<in> set (map_vals (hyMid ?h)). mArtistID x = mParentID x"
    by (metis vals_iff [OF hier_inv_wf [OF I]])
  then show ?thesis unfolding buildTracks_def by (rule finish_closed [OF I]) simp_all
qed

lemma Scan_closed:
  assumes "Scan fs lib = Inr items"
    and "(lType lib, t1, t2, t3) \<in> {(''tvshows'', ''Series'', ''Season'', ''Episode''), (''music'', ''MusicArtist'', ''MusicAlbum'', ''Audio'')}"
  shows "closed_under_parents (lID lib) t1 t2 t3 items"
proof -
  from assms(1) obtain files where files: "collectFiles fs (lPath lib) = Inr files"
    by (cases "collectFiles fs (lPath lib)") (simp_all add: Scan_def)
  consider "lType lib = ''tvshows''" "t1 = ''Series''" "t2 = ''Season''" "t3 = ''Episode''"
    | "lType lib = ''music''" "t1 = ''MusicArtist''" "t2 = ''MusicAlbum''" "t3 = ''Audio''"
    using assms(2) by auto
  then show ?thesis
  proof cases
    case 1
    then have "items = sortItemsStable (buildEpisodes fs lib files)" using assms(1) files by (simp add: Scan_def)
    then show ?thesis using buildEpisodes_closed [of lib fs files] 1
      by (simp add: sortItemsStable_def closed_under_parents_sort)
  next
    case 2
    then have "items = sortItemsStable (buildTracks fs lib files)" using assms(1) files by (simp add: Scan_def)
    then show ?thesis using buildTracks_closed [of lib fs files] 2
      by (simp add: sortItemsStable_def closed_under_parents_sort)
  qed
qed

section \<open>The walk\<close>

text \<open>Names as a directory has them; a file below a node, at the end of a list of names; the path the
  walk builds from such a list; hidden names.\<close>

fun tree_ok :: "fsnode \<Rightarrow> bool" and entries_ok :: "(string \<times> fsnode) list \<Rightarrow> bool" where
  "tree_ok (NDir es) = entries_ok es"
| "tree_ok NLink = True"
| "tree_ok (NFile i) = True"
| "entries_ok [] = True"
| "entries_ok ((n, d) # es) = (plain n \<and> tree_ok d \<and> entries_ok es)"

inductive holds_file :: "fsnode \<Rightarrow> string list \<Rightarrow> (int \<times> time) option \<Rightarrow> bool" where
  here: "holds_file (NFile i) [] i"
| below: "(n, d) \<in> set es \<Longrightarrow> holds_file d rest i \<Longrightarrow> holds_file (NDir es) (n # rest) i"

inductive_simps holds_file_simps [simp]: "holds_file (NFile j) rest i" "holds_file NLink rest i" "holds_file (NDir es) rest i"

definition path_of :: "string \<Rightarrow> string list \<Rightarrow> string" where
  "path_of path rest = fold (\<lambda>n p. JoinPath [p, n]) rest path"

definition hidden :: "string \<Rightarrow> bool" where
  "hidden n \<longleftrightarrow> HasPrefix n ''.''"

lemma entries_ok_iff: "entries_ok es \<longleftrightarrow> (\<forall>(n, d) \<in> set es. plain n \<and> tree_ok d)"
  by (induction es) auto

lemma path_of_elements:
  "IsAbs path \<Longrightarrow> \<forall>e \<in> set rest. plain e \<Longrightarrow> IsAbs (path_of path rest) \<and> elements (path_of path rest) = elements path @ rest"
proof (induction rest arbitrary: path)
  case Nil
  then show ?case by (simp add: path_of_def)
next
  case (Cons n rest)
  have "IsAbs (JoinPath [path, n]) \<and> elements (JoinPath [path, n]) = elements path @ [n]"
    using JoinPath_elements [of path n] Cons.prems by simp
  with Cons.IH [of "JoinPath [path, n]"] Cons.prems show ?case by (simp add: path_of_def)
qed

lemma holds_file_plain: "holds_file d rest i \<Longrightarrow> tree_ok d \<Longrightarrow> \<forall>e \<in> set rest. plain e"
  by (induction rule: holds_file.induct) (auto simp: entries_ok_iff)

text \<open>The walk below the root: every file whose names, with that of the node itself, are not hidden.\<close>

lemma walk_iff:
  "IsAbs path \<Longrightarrow> tree_ok d \<Longrightarrow> length (elements base) < length (elements path) \<Longrightarrow>
     f \<in> set (walk base path name d) \<longleftrightarrow>
     (\<exists>rest i. holds_file d rest i \<and> (\<forall>e \<in> set (butlast (name # rest)). \<not> hidden e) \<and>
        f \<in> set (visit_file base (path_of path rest) (last (name # rest)) i))"
  "IsAbs path \<Longrightarrow> entries_ok es \<Longrightarrow> length (elements base) \<le> length (elements path) \<Longrightarrow>
     f \<in> set (walk_entries base path es) \<longleftrightarrow>
     (\<exists>rest i. holds_file (NDir es) rest i \<and> (\<forall>e \<in> set (butlast rest). \<not> hidden e) \<and>
        f \<in> set (visit_file base (path_of path rest) (last rest) i))"
proof (induction base path name d and base path es rule: walk_walk_entries.induct)
  case (1 base path name entries)
  then have ne: "path \<noteq> base" by auto
  have IH: "f \<in> set (walk_entries base path entries) \<longleftrightarrow>
     (\<exists>rest i. holds_file (NDir entries) rest i \<and> (\<forall>e \<in> set (butlast rest). \<not> hidden e) \<and>
        f \<in> set (visit_file base (path_of path rest) (last rest) i))" if "\<not> hidden name"
    using that 1 ne by (simp add: hidden_def)
  have ne_rest: "rest \<noteq> []" if "holds_file (NDir entries) rest i" for rest i using that by auto
  show ?case
  proof (cases "hidden name")
    case True
    then have "walk base path name (NDir entries) = []" using ne by (simp add: hidden_def)
    moreover have "name \<in> set (butlast (name # rest))" if "holds_file (NDir entries) rest i" for rest i
      using ne_rest [OF that] by simp
    ultimately show ?thesis using True by auto
  next
    case False
    then have w: "walk base path name (NDir entries) = walk_entries base path entries" using ne by (simp add: hidden_def)
    have key: "(holds_file (NDir entries) rest i \<and> (\<forall>e \<in> set (butlast (name # rest)). \<not> hidden e) \<and>
        f \<in> set (visit_file base (path_of path rest) (last (name # rest)) i)) \<longleftrightarrow>
      (holds_file (NDir entries) rest i \<and> (\<forall>e \<in> set (butlast rest). \<not> hidden e) \<and>
        f \<in> set (visit_file base (path_of path rest) (last rest) i))" for rest i
    proof (cases "holds_file (NDir entries) rest i")
      case True
      from ne_rest [OF this] False show ?thesis by simp
    qed blast
    show ?thesis unfolding w IH [OF False] key ..
  qed
next
  case (2 base path name)
  then show ?case by simp
next
  case (3 base path name info)
  then show ?case by (simp add: path_of_def)
next
  case (4 base path)
  then show ?case by simp
next
  case (5 base path n d entries)
  have pl: "plain n" "tree_ok d" "entries_ok entries" using 5(4) by simp_all
  have j: "IsAbs (JoinPath [path, n])" "elements (JoinPath [path, n]) = elements path @ [n]"
    using JoinPath_elements [OF 5(3) pl(1)] by simp_all
  have p: "path_of path (n # rest) = path_of (JoinPath [path, n]) rest" for rest by (simp add: path_of_def)
  have A: "f \<in> set (walk base (JoinPath [path, n]) n d) \<longleftrightarrow>
     (\<exists>rest i. holds_file d rest i \<and> (\<forall>e \<in> set (butlast (n # rest)). \<not> hidden e) \<and>
        f \<in> set (visit_file base (path_of path (n # rest)) (last (n # rest)) i))"
    unfolding p by (rule 5(1)) (use j pl 5(5) in simp_all)
  have B: "f \<in> set (walk_entries base path entries) \<longleftrightarrow>
     (\<exists>rest i. holds_file (NDir entries) rest i \<and> (\<forall>e \<in> set (butlast rest). \<not> hidden e) \<and>
        f \<in> set (visit_file base (path_of path rest) (last rest) i))"
    by (rule 5(2)) (use 5(3,5) pl in simp_all)
  have C: "holds_file (NDir ((n, d) # entries)) rest i \<longleftrightarrow>
      (\<exists>r. rest = n # r \<and> holds_file d r i) \<or> holds_file (NDir entries) rest i" for rest i by auto
  have split: "(\<exists>rest i. holds_file (NDir ((n, d) # entries)) rest i \<and> Q rest i) \<longleftrightarrow>
      (\<exists>r i. holds_file d r i \<and> Q (n # r) i) \<or> (\<exists>rest i. holds_file (NDir entries) rest i \<and> Q rest i)" for Q
    unfolding C by blast
  show ?case unfolding walk_entries.simps set_append Un_iff A B split ..
qed

lemma strip_common_append: "strip_common bs (bs @ ts) = ([], ts)"
  by (induction bs) (cases ts, simp_all)

lemma Rel_below:
  assumes "IsAbs base" "IsAbs path" "elements path = elements base @ rest" "rest \<noteq> []"
  shows "Rel base path = Some (Join rest ''/'')"
proof -
  have "Clean base \<noteq> Clean path" using Clean_eq_elements [of base path] assms by auto
  then show ?thesis using assms by (simp add: Rel_def target_elements_def strip_common_append)
qed

text \<open>What a file found by the walk is: the root directory \<open>es\<close> holds it, none of its names is hidden,
  it has a kind, and its parts are its names.\<close>

definition found :: "string \<Rightarrow> (string \<times> fsnode) list \<Rightarrow> scannedFile \<Rightarrow> string list \<Rightarrow> bool" where
  "found base es f rest \<longleftrightarrow> holds_file (NDir es) rest (Some (sfSize f, sfModTime f)) \<and> (\<forall>e \<in> set rest. plain e \<and> \<not> hidden e) \<and>
     sfPath f = path_of base rest \<and> sfRelParts f = rest \<and> (sfKind f, sfContainer f) = mediaKind (path_of base rest) \<and> sfKind f \<noteq> []"

lemma walk_root_iff:
  assumes "IsAbs base" "entries_ok es"
  shows "f \<in> set (walk base base name (NDir es)) \<longleftrightarrow> (\<exists>rest. found base es f rest)"
proof -
  have "f \<in> set (walk base base name (NDir es)) \<longleftrightarrow>
     (\<exists>rest i. holds_file (NDir es) rest i \<and> (\<forall>e \<in> set (butlast rest). \<not> hidden e) \<and>
        f \<in> set (visit_file base (path_of base rest) (last rest) i))"
    using walk_iff(2) [OF assms le_refl] by simp
  also have "\<dots> \<longleftrightarrow> (\<exists>rest. found base es f rest)"
  proof -
    have "(\<exists>i. holds_file (NDir es) rest i \<and> (\<forall>e \<in> set (butlast rest). \<not> hidden e) \<and>
        f \<in> set (visit_file base (path_of base rest) (last rest) i)) \<longleftrightarrow> found base es f rest" for rest
    proof (cases "\<exists>i. holds_file (NDir es) rest i")
      case True
      then have ne: "rest \<noteq> []" by auto
      have pl: "\<forall>e \<in> set rest. plain e" using True holds_file_plain assms(2) by fastforce
      from path_of_elements [OF assms(1) pl] ne
      have rel: "Rel base (path_of base rest) = Some (Join rest ''/'')" by (auto intro: Rel_below [OF assms(1)])
      have parts: "Split (Join rest ''/'') slash = rest" using Split_Join [OF ne] pl by (simp add: plain_def)
      have hid: "(\<forall>e \<in> set (butlast rest). \<not> hidden e) \<and> \<not> hidden (last rest) \<longleftrightarrow> (\<forall>e \<in> set rest. \<not> hidden e)"
        using arg_cong [OF append_butlast_last_id [OF ne], of set] by (metis Un_iff list.set_intros(1) set_ConsD set_append empty_iff empty_set)
      obtain kind cont where k: "mediaKind (path_of base rest) = (kind, cont)" by fastforce
      have visit: "f \<in> set (visit_file base (path_of base rest) (last rest) i) \<longleftrightarrow>
          \<not> hidden (last rest) \<and> kind \<noteq> [] \<and> (\<exists>s t. i = Some (s, t) \<and> f = \<lparr>sfPath = path_of base rest, sfRelParts = rest,
            sfKind = kind, sfContainer = cont, sfSize = s, sfModTime = t\<rparr>)" for i
        by (auto simp: visit_file_def k rel parts hidden_def split: option.splits)
      show ?thesis unfolding visit found_def k using pl hid
        by (cases f) auto
    next
      case False
      then show ?thesis by (auto simp: found_def)
    qed
    then show ?thesis by blast
  qed
  finally show ?thesis .
qed

section \<open>The items of a scan\<close>

lemma finish_paths:
  assumes I: "hier_inv lib t1 t2 t3 h"
  shows "filter (\<lambda>x. mPath x \<noteq> []) (finish_hierarchy p h) = filter (\<lambda>x. mPath x \<noteq> []) (hyLeaves h)"
proof -
  have wf: "map_wf (hyTop h)" "map_wf (hyMid h)" using I by (simp_all add: hier_inv_def)
  have "mPath x = []" if "x \<in> set (map_vals (hyMid h))" for x
    using that I unfolding vals_iff [OF wf(2)] hier_inv_def by blast
  moreover have "mPath x = []" if x: "x \<in> set (map_vals (fold (\<lambda>x. bump (p x)) xs (hyTop h)))" for x xs
  proof -
    from x obtain k t where "map_of (hyTop h) k = Some t" "mPath x = mPath t"
      unfolding vals_iff [OF fold_bump_wf [OF wf(1)]] map_of_fold_bump by auto
    then show ?thesis using I unfolding hier_inv_def by metis
  qed
  ultimately show ?thesis by (simp add: finish_hierarchy_def filter_empty_conv)
qed

lemma fold_leaves: "hyLeaves (fold (\<lambda>f. add_leaf (tops f) (mid f) (leaf f)) files h) = hyLeaves h @ map leaf files"
  by (induction files arbitrary: h) (simp_all add: add_leaf_def)

text \<open>The files behind the items are the files of the walk, each once.\<close>

lemma Scan_paths:
  assumes "collectFiles fs (lPath lib) = Inr files" "Scan fs lib = Inr items" "\<forall>f \<in> set files. sfPath f \<noteq> []"
  shows "mset (map mPath (filter (\<lambda>x. mPath x \<noteq> []) items)) = mset (map sfPath files)"
proof -
  have leaf: "mPath (new_episode fs lib f) = sfPath f" "mPath (new_track fs lib f) = sfPath f" "mPath (flat_item fs lib f) = sfPath f" for f
    by (simp_all add: new_episode_def new_track_def flat_item_def Let_def split: prod.splits)
  have all: "filter (\<lambda>x. mPath x \<noteq> []) (map leaf files) = map leaf files" if "\<And>f. mPath (leaf f) = sfPath f" for leaf
    using assms(3) that by (simp add: filter_id_conv)
  let ?b = "if lType lib = ''tvshows'' then buildEpisodes fs lib files
     else if lType lib = ''music'' then buildTracks fs lib files else buildFlat fs lib files"
  have items: "items = sortItemsStable ?b" using assms(1,2) by (simp add: Scan_def)
  have "map mPath (filter (\<lambda>x. mPath x \<noteq> []) ?b) = map sfPath files"
  proof -
    have e: "hier_inv (lID lib) ''Series'' ''Season'' ''Episode'' (fold (add_episode fs lib) files emptyHierarchy)"
      unfolding add_episode_def [abs_def] by (rule hier_inv_fold [OF series_fits hier_inv_empty])
    have t: "hier_inv (lID lib) ''MusicArtist'' ''MusicAlbum'' ''Audio'' (fold (add_track fs lib) files emptyHierarchy)"
      unfolding add_track_def [abs_def] by (rule hier_inv_fold [OF album_fits hier_inv_empty])
    have el: "hyLeaves (fold (add_episode fs lib) files emptyHierarchy) = map (new_episode fs lib) files"
      unfolding add_episode_def [abs_def] fold_leaves by (simp add: emptyHierarchy_def)
    have tl: "hyLeaves (fold (add_track fs lib) files emptyHierarchy) = map (new_track fs lib) files"
      unfolding add_track_def [abs_def] fold_leaves by (simp add: emptyHierarchy_def)
    have "map mPath (filter (\<lambda>x. mPath x \<noteq> []) (buildEpisodes fs lib files)) = map sfPath files"
      unfolding buildEpisodes_def finish_paths [OF e] el all [of "new_episode fs lib", OF leaf(1)] by (simp add: leaf)
    moreover have "map mPath (filter (\<lambda>x. mPath x \<noteq> []) (buildTracks fs lib files)) = map sfPath files"
      unfolding buildTracks_def finish_paths [OF t] tl all [of "new_track fs lib", OF leaf(2)] by (simp add: leaf)
    moreover have "map mPath (filter (\<lambda>x. mPath x \<noteq> []) (buildFlat fs lib files)) = map sfPath files"
      unfolding buildFlat_def all [of "flat_item fs lib", OF leaf(3)] by (simp add: leaf)
    ultimately show ?thesis by simp
  qed
  then show ?thesis unfolding items sortItemsStable_def mset_map mset_filter mset_sort by (metis mset_filter mset_map)
qed

lemma Scan_exact:
  assumes "mfLstat fs (lPath lib) = Some (NDir es)" "IsAbs (lPath lib)" "entries_ok es" "Scan fs lib = Inr items"
  shows "p \<in> mPath ` set items \<and> p \<noteq> [] \<longleftrightarrow>
    (\<exists>rest i. holds_file (NDir es) rest (Some i) \<and> (\<forall>e \<in> set rest. \<not> hidden e) \<and>
       p = path_of (lPath lib) rest \<and> fst (mediaKind p) \<noteq> [])"
proof -
  let ?files = "walk (lPath lib) (lPath lib) (Base (lPath lib)) (NDir es)"
  have files: "collectFiles fs (lPath lib) = Inr ?files" using assms(1) by (simp add: collectFiles_def)
  have iff: "f \<in> set ?files \<longleftrightarrow> (\<exists>rest. found (lPath lib) es f rest)" for f by (rule walk_root_iff [OF assms(2,3)])
  have pl: "\<forall>e \<in> set rest. plain e" if "holds_file (NDir es) rest i" for rest i
    using holds_file_plain [OF that] assms(3) by simp
  have abs: "IsAbs (path_of (lPath lib) rest)" if "holds_file (NDir es) rest i" for rest i
    using path_of_elements [OF assms(2) pl [OF that]] by blast
  have ne: "\<forall>f \<in> set ?files. sfPath f \<noteq> []"
  proof
    fix f assume "f \<in> set ?files"
    then obtain rest where "found (lPath lib) es f rest" using iff by blast
    then show "sfPath f \<noteq> []" using abs unfolding found_def by (metis IsAbs_def HasPrefix_def take_Nil list.discI)
  qed
  from arg_cong [OF Scan_paths [OF files assms(4) ne], of set_mset]
  have eq: "mPath ` {x \<in> set items. mPath x \<noteq> []} = sfPath ` set ?files" by simp
  have "p \<in> mPath ` set items \<and> p \<noteq> [] \<longleftrightarrow> p \<in> mPath ` {x \<in> set items. mPath x \<noteq> []}" by auto
  then have "p \<in> mPath ` set items \<and> p \<noteq> [] \<longleftrightarrow> p \<in> sfPath ` set ?files" unfolding eq .
  also have "\<dots> \<longleftrightarrow> (\<exists>f rest. found (lPath lib) es f rest \<and> p = sfPath f)" using iff by auto
  also have "\<dots> \<longleftrightarrow> (\<exists>rest i. holds_file (NDir es) rest (Some i) \<and> (\<forall>e \<in> set rest. \<not> hidden e) \<and>
       p = path_of (lPath lib) rest \<and> fst (mediaKind p) \<noteq> [])" (is "?L \<longleftrightarrow> ?R")
  proof
    assume ?L
    then show ?R unfolding found_def by (metis fst_conv)
  next
    assume ?R
    then obtain rest i where r0: "holds_file (NDir es) rest (Some i)" "\<forall>e \<in> set rest. \<not> hidden e"
      "p = path_of (lPath lib) rest" "fst (mediaKind p) \<noteq> []" by blast
    obtain s t where "i = (s, t)" by fastforce
    with r0 have r: "holds_file (NDir es) rest (Some (s, t))" "\<forall>e \<in> set rest. \<not> hidden e"
      "p = path_of (lPath lib) rest" "fst (mediaKind p) \<noteq> []" by blast+
    let ?f = "\<lparr>sfPath = p, sfRelParts = rest, sfKind = fst (mediaKind p), sfContainer = snd (mediaKind p), sfSize = s, sfModTime = t\<rparr>"
    have "found (lPath lib) es ?f rest" using r pl [OF r(1)] by (simp add: found_def)
    then show ?L by (metis scannedFile.select_convs(1))
  qed
  finally show ?thesis .
qed

end
