(* ===== verification/MediaProofs.thy ===== *)
theory MediaProofs
  imports Media ScanProofs JsonStore
begin

text \<open>
  Lemmas on the media service: containment of paths, what a scan leaves in any store that keeps the
  contract of \<open>library_store\<close>, paging and sorting, and the conversion of subtitles.
\<close>

section \<open>Containment\<close>

text \<open>A path below another, element by element.\<close>

definition below :: "string \<Rightarrow> string \<Rightarrow> bool" where
  "below base p \<longleftrightarrow> IsAbs p \<and> (\<exists>rest. elements p = elements base @ rest \<and> dotdot \<notin> set rest)"

lemma withinRoot_below: "withinRoot base p \<Longrightarrow> IsAbs base \<Longrightarrow> below base p"
  unfolding withinRoot_def below_def using Rel_contained [of base p] by (auto simp: climbs_def split: option.splits)

lemma withinRoot_plain:
  assumes "IsAbs base" "IsAbs p" "elements p = elements base @ rest" "rest \<noteq> []" "\<forall>e \<in> set rest. plain e"
  shows "withinRoot base p"
proof -
  have rel: "Rel base p = Some (Join rest ''/'')" by (rule Rel_below) (use assms in simp_all)
  have split: "Split (Join rest ''/'') slash = rest"
    using Split_Join [OF assms(4)] assms(5) by (simp add: plain_def)
  have "Join rest ''/'' \<noteq> dotdot"
  proof
    assume "Join rest ''/'' = dotdot"
    then have "rest = [dotdot]" using split Split_no_sep [of slash dotdot] by simp
    then show False using assms(5) by (simp add: plain_def)
  qed
  moreover have "\<not> HasPrefix (Join rest ''/'') (dotdot @ ''/'')"
  proof
    assume "HasPrefix (Join rest ''/'') (dotdot @ ''/'')"
    then obtain t where "Join rest ''/'' = dotdot @ slash # t"
      unfolding HasPrefix_prefix by (auto simp: prefix_def slash_def)
    then have "rest = dotdot # Split t slash" using split Split_append [of slash dotdot t] by simp
    then show False using assms(5) by (simp add: plain_def)
  qed
  ultimately show ?thesis by (simp add: withinRoot_def rel)
qed

section \<open>Scans\<close>

lemma applyProbe_fields [simp]: "mPath (applyProbe r it) = mPath it" "mID (applyProbe r it) = mID it"
  by (simp_all add: applyProbe_def)

lemma probeItems_path: "map mPath (probeItems probe items) = map mPath items"
  by (simp add: probeItems_def split: sum.splits)

lemma enrich_path:
  "mPath (fst (enrich_primary env c r st)) = mPath (fst st)" "mPath (fst (enrich_backdrop env c r st)) = mPath (fst st)"
  "mPath (enrich_text r it) = mPath it"
  by (simp_all add: enrich_primary_def enrich_backdrop_def enrich_text_def Let_def split: prod.splits)

lemma enrichOne_path: "mPath (fst (enrichOne env pv c it files)) = mPath it"
  by (simp add: enrichOne_def enrich_path split: sum.splits)

lemma enrichItems_path: "map mPath (fst (enrichItems env pv c items files)) = map mPath items"
proof (induction items arbitrary: files)
  case (Cons it items)
  show ?case using enrichOne_path [of env pv c it files] Cons.IH
    by (auto split: prod.splits) (metis fst_conv)+
qed simp

lemma scan_items_path:
  assumes "scan_items env m lib = Inr (items, files)"
  obtains scanned where "Scan (meFs env) lib = Inr scanned" "map mPath items = map mPath scanned"
proof -
  obtain scanned where s: "Scan (meFs env) lib = Inr scanned"
    using assms by (cases "Scan (meFs env) lib") (simp_all add: scan_items_def)
  have "map mPath items = map mPath scanned"
    using assms s probeItems_path enrichItems_path
    by (auto simp: scan_items_def Let_def split: option.splits dest: sym) (metis fst_conv)+
  with s that show thesis by blast
qed

lemma add_items_simps [simp]:
  "add_items k [] a = a" "add_items k (y # its) a = add_items k its (a(mID y \<mapsto> y\<lparr>mLibraryID := k\<rparr>))"
  by (simp_all add: add_items_def)

lemma add_items_new:
  "add_items k its a j = Some it \<Longrightarrow> (\<exists>x \<in> set its. it = x\<lparr>mLibraryID := k\<rparr> \<and> mID x = j) \<or> a j = Some it"
proof (induction its arbitrary: a)
  case (Cons x its)
  have "(\<exists>y \<in> set its. it = y\<lparr>mLibraryID := k\<rparr> \<and> mID y = j) \<or> (a(mID x \<mapsto> x\<lparr>mLibraryID := k\<rparr>)) j = Some it"
    by (rule Cons.IH [OF Cons.prems [unfolded add_items_simps]])
  then show ?case by (cases "j = mID x") auto
qed simp

lemma add_items_old: "j \<notin> mID ` set its \<Longrightarrow> add_items k its a j = a j"
  by (induction its arbitrary: a) simp_all

lemma add_items_in:
  "distinct (map mID its) \<Longrightarrow> x \<in> set its \<Longrightarrow> add_items k its a (mID x) = Some (x\<lparr>mLibraryID := k\<rparr>)"
proof (induction its arbitrary: a)
  case (Cons y its)
  show ?case
  proof (cases "x \<in> set its")
    case True
    then show ?thesis using Cons by simp
  next
    case False
    then have "x = y" "mID x \<notin> mID ` set its" using Cons.prems by auto
    then show ?thesis by (simp add: add_items_old)
  qed
qed simp

context library_store begin

text \<open>A scan that succeeds leaves the scanned items as the items of the library.\<close>

lemma ScanLibrary_store:
  assumes "inv (mvStore m)" "aLibraries (abs (mvStore m)) k = Some lib" "scan_items env m lib = Inr (items, files)"
    "items_ok k items (abs (mvStore m))" "ScanLibrary S env now k m = (None, m')"
  shows "inv (mvStore m')"
    "aLibraries (abs (mvStore m')) k = Some (lib\<lparr>lItemCount := int (length items), lScannedAt := now\<rparr>)"
    "aItems (abs (mvStore m')) = add_items k items (drop_library_items k (aItems (abs (mvStore m))))"
proof -
  have lib: "GetLibrary S k (mvStore m) = Inr lib"
    using GetLibrary_ref [OF assms(1), of k] assms(2) by (simp add: lookup_or_def)
  obtain st where st: "ReplaceLibraryItems S now k items (mvStore m) = (None, st)" "mvStore m' = st"
    using assms(5) lib assms(3) by (auto simp: ScanLibrary_def split: prod.splits)
  have "step_ok abs inv (spec_ReplaceLibraryItems now k items (abs (mvStore m))) (abs (mvStore m)) (None, st)"
    using ReplaceLibraryItems_ref [OF assms(1,4), of now] by (simp add: st)
  from step_ok_nil [OF this] assms(2)
  have "abs st = (abs (mvStore m))\<lparr>aItems := add_items k items (drop_library_items k (aItems (abs (mvStore m)))),
      aLibraries := (aLibraries (abs (mvStore m)))(k \<mapsto> lib\<lparr>lItemCount := int (length items), lScannedAt := now\<rparr>)\<rparr>" "inv st"
    by (simp_all add: spec_ReplaceLibraryItems_def)
  then show "inv (mvStore m')"
    "aLibraries (abs (mvStore m')) k = Some (lib\<lparr>lItemCount := int (length items), lScannedAt := now\<rparr>)"
    "aItems (abs (mvStore m')) = add_items k items (drop_library_items k (aItems (abs (mvStore m))))"
    using st(2) by simp_all
qed

lemma ScanLibrary_lists:
  assumes "inv (mvStore m)" "aLibraries (abs (mvStore m)) k = Some lib" "scan_items env m lib = Inr (items, files)"
    "items_ok k items (abs (mvStore m))" "ScanLibrary S env now k m = (None, m')"
  shows "aItems (abs (mvStore m')) j = Some it \<and> mLibraryID it = k \<longleftrightarrow> (\<exists>x \<in> set items. mID x = j \<and> it = x\<lparr>mLibraryID := k\<rparr>)"
proof
  have A: "aItems (abs (mvStore m')) = add_items k items (drop_library_items k (aItems (abs (mvStore m))))"
    by (rule ScanLibrary_store(3)) (fact assms)+
  have d: "drop_library_items k a j \<noteq> Some x" if "mLibraryID x = k" for a x
    using that by (auto simp: drop_library_items_def map_where_def split: option.splits if_splits)
  { assume L: "aItems (abs (mvStore m')) j = Some it \<and> mLibraryID it = k"
    with add_items_new [of k items _ j it] d show "\<exists>x \<in> set items. mID x = j \<and> it = x\<lparr>mLibraryID := k\<rparr>"
      unfolding A by blast }
  { assume "\<exists>x \<in> set items. mID x = j \<and> it = x\<lparr>mLibraryID := k\<rparr>"
    then show "aItems (abs (mvStore m')) j = Some it \<and> mLibraryID it = k"
      unfolding A using add_items_in [of items] assms(4) by (auto simp: items_ok_def) }
qed

text \<open>Each such item is served when its path lies below the library.\<close>

lemma ScanLibrary_serves:
  assumes "inv (mvStore m)" "aLibraries (abs (mvStore m)) k = Some lib" "scan_items env m lib = Inr (items, files)"
    "items_ok k items (abs (mvStore m))" "ScanLibrary S env now k m = (None, m')"
    and x: "x \<in> set items" "mPath x \<noteq> []" "withinRoot (lPath lib) (mPath x)"
  shows "ItemStream S (mID x) m' = Inr \<lparr>stPath = mPath x, stContainer = mContainer x,
    stContentType = StreamContentType (mContainer x), stSize = mSizeBytes x\<rparr>"
proof -
  note post = ScanLibrary_store [OF assms(1-5)]
  have "aItems (abs (mvStore m')) (mID x) = Some (x\<lparr>mLibraryID := k\<rparr>)"
    using ScanLibrary_lists [OF assms(1-5), of "mID x" "x\<lparr>mLibraryID := k\<rparr>"] x(1) by blast
  then have "GetItem S (mID x) (mvStore m') = Inr (x\<lparr>mLibraryID := k\<rparr>)"
    using GetItem_ref [OF post(1), of "mID x"] by (simp add: lookup_or_def)
  moreover have "GetLibrary S k (mvStore m') = Inr (lib\<lparr>lItemCount := int (length items), lScannedAt := now\<rparr>)"
    using GetLibrary_ref [OF post(1), of k] post(2) by (simp add: lookup_or_def)
  ultimately show ?thesis using x by (simp add: ItemStream_def rejected_def)
qed

end

lemma scanned_within:
  assumes "mfLstat (meFs env) (lPath lib) = Some (NDir es)" "IsAbs (lPath lib)" "entries_ok es"
    "scan_items env m lib = Inr (items, files)" "x \<in> set items" "mPath x \<noteq> []"
  shows "withinRoot (lPath lib) (mPath x)"
proof -
  from assms(4) obtain scanned where s: "Scan (meFs env) lib = Inr scanned" "map mPath items = map mPath scanned"
    by (rule scan_items_path)
  have "mPath x \<in> set (map mPath scanned)" using assms(5) unfolding s(2) [symmetric] by simp
  then have "mPath x \<in> mPath ` set scanned \<and> mPath x \<noteq> []" using assms(6) by simp
  then obtain rest i where r: "holds_file (NDir es) rest (Some i)" "mPath x = path_of (lPath lib) rest"
    unfolding Scan_exact [OF assms(1-3) s(1)] by blast
  have pl: "\<forall>e \<in> set rest. plain e" using holds_file_plain [OF r(1)] assms(3) by simp
  have "rest \<noteq> []" using r(1) by auto
  with path_of_elements [OF assms(2) pl] pl show ?thesis unfolding r(2) by (blast intro: withinRoot_plain [OF assms(2)])
qed

section \<open>Sorting and paging\<close>

lemma insert_by_mset: "mset (insert_by lt x ys) = add_mset x (mset ys)"
  by (induction ys) simp_all

lemma SliceStable_mset [simp]: "mset (SliceStable lt xs) = mset xs"
  unfolding SliceStable_def by (induction xs) (simp_all add: insert_by_mset)

lemma SliceStable_set [simp]: "set (SliceStable lt xs) = set xs"
  using SliceStable_mset [of lt xs] by (metis set_mset_mset)

lemma SliceStable_length [simp]: "length (SliceStable lt xs) = length xs"
  using SliceStable_mset [of lt xs] by (metis size_mset)

text \<open>For a strict weak order: no element comes before one that is less.\<close>

lemma insert_by_sorted:
  assumes "\<And>a b. lt a b \<Longrightarrow> \<not> lt b a" "\<And>a b c. \<not> lt b a \<Longrightarrow> \<not> lt c b \<Longrightarrow> \<not> lt c a"
  shows "sorted_wrt (\<lambda>a b. \<not> lt b a) ys \<Longrightarrow> sorted_wrt (\<lambda>a b. \<not> lt b a) (insert_by lt x ys)"
proof (induction ys)
  case (Cons y ys)
  have set_ins: "set (insert_by lt x ys) = insert x (set ys)"
    using insert_by_mset [of lt x ys] by (metis set_mset_add_mset_insert set_mset_mset)
  show ?case
  proof (cases "lt y x")
    case True
    then show ?thesis using Cons assms(1) by (auto simp: set_ins)
  next
    case False
    then show ?thesis using Cons.prems assms(2) by auto
  qed
qed simp

lemma SliceStable_sorted:
  assumes "\<And>a b. lt a b \<Longrightarrow> \<not> lt b a" "\<And>a b c. \<not> lt b a \<Longrightarrow> \<not> lt c b \<Longrightarrow> \<not> lt c a"
  shows "sorted_wrt (\<lambda>a b. \<not> lt b a) (SliceStable lt xs)"
  unfolding SliceStable_def by (induction xs) (simp_all add: insert_by_sorted [OF assms])

lemma item_less_asym: "item_less by1 a b \<Longrightarrow> \<not> item_less by1 b a"
  by (auto simp: item_less_def Before_def split: if_splits)

lemma item_less_trans: "\<not> item_less by1 b a \<Longrightarrow> \<not> item_less by1 c b \<Longrightarrow> \<not> item_less by1 c a"
  by (auto simp: item_less_def Before_def split: if_splits)

definition comes_before :: "BrowseQuery \<Rightarrow> MediaItem \<Rightarrow> MediaItem \<Rightarrow> bool" where
  "comes_before q a b \<longleftrightarrow> (if bqSortDescending q then item_less (bqSortBy q) b a else item_less (bqSortBy q) a b)"

lemma sortItems_sorted:
  "sorted_wrt (\<lambda>a b. \<not> comes_before q b a) (sortItems (bqSortBy q) (bqSortDescending q) items)"
  unfolding sortItems_def comes_before_def
proof (rule SliceStable_sorted)
  fix a b c
  let ?lt = "\<lambda>a b. if bqSortDescending q then item_less (bqSortBy q) b a else item_less (bqSortBy q) a b"
  show "?lt a b \<Longrightarrow> \<not> ?lt b a" by (auto dest: item_less_asym split: if_splits)
  show "\<not> ?lt b a \<Longrightarrow> \<not> ?lt c b \<Longrightarrow> \<not> ?lt c a" by (cases "bqSortDescending q") (auto dest: item_less_trans)
qed

lemma page_chunk: "0 < n \<Longrightarrow> page (int (i * n)) (int n) xs = take n (drop (i * n) xs)"
  by (auto simp: page_def Let_def simp del: of_nat_mult)

lemma concat_slice_chunks: "concat (map (\<lambda>i. take n (drop (i * n) xs)) [0..<c]) = take (c * n) xs"
proof (induction c)
  case (Suc c)
  have "take (Suc c * n) xs = take (c * n) xs @ take n (drop (c * n) xs)"
    by (metis take_add mult_Suc add.commute)
  then show ?case using Suc by simp
qed simp

section \<open>Subtitles\<close>

lemma vtt_loop_chars: "list_all2 (\<lambda>a b. b = a \<or> a = CHR '','' \<and> b = CHR ''.'') s (vtt_loop n s)"
  by (induction n s rule: vtt_loop.induct) auto

lemma vtt_line_chars: "list_all2 (\<lambda>a b. b = a \<or> a = CHR '','' \<and> b = CHR ''.'') (line @ [CHR 0x0A]) (vtt_line line)"
proof -
  have "list_all2 (\<lambda>a b. b = a \<or> a = CHR '','' \<and> b = CHR ''.'') line line" by (simp add: list_all2_same)
  then show ?thesis unfolding vtt_line_def vttTimestamp_def using vtt_loop_chars [of line 0] by (auto intro: list_all2_appendI)
qed

definition timestamp :: "string \<Rightarrow> bool" where
  "timestamp t \<longleftrightarrow> length t = 12 \<and> timestamp_at t"

lemma timestamp_at_append: "timestamp t \<Longrightarrow> timestamp_at (t @ s)"
  by (auto simp: timestamp_def timestamp_at_def nth_append)

lemma timestamp_not_digit: "\<not> timestamp_at (c # s)" if "\<not> is_digit c"
  using that by (simp add: timestamp_at_def)

lemma timestamp_commas: "timestamp t \<Longrightarrow> i < 12 \<Longrightarrow> t ! i = CHR '','' \<Longrightarrow> i = 8"
proof -
  assume t: "timestamp t" and i: "i < 12" "t ! i = CHR '',''"
  have "i \<in> {0, 1, 2, 3, 4, 5, 6, 7, 8, 9, 10, 11}" using i(1) by (simp add: less_Suc_eq numeral_eq_Suc)
  then show "i = 8" using t i(2) by (auto simp: timestamp_def timestamp_at_def is_digit_def)
qed

lemma vtt_loop_skip: "length s = n \<Longrightarrow> vtt_loop n (s @ r) = map (\<lambda>c. if c = CHR '','' then CHR ''.'' else c) s @ vtt_loop 0 r"
  by (induction s arbitrary: n) auto

lemma vtt_loop_timestamp:
  assumes "timestamp t"
  shows "vtt_loop 0 (t @ r) = t[8 := CHR ''.''] @ vtt_loop 0 r"
proof -
  have len: "length t = 12" using assms by (simp add: timestamp_def)
  obtain c cs where t: "t = c # cs" "length cs = 11" using len by (cases t) auto
  have d: "is_digit c" using assms by (simp add: timestamp_def timestamp_at_def t)
  have "vtt_loop 0 (t @ r) = c # vtt_loop 11 (cs @ r)"
    using timestamp_at_append [OF assms, of r] by (simp add: t)
  also have "\<dots> = map (\<lambda>c. if c = CHR '','' then CHR ''.'' else c) t @ vtt_loop 0 r"
    using d by (simp add: vtt_loop_skip [OF t(2)] t(1) is_digit_def) auto
  also have "map (\<lambda>c. if c = CHR '','' then CHR ''.'' else c) t = t[8 := CHR ''.'']"
  proof (rule nth_equalityI)
    fix i assume i: "i < length (map (\<lambda>c. if c = CHR '','' then CHR ''.'' else c) t)"
    then have "i < 12" using len by simp
    have "t ! 8 = CHR '',''" using assms by (simp add: timestamp_def timestamp_at_def)
    then show "map (\<lambda>c. if c = CHR '','' then CHR ''.'' else c) t ! i = t[8 := CHR ''.''] ! i"
      using timestamp_commas [OF assms \<open>i < 12\<close>] i len by (cases "i = 8") auto
  qed simp
  finally show ?thesis .
qed

lemma vtt_loop_other: "\<not> is_digit c \<Longrightarrow> vtt_loop 0 (c # r) = c # vtt_loop 0 r"
  by (simp add: timestamp_not_digit)

end
