(* ===== verification/MediaProps.thy ===== *)
theory MediaProps
  imports MediaProofs StoreProps
begin

text \<open>The properties of the media service, over the JSON store where a store is needed.\<close>

section \<open>Scans\<close>

definition tree0 :: "(string \<times> fsnode) list" where
  "tree0 = [(''.x'', NDir [(''b.mkv'', NFile (Some (1, 2)))]), (''a.mkv'', NFile (Some (7, 100))), (''l.mkv'', NLink)]"

definition fs0 :: mediaFs where
  "fs0 = \<lparr>mfLstat = (\<lambda>p. if p = ''/m'' then Some (NDir tree0) else None), mfListing = (\<lambda>_. None),
     mfStat = (\<lambda>_. None), mfExts = (\<lambda>_ _. [])\<rparr>"

definition env1 :: mediaEnv where
  "env1 = \<lparr>meFs = fs0, meGet = (\<lambda>_. None), meCreate = (\<lambda>_. False), meCwd = None\<rparr>"

definition lib0 :: Library where
  "lib0 = \<lparr>lID = ''L'', lName = ''M'', lType = ''movies'', lPath = ''/m'', lItemCount = 0, lCreatedAt = 5, lScannedAt = 0\<rparr>"

definition file0 :: scannedFile where
  "file0 = \<lparr>sfPath = ''/m/a.mkv'', sfRelParts = [''a.mkv''], sfKind = ''Video'', sfContainer = ''mkv'', sfSize = 7, sfModTime = 100\<rparr>"

definition media0 :: "jsonStore media" where
  "media0 = media_New (json0\<lparr>jLibraries := [(''L'', lib0)]\<rparr>)"

lemma collect0: "collectFiles fs0 ''/m'' = Inr [file0]"
  by code_simp

lemma tree0_ok: "entries_ok tree0"
  by code_simp

lemma lstat0: "mfLstat (meFs env1) ''/m'' = Some (NDir tree0)"
  by (simp add: env1_def fs0_def)

text \<open>C31. A scan of a library of series or of music yields a closed hierarchy: every item belongs to the
  library, every episode (track) has its season (album) in the result and every season (album) its
  series (artist), and each folder's \<open>ChildCount\<close> is the number of its children.\<close>

theorem scan_hierarchy:
  assumes "Scan fs lib = Inr items"
    and "(lType lib, t1, t2, t3) \<in> {(''tvshows'', ''Series'', ''Season'', ''Episode''), (''music'', ''MusicArtist'', ''MusicAlbum'', ''Audio'')}"
  shows "closed_under_parents (lID lib) t1 t2 t3 items"
  by (rule Scan_closed) (fact assms)+

lemma scan_hierarchy_witness:
  "closed_under_parents ''L'' ''Series'' ''Season'' ''Episode'' (sortItemsStable (buildEpisodes fs0 (lib0\<lparr>lType := ''tvshows''\<rparr>) [file0]))"
proof -
  have "Scan fs0 (lib0\<lparr>lType := ''tvshows''\<rparr>) = Inr (sortItemsStable (buildEpisodes fs0 (lib0\<lparr>lType := ''tvshows''\<rparr>) [file0]))"
    using collect0 by (simp add: Scan_def lib0_def)
  from scan_hierarchy [OF this, of "''Series''" "''Season''" "''Episode''"] show ?thesis by (simp add: lib0_def)
qed

text \<open>C9. After a scan over the JSON store that succeeds, every media file that is visible below the
  library (no hidden name, no symbolic link on the way) is the source of some item, and every item of
  the library that has a file is served for direct play with exactly that path.\<close>

theorem scan_then_stream:
  assumes "json_inv (mvStore m)" "map_get (jLibraries (mvStore m)) k = Some lib"
    and "mfLstat (meFs env) (lPath lib) = Some (NDir es)" "IsAbs (lPath lib)" "entries_ok es"
    and "scan_items env m lib = Inr (items, files)" "items_ok k items (json_abs (mvStore m))"
    and "ScanLibrary json_store env now k m = (None, m')"
  shows "(\<forall>rest i. holds_file (NDir es) rest (Some i) \<and> (\<forall>e \<in> set rest. \<not> hidden e) \<and>
        fst (mediaKind (path_of (lPath lib) rest)) \<noteq> [] \<longrightarrow>
        (\<exists>j s. ItemStream json_store j m' = Inr s \<and> stPath s = path_of (lPath lib) rest)) \<and>
    (\<forall>j it. map_get (jItems (mvStore m')) j = Some it \<and> mLibraryID it = k \<and> mPath it \<noteq> [] \<longrightarrow>
        (\<exists>s. ItemStream json_store j m' = Inr s \<and> stPath s = mPath it))"
proof -
  have lib: "aLibraries (json_abs (mvStore m)) k = Some lib" using assms(2) by simp
  note scan = assms(1) lib assms(6,7,8)
  have serve: "\<exists>s. ItemStream json_store (mID x) m' = Inr s \<and> stPath s = mPath x" if "x \<in> set items" "mPath x \<noteq> []" for x
    using json_libraries.ScanLibrary_serves [OF scan that scanned_within [OF assms(3-6) that]] by simp
  have "\<exists>j s. ItemStream json_store j m' = Inr s \<and> stPath s = path_of (lPath lib) rest"
    if h: "holds_file (NDir es) rest (Some i)" "\<forall>e \<in> set rest. \<not> hidden e" "fst (mediaKind (path_of (lPath lib) rest)) \<noteq> []" for rest i
  proof -
    obtain scanned where s: "Scan (meFs env) lib = Inr scanned" "map mPath items = map mPath scanned"
      using assms(6) by (rule scan_items_path)
    have "path_of (lPath lib) rest \<in> mPath ` set scanned \<and> path_of (lPath lib) rest \<noteq> []"
      unfolding Scan_exact [OF assms(3-5) s(1)] using h by blast
    then have "path_of (lPath lib) rest \<in> set (map mPath items)" unfolding s(2) by simp
    then obtain x where "x \<in> set items" "mPath x = path_of (lPath lib) rest" by auto
    with serve [of x] \<open>_ \<and> path_of (lPath lib) rest \<noteq> []\<close> show ?thesis by metis
  qed
  moreover have "\<exists>s. ItemStream json_store j m' = Inr s \<and> stPath s = mPath it"
    if "map_get (jItems (mvStore m')) j = Some it" "mLibraryID it = k" "mPath it \<noteq> []" for j it
  proof -
    from that(1,2) obtain x where "x \<in> set items" "mID x = j" "it = x\<lparr>mLibraryID := k\<rparr>"
      using json_libraries.ScanLibrary_lists [OF scan, of j it] by auto
    with serve [of x] that(3) show ?thesis by simp
  qed
  ultimately show ?thesis by blast
qed

lemma scan0: "scan_items env1 media0 lib0 = Inr ([flat_item fs0 lib0 file0], [])"
proof -
  have "Scan fs0 lib0 = Inr [flat_item fs0 lib0 file0]"
    using collect0 by (simp add: Scan_def lib0_def sortItemsStable_def buildFlat_def)
  then show ?thesis by (simp add: scan_items_def env1_def media0_def media_New_def)
qed

lemma no_nul_hash: "no_nul (hashID s)"
  using set_hex_encode [of "take 16 (sha256 s)"] by (auto simp: no_nul_def hashID_def NUL_def hex_alphabet_def)

lemma items0_ok: "items_ok ''L'' [flat_item fs0 lib0 file0] (json_abs (mvStore media0))"
  by (simp add: items_ok_def flat_item_def lib0_def file0_def no_nul_hash itemID_def media0_def media_New_def json0_def
      no_nul_def [of "''L''"] NUL_def split: prod.splits)

lemma media0_inv: "json_inv (mvStore media0)"
  by (simp add: media0_def media_New_def json_inv_def json0_def map_wf_def keyed_def)

lemma scan_then_stream_witness:
  "\<exists>j s. ItemStream json_store j (snd (ScanLibrary json_store env1 9 ''L'' media0)) = Inr s \<and> stPath s = ''/m/a.mkv''"
proof -
  have l: "map_get (jLibraries (mvStore media0)) ''L'' = Some lib0" by (simp add: media0_def media_New_def)
  have p: "lPath lib0 = ''/m''" by (simp add: lib0_def)
  have "fst (ScanLibrary json_store env1 9 ''L'' media0) = None"
    using scan0 by (simp add: ScanLibrary_def media0_def media_New_def json_GetLibrary_def get_or_def json_ReplaceLibraryItems_def
        flushLocked_def json0_def Let_def)
  then have s: "ScanLibrary json_store env1 9 ''L'' media0 = (None, snd (ScanLibrary json_store env1 9 ''L'' media0))"
    by (metis prod.collapse)
  have a: "IsAbs (lPath lib0)" by (simp add: p IsAbs_def HasPrefix_def)
  have h: "holds_file (NDir tree0) [''a.mkv''] (Some (7, 100))" by (simp add: tree0_def)
  have k: "path_of ''/m'' [''a.mkv''] = ''/m/a.mkv''" by code_simp
  have f: "fst (mediaKind ''/m/a.mkv'') \<noteq> []" "\<not> hidden ''a.mkv''" by code_simp+
  from scan_then_stream [OF media0_inv l _ a tree0_ok scan0 items0_ok s] lstat0 h k f show ?thesis
    unfolding p by (metis empty_iff empty_set set_ConsD)
qed

text \<open>C33. When the root of a library cannot be read (an unmounted disk), a scan over the JSON store reports
  success and leaves the library without a single item.\<close>

theorem unreadable_root_clears_library:
  assumes "json_inv (mvStore m)" "map_get (jLibraries (mvStore m)) k = Some lib" "no_nul k"
    and "mfLstat (meFs env) (lPath lib) = None" "jEnv (mvStore m) = []"
  shows "\<exists>m'. ScanLibrary json_store env now k m = (None, m') \<and>
    (\<forall>j it. map_get (jItems (mvStore m')) j = Some it \<longrightarrow> mLibraryID it \<noteq> k)"
proof -
  have "Scan (meFs env) lib = Inr []"
    using assms(4) by (simp add: Scan_def collectFiles_def buildEpisodes_def buildTracks_def buildFlat_def
        finish_hierarchy_def emptyHierarchy_def map_vals_def sortItemsStable_def)
  then have scan: "scan_items env m lib = Inr ([], mvFiles m)"
    by (simp add: scan_items_def probeItems_def split: option.splits)
  obtain m' where m': "ScanLibrary json_store env now k m = (None, m')"
    using scan assms(2,5) by (simp add: ScanLibrary_def json_GetLibrary_def get_or_def json_ReplaceLibraryItems_def flushLocked_def Let_def)
  have "items_ok k [] (json_abs (mvStore m))" using assms(3) by (simp add: items_ok_def)
  moreover have "aLibraries (json_abs (mvStore m)) k = Some lib" using assms(2) by simp
  ultimately have "map_get (jItems (mvStore m')) j = Some it \<Longrightarrow> mLibraryID it \<noteq> k" for j it
    using json_libraries.ScanLibrary_lists [OF assms(1) _ scan _ m', of j it] by auto
  with m' show ?thesis by blast
qed

lemma unreadable_root_clears_library_witness:
  "\<exists>m'. ScanLibrary json_store (env1\<lparr>meFs := fs0\<lparr>mfLstat := \<lambda>_. None\<rparr>\<rparr>) 9 ''L'' media0 = (None, m') \<and>
    (\<forall>j it. map_get (jItems (mvStore m')) j = Some it \<longrightarrow> mLibraryID it \<noteq> ''L'')"
  by (rule unreadable_root_clears_library [OF media0_inv, of _ lib0])
    (simp_all add: media0_def media_New_def json0_def no_nul_def NUL_def)

section \<open>Files behind items\<close>

text \<open>C10. While the library of an item is known, every path the service gives out for it lies below the
  library's root: the stream, the subtitles, the source of an embedded subtitle, and, unless it is in the
  artwork cache, the image. The store may hold any path.\<close>

theorem item_files_confined:
  assumes "GetItem S k (mvStore m) = Inr it" "GetLibrary S (mLibraryID it) (mvStore m) = Inr lib" "IsAbs (lPath lib)"
  shows "(\<forall>s. ItemStream S k m = Inr s \<longrightarrow> below (lPath lib) (stPath s)) \<and>
    (\<forall>i t. ItemSubtitle S k i m = Inr t \<longrightarrow> below (lPath lib) (bPath t)) \<and>
    (\<forall>i p. EmbeddedSubtitleInput S k i m = Inr p \<longrightarrow> below (lPath lib) p) \<and>
    (\<forall>ty im. ItemImage S k ty m = Inr im \<longrightarrow>
       below (lPath lib) (imPath im) \<or> mvMetaCache m \<noteq> [] \<and> withinRoot (mvMetaCache m) (imPath im))"
proof (intro conjI allI impI)
  fix s assume "ItemStream S k m = Inr s"
  then show "below (lPath lib) (stPath s)"
    using assms withinRoot_below [OF _ assms(3)] by (auto simp: ItemStream_def rejected_def split: if_splits)
next
  fix i t assume "ItemSubtitle S k i m = Inr t"
  then show "below (lPath lib) (bPath t)"
    using assms withinRoot_below [OF _ assms(3)] by (auto simp: ItemSubtitle_def rejected_def Let_def split: if_splits)
next
  fix i p assume "EmbeddedSubtitleInput S k i m = Inr p"
  then show "below (lPath lib) p"
    using assms withinRoot_below [OF _ assms(3)] by (auto simp: EmbeddedSubtitleInput_def rejected_def split: if_splits)
next
  fix ty im assume "ItemImage S k ty m = Inr im"
  then show "below (lPath lib) (imPath im) \<or> mvMetaCache m \<noteq> [] \<and> withinRoot (mvMetaCache m) (imPath im)"
    using assms withinRoot_below [OF _ assms(3)]
    by (auto simp: ItemImage_def imagePathAllowed_def Let_def split: if_splits)
qed

definition evil :: MediaItem where
  "evil = emptyItem\<lparr>mID := ''e'', mLibraryID := ''L'', mPath := ''/m/../etc/passwd'', mPrimaryImagePath := ''/etc/passwd''\<rparr>"

definition movie :: MediaItem where
  "movie = emptyItem\<lparr>mID := ''v'', mLibraryID := ''L'', mPath := ''/m/a.mkv'', mContainer := ''mkv''\<rparr>"

definition media1 :: "jsonStore media" where
  "media1 = media0\<lparr>mvStore := (mvStore media0)\<lparr>jItems := [(''e'', evil), (''v'', movie)]\<rparr>\<rparr>"

lemma item_files_confined_witness:
  "ItemStream json_store ''e'' media1 = Inl ErrNotFound \<and>
   (\<exists>s. ItemStream json_store ''v'' media1 = Inr s \<and> below ''/m'' (stPath s))"
proof -
  have e: "ItemStream json_store ''e'' media1 = Inl ErrNotFound" by code_simp
  have s: "case ItemStream json_store ''v'' media1 of Inr _ \<Rightarrow> True | Inl _ \<Rightarrow> False" by code_simp
  have g: "GetItem json_store ''v'' (mvStore media1) = Inr movie" "GetLibrary json_store (mLibraryID movie) (mvStore media1) = Inr lib0"
    by (simp_all add: media1_def media0_def media_New_def json_GetItem_def json_GetLibrary_def get_or_def movie_def emptyItem_def)
  have a: "IsAbs (lPath lib0)" by (simp add: lib0_def IsAbs_def HasPrefix_def)
  from item_files_confined [OF g a] s e show ?thesis by (auto simp: lib0_def split: sum.splits)
qed

text \<open>C34. When the library of an item is not in the store, direct play serves whatever path the item has,
  while the image of the same item is refused.\<close>

theorem stream_fails_open:
  assumes "map_get (jItems (mvStore m)) k = Some it" "map_get (jLibraries (mvStore m)) (mLibraryID it) = None"
    and "mPath it \<noteq> []" "mvMetaCache m = []"
  shows "(\<exists>s. ItemStream json_store k m = Inr s \<and> stPath s = mPath it) \<and>
    (\<forall>ty. ItemImage json_store k ty m = Inl (ErrNoImage))"
  using assms by (auto simp: ItemStream_def ItemImage_def imagePathAllowed_def rejected_def json_GetItem_def json_GetLibrary_def
      get_or_def Let_def)

lemma stream_fails_open_witness:
  "\<exists>s. ItemStream json_store ''e'' (media1\<lparr>mvStore := (mvStore media1)\<lparr>jLibraries := []\<rparr>\<rparr>) = Inr s \<and>
     stPath s = ''/m/../etc/passwd''"
  using stream_fails_open [of "media1\<lparr>mvStore := (mvStore media1)\<lparr>jLibraries := []\<rparr>\<rparr>" "''e''" evil]
  by (simp add: media1_def media0_def media_New_def evil_def emptyItem_def)

section \<open>Browsing\<close>


definition query0 :: BrowseQuery where
  "query0 = \<lparr>bqParentID = [], bqIncludeItemTypes = [], bqRecursive = True, bqSearchTerm = [], bqSortBy = ''Name'',
     bqSortDescending = False, bqStartIndex = 0, bqLimit = 0\<rparr>"


section \<open>Subtitles\<close>

text \<open>The WebVTT text made of a SubRip file is the header and the lines of the file, changed in no
  character but commas that became periods, and in a line \<open>t1 --> t2\<close> of two time stamps exactly the two
  decimal commas change.\<close>

theorem srt_to_vtt:
  "(\<exists>body. SRTToVTT srt = ''WEBVTT'' @ [CHR 0x0A, CHR 0x0A] @ concat body \<and>
      list_all2 (\<lambda>line out. list_all2 (\<lambda>a b. b = a \<or> a = CHR '','' \<and> b = CHR ''.'') (line @ [CHR 0x0A]) out \<and>
         (\<not> Contains line ''-->'' \<longrightarrow> out = line @ [CHR 0x0A])) (Split (unix_text srt) (CHR 0x0A)) body) \<and>
   (timestamp t1 \<longrightarrow> timestamp t2 \<longrightarrow>
      vttTimestamp (t1 @ '' --> '' @ t2) = t1[8 := CHR ''.''] @ '' --> '' @ t2[8 := CHR ''.''])"
proof (intro conjI impI)
  show "\<exists>body. SRTToVTT srt = ''WEBVTT'' @ [CHR 0x0A, CHR 0x0A] @ concat body \<and>
      list_all2 (\<lambda>line out. list_all2 (\<lambda>a b. b = a \<or> a = CHR '','' \<and> b = CHR ''.'') (line @ [CHR 0x0A]) out \<and>
         (\<not> Contains line ''-->'' \<longrightarrow> out = line @ [CHR 0x0A])) (Split (unix_text srt) (CHR 0x0A)) body"
    by (rule exI [of _ "map vtt_line (Split (unix_text srt) (CHR 0x0A))"])
      (simp add: SRTToVTT_def list_all2_map2 list_all2_same vtt_line_chars, simp add: vtt_line_def)
next
  assume t: "timestamp t1" "timestamp t2"
  have "\<not> is_digit (CHR '' '')" "\<not> is_digit (CHR ''-'')" "\<not> is_digit (CHR ''>'')" by (simp_all add: is_digit_def)
  then show "vttTimestamp (t1 @ '' --> '' @ t2) = t1[8 := CHR ''.''] @ '' --> '' @ t2[8 := CHR ''.'']"
    using vtt_loop_timestamp [OF t(1), of "'' --> '' @ t2"] vtt_loop_timestamp [OF t(2), of "[]"]
    by (simp add: vttTimestamp_def timestamp_not_digit)
qed

lemma srt_to_vtt_witness:
  "vttTimestamp ''00:00:01,000 --> 00:00:04,500'' = ''00:00:01.000 --> 00:00:04.500''"
proof -
  have "timestamp ''00:00:01,000''" "timestamp ''00:00:04,500''" by code_simp+
  from srt_to_vtt [of "[]" "''00:00:01,000''" "''00:00:04,500''"] this show ?thesis by simp
qed

end
