(* ===== verification/Config.thy ===== *)
theory Config
  imports Paths Numbers LiveTvService
begin

text \<open>
  \<open>internal/config/config.go\<close>: the configuration read from the environment. \<open>lookup\<close> is \<open>os.LookupEnv\<close>;
  \<open>sysEnv\<close> holds what the system answers.
\<close>

record sysEnv =
  syLookup :: "string \<Rightarrow> string option"
  syUserConfigDir :: "string option"
  syHostname :: "string option"
  syGetwd :: "string option"

record Config =
  cfBindAddress :: string
  cfDataDir :: string
  cfStoreBackend :: string
  cfDatabaseURL :: string
  cfMediaDir :: string
  cfServerName :: string
  cfPublicBaseURL :: string
  cfAdminUsername :: string
  cfAdminPassword :: string
  cfTrustedProxies :: bool
  cfFFmpegPath :: string
  cfFFprobePath :: string
  cfTMDbAPIKey :: string
  cfTMDbBaseURL :: string
  cfTMDbImageBase :: string
  cfTLSCertFile :: string
  cfTLSKeyFile :: string
  cfAuditLogFile :: string
  cfLockoutThreshold :: int
  cfLockoutDuration :: duration
  cfIPTVPlaylist :: string
  cfIPTVGuide :: string
  cfIPTVRefresh :: duration
  cfIPTVAliases :: string

definition env :: "sysEnv \<Rightarrow> string \<Rightarrow> string \<Rightarrow> string" where
  "env sy key def = (case syLookup sy key of Some v \<Rightarrow> v | None \<Rightarrow> def)"

definition envInt :: "sysEnv \<Rightarrow> string \<Rightarrow> int \<Rightarrow> int" where
  "envInt sy key def =
     (case syLookup sy key of
        None \<Rightarrow> def
      | Some v \<Rightarrow> (case Atoi (TrimSpace v) of (n, None) \<Rightarrow> n | (_, Some e) \<Rightarrow> def))"

text \<open>\<open>ParseBool\<close> fails on what is neither true nor false to it.\<close>

definition bool_error :: "string \<Rightarrow> bool" where
  "bool_error s \<longleftrightarrow> \<not> ParseBool s \<and> s \<notin> {''0'', ''f'', ''F'', ''FALSE'', ''false'', ''False''}"

definition envBool :: "sysEnv \<Rightarrow> string \<Rightarrow> bool \<Rightarrow> bool" where
  "envBool sy key def =
     (case syLookup sy key of
        None \<Rightarrow> def
      | Some v \<Rightarrow> if bool_error (TrimSpace v) then def else ParseBool (TrimSpace v))"

definition defaultDataDir :: "sysEnv \<Rightarrow> string" where
  "defaultDataDir sy =
     (case syUserConfigDir sy of Some d \<Rightarrow> JoinPath [d, ''cubozoa''] | None \<Rightarrow> JoinPath [''.'', ''cubozoa-data''])"

definition defaultServerName :: "sysEnv \<Rightarrow> string" where
  "defaultServerName sy =
     (case syHostname sy of Some h \<Rightarrow> if h \<noteq> [] then h else ''Cubozoa'' | None \<Rightarrow> ''Cubozoa'')"

text \<open>\<open>strings.TrimRight(s, "/")\<close> and \<open>filepath.Abs\<close>.\<close>

definition TrimRightSlash :: "string \<Rightarrow> string" where
  "TrimRightSlash s = rev (dropWhile (\<lambda>c. c = CHR ''/'') (rev s))"

definition sysAbs :: "sysEnv \<Rightarrow> string \<Rightarrow> string option" where
  "sysAbs sy p = (if IsAbs p then Some (Clean p) else map_option (\<lambda>wd. JoinPath [wd, p]) (syGetwd sy))"

text \<open>The literal of \<open>Load\<close>, then its checks.\<close>

definition raw_config :: "sysEnv \<Rightarrow> Config" where
  "raw_config sy =
     \<lparr>cfBindAddress = env sy ''CUBOZOA_BIND_ADDRESS'' '':8096'',
      cfDataDir = env sy ''CUBOZOA_DATA_DIR'' (defaultDataDir sy),
      cfStoreBackend = ToLower (env sy ''CUBOZOA_STORE'' ''bolt''),
      cfDatabaseURL = env sy ''CUBOZOA_DATABASE_URL'' [],
      cfMediaDir = env sy ''CUBOZOA_MEDIA_DIR'' [],
      cfServerName = env sy ''CUBOZOA_SERVER_NAME'' (defaultServerName sy),
      cfPublicBaseURL = TrimRightSlash (env sy ''CUBOZOA_PUBLIC_BASE_URL'' []),
      cfAdminUsername = env sy ''CUBOZOA_ADMIN_USERNAME'' ''admin'',
      cfAdminPassword = env sy ''CUBOZOA_ADMIN_PASSWORD'' [],
      cfTrustedProxies = envBool sy ''CUBOZOA_TRUST_PROXY_HEADERS'' False,
      cfFFmpegPath = env sy ''CUBOZOA_FFMPEG_PATH'' [],
      cfFFprobePath = env sy ''CUBOZOA_FFPROBE_PATH'' [],
      cfTMDbAPIKey = env sy ''CUBOZOA_TMDB_API_KEY'' [],
      cfTMDbBaseURL = env sy ''CUBOZOA_TMDB_BASE_URL'' [],
      cfTMDbImageBase = env sy ''CUBOZOA_TMDB_IMAGE_BASE'' [],
      cfTLSCertFile = env sy ''CUBOZOA_TLS_CERT_FILE'' [],
      cfTLSKeyFile = env sy ''CUBOZOA_TLS_KEY_FILE'' [],
      cfAuditLogFile = env sy ''CUBOZOA_AUDIT_LOG_FILE'' [],
      cfLockoutThreshold = envInt sy ''CUBOZOA_LOCKOUT_THRESHOLD'' 5,
      cfLockoutDuration = wrap64 (envInt sy ''CUBOZOA_LOCKOUT_MINUTES'' 15 * Minute),
      cfIPTVPlaylist = env sy ''CUBOZOA_IPTV_M3U'' [],
      cfIPTVGuide = env sy ''CUBOZOA_IPTV_EPG'' [],
      cfIPTVRefresh = wrap64 (envInt sy ''CUBOZOA_IPTV_REFRESH_HOURS'' 12 * Hour),
      cfIPTVAliases = env sy ''CUBOZOA_IPTV_EPG_ALIASES'' []\<rparr>"

definition Load :: "sysEnv \<Rightarrow> err + Config" where
  "Load sy =
     (let c = raw_config sy in
      if cfAdminUsername c = [] then Inl (ErrMsg ''config: CUBOZOA_ADMIN_USERNAME must not be empty'')
      else if (cfTLSCertFile c = []) \<noteq> (cfTLSKeyFile c = [])
      then Inl (ErrMsg ''config: CUBOZOA_TLS_CERT_FILE and CUBOZOA_TLS_KEY_FILE must be set together'')
      else if cfStoreBackend c = ''postgres'' \<and> cfDatabaseURL c = []
      then Inl (ErrMsg ''config: CUBOZOA_STORE=postgres requires CUBOZOA_DATABASE_URL'')
      else if cfStoreBackend c \<notin> {''bolt'', ''json'', ''postgres''}
      then Inl (ErrMsg ''config: CUBOZOA_STORE must be bolt, json or postgres'')
      else case sysAbs sy (cfDataDir c) of
        None \<Rightarrow> Inl (ErrIO ''config: resolving data dir'')
      | Some ap \<Rightarrow>
          let c1 = c\<lparr>cfDataDir := ap\<rparr>
          in Inr (if cfMediaDir c1 \<noteq> [] then
                    (case sysAbs sy (cfMediaDir c1) of None \<Rightarrow> c1 | Some mp \<Rightarrow> c1\<lparr>cfMediaDir := mp\<rparr>)
                  else c1))"

section \<open>What a loaded configuration is\<close>

definition config_ok :: "Config \<Rightarrow> bool" where
  "config_ok c \<longleftrightarrow> cfAdminUsername c \<noteq> [] \<and> (cfTLSCertFile c = [] \<longleftrightarrow> cfTLSKeyFile c = []) \<and>
     cfStoreBackend c \<in> {''bolt'', ''json'', ''postgres''} \<and> (cfStoreBackend c = ''postgres'' \<longrightarrow> cfDatabaseURL c \<noteq> []) \<and>
     IsAbs (cfDataDir c) \<and> Clean (cfDataDir c) = cfDataDir c \<and>
     - (2 ^ 63) \<le> cfLockoutDuration c \<and> cfLockoutDuration c < 2 ^ 63 \<and>
     - (2 ^ 63) \<le> cfIPTVRefresh c \<and> cfIPTVRefresh c < 2 ^ 63"

lemma Clean_Clean: "IsAbs p \<Longrightarrow> Clean (Clean p) = Clean p"
proof -
  assume p: "IsAbs p"
  then have "Clean p = slash # Join (elements p) ''/''" by (simp add: Clean_def)
  moreover have "Clean (Clean p) = slash # Join (elements p) ''/''"
    using elements_Clean [OF p] by (subst Clean_def) simp
  ultimately show ?thesis by simp
qed

lemma JoinPath_abs:
  assumes "IsAbs wd"
  shows "\<exists>q. IsAbs q \<and> JoinPath [wd, p] = Clean q"
proof -
  have "wd \<noteq> []" using assms by (auto simp: IsAbs_def HasPrefix_def)
  moreover from this have "IsAbs (wd @ t)" for t using assms by (cases wd) (simp_all add: IsAbs_Cons)
  ultimately show ?thesis using assms by (cases "p = []") (auto simp: JoinPath_def)
qed

lemma sysAbs_ok:
  assumes "sysAbs sy p = Some q" "\<forall>wd. syGetwd sy = Some wd \<longrightarrow> IsAbs wd"
  shows "IsAbs q \<and> Clean q = q"
proof -
  obtain r where "IsAbs r" "q = Clean r"
    using assms JoinPath_abs by (fastforce simp: sysAbs_def split: if_splits)
  then show ?thesis using Clean_Clean elements_Clean by simp
qed

lemma Load_result:
  assumes "Load sy = Inr c"
  obtains ap m where "sysAbs sy (cfDataDir (raw_config sy)) = Some ap" "c = (raw_config sy)\<lparr>cfDataDir := ap, cfMediaDir := m\<rparr>"
    "if cfMediaDir (raw_config sy) = [] then m = []
     else m = cfMediaDir (raw_config sy) \<and> sysAbs sy m = None \<or> sysAbs sy (cfMediaDir (raw_config sy)) = Some m"
    "cfAdminUsername c \<noteq> []" "(cfTLSCertFile c = []) = (cfTLSKeyFile c = [])" "cfStoreBackend c \<in> {''bolt'', ''json'', ''postgres''}"
    "cfStoreBackend c = ''postgres'' \<longrightarrow> cfDatabaseURL c \<noteq> []"
proof -
  let ?r = "raw_config sy"
  define m where "m = (if cfMediaDir ?r = [] then [] else case sysAbs sy (cfMediaDir ?r) of None \<Rightarrow> cfMediaDir ?r | Some mp \<Rightarrow> mp)"
  from assms obtain ap where ap: "sysAbs sy (cfDataDir ?r) = Some ap" and c: "c = ?r\<lparr>cfDataDir := ap, cfMediaDir := m\<rparr>"
    and checks: "cfAdminUsername ?r \<noteq> []" "(cfTLSCertFile ?r = []) = (cfTLSKeyFile ?r = [])"
      "cfStoreBackend ?r \<in> {''bolt'', ''json'', ''postgres''}" "cfStoreBackend ?r = ''postgres'' \<longrightarrow> cfDatabaseURL ?r \<noteq> []"
    by (auto simp: Load_def Let_def m_def split: if_splits option.splits)
  show ?thesis by (rule that [OF ap c]) (use checks in \<open>auto simp: c m_def split: option.splits\<close>)
qed

end
