(* ===== verification/Wire.thy ===== *)
theory Wire
  imports Models
begin

text \<open>
  The records of package \<open>internal/jellyfin\<close> that go over the wire (\<open>items.go\<close>, \<open>types.go\<close>,
  \<open>livetv.go\<close>, \<open>playback.go\<close>), field by field, each Go name behind letters for its struct. A pointer is an
  option, a rating the bit pattern of its \<open>float64\<close>, a date the text the code formats. \<open>BaseItemDto\<close> holds an
  optional \<open>BaseItemDto\<close>, the program on the air of a channel, which holds none itself; so the
  type of that field is a parameter of \<open>ItemDto\<close>.
\<close>

section \<open>Items\<close>

record UserItemDataDto =
  uiPlaybackPositionTicks :: int
  uiPlayCount :: int
  uiIsFavorite :: bool
  uiPlayed :: bool
  uiKey :: string

record 'p ItemDto =
  biName :: string
  biServerID :: string
  biID :: string
  biType :: string
  biIsFolder :: bool
  biCollectionType :: string
  biMediaType :: string
  biParentID :: string
  biProductionYear :: int
  biRunTimeTicks :: int
  biContainer :: string
  biSortName :: string
  biDateCreated :: string
  biChildCount :: int
  biLocationType :: string
  biSeriesID :: string
  biSeriesName :: string
  biSeasonID :: string
  biIndexNumber :: int
  biParentIndexNumber :: int
  biAlbum :: string
  biAlbumID :: string
  biAlbumArtist :: string
  biArtists :: "string list"
  biNumber :: string
  biChannelType :: string
  biChannelID :: string
  biStartDate :: string
  biEndDate :: string
  biOverview :: string
  biCommunityRating :: "64 word"
  biGenres :: "string list"
  biImageTags :: "string gomap"
  biBackdropImageTags :: "string list"
  biUserData :: "UserItemDataDto option"
  biCurrentProgram :: "'p option"

type_synonym ProgramDto = "unit ItemDto"
type_synonym BaseItemDto = "ProgramDto ItemDto"

record VirtualFolderInfo =
  vfName :: string
  vfItemID :: string
  vfCollectionType :: string
  vfLocations :: "string list"

section \<open>Accounts and the server\<close>

record PublicSystemInfo =
  psLocalAddress :: string
  psServerName :: string
  psVersion :: string
  psProductName :: string
  psOperatingSystem :: string
  psID :: string
  psStartupWizardCompleted :: bool

record SystemInfo =
  syLocalAddress :: string
  syServerName :: string
  syVersion :: string
  syProductName :: string
  syOperatingSystem :: string
  syOperatingSystemDisplayName :: string
  syID :: string
  syStartupWizardCompleted :: bool
  syPackageName :: string
  syHasPendingRestart :: bool
  syIsShuttingDown :: bool
  sySupportsLibraryMonitor :: bool
  syHasUpdateAvailable :: bool
  syCanSelfRestart :: bool
  syCanLaunchWebBrowser :: bool
  syWebSocketPortNumber :: int

record AuthenticateRequest =
  arUsername :: string
  arPw :: string

record UserConfiguration =
  ucPlayDefaultAudioTrack :: bool
  ucDisplayMissingEpisodes :: bool
  ucSubtitleMode :: string
  ucEnableNextEpisodeAutoPlay :: bool
  ucOrderedViews :: "string list"
  ucLatestItemsExcludes :: "string list"
  ucMyMediaExcludes :: "string list"
  ucGroupedFolders :: "string list"

record UserPolicy =
  upIsAdministrator :: bool
  upIsHidden :: bool
  upIsDisabled :: bool
  upEnableUserPreferenceAccess :: bool
  upEnableRemoteAccess :: bool
  upEnableMediaPlayback :: bool
  upEnableAudioPlaybackTranscoding :: bool
  upEnableVideoPlaybackTranscoding :: bool
  upEnableContentDownloading :: bool
  upEnableAllFolders :: bool
  upEnabledFolders :: "string list"
  upEnableAllDevices :: bool
  upAuthenticationProviderID :: string
  upPasswordResetProviderID :: string
  upSyncPlayAccess :: string

record UserDto =
  utName :: string
  utServerID :: string
  utID :: string
  utHasPassword :: bool
  utHasConfiguredPassword :: bool
  utHasConfiguredEasyPassword :: bool
  utEnableAutoLogin :: bool
  utLastLoginDate :: string
  utLastActivityDate :: string
  utConfiguration :: UserConfiguration
  utPolicy :: UserPolicy

record SessionInfoDto =
  seID :: string
  seUserID :: string
  seUserName :: string
  seClient :: string
  seDeviceName :: string
  seDeviceID :: string
  seApplicationVersion :: string
  seServerID :: string
  seSupportsRemoteControl :: bool
  sePlayableMediaTypes :: "string list"
  seLastActivityDate :: string

record AuthenticationResult =
  atUser :: UserDto
  atSessionInfo :: SessionInfoDto
  atAccessToken :: string
  atServerID :: string

record BrandingOptions =
  brLoginDisclaimer :: string
  brCustomCss :: string
  brSplashscreenEnabled :: bool

record 'i QueryResult =
  qrItems :: "'i list"
  qrTotalRecordCount :: int
  qrStartIndex :: int

section \<open>Live TV and timers\<close>

record LiveTvServiceInfo =
  lsName :: string
  lsIsVisible :: bool
  lsHasUpdateAvailable :: bool
  lsStatus :: string

record LiveTvInfo =
  ltIsEnabled :: bool
  ltEnabledUsers :: "string list"
  ltServices :: "LiveTvServiceInfo list"

record GuideInfo =
  giStartDate :: string
  giEndDate :: string

record TimerInfoDto =
  tiID :: string
  tiType :: string
  tiServerID :: string
  tiChannelID :: string
  tiProgramID :: string
  tiName :: string
  tiStartDate :: string
  tiEndDate :: string
  tiStatus :: string

record CreateTimerRequest =
  ctChannelID :: string
  ctProgramID :: string
  ctName :: string
  ctStartDate :: string
  ctEndDate :: string

record SeriesTimerInfoDto =
  srID :: string
  srType :: string
  srServerID :: string
  srChannelID :: string
  srChannelName :: string
  srName :: string
  srRecordAnyChannel :: bool
  srRecordAnyTime :: bool

record CreateSeriesTimerRequest =
  csChannelID :: string
  csProgramID :: string
  csName :: string
  csRecordAnyChannel :: bool

section \<open>Playback\<close>

record MediaStream =
  mstType :: string
  mstIndex :: int
  mstCodec :: string
  mstLanguage :: string
  mstChannels :: int
  mstWidth :: int
  mstHeight :: int
  mstTitle :: string
  mstIsDefault :: bool
  mstIsForced :: bool
  mstIsExternal :: bool
  mstIsTextSubtitleStream :: bool
  mstDeliveryMethod :: string
  mstDeliveryURL :: string
  mstDisplayTitle :: string

record MediaSourceInfo =
  soProtocol :: string
  soID :: string
  soName :: string
  soIsRemote :: bool
  soContainer :: string
  soSize :: int
  soRunTimeTicks :: int
  soSupportsDirectPlay :: bool
  soSupportsDirectStream :: bool
  soSupportsTranscoding :: bool
  soMediaStreams :: "MediaStream list"
  soRequiresOpening :: bool
  soRequiresClosing :: bool
  soTranscodingURL :: string
  soTranscodingSubProtocol :: string
  soTranscodingContainer :: string
  soIsInfiniteStream :: bool

record PlaybackInfoResponse =
  prMediaSources :: "MediaSourceInfo list"
  prPlaySessionID :: string

record PlaybackProgressInfo =
  ppItemID :: string
  ppMediaSourceID :: string
  ppPlaySessionID :: string
  ppPositionTicks :: int
  ppIsPaused :: bool

end
