(* ===== verification/Http.thy ===== *)
theory Http
  imports Paths Numbers
begin

text \<open>
  What the server uses of \<open>net/http\<close>: requests, responses, and the choice of a handler by
  \<open>ServeMux\<close>. The path of a request is the decoded one; it is one whose default encoding is what the client
  sent (no encoded slash), so that matching encoded segments and matching decoded ones agree. A header or a
  query is given by the first value of each key, which is all that \<open>Get\<close> reads.
\<close>

section \<open>Requests and responses\<close>

record request =
  rqMethod :: string
  rqPath :: string
  rqQuery :: "string gomap"
  rqHeader :: "string gomap"
  rqHost :: string
  rqTLS :: bool
  rqRemoteAddr :: string
  rqBody :: string

definition get_value :: "string gomap \<Rightarrow> string \<Rightarrow> string" where
  "get_value m k = (case map_get m k of None \<Rightarrow> [] | Some v \<Rightarrow> v)"

definition QueryGet :: "request \<Rightarrow> string \<Rightarrow> string" where
  "QueryGet r k = get_value (rqQuery r) k"

definition HeaderGet :: "request \<Rightarrow> string \<Rightarrow> string" where
  "HeaderGet r k = get_value (rqHeader r) k"

record 'b response =
  rsStatus :: int
  rsHeader :: "string gomap"
  rsBody :: 'b

section \<open>Patterns\<close>

datatype segment = Lit string | Wild string

text \<open>\<open>/Users/{id}/Views\<close> is \<open>[Lit ''Users'', Wild ''id'', Lit ''Views'']\<close>.\<close>

definition parse_segment :: "string \<Rightarrow> segment" where
  "parse_segment s = (if HasPrefix s ''{'' then Wild (butlast (drop 1 s)) else Lit s)"

definition parse_pattern :: "string \<Rightarrow> segment list" where
  "parse_pattern p = map parse_segment (Split (drop 1 p) (CHR ''/''))"

text \<open>The segments of a path; a slash at the end is a segment of its own.\<close>

definition path_segments :: "string \<Rightarrow> string list" where
  "path_segments p =
     (let parts = Split (drop 1 p) (CHR ''/'')
      in if last parts = [] then butlast parts @ [''/''] else parts)"

text \<open>The patterns that go on after a literal or a wildcard segment.\<close>

fun after_lit :: "string \<Rightarrow> segment list \<times> 'h \<Rightarrow> (segment list \<times> 'h) option" where
  "after_lit s (Lit l # ps, h) = (if l = s then Some (ps, h) else None)"
| "after_lit s _ = None"

fun after_wild :: "segment list \<times> 'h \<Rightarrow> (segment list \<times> 'h) option" where
  "after_wild (Wild w # ps, h) = Some (ps, h)"
| "after_wild _ = None"

text \<open>The descent through the tree of patterns: literals first, with backtracking. The result is
  the pattern's value and the segments its wildcards matched.\<close>

fun match_path :: "(segment list \<times> 'h) list \<Rightarrow> string list \<Rightarrow> ('h \<times> string list) option" where
  "match_path rs [] = map_option (\<lambda>r. (snd r, [])) (find (\<lambda>r. fst r = []) rs)"
| "match_path rs (s # ss) =
     (case match_path (List.map_filter (after_lit s) rs) ss of
        Some x \<Rightarrow> Some x
      | None \<Rightarrow>
          if s = ''/'' then None
          else map_option (\<lambda>(h, vs). (h, s # vs)) (match_path (List.map_filter after_wild rs) ss))"

record 'h route =
  rtMethod :: string
  rtPattern :: string
  rtValue :: 'h

definition routes_of :: "'h route list \<Rightarrow> string \<Rightarrow> (segment list \<times> 'h route) list" where
  "routes_of rts meth = map (\<lambda>r. (parse_pattern (rtPattern r), r)) (filter (\<lambda>r. rtMethod r = meth) rts)"

definition match_method :: "'h route list \<Rightarrow> string \<Rightarrow> string \<Rightarrow> ('h route \<times> string list) option" where
  "match_method rts meth path =
     (case match_path (routes_of rts meth) (path_segments path) of
        Some x \<Rightarrow> Some x
      | None \<Rightarrow> if meth = ''HEAD'' then match_path (routes_of rts ''GET'') (path_segments path) else None)"

text \<open>\<open>cleanPath\<close>.\<close>

definition clean_path :: "string \<Rightarrow> string" where
  "clean_path p =
     (if p = [] then ''/''
      else let p1 = (if hd p \<noteq> CHR ''/'' then CHR ''/'' # p else p); np = Clean p1
           in if last p1 = CHR ''/'' \<and> np \<noteq> ''/'' then np @ ''/'' else np)"

text \<open>What \<open>findHandler\<close> answers, for patterns without a host and without a slash at the end.\<close>

datatype 'h found_route =
    Matched "'h route" "string gomap"
  | Redirect string
  | MethodNotAllowed "string list"
  | NoRoute

fun wild_names :: "segment list \<Rightarrow> string list" where
  "wild_names [] = []"
| "wild_names (Lit l # ps) = wild_names ps"
| "wild_names (Wild w # ps) = w # wild_names ps"

definition allowed_methods :: "'h route list \<Rightarrow> string \<Rightarrow> string list" where
  "allowed_methods rts path =
     (let ms = remdups (map rtMethod (filter (\<lambda>r. match_path (routes_of rts (rtMethod r)) (path_segments path) \<noteq> None) rts))
      in sort (if ''GET'' \<in> set ms \<and> ''HEAD'' \<notin> set ms then ''HEAD'' # ms else ms))"

definition find_handler :: "'h route list \<Rightarrow> string \<Rightarrow> string \<Rightarrow> 'h found_route" where
  "find_handler rts meth path =
     (let cleaned = (if meth = ''CONNECT'' then path else clean_path path)
      in if cleaned \<noteq> path then Redirect cleaned
         else case match_method rts meth path of
           Some (r, vals) \<Rightarrow> Matched r (zip (wild_names (parse_pattern (rtPattern r))) vals)
         | None \<Rightarrow>
             let ms = allowed_methods rts path in if ms \<noteq> [] then MethodNotAllowed ms else NoRoute)"

section \<open>What a match says\<close>

text \<open>Whether a pattern matches segments, and what its wildcards take.\<close>

fun seg_match :: "segment list \<Rightarrow> string list \<Rightarrow> string list option" where
  "seg_match [] [] = Some []"
| "seg_match (Lit l # ps) (s # ss) = (if l = s then seg_match ps ss else None)"
| "seg_match (Wild w # ps) (s # ss) = (if s = ''/'' then None else map_option ((#) s) (seg_match ps ss))"
| "seg_match _ _ = None"

lemma after_lit_in: "(ps, h) \<in> set (List.map_filter (after_lit s) rs) \<longleftrightarrow> (Lit s # ps, h) \<in> set rs"
proof -
  have "after_lit s x = Some (ps, h) \<longleftrightarrow> x = (Lit s # ps, h)" for x
    by (cases "(s, x)" rule: after_lit.cases) auto
  then show ?thesis by (auto simp: set_map_filter)
qed

lemma after_wild_in: "(ps, h) \<in> set (List.map_filter after_wild rs) \<longleftrightarrow> (\<exists>w. (Wild w # ps, h) \<in> set rs)"
proof -
  have "after_wild x = Some (ps, h) \<longleftrightarrow> (\<exists>w. x = (Wild w # ps, h))" for x
    by (cases x rule: after_wild.cases) auto
  then show ?thesis by (force simp: set_map_filter)
qed

lemma match_path_sound:
  "match_path rs ss = Some (h, vs) \<Longrightarrow> \<exists>ps. (ps, h) \<in> set rs \<and> seg_match ps ss = Some vs"
proof (induction rs ss arbitrary: vs rule: match_path.induct)
  case (1 rs)
  then obtain r where "find (\<lambda>r. fst r = []) rs = Some r" "h = snd r" "vs = []" by auto
  then have "([], h) \<in> set rs" by (auto simp: find_Some_iff) (metis nth_mem prod.collapse)
  then show ?case using \<open>vs = []\<close> by (intro exI [of _ "[]"]) simp
next
  case (2 rs s ss)
  show ?case
  proof (cases "match_path (List.map_filter (after_lit s) rs) ss")
    case (Some x)
    with 2 have "\<exists>ps. (ps, h) \<in> set (List.map_filter (after_lit s) rs) \<and> seg_match ps ss = Some vs" by simp
    then obtain ps where "(Lit s # ps, h) \<in> set rs" "seg_match ps ss = Some vs" by (auto simp: after_lit_in)
    then show ?thesis by (intro exI [of _ "Lit s # ps"]) simp
  next
    case None
    with "2.prems" obtain ws where w: "s \<noteq> ''/''" "match_path (List.map_filter after_wild rs) ss = Some (h, ws)" "vs = s # ws"
      by (auto split: if_splits)
    from "2.IH"(2) [OF None w(1,2)] obtain ps w' where "(Wild w' # ps, h) \<in> set rs" "seg_match ps ss = Some ws"
      by (auto simp: after_wild_in)
    then show ?thesis using w(1,3) by (intro exI [of _ "Wild w' # ps"]) simp
  qed
qed

lemma match_path_complete:
  "(ps, h) \<in> set rs \<Longrightarrow> seg_match ps ss = Some vs \<Longrightarrow> match_path rs ss \<noteq> None"
proof (induction rs ss arbitrary: ps vs rule: match_path.induct)
  case (1 rs)
  then show ?case by (cases ps; cases "hd ps") (auto simp: find_None_iff)
next
  case (2 rs s ss)
  show ?case
  proof (cases ps)
    case (Cons p ps')
    show ?thesis
    proof (cases p)
      case (Lit l)
      with 2 Cons have "(ps', h) \<in> set (List.map_filter (after_lit s) rs)" "seg_match ps' ss \<noteq> None"
        by (auto simp: after_lit_in split: if_splits)
      with "2.IH"(1) [of ps'] show ?thesis by auto
    next
      case (Wild w)
      with "2.prems" Cons have g: "s \<noteq> ''/''" "(ps', h) \<in> set (List.map_filter after_wild rs)" "seg_match ps' ss \<noteq> None"
        by (auto simp: after_wild_in split: if_splits)
      show ?thesis
      proof (cases "match_path (List.map_filter (after_lit s) rs) ss")
        case None
        from g(3) obtain ws where "seg_match ps' ss = Some ws" by auto
        with "2.IH"(2) [OF None g(1) g(2)] None g(1) show ?thesis by auto
      qed simp
    qed
  qed (use "2.prems" in simp)
qed

lemma match_method_sound:
  assumes "match_method rts meth path = Some (r, vs)"
  shows "r \<in> set rts \<and> (rtMethod r = meth \<or> meth = ''HEAD'' \<and> rtMethod r = ''GET'') \<and>
    seg_match (parse_pattern (rtPattern r)) (path_segments path) = Some vs"
proof -
  have *: "r \<in> set rts \<and> rtMethod r = me \<and> seg_match (parse_pattern (rtPattern r)) (path_segments path) = Some vs"
    if "match_path (routes_of rts me) (path_segments path) = Some (r, vs)" for me
    using match_path_sound [OF that] by (auto simp: routes_of_def)
  show ?thesis using assms *[of meth] *[of "''GET''"] by (auto simp: match_method_def split: option.splits if_splits)
qed

lemma find_handler_sound:
  assumes "find_handler rts meth path = Matched r pv"
  shows "r \<in> set rts \<and> (rtMethod r = meth \<or> meth = ''HEAD'' \<and> rtMethod r = ''GET'')"
  using assms match_method_sound [of rts meth path r]
  by (auto simp: find_handler_def Let_def split: if_splits option.splits)

text \<open>A request that some pattern of its method matches reaches a handler.\<close>

lemma find_handler_complete:
  assumes "r \<in> set rts" "seg_match (parse_pattern (rtPattern r)) (path_segments path) = Some vs"
    "clean_path path = path"
  shows "\<exists>r' pv. find_handler rts (rtMethod r) path = Matched r' pv"
proof -
  have "(parse_pattern (rtPattern r), r) \<in> set (routes_of rts (rtMethod r))" using assms(1) by (auto simp: routes_of_def)
  from match_path_complete [OF this assms(2)] obtain x where "match_path (routes_of rts (rtMethod r)) (path_segments path) = Some x"
    by auto
  then have "match_method rts (rtMethod r) path = Some x" by (simp add: match_method_def)
  moreover obtain r' vs' where "x = (r', vs')" by (cases x)
  ultimately show ?thesis using assms(3) by (simp add: find_handler_def Let_def)
qed

end
