(* ===== verification/AuthHeader.thy ===== *)
theory AuthHeader
  imports Http
begin

text \<open>
  \<open>internal/jellyfin/authheader.go\<close>: the client metadata and the access token of a request. The header is valid
  UTF-8, so walking its runes and walking its bytes find the same quotes and commas.
\<close>

record ClientAuth =
  caToken :: string
  caClient :: string
  caDevice :: string
  caDeviceID :: string
  caVersion :: string

definition emptyAuth :: ClientAuth where
  "emptyAuth = \<lparr>caToken = [], caClient = [], caDevice = [], caDeviceID = [], caVersion = []\<rparr>"

fun split_params_loop :: "bool \<Rightarrow> string \<Rightarrow> string \<Rightarrow> string list" where
  "split_params_loop inQuotes b [] = (if b = [] then [] else [b])"
| "split_params_loop inQuotes b (c # cs) =
     (if c = CHR 0x22 then split_params_loop (\<not> inQuotes) (b @ [c]) cs
      else if c = CHR '','' \<and> \<not> inQuotes then b # split_params_loop inQuotes [] cs
      else split_params_loop inQuotes (b @ [c]) cs)"

definition splitParams :: "string \<Rightarrow> string list" where
  "splitParams s = split_params_loop False [] s"

text \<open>\<open>strings.Cut\<close> at a byte.\<close>

definition Cut :: "string \<Rightarrow> char \<Rightarrow> (string \<times> string) option" where
  "Cut s c = (case IndexByte s c of None \<Rightarrow> None | Some i \<Rightarrow> Some (take i s, drop (i + 1) s))"

definition strip_scheme :: "string \<Rightarrow> string" where
  "strip_scheme header =
     (case IndexByte header (CHR '' '') of
        None \<Rightarrow> header
      | Some i \<Rightarrow>
          let scheme = ToLower (TrimSpace (take i header))
          in if scheme = ''mediabrowser'' \<or> scheme = ''emby'' then drop (i + 1) header else header)"

definition set_param :: "string \<Rightarrow> ClientAuth \<Rightarrow> ClientAuth" where
  "set_param part ca =
     (case Cut part (CHR ''='') of
        None \<Rightarrow> ca
      | Some (key0, value0) \<Rightarrow>
          let key = ToLower (TrimSpace key0); val = Trim (TrimSpace value0) [CHR 0x22]
          in if key = ''token'' then ca\<lparr>caToken := val\<rparr>
             else if key = ''client'' then ca\<lparr>caClient := val\<rparr>
             else if key = ''device'' then ca\<lparr>caDevice := val\<rparr>
             else if key = ''deviceid'' then ca\<lparr>caDeviceID := val\<rparr>
             else if key = ''version'' then ca\<lparr>caVersion := val\<rparr>
             else ca)"

definition parseAuthGrammar :: "string \<Rightarrow> ClientAuth \<Rightarrow> ClientAuth" where
  "parseAuthGrammar header ca = fold set_param (splitParams (strip_scheme header)) ca"

definition ParseClientAuth :: "request \<Rightarrow> ClientAuth" where
  "ParseClientAuth r =
     (let header = (let h = HeaderGet r ''Authorization'' in if h = [] then HeaderGet r ''X-Emby-Authorization'' else h);
          ca = (if header \<noteq> [] then parseAuthGrammar header emptyAuth else emptyAuth)
      in if caToken ca = [] then
           (let t1 = HeaderGet r ''X-Emby-Token''; t2 = HeaderGet r ''X-Mediabrowser-Token''; t3 = QueryGet r ''api_key''
            in if t1 \<noteq> [] then ca\<lparr>caToken := t1\<rparr>
               else if t2 \<noteq> [] then ca\<lparr>caToken := t2\<rparr>
               else if t3 \<noteq> [] then ca\<lparr>caToken := t3\<rparr>
               else ca)
         else ca)"

section \<open>What a client writes\<close>

definition quoted :: "string \<Rightarrow> string" where
  "quoted s = CHR 0x22 # s @ [CHR 0x22]"

definition auth_header :: "ClientAuth \<Rightarrow> string" where
  "auth_header ca = ''MediaBrowser Client='' @ quoted (caClient ca) @ '', Device='' @ quoted (caDevice ca)
     @ '', DeviceId='' @ quoted (caDeviceID ca) @ '', Version='' @ quoted (caVersion ca) @ '', Token='' @ quoted (caToken ca)"

definition no_quotes :: "string \<Rightarrow> bool" where
  "no_quotes s \<longleftrightarrow> CHR 0x22 \<notin> set s"

lemma split_params_plain:
  "CHR 0x22 \<notin> set p \<Longrightarrow> CHR '','' \<notin> set p \<Longrightarrow> split_params_loop False b (p @ cs) = split_params_loop False (b @ p) cs"
  by (induction p arbitrary: b) auto

lemma split_params_inside:
  "CHR 0x22 \<notin> set p \<Longrightarrow> split_params_loop True b (p @ cs) = split_params_loop True (b @ p) cs"
  by (induction p arbitrary: b) auto

lemma split_params_quoted:
  "no_quotes v \<Longrightarrow> split_params_loop False b (quoted v @ cs) = split_params_loop False (b @ quoted v) cs"
  using split_params_inside [of v "b @ [CHR 0x22]" "CHR 0x22 # cs"] by (simp add: quoted_def no_quotes_def)

text \<open>A parameter, then a comma or the end.\<close>

lemma split_params_step:
  assumes "CHR 0x22 \<notin> set k" "CHR '','' \<notin> set k" "no_quotes v"
  shows "split_params_loop False [] (k @ quoted v @ CHR '','' # cs) = (k @ quoted v) # split_params_loop False [] cs"
    and "split_params_loop False [] (k @ quoted v) = [k @ quoted v]"
proof -
  have *: "split_params_loop False [] (k @ quoted v @ ds) = split_params_loop False (k @ quoted v) ds" for ds
    using split_params_plain [of k "[]" "quoted v @ ds"] split_params_quoted [of v k ds] assms by simp
  show "split_params_loop False [] (k @ quoted v @ CHR '','' # cs) = (k @ quoted v) # split_params_loop False [] cs"
    by (simp add: *)
  show "split_params_loop False [] (k @ quoted v) = [k @ quoted v]"
    using *[of "[]"] by (simp add: quoted_def)
qed

lemma splitParams_header:
  assumes "no_quotes c" "no_quotes d" "no_quotes i" "no_quotes v" "no_quotes t"
  shows "splitParams (''Client='' @ quoted c @ '', Device='' @ quoted d @ '', DeviceId='' @ quoted i @ '', Version='' @ quoted v @ '', Token='' @ quoted t)
    = [''Client='' @ quoted c, '' Device='' @ quoted d, '' DeviceId='' @ quoted i, '' Version='' @ quoted v, '' Token='' @ quoted t]"
  using assms split_params_step(1) [of "''Client=''" c "'' Device='' @ quoted d @ '', DeviceId='' @ quoted i @ '', Version='' @ quoted v @ '', Token='' @ quoted t"]
    split_params_step(1) [of "'' Device=''" d "'' DeviceId='' @ quoted i @ '', Version='' @ quoted v @ '', Token='' @ quoted t"]
    split_params_step(1) [of "'' DeviceId=''" i "'' Version='' @ quoted v @ '', Token='' @ quoted t"]
    split_params_step(1) [of "'' Version=''" v "'' Token='' @ quoted t"]
    split_params_step(2) [of "'' Token=''" t]
  by (simp add: splitParams_def)

lemma unquote:
  assumes "no_quotes v"
  shows "Trim (TrimSpace (quoted v)) [CHR 0x22] = v"
proof -
  have "TrimSpace (quoted v) = quoted v" by (simp add: TrimSpace_def Trim_def quoted_def spaces_def)
  moreover have "dropWhile (\<lambda>c. c = CHR 0x22) (v @ [CHR 0x22]) = (if v = [] then [] else v @ [CHR 0x22])"
    using assms by (cases v) (auto simp: no_quotes_def)
  moreover have "dropWhile (\<lambda>c. c = CHR 0x22) (CHR 0x22 # rev v) = rev v"
    using assms by (cases "rev v") (auto simp: no_quotes_def dest!: arg_cong [of "rev v" _ set])
  ultimately show ?thesis by (simp add: Trim_def quoted_def)
qed

lemma set_param_quoted:
  assumes "no_quotes v"
  shows "set_param (''Client='' @ quoted v) ca = ca\<lparr>caClient := v\<rparr>"
    "set_param ('' Device='' @ quoted v) ca = ca\<lparr>caDevice := v\<rparr>"
    "set_param ('' DeviceId='' @ quoted v) ca = ca\<lparr>caDeviceID := v\<rparr>"
    "set_param ('' Version='' @ quoted v) ca = ca\<lparr>caVersion := v\<rparr>"
    "set_param ('' Token='' @ quoted v) ca = ca\<lparr>caToken := v\<rparr>"
proof -
  have k: "ToLower (TrimSpace ''Client'') = ''client''" "ToLower (TrimSpace '' Device'') = ''device''"
    "ToLower (TrimSpace '' DeviceId'') = ''deviceid''" "ToLower (TrimSpace '' Version'') = ''version''"
    "ToLower (TrimSpace '' Token'') = ''token''" by code_simp+
  show "set_param (''Client='' @ quoted v) ca = ca\<lparr>caClient := v\<rparr>"
    "set_param ('' Device='' @ quoted v) ca = ca\<lparr>caDevice := v\<rparr>"
    "set_param ('' DeviceId='' @ quoted v) ca = ca\<lparr>caDeviceID := v\<rparr>"
    "set_param ('' Version='' @ quoted v) ca = ca\<lparr>caVersion := v\<rparr>"
    "set_param ('' Token='' @ quoted v) ca = ca\<lparr>caToken := v\<rparr>"
    by (simp_all add: set_param_def Cut_def k unquote [OF assms])
qed

lemma strip_mediabrowser: "strip_scheme (''MediaBrowser '' @ s) = s"
proof -
  have "IndexByte (''MediaBrowser '' @ s) (CHR '' '') = Some 12" by simp
  moreover have "ToLower (TrimSpace ''MediaBrowser'') = ''mediabrowser''" by code_simp
  ultimately show ?thesis by (simp add: strip_scheme_def)
qed

lemma parse_auth_header:
  assumes "no_quotes (caClient ca)" "no_quotes (caDevice ca)" "no_quotes (caDeviceID ca)" "no_quotes (caVersion ca)"
    "no_quotes (caToken ca)"
  shows "parseAuthGrammar (auth_header ca) ca0 = ca"
proof -
  let ?b = "''Client='' @ quoted (caClient ca) @ '', Device='' @ quoted (caDevice ca)
     @ '', DeviceId='' @ quoted (caDeviceID ca) @ '', Version='' @ quoted (caVersion ca) @ '', Token='' @ quoted (caToken ca)"
  have "auth_header ca = ''MediaBrowser '' @ ?b" by (simp add: auth_header_def)
  then have "parseAuthGrammar (auth_header ca) ca0 = fold set_param (splitParams ?b) ca0"
    unfolding parseAuthGrammar_def by (simp only: strip_mediabrowser)
  also have "\<dots> = ca" unfolding splitParams_header [OF assms] by (simp only: fold.simps set_param_quoted [OF assms(1)]
      set_param_quoted [OF assms(2)] set_param_quoted [OF assms(3)] set_param_quoted [OF assms(4)] set_param_quoted [OF assms(5)] comp_apply id_apply) simp
  finally show ?thesis .
qed

end
