(* ===== verification/RateLimit.thy ===== *)
theory RateLimit
  imports Numbers
begin

text \<open>
  \<open>internal/server/ratelimit.go\<close>: the token buckets that slow down guessing, in the arithmetic of
  \<open>float64\<close> (without fused multiply-add), and the address a request is counted under. A lock makes
  \<open>allow\<close> and a round of \<open>gc\<close> single steps; times are monotonic clock readings.
\<close>

record bucket =
  bkTokens :: rat
  bkLastSeen :: time

definition authRate :: rat where "authRate = fl64 (1 / 5)"
definition authBurst :: rat where "authBurst = 5"

text \<open>The tokens after a refill.\<close>

definition refill :: "time \<Rightarrow> bucket \<Rightarrow> rat" where
  "refill now b = min authBurst (fl64 (bkTokens b + fl64 (Seconds (TimeSub now (bkLastSeen b)) * authRate)))"

definition allow :: "time \<Rightarrow> string \<Rightarrow> bucket gomap \<Rightarrow> bool \<times> bucket gomap" where
  "allow now key bs =
     (case map_get bs key of
        None \<Rightarrow> (True, map_set key \<lparr>bkTokens = authBurst - 1, bkLastSeen = now\<rparr> bs)
      | Some b \<Rightarrow>
          let tokens = refill now b
          in if tokens < 1 then (False, map_set key \<lparr>bkTokens = tokens, bkLastSeen = now\<rparr> bs)
             else (True, map_set key \<lparr>bkTokens = fl64 (tokens - 1), bkLastSeen = now\<rparr> bs))"

text \<open>One round of \<open>gc\<close>.\<close>

definition gc_round :: "time \<Rightarrow> bucket gomap \<Rightarrow> bucket gomap" where
  "gc_round now bs = filter (\<lambda>(k, b). \<not> Before (bkLastSeen b) (now - 30 * Minute)) bs"

section \<open>Addresses\<close>

definition indexByte :: "string \<Rightarrow> char \<Rightarrow> int" where
  "indexByte s b = (case IndexByte s b of None \<Rightarrow> -1 | Some i \<Rightarrow> int i)"

definition trimSpace :: "string \<Rightarrow> string" where
  "trimSpace s = Trim s [CHR '' '', CHR 0x09]"

text \<open>The last index of a byte, and \<open>net.SplitHostPort\<close> (\<open>None\<close>: an error).\<close>

definition last_index :: "string \<Rightarrow> char \<Rightarrow> nat option" where
  "last_index s c = (if c \<in> set s then Some (length s - 1 - length (takeWhile (\<lambda>x. x \<noteq> c) (rev s))) else None)"

definition SplitHostPort :: "string \<Rightarrow> (string \<times> string) option" where
  "SplitHostPort hp =
     (case last_index hp (CHR '':'') of
        None \<Rightarrow> None
      | Some i \<Rightarrow>
          if hd hp = CHR ''['' then
            (case IndexByte hp (CHR '']'') of
               None \<Rightarrow> None
             | Some close \<Rightarrow>
                 if close + 1 \<noteq> i then None
                 else if CHR ''['' \<in> set (drop 1 hp) \<or> CHR '']'' \<in> set (drop (close + 1) hp) then None
                 else Some (take (close - 1) (drop 1 hp), drop (i + 1) hp))
          else if CHR '':'' \<in> set (take i hp) then None
          else if CHR ''['' \<in> set hp \<or> CHR '']'' \<in> set hp then None
          else Some (take i hp, drop (i + 1) hp))"

text \<open>The headers are given by their first values, empty where absent.\<close>

definition clientIP :: "bool \<Rightarrow> string \<Rightarrow> string \<Rightarrow> string \<Rightarrow> string" where
  "clientIP trustProxy xff xrip remoteAddr =
     (if trustProxy \<and> xff \<noteq> [] then
        (let i = indexByte xff (CHR '','') in if i \<ge> 0 then trimSpace (take (nat i) xff) else trimSpace xff)
      else if trustProxy \<and> xrip \<noteq> [] then trimSpace xrip
      else case SplitHostPort remoteAddr of None \<Rightarrow> remoteAddr | Some (host, _) \<Rightarrow> host)"

section \<open>What a bucket holds\<close>

definition delta :: rat where "delta = 1 / 2 ^ 53"

lemma delta_pos: "0 < delta" "delta < 1" by (simp_all add: delta_def)

lemma fl64_le: "0 \<le> x \<Longrightarrow> fl64 x \<le> x * (1 + delta)" and fl64_ge: "0 \<le> x \<Longrightarrow> x * (1 - delta) \<le> fl64 x"
  using fl64_error [of x] by (simp_all add: delta_def algebra_simps)

definition bucket_ok :: "bucket \<Rightarrow> bool" where
  "bucket_ok b \<longleftrightarrow> 0 \<le> bkTokens b \<and> bkTokens b \<le> authBurst"

lemma rate_bounds: "1 / 5 * (1 - delta) \<le> authRate" "authRate \<le> 1 / 5 * (1 + delta)" "0 \<le> authRate"
  unfolding authRate_def by (rule fl64_ge fl64_le fl64_nonneg; simp)+

lemma fl64_sum:
  assumes "0 \<le> q" "0 \<le> r"
  shows "0 \<le> fl64 (q + fl64 r) \<and> fl64 (q + fl64 r) \<le> (q + r) * (1 + delta) ^ 2 \<and> (q + r) * (1 - delta) ^ 2 \<le> fl64 (q + fl64 r)"
proof -
  have f: "fl64 r \<le> r * (1 + delta)" "r * (1 - delta) \<le> fl64 r" "0 \<le> fl64 r"
    using fl64_le fl64_ge fl64_nonneg assms(2) by simp_all
  have qd: "q \<le> q * (1 + delta)" "q * (1 - delta) \<le> q" using assms(1) delta_pos by (simp_all add: algebra_simps)
  have sum: "q + fl64 r \<le> (q + r) * (1 + delta)" "(q + r) * (1 - delta) \<le> q + fl64 r"
    using f qd by (simp_all add: algebra_simps)
  have b: "fl64 (q + fl64 r) \<le> (q + fl64 r) * (1 + delta)" "(q + fl64 r) * (1 - delta) \<le> fl64 (q + fl64 r)" "0 \<le> fl64 (q + fl64 r)"
    using assms(1) f(3) by (auto intro: fl64_le fl64_ge fl64_nonneg)
  have "(q + fl64 r) * (1 + delta) \<le> (q + r) * (1 + delta) * (1 + delta)"
    using sum(1) delta_pos by (intro mult_right_mono) simp_all
  moreover have "(q + r) * (1 - delta) * (1 - delta) \<le> (q + fl64 r) * (1 - delta)"
    using sum(2) delta_pos by (intro mult_right_mono) simp_all
  ultimately show ?thesis using b by (simp add: power2_eq_square mult.assoc)
qed

lemma Seconds_bounds:
  assumes "0 \<le> d"
  shows "0 \<le> Seconds d" "Seconds d \<le> of_int d / 1000000000 * (1 + delta) ^ 2" "of_int d / 1000000000 * (1 - delta) ^ 2 \<le> Seconds d"
proof -
  define q r where "q = (of_int (d div Second) :: rat)" and "r = (of_int (d mod Second) / 1000000000 :: rat)"
  have s: "Seconds d = (if d = 0 then 0 else fl64 (q + fl64 r))" using assms by (simp add: Seconds_def Let_def sgn_if q_def r_def)
  have q: "0 \<le> q" and r: "0 \<le> r" using assms by (simp_all add: Second_def q_def r_def pos_imp_zdiv_nonneg_iff)
  have "d = d div Second * 1000000000 + d mod Second" using div_mult_mod_eq [of d Second] by (simp add: Second_def)
  from arg_cong [OF this, of "of_int :: int \<Rightarrow> rat"]
  have "of_int d = (of_int (d div Second) :: rat) * 1000000000 + of_int (d mod Second)" by simp
  then have d: "of_int d / 1000000000 = q + r" by (simp add: q_def r_def)
  note b = fl64_sum [OF q r]
  show "0 \<le> Seconds d" using b s by simp
  show "Seconds d \<le> of_int d / 1000000000 * (1 + delta) ^ 2" unfolding d s using b q r by simp
  show "of_int d / 1000000000 * (1 - delta) ^ 2 \<le> Seconds d"
  proof (cases "d = 0")
    case False
    then show ?thesis unfolding d s using b by simp
  qed (simp add: Seconds_def)
qed

text \<open>A refill adds at most a fifth of a token per second, up to rounding.\<close>

definition slack :: rat where "slack = 1 / 2 ^ 50"

lemma power5: "(1 + delta) ^ 5 \<le> 1 + slack"
  by (simp add: delta_def slack_def power_def)

lemma refill_bounds:
  assumes "bucket_ok b" "bkLastSeen b \<le> now" "now - bkLastSeen b < 2 ^ 63"
  shows "0 \<le> refill now b" "refill now b \<le> 5"
    "refill now b \<le> bkTokens b + of_int (now - bkLastSeen b) / 5000000000 * (1 + slack) + slack"
proof -
  let ?d = "now - bkLastSeen b"
  define D where "D = (of_int ?d / 1000000000 :: rat)"
  have sub: "TimeSub now (bkLastSeen b) = ?d" using assms(2,3) by (simp add: TimeSub_def)
  have nn: "0 \<le> ?d" "0 \<le> D" using assms(2) by (simp_all add: D_def)
  note sec = Seconds_bounds [OF nn(1), folded D_def]
  let ?p = "Seconds ?d * authRate"
  have p0: "0 \<le> ?p" using sec(1) rate_bounds(3) by simp
  have "?p \<le> D * (1 + delta) ^ 2 * (1 / 5 * (1 + delta))"
    using sec(1,2) rate_bounds delta_pos nn by (intro mult_mono) simp_all
  also have "D * (1 + delta) ^ 2 * (1 / 5 * (1 + delta)) = D / 5 * (1 + delta) ^ 3" by (simp add: power2_eq_square power3_eq_cube)
  finally have p: "?p \<le> D / 5 * (1 + delta) ^ 3" .
  have t0: "0 \<le> bkTokens b" "bkTokens b \<le> 5" using assms(1) by (simp_all add: bucket_ok_def authBurst_def)
  have f: "fl64 ?p \<le> D / 5 * (1 + delta) ^ 4" "0 \<le> fl64 ?p"
  proof -
    have "fl64 ?p \<le> ?p * (1 + delta)" by (rule fl64_le [OF p0])
    also have "\<dots> \<le> D / 5 * (1 + delta) ^ 3 * (1 + delta)" using p delta_pos by (intro mult_right_mono) simp_all
    also have "\<dots> = D / 5 * (1 + delta) ^ 4" by (simp add: numeral_eq_Suc)
    finally show "fl64 ?p \<le> D / 5 * (1 + delta) ^ 4" .
    show "0 \<le> fl64 ?p" by (rule fl64_nonneg [OF p0])
  qed
  have r: "refill now b = min 5 (fl64 (bkTokens b + fl64 ?p))" by (simp add: refill_def sub authBurst_def)
  show "0 \<le> refill now b" unfolding r using fl64_nonneg t0 f by simp
  show "refill now b \<le> 5" unfolding r by simp
  have "refill now b \<le> (bkTokens b + fl64 ?p) * (1 + delta)"
    unfolding r using fl64_le [of "bkTokens b + fl64 ?p"] t0 f by simp
  also have "\<dots> \<le> (bkTokens b + D / 5 * (1 + delta) ^ 4) * (1 + delta)" using f delta_pos by (intro mult_right_mono) simp_all
  also have "\<dots> = bkTokens b + bkTokens b * delta + D / 5 * (1 + delta) ^ 5"
    by (simp add: distrib_left distrib_right numeral_eq_Suc)
  also have "\<dots> \<le> bkTokens b + slack + D / 5 * (1 + slack)"
  proof -
    have "bkTokens b * delta \<le> 5 * delta" using t0 delta_pos by (intro mult_right_mono) simp_all
    also have "\<dots> \<le> slack" by (simp add: delta_def slack_def)
    finally have "bkTokens b * delta \<le> slack" .
    moreover have "D / 5 * (1 + delta) ^ 5 \<le> D / 5 * (1 + slack)" using power5 nn by (intro mult_left_mono) simp_all
    ultimately show ?thesis by simp
  qed
  finally show "refill now b \<le> bkTokens b + of_int (now - bkLastSeen b) / 5000000000 * (1 + slack) + slack" by (simp add: D_def)
qed

text \<open>Half an hour fills any bucket.\<close>

lemma refill_full:
  assumes "bucket_ok b" "bkLastSeen b < now - 30 * Minute" "now - bkLastSeen b < 2 ^ 63"
  shows "refill now b = 5"
proof -
  let ?d = "now - bkLastSeen b"
  have sub: "TimeSub now (bkLastSeen b) = ?d" using assms(2,3) by (simp add: TimeSub_def Minute_def Second_def)
  have d: "1800000000000 \<le> ?d" using assms(2) by (simp add: Minute_def Second_def)
  have D: "(1800 :: rat) \<le> of_int ?d / 1000000000"
  proof -
    have "(of_int 1800000000000 :: rat) \<le> of_int ?d" using d by (simp only: of_int_le_iff)
    then show ?thesis by simp
  qed
  have "1800 * (1 - delta) ^ 2 \<le> of_int ?d / 1000000000 * (1 - delta) ^ 2" using D by (intro mult_right_mono) simp_all
  also have "\<dots> \<le> Seconds ?d" using Seconds_bounds(3) [of ?d] d by simp
  finally have "1800 * (1 - delta) ^ 2 \<le> Seconds ?d" .
  moreover have "(1700 :: rat) \<le> 1800 * (1 - delta) ^ 2" by (simp add: delta_def power2_eq_square)
  ultimately have s: "1700 \<le> Seconds ?d" by linarith
  have "(1 / 10 :: rat) \<le> 1 / 5 * (1 - delta)" by (simp add: delta_def)
  then have "(1 / 10 :: rat) \<le> authRate" using rate_bounds(1) by linarith
  then have "1700 * (1 / 10) \<le> Seconds ?d * authRate" using s by (intro mult_mono) simp_all
  then have "170 \<le> Seconds ?d * authRate" by simp
  from fl64_mono [OF _ this] have "170 \<le> fl64 (Seconds ?d * authRate)" using fl64_small_nat [of 170] by simp
  then have "170 \<le> bkTokens b + fl64 (Seconds ?d * authRate)" using assms(1) by (simp add: bucket_ok_def)
  from fl64_mono [OF _ this] have "170 \<le> fl64 (bkTokens b + fl64 (Seconds ?d * authRate))" using fl64_small_nat [of 170] by simp
  then show ?thesis by (simp add: refill_def sub authBurst_def)
qed

section \<open>What a key can spend\<close>

lemma fl64_dec: "1 \<le> x \<Longrightarrow> x \<le> 5 \<Longrightarrow> 0 \<le> fl64 (x - 1) \<and> fl64 (x - 1) \<le> 4 \<and> fl64 (x - 1) \<le> x - 1 + slack"
proof -
  assume x: "1 \<le> x" "x \<le> 5"
  have "fl64 (x - 1) \<le> fl64 (of_nat 4)" using x by (intro fl64_mono) simp_all
  also have "\<dots> = of_nat 4" by (rule fl64_small_nat) simp
  finally have "fl64 (x - 1) \<le> 4" by simp
  moreover have "fl64 (x - 1) \<le> (x - 1) * (1 + delta)" using x by (intro fl64_le) simp
  moreover have "(x - 1) * delta \<le> 4 * delta" using x delta_pos by (intro mult_right_mono) simp_all
  moreover have "4 * delta \<le> slack" by (simp add: delta_def slack_def)
  ultimately show ?thesis using fl64_nonneg [of "x - 1"] x by (simp add: algebra_simps)
qed

text \<open>The tokens of a key at a time, refilled at a fifth per second up to the burst; a key without a bucket has the
  burst.\<close>

definition worth :: "time \<Rightarrow> bucket option \<Rightarrow> rat" where
  "worth now ob = (case ob of None \<Rightarrow> 5
     | Some b \<Rightarrow> min 5 (bkTokens b + of_int (now - bkLastSeen b) / 5000000000 * (1 + slack)))"

definition bucket_by :: "time \<Rightarrow> bucket option \<Rightarrow> bool" where
  "bucket_by now ob \<longleftrightarrow> (case ob of None \<Rightarrow> True | Some b \<Rightarrow> bucket_ok b \<and> bkLastSeen b \<le> now)"

lemma worth_mono:
  assumes "t \<le> u"
  shows "worth u ob \<le> worth t ob + of_int (u - t) / 5000000000 * (1 + slack)"
proof (cases ob)
  case None
  then show ?thesis using assms by (simp add: worth_def slack_def)
next
  case (Some b)
  have "of_int (u - bkLastSeen b) / 5000000000 * (1 + slack) =
      of_int (t - bkLastSeen b) / 5000000000 * (1 + slack) + (of_int (u - t) / 5000000000 * (1 + slack) :: rat)"
    by (simp add: field_simps)
  moreover have "(0 :: rat) \<le> of_int (u - t) / 5000000000 * (1 + slack)" using assms by (simp add: slack_def)
  moreover have "min 5 (p + x) \<le> min 5 (p + y) + z" if "x = y + z" "0 \<le> z" for p x y z :: rat
    using that by (simp add: min_def)
  ultimately show ?thesis unfolding worth_def Some option.case by metis
qed

lemma worth_pos: "bucket_by now ob \<Longrightarrow> 0 \<le> worth now ob"
  by (auto simp: worth_def bucket_by_def bucket_ok_def slack_def split: option.splits)

lemma allow_other [simp]: "k \<noteq> key \<Longrightarrow> map_get (snd (allow now key bs)) k = map_get bs k"
  by (auto simp: allow_def Let_def split: option.splits)

text \<open>An attempt that goes ahead costs a token.\<close>

lemma allow_worth:
  assumes "bucket_by now (map_get bs key)" "\<And>b. map_get bs key = Some b \<Longrightarrow> now - bkLastSeen b < 2 ^ 63"
  shows "bucket_by now (map_get (snd (allow now key bs)) key) \<and>
    (if fst (allow now key bs) then 1 else 0) + worth now (map_get (snd (allow now key bs)) key) \<le> worth now (map_get bs key) + 2 * slack"
proof (cases "map_get bs key")
  case None
  then show ?thesis by (simp add: allow_def worth_def bucket_by_def bucket_ok_def authBurst_def slack_def)
next
  case (Some b)
  have b: "bucket_ok b" "bkLastSeen b \<le> now" "now - bkLastSeen b < 2 ^ 63" using assms Some by (auto simp: bucket_by_def)
  note r = refill_bounds [OF b]
  have s: "0 < slack" by (simp add: slack_def)
  have w: "refill now b \<le> worth now (Some b) + slack" using r s by (simp add: worth_def)
  show ?thesis
  proof (cases "refill now b < 1")
    case True
    with r s w Some show ?thesis by (auto simp: allow_def Let_def bucket_by_def bucket_ok_def authBurst_def worth_def)
  next
    case False
    have "0 \<le> fl64 (refill now b - 1) \<and> fl64 (refill now b - 1) \<le> 4 \<and> fl64 (refill now b - 1) \<le> refill now b - 1 + slack"
      using False r(2) by (intro fl64_dec) simp_all
    with False r s w Some show ?thesis by (auto simp: allow_def Let_def bucket_by_def bucket_ok_def authBurst_def worth_def)
  qed
qed

text \<open>A round of \<open>gc\<close> drops only buckets that are full again.\<close>

lemma map_get_gc: "map_wf bs \<Longrightarrow> map_get (gc_round now bs) k =
    (case map_get bs k of None \<Rightarrow> None | Some b \<Rightarrow> if Before (bkLastSeen b) (now - 30 * Minute) then None else Some b)"
  using map_of_filter_val [of bs "\<lambda>b. \<not> Before (bkLastSeen b) (now - 30 * Minute)"]
  by (auto simp: gc_round_def split: option.splits)

lemma worth_gc:
  assumes "map_wf bs" "bucket_by now (map_get bs key)"
  shows "bucket_by now (map_get (gc_round now bs) key) \<and> worth now (map_get (gc_round now bs) key) = worth now (map_get bs key)"
proof -
  have "5 \<le> bkTokens b + of_int (now - bkLastSeen b) / 5000000000 * (1 + slack)"
    if "bucket_ok b" "bkLastSeen b < now - 30 * Minute" for b
  proof -
    have "(of_int 1800000000000 :: rat) \<le> of_int (now - bkLastSeen b)"
      using that(2) unfolding of_int_le_iff by (simp add: Minute_def Second_def)
    then have "5 \<le> (of_int (now - bkLastSeen b) :: rat) / 5000000000" by simp
    also have "\<dots> \<le> \<dots> * (1 + slack)" using calculation by (simp add: slack_def)
    finally show ?thesis using that(1) add_mono [of 0 "bkTokens b" 5] by (simp add: bucket_ok_def)
  qed
  with assms show ?thesis by (auto simp: map_get_gc worth_def bucket_by_def Before_def split: option.splits)
qed

lemma map_wf_limiter [simp]: "map_wf bs \<Longrightarrow> map_wf (snd (allow now key bs))" "map_wf bs \<Longrightarrow> map_wf (gc_round now bs)"
  by (auto simp: allow_def gc_round_def Let_def split: option.splits)

text \<open>So an attempt cannot tell a dropped bucket from a kept one.\<close>

lemma allow_stale:
  assumes "map_get bs key = None" "map_get cs key = Some b" "bucket_ok b" "bkLastSeen b < now - 30 * Minute" "now - bkLastSeen b < 2 ^ 63"
  shows "fst (allow now key bs) = fst (allow now key cs)"
    "map_get (snd (allow now key bs)) key = map_get (snd (allow now key cs)) key"
  using assms refill_full [OF assms(3-5)] fl64_small_nat [of 4] by (simp_all add: allow_def Let_def authBurst_def)

section \<open>Runs of the limiter\<close>

datatype limiter_op = is_Attempt: Attempt time string | Collect time

fun op_time :: "limiter_op \<Rightarrow> time" where
  "op_time (Attempt t k) = t"
| "op_time (Collect t) = t"

text \<open>The answers to the attempts of a run.\<close>

fun answers :: "limiter_op list \<Rightarrow> bucket gomap \<Rightarrow> bool list" where
  "answers [] bs = []"
| "answers (Attempt t k # ops) bs = fst (allow t k bs) # answers ops (snd (allow t k bs))"
| "answers (Collect t # ops) bs = answers ops (gc_round t bs)"

text \<open>Buckets with and without collection, at a time.\<close>

definition kept_alike :: "time \<Rightarrow> bucket gomap \<Rightarrow> bucket gomap \<Rightarrow> bool" where
  "kept_alike now bs cs \<longleftrightarrow> map_wf bs \<and> (\<forall>k. bucket_by now (map_get cs k) \<and>
     (map_get bs k = map_get cs k \<or> map_get bs k = None \<and> (\<exists>b. map_get cs k = Some b \<and> bkLastSeen b < now - 30 * Minute)))"

lemma kept_alike_later: "kept_alike t bs cs \<Longrightarrow> t \<le> u \<Longrightarrow> kept_alike u bs cs"
  by (force simp: kept_alike_def bucket_by_def split: option.splits)

lemma kept_alike_Collect: "kept_alike t bs cs \<Longrightarrow> kept_alike t (gc_round t bs) cs"
  unfolding kept_alike_def
proof (intro conjI allI; (elim conjE)?)
  fix k assume "map_wf bs" and a: "\<forall>k. bucket_by t (map_get cs k) \<and>
     (map_get bs k = map_get cs k \<or> map_get bs k = None \<and> (\<exists>b. map_get cs k = Some b \<and> bkLastSeen b < t - 30 * Minute))"
  then show "map_get (gc_round t bs) k = map_get cs k \<or>
      map_get (gc_round t bs) k = None \<and> (\<exists>b. map_get cs k = Some b \<and> bkLastSeen b < t - 30 * Minute)"
    using spec [OF a, of k] by (cases "map_get cs k") (auto simp: map_get_gc Before_def split: if_splits)
qed simp_all

lemma kept_alike_Attempt:
  assumes "kept_alike t bs cs" "\<And>b. map_get cs key = Some b \<Longrightarrow> t - bkLastSeen b < 2 ^ 63"
  shows "fst (allow t key bs) = fst (allow t key cs) \<and> kept_alike t (snd (allow t key bs)) (snd (allow t key cs))"
proof -
  have same: "fst (allow t key bs) = fst (allow t key cs)" "map_get (snd (allow t key bs)) key = map_get (snd (allow t key cs)) key"
  proof -
    consider "map_get bs key = map_get cs key"
      | b where "map_get bs key = None" "map_get cs key = Some b" "bucket_ok b" "bkLastSeen b < t - 30 * Minute"
      using assms(1) by (force simp: kept_alike_def bucket_by_def split: option.splits)
    then have "fst (allow t key bs) = fst (allow t key cs) \<and> map_get (snd (allow t key bs)) key = map_get (snd (allow t key cs)) key"
    proof cases
      case 1
      then show ?thesis by (simp add: allow_def Let_def split: option.splits)
    next
      case 2
      with allow_stale [OF 2] assms(2) show ?thesis by blast
    qed
    then show "fst (allow t key bs) = fst (allow t key cs)" "map_get (snd (allow t key bs)) key = map_get (snd (allow t key cs)) key" by simp_all
  qed
  have "bucket_by t (map_get (snd (allow t key cs)) key)"
    using allow_worth [of t cs key] assms by (simp add: kept_alike_def)
  with assms(1) same have "map_wf (snd (allow t key bs)) \<and> (\<forall>k. bucket_by t (map_get (snd (allow t key cs)) k) \<and>
     (map_get (snd (allow t key bs)) k = map_get (snd (allow t key cs)) k \<or> map_get (snd (allow t key bs)) k = None \<and>
        (\<exists>b. map_get (snd (allow t key cs)) k = Some b \<and> bkLastSeen b < t - 30 * Minute)))"
    unfolding kept_alike_def using allow_other map_wf_limiter(1) by metis
  with same show ?thesis by (simp add: kept_alike_def)
qed

lemma answers_alike:
  assumes "kept_alike t0 bs cs" "sorted (t0 # map op_time ops)" "\<forall>o1 \<in> set ops. op_time o1 < start + 2 ^ 63"
    and "\<forall>b \<in> ran (map_get cs). start \<le> bkLastSeen b" "start \<le> t0"
  shows "answers ops bs = answers (filter is_Attempt ops) cs"
  using assms
proof (induction ops arbitrary: t0 bs cs)
  case (Cons o1 ops)
  have k: "kept_alike (op_time o1) bs cs" using kept_alike_later Cons.prems(1,2) by force
  show ?case
  proof (cases o1)
    case (Attempt t key)
    have late: "t - bkLastSeen b < 2 ^ 63" if "map_get cs key = Some b" for b
      using that Cons.prems(3,4) Attempt by (force simp: ran_def)
    have t: "start \<le> t" using Cons.prems(2,5) Attempt by simp
    have "\<forall>b \<in> ran (map_get (snd (allow t key cs))). start \<le> bkLastSeen b"
      using Cons.prems(4) t by (force simp: allow_def Let_def ran_def split: option.splits if_splits)
    with kept_alike_Attempt [OF k [unfolded Attempt op_time.simps] late] Cons.IH [of t] Cons.prems(2,3) t Attempt
    show ?thesis by simp
  next
    case (Collect t)
    with kept_alike_Collect [OF k [unfolded Collect op_time.simps]] Cons.IH [of t] Cons.prems Collect show ?thesis by simp
  qed
qed simp

end
