(* ===== verification/ServerState.thy ===== *)
theory ServerState
  imports Config Wire AuthHeader RateLimit Auth UserData Dvr Media
begin

text \<open>
  The server of \<open>internal/server\<close>: its dependencies (\<open>server.go\<close>), what a handler knows of its request
  (\<open>context.go\<close>), and how records become wire records (\<open>media_map.go\<close>, \<open>usermap.go\<close>).

  The services share one store. \<open>svStore\<close> is its state; the copies inside the media service and the
  recorder are overwritten by it before every call (\<open>svc_media\<close>, \<open>svc_dvr\<close>) and copied back after it. A
  handler is one step of the server. What the system answers while a request is served is
  \<open>senv\<close>: readings of the clock (\<open>seClk\<close>) and random draws (\<open>seRnd\<close>), numbered in the order the code asks for
  them, files, processes, the network, the JSON decoder, and the text of an instant, which depends on a time
  zone the model does not keep.
\<close>

section \<open>The server\<close>

record auditEvent =
  aeName :: string
  aeAttrs :: "string gomap"

text \<open>The logger of \<open>internal/audit\<close>, with the events in the order written; nothing happens on a nil logger.\<close>

type_synonym auditLogger = "auditEvent list option"

definition audit_New :: auditLogger where
  "audit_New = Some []"

definition audit_Event :: "string \<Rightarrow> string gomap \<Rightarrow> auditLogger \<Rightarrow> auditLogger" where
  "audit_Event event attrs a =
     (case a of
        None \<Rightarrow> None
      | Some l \<Rightarrow> Some (l @ [\<lparr>aeName = event, aeAttrs = attrs\<rparr>]))"

record 's server =
  svStore :: 's
  svMedia :: "'s media"
  svTranscoder :: "hlsManager option"
  svLiveTv :: "liveTv option"
  svRecorder :: "'s dvr option"
  svAudit :: auditLogger
  svLimiter :: "bucket gomap"
  svReencode :: "string list"
  svLogos :: "string gomap"

record 's senv =
  seCfg :: Config
  seStore :: "'s Store"
  seArgon :: argon2lib
  seAuth :: authService
  seClk :: "nat \<Rightarrow> time"
  seRnd :: "nat \<Rightarrow> string option"
  seMedia :: mediaEnv
  seNet :: netEnv
  seDvr :: dvrEnv
  seFile :: "string \<Rightarrow> string option"
  seMkdir :: "nat \<Rightarrow> bool"
  seStart :: "nat \<Rightarrow> bool"
  sePlaylist :: "nat \<Rightarrow> string \<Rightarrow> poll list"
  seSegment :: "string \<Rightarrow> (bool \<times> time) list"
  seRun :: "string list \<Rightarrow> (string \<times> bool \<times> bool) option"
  seLogoWrite :: bool
  seLogoRename :: bool
  seLogoOpen :: bool
  seFormat :: "time \<Rightarrow> string"
  seFormatNano :: "time \<Rightarrow> string"
  seParseTime :: "string \<Rightarrow> time option"
  seAuthBody :: "string \<Rightarrow> AuthenticateRequest option"
  seCodeBody :: "string \<Rightarrow> string option"
  seRecoverBody :: "string \<Rightarrow> (string \<times> string \<times> string) option"
  seTimerBody :: "string \<Rightarrow> CreateTimerRequest option"
  seSeriesBody :: "string \<Rightarrow> CreateSeriesTimerRequest option"
  seProgressBody :: "string \<Rightarrow> PlaybackProgressInfo"

definition srv_New :: "'s \<Rightarrow> 's media \<Rightarrow> 's server" where
  "srv_New st mediaSvc = \<lparr>svStore = st, svMedia = mediaSvc, svTranscoder = None, svLiveTv = None, svRecorder = None,
     svAudit = None, svLimiter = [], svReencode = [], svLogos = []\<rparr>"

definition SetAudit :: "auditLogger \<Rightarrow> 's server \<Rightarrow> 's server" where
  "SetAudit a sv = sv\<lparr>svAudit := a\<rparr>"

definition SetLiveTV :: "liveTv option \<Rightarrow> 's server \<Rightarrow> 's server" where
  "SetLiveTV l sv = sv\<lparr>svLiveTv := l\<rparr>"

definition SetRecorder :: "'s dvr option \<Rightarrow> 's server \<Rightarrow> 's server" where
  "SetRecorder r sv = sv\<lparr>svRecorder := r\<rparr>"

definition SetTranscoder :: "hlsManager option \<Rightarrow> 's server \<Rightarrow> 's server" where
  "SetTranscoder m sv = sv\<lparr>svTranscoder := m\<rparr>"

definition auditEvent_log :: "string \<Rightarrow> string gomap \<Rightarrow> 's server \<Rightarrow> 's server" where
  "auditEvent_log event attrs sv = sv\<lparr>svAudit := audit_Event event attrs (svAudit sv)\<rparr>"

definition LoginSuccess :: string where "LoginSuccess = ''auth.login.success''"
definition LoginFailure :: string where "LoginFailure = ''auth.login.failure''"
definition AccountLocked :: string where "AccountLocked = ''auth.account.locked''"
definition LogoutEvent :: string where "LogoutEvent = ''auth.logout''"
definition TwoFAEnabled :: string where "TwoFAEnabled = ''auth.2fa.enabled''"
definition TwoFADisabled :: string where "TwoFADisabled = ''auth.2fa.disabled''"
definition TwoFARecover :: string where "TwoFARecover = ''auth.2fa.recovered''"

definition svc_media :: "'s server \<Rightarrow> 's media" where
  "svc_media sv = (svMedia sv)\<lparr>mvStore := svStore sv\<rparr>"

definition svc_dvr :: "'s server \<Rightarrow> 's dvr \<Rightarrow> 's dvr" where
  "svc_dvr sv r = r\<lparr>dvStore := svStore sv\<rparr>"

definition put_dvr :: "'s dvr \<Rightarrow> 's server \<Rightarrow> 's server" where
  "put_dvr r sv = sv\<lparr>svRecorder := Some r, svStore := dvStore r\<rparr>"

text \<open>The recorder's channels are those of Live TV.\<close>

definition dvr_env :: "'s senv \<Rightarrow> 's server \<Rightarrow> dvrEnv" where
  "dvr_env E sv = (seDvr E)\<lparr>deStreamURL := (\<lambda>k. case svLiveTv sv of None \<Rightarrow> None | Some l \<Rightarrow> StreamURL k l)\<rparr>"

section \<open>Responses\<close>

datatype jval = JString string | JBool bool | JInt int | JNames "string gomap"

text \<open>A body: the value given to the JSON encoder, or bytes, or a file \<open>ServeContent\<close> serves. \<open>StillWaiting\<close>
  stands for a handler that has not answered within the polls it was given.\<close>

datatype payload =
    NoBody
  | Object "(string \<times> jval) list"
  | JText string
  | JFlag bool
  | JTexts "string \<times> string list"
  | PublicInfo PublicSystemInfo
  | FullInfo SystemInfo
  | Branding BrandingOptions
  | OneUser UserDto
  | UserList "UserDto list"
  | Authenticated AuthenticationResult
  | OneItem BaseItemDto
  | ItemList "BaseItemDto list"
  | ItemPage "BaseItemDto QueryResult"
  | ItemState UserItemDataDto
  | Folders "VirtualFolderInfo list"
  | PlaybackInfo PlaybackInfoResponse
  | TvInfo LiveTvInfo
  | Guide GuideInfo
  | OneTimer TimerInfoDto
  | TimerPage "TimerInfoDto QueryResult"
  | OneSeries SeriesTimerInfoDto
  | SeriesPage "SeriesTimerInfoDto QueryResult"
  | Bytes string
  | ServeFile string
  | StillWaiting

type_synonym reply = "payload response"

definition StatusText :: "int \<Rightarrow> string" where
  "StatusText n =
     (if n = 400 then ''Bad Request'' else if n = 401 then ''Unauthorized'' else if n = 403 then ''Forbidden''
      else if n = 404 then ''Not Found'' else if n = 409 then ''Conflict'' else if n = 429 then ''Too Many Requests''
      else if n = 500 then ''Internal Server Error'' else if n = 503 then ''Service Unavailable'' else [])"

definition writeJSON :: "int \<Rightarrow> payload \<Rightarrow> reply" where
  "writeJSON status v =
     \<lparr>rsStatus = status, rsHeader = [(''Content-Type'', ''application/json; charset=utf-8'')], rsBody = v\<rparr>"

definition writeError :: "int \<Rightarrow> reply" where
  "writeError status = writeJSON status (Object [(''error'', JString (StatusText status))])"

definition noContent :: reply where
  "noContent = \<lparr>rsStatus = 204, rsHeader = [], rsBody = NoBody\<rparr>"

definition still_waiting :: reply where
  "still_waiting = \<lparr>rsStatus = 0, rsHeader = [], rsBody = StillWaiting\<rparr>"

text \<open>What \<open>recoverPanics\<close> makes of a panic.\<close>

definition panicked :: reply where
  "panicked = \<lparr>rsStatus = 500, rsHeader = [(''Content-Type'', ''application/json; charset=utf-8'')],
     rsBody = Object [(''error'', JString ''Internal Server Error'')]\<rparr>"

section \<open>Requests in context\<close>

record rctx =
  cxReq :: request
  cxAuth :: ClientAuth
  cxUser :: "User option"
  cxSession :: "Session option"
  cxRequestID :: string
  cxPath :: "string gomap"

definition PathValue :: "rctx \<Rightarrow> string \<Rightarrow> string" where
  "PathValue c k = get_value (cxPath c) k"

text \<open>A handler that reads a field of the user: without one, Go's nil pointer panics.\<close>

definition with_user :: "rctx \<Rightarrow> 's server \<Rightarrow> (User \<Rightarrow> reply \<times> 's server) \<Rightarrow> reply \<times> 's server" where
  "with_user c sv f = (case cxUser c of None \<Rightarrow> (panicked, sv) | Some u \<Rightarrow> f u)"

definition client_ip :: "'s senv \<Rightarrow> rctx \<Rightarrow> string" where
  "client_ip E c = clientIP (cfTrustedProxies (seCfg E)) (HeaderGet (cxReq c) ''X-Forwarded-For'')
     (HeaderGet (cxReq c) ''X-Real-Ip'') (rqRemoteAddr (cxReq c))"

definition server_id :: "'s senv \<Rightarrow> 's server \<Rightarrow> string" where
  "server_id E sv = ServerID (seStore E) (svStore sv)"

section \<open>Wire records\<close>

definition zeroItemDto :: "'p ItemDto" where
  "zeroItemDto = \<lparr>biName = [], biServerID = [], biID = [], biType = [], biIsFolder = False, biCollectionType = [],
     biMediaType = [], biParentID = [], biProductionYear = 0, biRunTimeTicks = 0, biContainer = [], biSortName = [],
     biDateCreated = [], biChildCount = 0, biLocationType = [], biSeriesID = [], biSeriesName = [], biSeasonID = [],
     biIndexNumber = 0, biParentIndexNumber = 0, biAlbum = [], biAlbumID = [], biAlbumArtist = [], biArtists = [],
     biNumber = [], biChannelType = [], biChannelID = [], biStartDate = [], biEndDate = [], biOverview = [],
     biCommunityRating = 0, biGenres = [], biImageTags = [], biBackdropImageTags = [], biUserData = None,
     biCurrentProgram = None\<rparr>"

definition isFolderType :: "string \<Rightarrow> bool" where
  "isFolderType t \<longleftrightarrow> t \<in> {''Series'', ''Season'', ''MusicArtist'', ''MusicAlbum'', ''Folder''}"

definition libraryToDto :: "'s senv \<Rightarrow> 's server \<Rightarrow> Library \<Rightarrow> BaseItemDto" where
  "libraryToDto E sv lib = zeroItemDto\<lparr>biName := lName lib, biServerID := server_id E sv, biID := lID lib,
     biType := ''CollectionFolder'', biCollectionType := lType lib, biIsFolder := True, biChildCount := lItemCount lib,
     biLocationType := ''FileSystem''\<rparr>"

definition userDataDto :: "string \<Rightarrow> UserItemData option \<Rightarrow> UserItemDataDto" where
  "userDataDto k ud =
     (case ud of
        None \<Rightarrow> \<lparr>uiPlaybackPositionTicks = 0, uiPlayCount = 0, uiIsFavorite = False, uiPlayed = False, uiKey = k\<rparr>
      | Some d \<Rightarrow> \<lparr>uiPlaybackPositionTicks = dPlaybackPositionTicks d, uiPlayCount = dPlayCount d,
                   uiIsFavorite = dIsFavorite d, uiPlayed = dPlayed d, uiKey = k\<rparr>)"

definition itemToDto :: "'s senv \<Rightarrow> 's server \<Rightarrow> MediaItem \<Rightarrow> UserItemData option \<Rightarrow> BaseItemDto" where
  "itemToDto E sv it ud =
     (let dto = zeroItemDto\<lparr>biName := mName it, biServerID := server_id E sv, biID := mID it, biType := mType it,
            biMediaType := mMediaType it, biIsFolder := isFolderType (mType it), biParentID := mParentID it,
            biProductionYear := mProductionYear it, biContainer := mContainer it, biSortName := mSortName it,
            biRunTimeTicks := mRunTimeTicks it, biChildCount := mChildCount it, biSeriesID := mSeriesID it,
            biSeriesName := mSeriesName it, biSeasonID := mSeasonID it, biIndexNumber := mIndexNumber it,
            biParentIndexNumber := mParentIndexNumber it, biOverview := mOverview it,
            biCommunityRating := mCommunityRating it, biGenres := mGenres it, biAlbum := mAlbum it,
            biAlbumID := mAlbumID it, biAlbumArtist := mAlbumArtist it, biArtists := mArtists it,
            biLocationType := ''FileSystem'', biUserData := Some (userDataDto (mID it) ud)\<rparr>;
          dto = (if \<not> IsZero (mDateCreated it) then dto\<lparr>biDateCreated := seFormatNano E (mDateCreated it)\<rparr> else dto);
          dto = (if mPrimaryImageTag it \<noteq> [] then dto\<lparr>biImageTags := [(''Primary'', mPrimaryImageTag it)]\<rparr> else dto)
      in if mBackdropImageTag it \<noteq> [] then dto\<lparr>biBackdropImageTags := [mBackdropImageTag it]\<rparr> else dto)"

definition itemsToDtos :: "'s senv \<Rightarrow> 's server \<Rightarrow> MediaItem list \<Rightarrow> UserItemData gomap \<Rightarrow> BaseItemDto list" where
  "itemsToDtos E sv items udByItem = map (\<lambda>it. itemToDto E sv it (map_get udByItem (mID it))) items"

definition toUserDto :: "'s senv \<Rightarrow> 's server \<Rightarrow> User \<Rightarrow> UserDto" where
  "toUserDto E sv u =
     (let date = (if \<not> IsZero (uLastLoginAt u) then seFormatNano E (uLastLoginAt u) else [])
      in \<lparr>utName = uName u, utServerID = server_id E sv, utID = uID u, utHasPassword = True,
          utHasConfiguredPassword = True, utHasConfiguredEasyPassword = False, utEnableAutoLogin = False,
          utLastLoginDate = date, utLastActivityDate = date,
          utConfiguration = \<lparr>ucPlayDefaultAudioTrack = True, ucDisplayMissingEpisodes = False,
            ucSubtitleMode = ''Default'', ucEnableNextEpisodeAutoPlay = False, ucOrderedViews = [],
            ucLatestItemsExcludes = [], ucMyMediaExcludes = [], ucGroupedFolders = []\<rparr>,
          utPolicy = \<lparr>upIsAdministrator = uIsAdmin u, upIsHidden = False, upIsDisabled = False,
            upEnableUserPreferenceAccess = True, upEnableRemoteAccess = True, upEnableMediaPlayback = True,
            upEnableAudioPlaybackTranscoding = True, upEnableVideoPlaybackTranscoding = True,
            upEnableContentDownloading = True, upEnableAllFolders = True, upEnabledFolders = [],
            upEnableAllDevices = True, upAuthenticationProviderID = [], upPasswordResetProviderID = [],
            upSyncPlayAccess = ''CreateAndJoinGroups''\<rparr>\<rparr>)"

definition page_of :: "'i list \<Rightarrow> nat \<Rightarrow> int \<Rightarrow> 'i QueryResult" where
  "page_of items n start = \<lparr>qrItems = items, qrTotalRecordCount = int n, qrStartIndex = start\<rparr>"

end
