(* ===== verification/HandlersAccount.thy ===== *)
theory HandlersAccount
  imports ServerState
begin

text \<open>
  The handlers of \<open>handlers_auth.go\<close>, \<open>handlers_2fa.go\<close>, \<open>handlers_users.go\<close>, \<open>handlers_userdata.go\<close>,
  \<open>handlers_system.go\<close>, \<open>handlers_branding.go\<close> and \<open>handlers_misc.go\<close>. A handler takes the environment, the
  request in its context and the server, and gives the response and the next server. Readings of the clock: 0
  by the validation of the token, 1 by the limiter, 2 to 5 in \<open>Authenticate\<close>, 6 for a new session. Draws: 0 the
  request ID, 1 and 2 in the handler.
\<close>

section \<open>Login\<close>

definition maxAuthBody :: nat where "maxAuthBody = 4 * 2 ^ 10"

text \<open>The limiter on a key; \<open>newRateLimiter\<close> starts with no bucket.\<close>

definition limit_key :: "'s senv \<Rightarrow> string \<Rightarrow> 's server \<Rightarrow> bool \<times> 's server" where
  "limit_key E key sv = (case allow (seClk E 1) key (svLimiter sv) of (ok, bs) \<Rightarrow> (ok, sv\<lparr>svLimiter := bs\<rparr>))"

definition tooMany :: reply where
  "tooMany = (writeError 429)\<lparr>rsHeader := (''Retry-After'', ''5'') # rsHeader (writeError 429)\<rparr>"

definition login_result :: "'s senv \<Rightarrow> rctx \<Rightarrow> 's server \<Rightarrow> User \<Rightarrow> IssuedToken \<Rightarrow> AuthenticationResult" where
  "login_result E c sv u issued =
     (let ca = cxAuth c in
      \<lparr>atUser = toUserDto E sv u,
       atSessionInfo = \<lparr>seID = sID (itSession issued), seUserID = uID u, seUserName = uName u, seClient = caClient ca,
         seDeviceName = caDevice ca, seDeviceID = caDeviceID ca, seApplicationVersion = caVersion ca,
         seServerID = server_id E sv, seSupportsRemoteControl = False, sePlayableMediaTypes = [''Audio'', ''Video''],
         seLastActivityDate = []\<rparr>,
       atAccessToken = Token issued, atServerID = server_id E sv\<rparr>)"

definition handleAuthenticateByName :: "'s senv \<Rightarrow> rctx \<Rightarrow> 's server \<Rightarrow> reply \<times> 's server" where
  "handleAuthenticateByName E c sv =
     (let ip = client_ip E c; ca = cxAuth c in
      case limit_key E (''auth:'' @ ip) sv of (ok, sv1) \<Rightarrow>
        if \<not> ok then (tooMany, sv1)
        else case seAuthBody E (take maxAuthBody (rqBody (cxReq c))) of
          None \<Rightarrow> (writeError 400, sv1)
        | Some req \<Rightarrow>
            (case Authenticate (seAuth E) (seArgon E) (seStore E) (\<lambda>i. seClk E (2 + i)) (arUsername req) (arPw req) (svStore sv1) of
               (Inl e, st) \<Rightarrow>
                 let sv2 = sv1\<lparr>svStore := st\<rparr>; attrs = [(''user'', arUsername req), (''remote'', ip), (''client'', caClient ca)]
                 in if e = ErrAccountLocked then (writeError 401, auditEvent_log AccountLocked attrs sv2)
                    else if e = ErrInvalidCredentials then (writeError 401, auditEvent_log LoginFailure attrs sv2)
                    else (writeError 500, sv2)
             | (Inr u, st) \<Rightarrow>
                 (case auth_CreateSession (seStore E) (seRnd E 1) (seRnd E 2) (seClk E 6) (uID u) (caClient ca) (caDevice ca)
                        (caDeviceID ca) (caVersion ca) ip st of
                    (Inl e, st') \<Rightarrow> (writeError 500, sv1\<lparr>svStore := st'\<rparr>)
                  | (Inr issued, st') \<Rightarrow>
                      let sv2 = auditEvent_log LoginSuccess [(''user'', uName u), (''remote'', ip), (''client'', caClient ca),
                              (''device'', caDevice ca)] (sv1\<lparr>svStore := st'\<rparr>)
                      in (writeJSON 200 (Authenticated (login_result E c sv2 u issued)), sv2))))"

definition handleLogout :: "'s senv \<Rightarrow> rctx \<Rightarrow> 's server \<Rightarrow> reply \<times> 's server" where
  "handleLogout E c sv =
     (let sv1 = sv\<lparr>svStore := snd (Logout (seStore E) (caToken (cxAuth c)) (svStore sv))\<rparr>
      in case cxUser c of
           None \<Rightarrow> (noContent, sv1)
         | Some u \<Rightarrow> (noContent, auditEvent_log LogoutEvent [(''user'', uName u), (''remote'', client_ip E c)] sv1))"

definition handleSessionCapabilities :: "'s senv \<Rightarrow> rctx \<Rightarrow> 's server \<Rightarrow> reply \<times> 's server" where
  "handleSessionCapabilities E c sv = (noContent, sv)"

section \<open>Two factors\<close>

definition max2FABody :: nat where "max2FABody = 4 * 2 ^ 10"

definition decode2FABody :: "(string \<Rightarrow> 'a option) \<Rightarrow> rctx \<Rightarrow> 'a option" where
  "decode2FABody dec c = dec (take max2FABody (rqBody (cxReq c)))"

definition handle2FAStatus :: "'s senv \<Rightarrow> rctx \<Rightarrow> 's server \<Rightarrow> reply \<times> 's server" where
  "handle2FAStatus E c sv = with_user c sv (\<lambda>u.
     case TOTPEnabled (seStore E) (uID u) (svStore sv) of
       Inl e \<Rightarrow> (writeError 500, sv)
     | Inr enabled \<Rightarrow> (writeJSON 200 (Object [(''Enabled'', JBool enabled)]), sv))"

definition handle2FASetup :: "'s senv \<Rightarrow> rctx \<Rightarrow> 's server \<Rightarrow> reply \<times> 's server" where
  "handle2FASetup E c sv = with_user c sv (\<lambda>u.
     case BeginTOTPSetup (seStore E) (seRnd E 1) (uID u) (cfServerName (seCfg E)) (uName u) (svStore sv) of
       (Inl e, st) \<Rightarrow> (writeError (if e = ErrTOTPAlreadyEnabled then 409 else 500), sv\<lparr>svStore := st\<rparr>)
     | (Inr setup, st) \<Rightarrow> (writeJSON 200 (Object [(''Secret'', JString (Secret setup)),
          (''ProvisioningUri'', JString (ProvisioningURI setup))]), sv\<lparr>svStore := st\<rparr>))"

definition handle2FAActivate :: "'s senv \<Rightarrow> rctx \<Rightarrow> 's server \<Rightarrow> reply \<times> 's server" where
  "handle2FAActivate E c sv =
     (case decode2FABody (seCodeBody E) c of
        None \<Rightarrow> (writeError 400, sv)
      | Some code \<Rightarrow> with_user c sv (\<lambda>u.
          case ActivateTOTP (seStore E) (\<lambda>i. seRnd E (1 + i)) (seClk E 1) (uID u) code (svStore sv) of
            (Inl e, st) \<Rightarrow>
              (writeError (if e = ErrTOTPInvalidCode then 401
                 else if e = ErrNoPendingTOTP \<or> e = ErrTOTPAlreadyEnabled then 409 else 500), sv\<lparr>svStore := st\<rparr>)
          | (Inr codes, st) \<Rightarrow>
              (writeJSON 200 (JTexts (''RecoveryCodes'', codes)),
               auditEvent_log TwoFAEnabled [(''user'', uName u), (''remote'', client_ip E c)] (sv\<lparr>svStore := st\<rparr>))))"

definition handle2FADisable :: "'s senv \<Rightarrow> rctx \<Rightarrow> 's server \<Rightarrow> reply \<times> 's server" where
  "handle2FADisable E c sv =
     (case decode2FABody (seCodeBody E) c of
        None \<Rightarrow> (writeError 400, sv)
      | Some code \<Rightarrow> with_user c sv (\<lambda>u.
          case DisableTOTP (seStore E) (seClk E 1) (uID u) code (svStore sv) of
            (Some e, st) \<Rightarrow>
              (writeError (if e = ErrTOTPInvalidCode then 401 else if e = ErrTOTPNotEnabled then 409 else 500),
               sv\<lparr>svStore := st\<rparr>)
          | (None, st) \<Rightarrow>
              (noContent, auditEvent_log TwoFADisabled [(''user'', uName u), (''remote'', client_ip E c)] (sv\<lparr>svStore := st\<rparr>))))"

definition handle2FARecover :: "'s senv \<Rightarrow> rctx \<Rightarrow> 's server \<Rightarrow> reply \<times> 's server" where
  "handle2FARecover E c sv =
     (let ip = client_ip E c in
      case limit_key E (''2fa-recover:'' @ ip) sv of (ok, sv1) \<Rightarrow>
        if \<not> ok then (tooMany, sv1)
        else case decode2FABody (seRecoverBody E) c of
          None \<Rightarrow> (writeError 400, sv1)
        | Some (username, pw, code) \<Rightarrow>
            (case RecoverTOTP (seAuth E) (seArgon E) (seStore E) (\<lambda>i. seClk E (2 + i)) username pw code (svStore sv1) of
               (Some e, st) \<Rightarrow> (writeError 401, sv1\<lparr>svStore := st\<rparr>)
             | (None, st) \<Rightarrow>
                 (noContent, auditEvent_log TwoFARecover [(''user'', username), (''remote'', ip)] (sv1\<lparr>svStore := st\<rparr>))))"

section \<open>Users\<close>

definition handleUsersMe :: "'s senv \<Rightarrow> rctx \<Rightarrow> 's server \<Rightarrow> reply \<times> 's server" where
  "handleUsersMe E c sv = with_user c sv (\<lambda>u. (writeJSON 200 (OneUser (toUserDto E sv u)), sv))"

definition handleUserByID :: "'s senv \<Rightarrow> rctx \<Rightarrow> 's server \<Rightarrow> reply \<times> 's server" where
  "handleUserByID E c sv = with_user c sv (\<lambda>caller.
     let k = PathValue c ''id'' in
     if \<not> uIsAdmin caller \<and> uID caller \<noteq> k then (writeError 403, sv)
     else case GetUserByID (seStore E) k (svStore sv) of
       Inl e \<Rightarrow> (writeError (if e = ErrNotFound then 404 else 500), sv)
     | Inr u \<Rightarrow> (writeJSON 200 (OneUser (toUserDto E sv u)), sv))"

definition publicUser :: "'s senv \<Rightarrow> 's server \<Rightarrow> User \<Rightarrow> UserDto" where
  "publicUser E sv u =
     \<lparr>utName = uName u, utServerID = server_id E sv, utID = uID u, utHasPassword = True, utHasConfiguredPassword = False,
      utHasConfiguredEasyPassword = False, utEnableAutoLogin = False, utLastLoginDate = [], utLastActivityDate = [],
      utConfiguration = \<lparr>ucPlayDefaultAudioTrack = False, ucDisplayMissingEpisodes = False, ucSubtitleMode = [],
        ucEnableNextEpisodeAutoPlay = False, ucOrderedViews = [], ucLatestItemsExcludes = [], ucMyMediaExcludes = [],
        ucGroupedFolders = []\<rparr>,
      utPolicy = \<lparr>upIsAdministrator = False, upIsHidden = False, upIsDisabled = False, upEnableUserPreferenceAccess = False,
        upEnableRemoteAccess = False, upEnableMediaPlayback = False, upEnableAudioPlaybackTranscoding = False,
        upEnableVideoPlaybackTranscoding = False, upEnableContentDownloading = False, upEnableAllFolders = False,
        upEnabledFolders = [], upEnableAllDevices = False, upAuthenticationProviderID = [],
        upPasswordResetProviderID = [], upSyncPlayAccess = []\<rparr>\<rparr>"

definition handleUsersPublic :: "'s senv \<Rightarrow> rctx \<Rightarrow> 's server \<Rightarrow> reply \<times> 's server" where
  "handleUsersPublic E c sv =
     (case ListUsers (seStore E) (svStore sv) of
        Inl e \<Rightarrow> (writeError 500, sv)
      | Inr users \<Rightarrow> (writeJSON 200 (UserList (map (publicUser E sv) users)), sv))"

definition handleUsersList :: "'s senv \<Rightarrow> rctx \<Rightarrow> 's server \<Rightarrow> reply \<times> 's server" where
  "handleUsersList E c sv =
     (case ListUsers (seStore E) (svStore sv) of
        Inl e \<Rightarrow> (writeError 500, sv)
      | Inr users \<Rightarrow> (writeJSON 200 (UserList (map (toUserDto E sv) users)), sv))"

definition liveTVEnabled :: "'s server \<Rightarrow> bool" where
  "liveTVEnabled sv = (case svLiveTv sv of None \<Rightarrow> False | Some l \<Rightarrow> lv_Count l > 0)"

definition handleUserViews :: "'s senv \<Rightarrow> rctx \<Rightarrow> 's server \<Rightarrow> reply \<times> 's server" where
  "handleUserViews E c sv =
     (case Libraries (seStore E) (svc_media sv) of
        Inl e \<Rightarrow> (writeError 500, sv)
      | Inr libs \<Rightarrow>
          let tv = zeroItemDto\<lparr>biName := ''Live TV'', biServerID := server_id E sv, biID := ''livetv'',
                biType := ''CollectionFolder'', biCollectionType := ''livetv'', biIsFolder := True\<rparr>;
              views = map (libraryToDto E sv) libs @ (if liveTVEnabled sv then [tv] else [])
          in (writeJSON 200 (ItemPage (page_of views (length views) 0)), sv))"

section \<open>Watched and favorite items\<close>

text \<open>\<open>None\<close>: denied with 403.\<close>

definition effectiveUserID :: "User \<Rightarrow> string \<Rightarrow> string option" where
  "effectiveUserID caller pathUserID =
     (if pathUserID = [] \<or> pathUserID = uID caller then Some (uID caller)
      else if uIsAdmin caller then Some pathUserID
      else None)"

definition for_user :: "rctx \<Rightarrow> 's server \<Rightarrow> (string \<Rightarrow> reply \<times> 's server) \<Rightarrow> reply \<times> 's server" where
  "for_user c sv f = with_user c sv (\<lambda>caller.
     case effectiveUserID caller (PathValue c ''userId'') of None \<Rightarrow> (writeError 403, sv) | Some uid \<Rightarrow> f uid)"

definition item_state :: "string \<Rightarrow> 's server \<Rightarrow> (UserItemData \<times> err option) \<times> 's \<Rightarrow> reply \<times> 's server" where
  "item_state item sv res =
     (case res of ((ud, e), st) \<Rightarrow>
        (if e \<noteq> None then writeError 500 else writeJSON 200 (ItemState (userDataDto item (Some ud))), sv\<lparr>svStore := st\<rparr>))"

definition handleMarkPlayed :: "'s senv \<Rightarrow> rctx \<Rightarrow> 's server \<Rightarrow> reply \<times> 's server" where
  "handleMarkPlayed E c sv = for_user c sv (\<lambda>uid. let item = PathValue c ''itemId'' in
     item_state item sv (MarkPlayed (seStore E) (seClk E 1) uid item (svStore sv)))"

definition handleMarkUnplayed :: "'s senv \<Rightarrow> rctx \<Rightarrow> 's server \<Rightarrow> reply \<times> 's server" where
  "handleMarkUnplayed E c sv = for_user c sv (\<lambda>uid. let item = PathValue c ''itemId'' in
     item_state item sv (MarkUnplayed (seStore E) uid item (svStore sv)))"

definition srv_setFavorite :: "'s senv \<Rightarrow> rctx \<Rightarrow> bool \<Rightarrow> 's server \<Rightarrow> reply \<times> 's server" where
  "srv_setFavorite E c fav sv = for_user c sv (\<lambda>uid. let item = PathValue c ''itemId'' in
     item_state item sv (SetFavorite (seStore E) uid item fav (svStore sv)))"

definition handleAddFavorite :: "'s senv \<Rightarrow> rctx \<Rightarrow> 's server \<Rightarrow> reply \<times> 's server" where
  "handleAddFavorite E c sv = srv_setFavorite E c True sv"

definition handleRemoveFavorite :: "'s senv \<Rightarrow> rctx \<Rightarrow> 's server \<Rightarrow> reply \<times> 's server" where
  "handleRemoveFavorite E c sv = srv_setFavorite E c False sv"

definition parseBool :: "string \<Rightarrow> bool" where
  "parseBool s = ParseBool s"

definition parseInt :: "string \<Rightarrow> int \<Rightarrow> int" where
  "parseInt s def = (if s = [] then def else case Atoi s of (n, None) \<Rightarrow> n | (_, Some e) \<Rightarrow> def)"

text \<open>The loop over the resumable items.\<close>

fun resume_items :: "'s senv \<Rightarrow> 's server \<Rightarrow> UserItemData gomap \<Rightarrow> int \<Rightarrow> string list \<Rightarrow> BaseItemDto list \<Rightarrow> BaseItemDto list" where
  "resume_items E sv udMap limit [] items = items"
| "resume_items E sv udMap limit (k # ks) items =
     (if limit > 0 \<and> int (length items) \<ge> limit then items
      else case media_Item (seStore E) k (svc_media sv) of
        Inl e \<Rightarrow> resume_items E sv udMap limit ks items
      | Inr it \<Rightarrow> resume_items E sv udMap limit ks (items @ [itemToDto E sv it (map_get udMap k)]))"

definition handleResumeItems :: "'s senv \<Rightarrow> rctx \<Rightarrow> 's server \<Rightarrow> reply \<times> 's server" where
  "handleResumeItems E c sv = for_user c sv (\<lambda>uid.
     let limit = parseInt (QueryGet (cxReq c) ''Limit'') 0;
         items = resume_items E sv (ud_Map (seStore E) uid (svStore sv)) limit (Resumable (seStore E) uid (svStore sv)) []
     in (writeJSON 200 (ItemPage (page_of items (length items) 0)), sv))"

section \<open>The server itself\<close>

definition EmulatedVersion :: string where "EmulatedVersion = ''10.10.3''"
definition ProductName :: string where "ProductName = ''Cubozoa''"

definition localAddress :: "'s senv \<Rightarrow> rctx \<Rightarrow> string" where
  "localAddress E c =
     (let cfg = seCfg E; r = cxReq c; proto = HeaderGet r ''X-Forwarded-Proto''; fwd = HeaderGet r ''X-Forwarded-Host'' in
      if cfPublicBaseURL cfg \<noteq> [] then cfPublicBaseURL cfg
      else (if cfTrustedProxies cfg \<and> proto \<noteq> [] then proto else if rqTLS r then ''https'' else ''http'') @ ''://'' @
           (if cfTrustedProxies cfg \<and> fwd \<noteq> [] then fwd else rqHost r))"

fun port_loop :: "int \<Rightarrow> string \<Rightarrow> int option" where
  "port_loop port [] = Some port"
| "port_loop port (c # cs) =
     (if \<not> is_digit c then None else port_loop (wrap64 (port * 10 + int (of_char c - 48))) cs)"

definition portFromBind :: "string \<Rightarrow> int" where
  "portFromBind bind =
     (case last_index bind (CHR '':'') of
        None \<Rightarrow> 8096
      | Some i \<Rightarrow> (case port_loop 0 (drop (i + 1) bind) of
          None \<Rightarrow> 8096
        | Some port \<Rightarrow> if port = 0 then 8096 else port))"

definition handleSystemInfoPublic :: "'s senv \<Rightarrow> rctx \<Rightarrow> 's server \<Rightarrow> reply \<times> 's server" where
  "handleSystemInfoPublic E c sv =
     (writeJSON 200 (PublicInfo \<lparr>psLocalAddress = localAddress E c, psServerName = cfServerName (seCfg E),
        psVersion = EmulatedVersion, psProductName = ProductName, psOperatingSystem = [], psID = server_id E sv,
        psStartupWizardCompleted = True\<rparr>), sv)"

definition handleSystemInfo :: "'s senv \<Rightarrow> rctx \<Rightarrow> 's server \<Rightarrow> reply \<times> 's server" where
  "handleSystemInfo E c sv =
     (writeJSON 200 (FullInfo \<lparr>syLocalAddress = localAddress E c, syServerName = cfServerName (seCfg E),
        syVersion = EmulatedVersion, syProductName = ProductName, syOperatingSystem = [],
        syOperatingSystemDisplayName = [], syID = server_id E sv, syStartupWizardCompleted = True,
        syPackageName = ''cubozoa'', syHasPendingRestart = False, syIsShuttingDown = False,
        sySupportsLibraryMonitor = True, syHasUpdateAvailable = False, syCanSelfRestart = False,
        syCanLaunchWebBrowser = False, syWebSocketPortNumber = portFromBind (cfBindAddress (seCfg E))\<rparr>), sv)"

definition handlePing :: "'s senv \<Rightarrow> rctx \<Rightarrow> 's server \<Rightarrow> reply \<times> 's server" where
  "handlePing E c sv = (writeJSON 200 (JText ProductName), sv)"

definition handleHealth :: "'s senv \<Rightarrow> rctx \<Rightarrow> 's server \<Rightarrow> reply \<times> 's server" where
  "handleHealth E c sv = (writeJSON 200 (Object [(''status'', JString ''ok'')]), sv)"

definition handleBrandingConfiguration :: "'s senv \<Rightarrow> rctx \<Rightarrow> 's server \<Rightarrow> reply \<times> 's server" where
  "handleBrandingConfiguration E c sv =
     (writeJSON 200 (Branding \<lparr>brLoginDisclaimer = [], brCustomCss = [], brSplashscreenEnabled = False\<rparr>), sv)"

definition handleBrandingCss :: "'s senv \<Rightarrow> rctx \<Rightarrow> 's server \<Rightarrow> reply \<times> 's server" where
  "handleBrandingCss E c sv =
     (\<lparr>rsStatus = 200, rsHeader = [(''Content-Type'', ''text/css; charset=utf-8'')], rsBody = NoBody\<rparr>, sv)"

definition handleQuickConnectEnabled :: "'s senv \<Rightarrow> rctx \<Rightarrow> 's server \<Rightarrow> reply \<times> 's server" where
  "handleQuickConnectEnabled E c sv = (writeJSON 200 (JFlag False), sv)"

definition handleGetDisplayPreferences :: "'s senv \<Rightarrow> rctx \<Rightarrow> 's server \<Rightarrow> reply \<times> 's server" where
  "handleGetDisplayPreferences E c sv =
     (writeJSON 200 (Object [(''Id'', JString (PathValue c ''id'')), (''SortBy'', JString ''SortName''),
        (''SortOrder'', JString ''Ascending''), (''RememberIndexing'', JBool False), (''RememberSorting'', JBool False),
        (''PrimaryImageHeight'', JInt 250), (''PrimaryImageWidth'', JInt 250), (''ScrollDirection'', JString ''Horizontal''),
        (''ShowBackdrop'', JBool True), (''ShowSidebar'', JBool False),
        (''Client'', JString (QueryGet (cxReq c) ''client'')), (''CustomPrefs'', JNames [])]), sv)"

definition handleUpdateDisplayPreferences :: "'s senv \<Rightarrow> rctx \<Rightarrow> 's server \<Rightarrow> reply \<times> 's server" where
  "handleUpdateDisplayPreferences E c sv = (noContent, sv)"

end
