(* ===== verification/HandlersMedia.thy ===== *)
theory HandlersMedia
  imports HandlersAccount
begin

text \<open>
  The handlers of \<open>handlers_items.go\<close>, \<open>handlers_shows.go\<close>, \<open>handlers_images.go\<close>,
  \<open>handlers_subtitles.go\<close> and \<open>handlers_playback.go\<close>. A file is served whole: ranges and conditional
  requests are \<open>ServeContent\<close>'s. The background scan of \<open>handleLibraryRefresh\<close> is taken to end before the
  next request.
\<close>

section \<open>Browsing\<close>

definition splitCSV :: "string \<Rightarrow> string list" where
  "splitCSV s = (if s = [] then [] else filter (\<lambda>p. p \<noteq> []) (map TrimSpace (Split s (CHR '',''))))"

definition firstCSV :: "string \<Rightarrow> string" where
  "firstCSV s = (case IndexByte s (CHR '','') of None \<Rightarrow> TrimSpace s | Some i \<Rightarrow> TrimSpace (take i s))"

definition browseQueryFromRequest :: "request \<Rightarrow> BrowseQuery" where
  "browseQueryFromRequest r =
     \<lparr>bqParentID = QueryGet r ''ParentId'', bqIncludeItemTypes = splitCSV (QueryGet r ''IncludeItemTypes''),
      bqRecursive = parseBool (QueryGet r ''Recursive''), bqSearchTerm = QueryGet r ''SearchTerm'',
      bqSortBy = firstCSV (QueryGet r ''SortBy''), bqSortDescending = EqualFold (QueryGet r ''SortOrder'') ''Descending'',
      bqStartIndex = parseInt (QueryGet r ''StartIndex'') 0, bqLimit = parseInt (QueryGet r ''Limit'') 0\<rparr>"

definition user_map :: "'s senv \<Rightarrow> User \<Rightarrow> 's server \<Rightarrow> UserItemData gomap" where
  "user_map E u sv = ud_Map (seStore E) (uID u) (svStore sv)"

definition handleItems :: "'s senv \<Rightarrow> rctx \<Rightarrow> 's server \<Rightarrow> reply \<times> 's server" where
  "handleItems E c sv =
     (let q = browseQueryFromRequest (cxReq c) in
      case Browse (seStore E) q (svc_media sv) of
        Inl e \<Rightarrow> (writeError 500, sv)
      | Inr (items, n) \<Rightarrow> with_user c sv (\<lambda>u.
          (writeJSON 200 (ItemPage (page_of (itemsToDtos E sv items (user_map E u sv)) n (bqStartIndex q))), sv)))"

definition handleItemDetail :: "'s senv \<Rightarrow> rctx \<Rightarrow> 's server \<Rightarrow> reply \<times> 's server" where
  "handleItemDetail E c sv =
     (case media_Item (seStore E) (PathValue c ''itemId'') (svc_media sv) of
        Inl e \<Rightarrow> (writeError (if e = ErrNotFound then 404 else 500), sv)
      | Inr it \<Rightarrow> with_user c sv (\<lambda>u.
          (writeJSON 200 (OneItem (itemToDto E sv it (Some (ud_Get (seStore E) (uID u) (mID it) (svStore sv))))), sv)))"

fun latest_loop :: "int \<Rightarrow> MediaItem list \<Rightarrow> MediaItem list \<Rightarrow> MediaItem list" where
  "latest_loop limit [] playable = playable"
| "latest_loop limit (it # its) playable =
     (let playable = (if \<not> isFolderType (mType it) then playable @ [it] else playable)
      in if int (length playable) \<ge> limit then playable else latest_loop limit its playable)"

definition handleItemsLatest :: "'s senv \<Rightarrow> rctx \<Rightarrow> 's server \<Rightarrow> reply \<times> 's server" where
  "handleItemsLatest E c sv =
     (let r = cxReq c; limit = parseInt (QueryGet r ''Limit'') 20 in
      case Browse (seStore E) \<lparr>bqParentID = QueryGet r ''ParentId'',
             bqIncludeItemTypes = splitCSV (QueryGet r ''IncludeItemTypes''), bqRecursive = True, bqSearchTerm = [],
             bqSortBy = ''DateCreated'', bqSortDescending = True, bqStartIndex = 0, bqLimit = 0\<rparr> (svc_media sv) of
        Inl e \<Rightarrow> (writeError 500, sv)
      | Inr (items, n) \<Rightarrow> with_user c sv (\<lambda>u.
          (writeJSON 200 (ItemList (itemsToDtos E sv (latest_loop limit items []) (user_map E u sv))), sv)))"

definition handleVirtualFolders :: "'s senv \<Rightarrow> rctx \<Rightarrow> 's server \<Rightarrow> reply \<times> 's server" where
  "handleVirtualFolders E c sv =
     (case Libraries (seStore E) (svc_media sv) of
        Inl e \<Rightarrow> (writeError 500, sv)
      | Inr libs \<Rightarrow> (writeJSON 200 (Folders (map (\<lambda>lib. \<lparr>vfName = lName lib, vfItemID = lID lib,
          vfCollectionType = lType lib, vfLocations = [lPath lib]\<rparr>) libs)), sv))"

definition handleLibraryRefresh :: "'s senv \<Rightarrow> rctx \<Rightarrow> 's server \<Rightarrow> reply \<times> 's server" where
  "handleLibraryRefresh E c sv =
     (let m = snd (ScanAll (seStore E) (seMedia E) (seClk E 1) (svc_media sv))
      in (noContent, sv\<lparr>svMedia := m, svStore := mvStore m\<rparr>))"

section \<open>Shows and artists\<close>

text \<open>The lists of these handlers leave \<open>StartIndex\<close> at zero.\<close>

definition item_page :: "'s senv \<Rightarrow> rctx \<Rightarrow> 's server \<Rightarrow> err + MediaItem list \<Rightarrow> reply \<times> 's server" where
  "item_page E c sv res =
     (case res of
        Inl e \<Rightarrow> (writeError 500, sv)
      | Inr items \<Rightarrow> with_user c sv (\<lambda>u.
          (writeJSON 200 (ItemPage (page_of (itemsToDtos E sv items (user_map E u sv)) (length items) 0)), sv)))"

definition handleArtists :: "'s senv \<Rightarrow> rctx \<Rightarrow> 's server \<Rightarrow> reply \<times> 's server" where
  "handleArtists E c sv = item_page E c sv (ArtistList (seStore E) (QueryGet (cxReq c) ''ParentId'') (svc_media sv))"

definition handleSeasons :: "'s senv \<Rightarrow> rctx \<Rightarrow> 's server \<Rightarrow> reply \<times> 's server" where
  "handleSeasons E c sv = item_page E c sv (Seasons (seStore E) (PathValue c ''seriesId'') (svc_media sv))"

definition handleEpisodes :: "'s senv \<Rightarrow> rctx \<Rightarrow> 's server \<Rightarrow> reply \<times> 's server" where
  "handleEpisodes E c sv =
     item_page E c sv (Episodes (seStore E) (PathValue c ''seriesId'') (QueryGet (cxReq c) ''seasonId'') (svc_media sv))"

text \<open>\<open>nextUp\<close>: the series in the order they first appear, the episodes of each in their order.\<close>

definition group_series :: "MediaItem list \<Rightarrow> MediaItem list gomap" where
  "group_series episodes = fold (\<lambda>e m. case map_get m (mSeriesID e) of
       None \<Rightarrow> m @ [(mSeriesID e, [e])]
     | Some l \<Rightarrow> map_set (mSeriesID e) (l @ [e]) m) episodes []"

record watch_state =
  wsLastPlayed :: "nat option"
  wsInProgress :: "nat option"
  wsActivity :: time

fun watch_loop :: "UserItemData gomap \<Rightarrow> nat \<Rightarrow> MediaItem list \<Rightarrow> watch_state \<Rightarrow> watch_state" where
  "watch_loop ud i [] w = w"
| "watch_loop ud i (e # es) w =
     (case map_get ud (mID e) of
        None \<Rightarrow> watch_loop ud (Suc i) es w
      | Some d \<Rightarrow>
          let w1 = (if dPlayed d then w\<lparr>wsLastPlayed := Some i\<rparr>
                    else if dPlaybackPositionTicks d > 0 \<and> wsInProgress w = None then w\<lparr>wsInProgress := Some i\<rparr> else w);
              w2 = (if After (dLastPlayedAt d) (wsActivity w1) then w1\<lparr>wsActivity := dLastPlayedAt d\<rparr> else w1)
          in watch_loop ud (Suc i) es w2)"

definition series_pick :: "UserItemData gomap \<Rightarrow> MediaItem list \<Rightarrow> (MediaItem \<times> time) option" where
  "series_pick ud l =
     (let w = watch_loop ud 0 l \<lparr>wsLastPlayed = None, wsInProgress = None, wsActivity = zeroTime\<rparr> in
      case wsInProgress w of
        Some i \<Rightarrow> Some (l ! i, wsActivity w)
      | None \<Rightarrow> (case wsLastPlayed w of
          Some i \<Rightarrow> if i + 1 < length l then Some (l ! (i + 1), wsActivity w) else None
        | None \<Rightarrow> None))"

definition nextUp :: "MediaItem list \<Rightarrow> UserItemData gomap \<Rightarrow> MediaItem list" where
  "nextUp episodes ud =
     map fst (SliceStable (\<lambda>a b. After (snd a) (snd b)) (List.map_filter (\<lambda>(sid, l). series_pick ud l) (group_series episodes)))"

definition handleNextUp :: "'s senv \<Rightarrow> rctx \<Rightarrow> 's server \<Rightarrow> reply \<times> 's server" where
  "handleNextUp E c sv =
     (case AllEpisodes (seStore E) (svc_media sv) of
        Inl e \<Rightarrow> (writeError 500, sv)
      | Inr episodes \<Rightarrow> with_user c sv (\<lambda>u.
          let udMap = user_map E u sv; picks = nextUp episodes udMap; limit = parseInt (QueryGet (cxReq c) ''Limit'') 0;
              picks = (if limit > 0 \<and> limit < int (length picks) then take (nat limit) picks else picks)
          in (writeJSON 200 (ItemPage (page_of (itemsToDtos E sv picks udMap) (length picks) 0)), sv)))"

section \<open>Files\<close>

definition file_reply :: "string \<Rightarrow> string gomap \<Rightarrow> reply" where
  "file_reply path hdr = \<lparr>rsStatus = 200, rsHeader = hdr, rsBody = ServeFile path\<rparr>"

definition serveFile :: "'s senv \<Rightarrow> string \<Rightarrow> string gomap \<Rightarrow> reply" where
  "serveFile E path hdr = (case seFile E path of None \<Rightarrow> writeError 404 | Some _ \<Rightarrow> file_reply path hdr)"

definition bytes_reply :: "string gomap \<Rightarrow> string \<Rightarrow> reply" where
  "bytes_reply hdr d = \<lparr>rsStatus = 200, rsHeader = hdr, rsBody = Bytes d\<rparr>"

text \<open>The answer to a channel's logo, if the identifier is a channel's that has one.\<close>

definition serveChannelLogo :: "'s senv \<Rightarrow> string \<Rightarrow> 's server \<Rightarrow> reply option \<times> 's server" where
  "serveChannelLogo E cid sv =
     (case svLiveTv sv of
        None \<Rightarrow> (None, sv)
      | Some l \<Rightarrow>
          (case LogoPath (seNet E) (seLogoWrite E) (seLogoRename E) cid l (svLogos sv) of
             (None, fs) \<Rightarrow> (None, sv\<lparr>svLogos := fs\<rparr>)
           | (Some (path, contentType), fs) \<Rightarrow>
               (if seLogoOpen E then Some (file_reply path [(''Content-Type'', contentType),
                    (''Cache-Control'', ''private, max-age=86400'')]) else None, sv\<lparr>svLogos := fs\<rparr>)))"

definition handleItemImage :: "'s senv \<Rightarrow> rctx \<Rightarrow> 's server \<Rightarrow> reply \<times> 's server" where
  "handleItemImage E c sv =
     (let k = PathValue c ''id'' in
      case ItemImage (seStore E) k (PathValue c ''type'') (svc_media sv) of
        Inl e \<Rightarrow>
          if e = ErrNoImage \<or> e = ErrNotFound then
            (case serveChannelLogo E k sv of
               (Some reply, sv') \<Rightarrow> (reply, sv')
             | (None, sv') \<Rightarrow> (writeError 404, sv'))
          else (writeError 500, sv)
      | Inr img \<Rightarrow>
          (serveFile E (imPath img) ([(''Content-Type'', imContentType img), (''Cache-Control'', ''private, max-age=86400'')] @
             (if imTag img \<noteq> [] then [(''ETag'', CHR 0x22 # imTag img @ [CHR 0x22])] else [])), sv))"

definition subtitleContentType :: "string \<Rightarrow> string" where
  "subtitleContentType format =
     (let f = ToLower format in
      if f = ''vtt'' then ''text/vtt; charset=utf-8''
      else if f = ''srt'' \<or> f = ''sub'' then ''application/x-subrip; charset=utf-8''
      else if f = ''ass'' \<or> f = ''ssa'' then ''text/x-ssa; charset=utf-8''
      else ''text/plain; charset=utf-8'')"

definition handleSubtitle :: "'s senv \<Rightarrow> rctx \<Rightarrow> 's server \<Rightarrow> reply \<times> 's server" where
  "handleSubtitle E c sv =
     (case Atoi (PathValue c ''index'') of
        (_, Some e) \<Rightarrow> (writeError 404, sv)
      | (index, None) \<Rightarrow>
          (case ItemSubtitle (seStore E) (PathValue c ''id'') index (svc_media sv) of
             Inl e \<Rightarrow> (writeError (if e = ErrNoImage \<or> e = ErrNotFound then 404 else 500), sv)
           | Inr track \<Rightarrow>
               (case seFile E (bPath track) of
                  None \<Rightarrow> (writeError 404, sv)
                | Some d \<Rightarrow>
                    let wantVTT = EqualFold (Ext (PathValue c ''file'')) ''.vtt'';
                        srcSRT = (bFormat track = ''srt'' \<or> bFormat track = ''sub'' \<or> bCodec track = ''subrip'');
                        ct = (if wantVTT then ''text/vtt; charset=utf-8'' else subtitleContentType (bFormat track));
                        d' = (if wantVTT \<and> srcSRT then SRTToVTT d else d)
                    in (bytes_reply [(''Content-Type'', ct), (''Cache-Control'', ''private, max-age=3600'')] d', sv))))"

definition handleEmbeddedSubtitle :: "'s senv \<Rightarrow> rctx \<Rightarrow> 's server \<Rightarrow> reply \<times> 's server" where
  "handleEmbeddedSubtitle E c sv =
     (if svTranscoder sv = None then (writeError 404, sv)
      else case Atoi (PathValue c ''index'') of
        (_, Some e) \<Rightarrow> (writeError 404, sv)
      | (index, None) \<Rightarrow>
          (case EmbeddedSubtitleInput (seStore E) (PathValue c ''id'') index (svc_media sv) of
             Inl e \<Rightarrow> (writeError 404, sv)
           | Inr input \<Rightarrow>
               (case ExtractSubtitle (seRun E) input index of
                  Inl e \<Rightarrow> (writeError 500, sv)
                | Inr d \<Rightarrow> (bytes_reply [(''Content-Type'', ''text/vtt; charset=utf-8''),
                    (''Cache-Control'', ''private, max-age=3600'')] d, sv))))"

section \<open>Playback\<close>

definition zeroSource :: MediaSourceInfo where
  "zeroSource = \<lparr>soProtocol = [], soID = [], soName = [], soIsRemote = False, soContainer = [], soSize = 0,
     soRunTimeTicks = 0, soSupportsDirectPlay = False, soSupportsDirectStream = False, soSupportsTranscoding = False,
     soMediaStreams = [], soRequiresOpening = False, soRequiresClosing = False, soTranscodingURL = [],
     soTranscodingSubProtocol = [], soTranscodingContainer = [], soIsInfiniteStream = False\<rparr>"

definition stream_dto :: "bool \<Rightarrow> string \<Rightarrow> string \<Rightarrow> MediaStreamInfo \<Rightarrow> MediaStream" where
  "stream_dto transcoding item token st =
     (let deliver = (iType st = ''Subtitle'' \<and> transcoding \<and> IsTextSubtitleCodec (iCodec st)) in
      \<lparr>mstType = iType st, mstIndex = iIndex st, mstCodec = iCodec st, mstLanguage = iLanguage st, mstChannels = iChannels st,
       mstWidth = iWidth st, mstHeight = iHeight st, mstTitle = iTitle st, mstIsDefault = iIsDefault st,
       mstIsForced = False, mstIsExternal = False, mstIsTextSubtitleStream = deliver,
       mstDeliveryMethod = (if deliver then ''External'' else []),
       mstDeliveryURL = (if deliver then ''/Videos/'' @ item @ ''/Subtitles/embedded/'' @ Itoa (iIndex st)
          @ ''/Stream.vtt?api_key='' @ QueryEscape token else []),
       mstDisplayTitle = []\<rparr>)"

definition sidecar_dto :: "string \<Rightarrow> string \<Rightarrow> nat \<Rightarrow> nat \<times> SubtitleTrack \<Rightarrow> MediaStream" where
  "sidecar_dto item token base x =
     (case x of (i, sub) \<Rightarrow>
      \<lparr>mstType = ''Subtitle'', mstIndex = int (base + i), mstCodec = bCodec sub, mstLanguage = bLanguage sub, mstChannels = 0,
       mstWidth = 0, mstHeight = 0, mstTitle = bTitle sub, mstIsDefault = False, mstIsForced = bForced sub,
       mstIsExternal = True, mstIsTextSubtitleStream = True, mstDeliveryMethod = ''External'',
       mstDeliveryURL = ''/Videos/'' @ item @ ''/Subtitles/'' @ Itoa (int i) @ ''/Stream.vtt?api_key='' @ QueryEscape token,
       mstDisplayTitle = bTitle sub\<rparr>)"

definition mediaStreams :: "bool \<Rightarrow> MediaItem \<Rightarrow> string \<Rightarrow> MediaStream list" where
  "mediaStreams transcoding it token =
     map (stream_dto transcoding (mID it) token) (mStreams it) @
     map (sidecar_dto (mID it) token (length (mStreams it))) (enumerate 0 (mSubtitles it))"

definition mediaSource :: "bool \<Rightarrow> MediaItem \<Rightarrow> string \<Rightarrow> MediaSourceInfo" where
  "mediaSource transcoding it token =
     (let src = zeroSource\<lparr>soProtocol := ''File'', soID := mID it, soName := mName it, soContainer := mContainer it,
            soSize := mSizeBytes it, soRunTimeTicks := mRunTimeTicks it, soSupportsDirectPlay := True,
            soSupportsDirectStream := True, soMediaStreams := mediaStreams transcoding it token\<rparr>
      in if transcoding then src\<lparr>soSupportsTranscoding := True, soTranscodingSubProtocol := ''hls'',
              soTranscodingContainer := ''ts'',
              soTranscodingURL := ''/Videos/'' @ mID it @ ''/master.m3u8?api_key='' @ QueryEscape token\<rparr>
         else src)"

definition channelPlaybackInfo :: "'s senv \<Rightarrow> rctx \<Rightarrow> 's server \<Rightarrow> string \<Rightarrow> string \<Rightarrow> reply" where
  "channelPlaybackInfo E c sv cid name =
     (let playSession = (case NewID (seRnd E 1) of Inl e \<Rightarrow> [] | Inr i \<Rightarrow> i);
          src = zeroSource\<lparr>soProtocol := ''File'', soID := cid, soName := name, soIsRemote := True, soContainer := ''ts'',
            soIsInfiniteStream := True\<rparr>;
          src = (if svTranscoder sv \<noteq> None then src\<lparr>soSupportsTranscoding := True, soTranscodingSubProtocol := ''hls'',
              soTranscodingContainer := ''ts'',
              soTranscodingURL := ''/Videos/'' @ cid @ ''/live.m3u8?api_key='' @ QueryEscape (caToken (cxAuth c))\<rparr> else src)
      in writeJSON 200 (PlaybackInfo \<lparr>prMediaSources = [src], prPlaySessionID = playSession\<rparr>))"

definition recordingPlaybackInfo :: "string \<Rightarrow> string \<Rightarrow> reply" where
  "recordingPlaybackInfo k name =
     writeJSON 200 (PlaybackInfo \<lparr>prMediaSources = [zeroSource\<lparr>soProtocol := ''File'', soID := k, soName := name,
        soContainer := ''ts'', soSupportsDirectPlay := True, soSupportsDirectStream := True\<rparr>], prPlaySessionID = k\<rparr>)"

text \<open>A channel of Live TV, and a completed recording.\<close>

definition live_channel :: "'s server \<Rightarrow> string \<Rightarrow> Channel option" where
  "live_channel sv k = (case svLiveTv sv of None \<Rightarrow> None | Some l \<Rightarrow> lv_Channel k l)"

definition completed_recording :: "'s senv \<Rightarrow> 's server \<Rightarrow> string \<Rightarrow> Recording option" where
  "completed_recording E sv k =
     (case svRecorder sv of
        None \<Rightarrow> None
      | Some r \<Rightarrow> (case dvr_Recording (seStore E) k (svc_dvr sv r) of
          None \<Rightarrow> None
        | Some rec \<Rightarrow> if rStatus rec = RecCompleted then Some rec else None))"

definition handlePlaybackInfo :: "'s senv \<Rightarrow> rctx \<Rightarrow> 's server \<Rightarrow> reply \<times> 's server" where
  "handlePlaybackInfo E c sv =
     (let k = PathValue c ''itemId'' in
      case live_channel sv k of
        Some ch \<Rightarrow> (channelPlaybackInfo E c sv (chID ch) (chName ch), sv)
      | None \<Rightarrow> (case completed_recording E sv k of
          Some rec \<Rightarrow> (recordingPlaybackInfo (rID rec) (rName rec), sv)
        | None \<Rightarrow> (case media_Item (seStore E) k (svc_media sv) of
            Inl e \<Rightarrow> (writeError (if e = ErrNotFound then 404 else 500), sv)
          | Inr it \<Rightarrow> (case NewID (seRnd E 1) of
              Inl e \<Rightarrow> (writeError 500, sv)
            | Inr playSession \<Rightarrow>
                (writeJSON 200 (PlaybackInfo \<lparr>prMediaSources =
                   [mediaSource (svTranscoder sv \<noteq> None) it (caToken (cxAuth c))], prPlaySessionID = playSession\<rparr>), sv)))))"

definition recording_path :: "'s senv \<Rightarrow> 's server \<Rightarrow> string \<Rightarrow> string option" where
  "recording_path E sv k =
     (case svRecorder sv of None \<Rightarrow> None | Some r \<Rightarrow> StreamPath (dvr_env E sv) (seStore E) k (svc_dvr sv r))"

definition handleVideoStream :: "'s senv \<Rightarrow> rctx \<Rightarrow> 's server \<Rightarrow> reply \<times> 's server" where
  "handleVideoStream E c sv =
     (let k = PathValue c ''id''; file = PathValue c ''file'' in
      if file \<noteq> [] \<and> \<not> HasPrefix file ''stream'' then (writeError 404, sv)
      else case ItemStream (seStore E) k (svc_media sv) of
        Inl e \<Rightarrow> (case recording_path E sv k of
            Some path \<Rightarrow> (serveFile E path [(''Content-Type'', ''video/mp2t'')], sv)
          | None \<Rightarrow> (writeError (if e = ErrNotFound then 404 else 500), sv))
      | Inr st \<Rightarrow> (serveFile E (stPath st) [(''Content-Type'', stContentType st)], sv))"

definition maxPlaybackBody :: nat where "maxPlaybackBody = 2 ^ 20"

definition handlePlaybackReport :: "'s senv \<Rightarrow> rctx \<Rightarrow> 's server \<Rightarrow> reply \<times> 's server" where
  "handlePlaybackReport E c sv =
     (let info = seProgressBody E (take maxPlaybackBody (rqBody (cxReq c))) in
      case cxUser c of
        None \<Rightarrow> (noContent, sv)
      | Some u \<Rightarrow>
          if ppItemID info = [] then (noContent, sv)
          else (noContent, sv\<lparr>svStore := snd (ReportPosition (seStore E) (seClk E 1) (uID u) (ppItemID info)
                  (ppPositionTicks info) (svStore sv))\<rparr>))"

end
