(* ===== verification/ShowProps.thy ===== *)
theory ShowProps
  imports HandlersMedia MediaProofs
begin

text \<open>
  \<open>handlers_shows.go\<close>: what \<open>nextUp\<close> lists, over any episodes and any playback data; and what
  \<open>handleItemsLatest\<close> makes of a limit of zero.
\<close>

section \<open>What to watch next\<close>

text \<open>The first and the last place of a list where a test holds.\<close>

fun first_index :: "('a \<Rightarrow> bool) \<Rightarrow> 'a list \<Rightarrow> nat option" where
  "first_index p [] = None"
| "first_index p (x # xs) = (if p x then Some 0 else map_option Suc (first_index p xs))"

fun last_index_of :: "('a \<Rightarrow> bool) \<Rightarrow> 'a list \<Rightarrow> nat option" where
  "last_index_of p [] = None"
| "last_index_of p (x # xs) = (case last_index_of p xs of Some j \<Rightarrow> Some (Suc j) | None \<Rightarrow> if p x then Some 0 else None)"

lemma first_index_Some: "first_index p xs = Some i \<longleftrightarrow> i < length xs \<and> p (xs ! i) \<and> (\<forall>j < i. \<not> p (xs ! j))"
proof (induction xs arbitrary: i)
  case (Cons x xs)
  then show ?case by (cases i) (auto simp: All_less_Suc2)
qed simp

lemma first_index_None: "first_index p xs = None \<longleftrightarrow> (\<forall>x \<in> set xs. \<not> p x)"
  by (induction xs) auto

lemma last_index_None: "last_index_of p xs = None \<longleftrightarrow> (\<forall>x \<in> set xs. \<not> p x)"
  by (induction xs) (auto split: option.splits)

lemma ball_greater_Suc: "(\<forall>j \<in> {i<..<Suc n}. q j) \<longleftrightarrow> (\<forall>j. i \<le> j \<and> j < n \<longrightarrow> q (Suc j))"
proof (intro iffI ballI allI impI)
  fix j assume "\<forall>j. i \<le> j \<and> j < n \<longrightarrow> q (Suc j)" "j \<in> {i<..<Suc n}"
  then show "q j" by (cases j) auto
qed auto

lemma last_index_Some: "last_index_of p xs = Some i \<longleftrightarrow> i < length xs \<and> p (xs ! i) \<and> (\<forall>j \<in> {i<..<length xs}. \<not> p (xs ! j))"
proof (induction xs arbitrary: i)
  case (Cons x xs)
  have none: "last_index_of p xs = None \<longleftrightarrow> (\<forall>j < length xs. \<not> p (xs ! j))" by (simp add: last_index_None all_set_conv_all_nth)
  show ?case
  proof (cases i)
    case 0
    have "(\<forall>j \<in> {0<..<length (x # xs)}. \<not> p ((x # xs) ! j)) \<longleftrightarrow> (\<forall>j < length xs. \<not> p (xs ! j))"
      by (simp add: ball_greater_Suc)
    with 0 none show ?thesis by (auto split: option.splits)
  next
    case (Suc k)
    have "(\<forall>j \<in> {Suc k<..<length (x # xs)}. \<not> p ((x # xs) ! j)) \<longleftrightarrow> (\<forall>j \<in> {k<..<length xs}. \<not> p (xs ! j))"
      by (auto simp: ball_greater_Suc)
    with Suc Cons.IH [of k] show ?thesis by (auto split: option.splits)
  qed
qed simp

text \<open>A watched episode, a started one, and the last time anything of a list was played.\<close>

definition watched :: "UserItemData gomap \<Rightarrow> MediaItem \<Rightarrow> bool" where
  "watched ud e = (case map_get ud (mID e) of None \<Rightarrow> False | Some d \<Rightarrow> dPlayed d)"

definition started :: "UserItemData gomap \<Rightarrow> MediaItem \<Rightarrow> bool" where
  "started ud e = (case map_get ud (mID e) of None \<Rightarrow> False | Some d \<Rightarrow> \<not> dPlayed d \<and> dPlaybackPositionTicks d > 0)"

definition last_seen :: "UserItemData gomap \<Rightarrow> MediaItem list \<Rightarrow> time" where
  "last_seen ud l = fold max (map dLastPlayedAt (List.map_filter (\<lambda>e. map_get ud (mID e)) l)) zeroTime"

lemma watch_loop_spec:
  "watch_loop ud i l w =
     \<lparr>wsLastPlayed = (case last_index_of (watched ud) l of None \<Rightarrow> wsLastPlayed w | Some j \<Rightarrow> Some (i + j)),
      wsInProgress = (case wsInProgress w of Some k \<Rightarrow> Some k | None \<Rightarrow> map_option ((+) i) (first_index (started ud) l)),
      wsActivity = fold max (map dLastPlayedAt (List.map_filter (\<lambda>e. map_get ud (mID e)) l)) (wsActivity w)\<rparr>"
proof (induction l arbitrary: i w)
  case (Cons e es)
  have plus: "(+) (Suc n) = (\<lambda>k. Suc (n + k))" for n by (simp add: fun_eq_iff)
  show ?case
  proof (cases "map_get ud (mID e)")
    case None
    then have "\<not> watched ud e" "\<not> started ud e" by (simp_all add: watched_def started_def)
    with None show ?thesis
      by (auto simp: Cons.IH map_filter_simps option.map_comp comp_def plus split: option.splits)
  next
    case (Some d)
    then have s: "watched ud e = dPlayed d" "started ud e = (\<not> dPlayed d \<and> dPlaybackPositionTicks d > 0)"
      by (simp_all add: watched_def started_def)
    show ?thesis
      by (cases "dPlayed d"; cases "dPlaybackPositionTicks d > 0"; cases "wsInProgress w")
        (auto simp: Cons.IH Some s map_filter_simps option.map_comp comp_def plus Let_def After_def max_def split: option.splits)
  qed
qed (simp add: map_filter_simps split: option.splits)

text \<open>The episode to watch next, of the episodes of a series.\<close>

definition next_in_series :: "UserItemData gomap \<Rightarrow> MediaItem list \<Rightarrow> MediaItem \<Rightarrow> bool" where
  "next_in_series ud l e \<longleftrightarrow> (\<exists>i < length l. l ! i = e \<and>
     (started ud e \<and> (\<forall>j < i. \<not> started ud (l ! j)) \<or>
      (\<forall>x \<in> set l. \<not> started ud x) \<and> i > 0 \<and> watched ud (l ! (i - 1)) \<and> (\<forall>j < length l. i \<le> j \<longrightarrow> \<not> watched ud (l ! j))))"

lemma series_pick_sound:
  assumes "series_pick ud l = Some (e, t)"
  shows "next_in_series ud l e \<and> t = last_seen ud l"
proof -
  note w = watch_loop_spec [of ud 0 l "\<lparr>wsLastPlayed = None, wsInProgress = None, wsActivity = zeroTime\<rparr>"]
  have t: "t = last_seen ud l" using assms by (auto simp: series_pick_def w Let_def last_seen_def split: option.splits if_splits)
  show ?thesis
  proof (cases "first_index (started ud) l")
    case (Some i)
    then have "e = l ! i" using assms by (simp add: series_pick_def w Let_def)
    with Some t show ?thesis by (auto simp: first_index_Some next_in_series_def)
  next
    case None
    then obtain i where i: "last_index_of (watched ud) l = Some i" "i + 1 < length l" "e = l ! (i + 1)"
      using assms by (auto simp: series_pick_def w Let_def split: option.splits if_splits)
    then have "\<forall>j < length l. i + 1 \<le> j \<longrightarrow> \<not> watched ud (l ! j)" "watched ud (l ! i)" by (auto simp: last_index_Some)
    with i None t show ?thesis unfolding next_in_series_def first_index_None by (intro conjI exI [of _ "i + 1"]) auto
  qed
qed

lemma series_pick_complete:
  assumes "next_in_series ud l e"
  shows "series_pick ud l = Some (e, last_seen ud l)"
proof -
  note w = watch_loop_spec [of ud 0 l "\<lparr>wsLastPlayed = None, wsInProgress = None, wsActivity = zeroTime\<rparr>"]
  obtain i where i: "i < length l" "l ! i = e" and c: "started ud e \<and> (\<forall>j < i. \<not> started ud (l ! j)) \<or>
      (\<forall>x \<in> set l. \<not> started ud x) \<and> i > 0 \<and> watched ud (l ! (i - 1)) \<and> (\<forall>j < length l. i \<le> j \<longrightarrow> \<not> watched ud (l ! j))"
    using assms by (auto simp: next_in_series_def)
  from c show ?thesis
  proof (elim disjE conjE)
    assume "started ud e" "\<forall>j < i. \<not> started ud (l ! j)"
    with i have "first_index (started ud) l = Some i" by (simp add: first_index_Some)
    then show ?thesis using i by (simp add: series_pick_def w Let_def last_seen_def)
  next
    assume a: "\<forall>x \<in> set l. \<not> started ud x" "i > 0" "watched ud (l ! (i - 1))" "\<forall>j < length l. i \<le> j \<longrightarrow> \<not> watched ud (l ! j)"
    then have "last_index_of (watched ud) l = Some (i - 1)" using i by (auto simp: last_index_Some)
    moreover have "first_index (started ud) l = None" using a(1) by (simp add: first_index_None)
    ultimately show ?thesis using i a(2) by (simp add: series_pick_def w Let_def last_seen_def)
  qed
qed

lemma series_pick_exact: "series_pick ud l = Some (e, t) \<longleftrightarrow> next_in_series ud l e \<and> t = last_seen ud l"
  using series_pick_sound [of ud l e t] series_pick_complete [of ud l e] by blast

text \<open>The episodes grouped by their series.\<close>

definition series_of :: "MediaItem list \<Rightarrow> string \<Rightarrow> MediaItem list" where
  "series_of eps sid = filter (\<lambda>e. mSeriesID e = sid) eps"

lemma group_series_spec: "map_wf (group_series eps) \<and>
    (\<forall>sid. map_get (group_series eps) sid = (if series_of eps sid = [] then None else Some (series_of eps sid)))"
proof (induction eps rule: rev_induct)
  case Nil
  then show ?case by (simp add: group_series_def series_of_def)
next
  case (snoc e eps)
  let ?m = "group_series eps" and ?sid = "mSeriesID e"
  have step: "group_series (eps @ [e]) = (case map_get ?m ?sid of None \<Rightarrow> ?m @ [(?sid, [e])] | Some l \<Rightarrow> map_set ?sid (l @ [e]) ?m)"
    unfolding group_series_def by simp
  have s: "series_of (eps @ [e]) k = series_of eps k @ (if ?sid = k then [e] else [])" for k by (simp add: series_of_def)
  have IH: "map_wf ?m" "\<And>k. map_get ?m k = (if series_of eps k = [] then None else Some (series_of eps k))" using snoc by simp_all
  show ?case
  proof (cases "series_of eps ?sid = []")
    case True
    then have n: "map_get ?m ?sid = None" by (simp add: IH(2))
    then have "?sid \<notin> fst ` set ?m" unfolding map_of_eq_None_iff .
    then have "map_wf (group_series (eps @ [e]))" using IH(1) unfolding step n by (simp add: map_wf_def map_of_eq_None_iff)
    then show ?thesis unfolding step n by (auto simp: s IH(2) True map_add_def)
  qed (simp add: step s IH)
qed

lemma group_series_in: "(sid, l) \<in> set (group_series eps) \<longleftrightarrow> l = series_of eps sid \<and> l \<noteq> []"
proof -
  have "(sid, l) \<in> set (group_series eps) \<longleftrightarrow> map_get (group_series eps) sid = Some l"
    by (rule map_wf_in [OF conjunct1 [OF group_series_spec]])
  then show ?thesis using group_series_spec [of eps] by auto
qed

text \<open>What the list is sorted from.\<close>

definition candidates :: "MediaItem list \<Rightarrow> UserItemData gomap \<Rightarrow> (MediaItem \<times> time) list" where
  "candidates eps ud = List.map_filter (\<lambda>(sid, l). series_pick ud l) (group_series eps)"

lemma next_in_series_in: "next_in_series ud l e \<Longrightarrow> e \<in> set l"
  by (auto simp: next_in_series_def)

lemma candidates_in: "(e, t) \<in> set (candidates eps ud) \<longleftrightarrow>
    next_in_series ud (series_of eps (mSeriesID e)) e \<and> t = last_seen ud (series_of eps (mSeriesID e))"
proof -
  have "(e, t) \<in> set (candidates eps ud) \<longleftrightarrow> (\<exists>sid l. (sid, l) \<in> set (group_series eps) \<and> series_pick ud l = Some (e, t))"
    unfolding candidates_def set_map_filter by force
  also have "\<dots> \<longleftrightarrow> next_in_series ud (series_of eps (mSeriesID e)) e \<and> t = last_seen ud (series_of eps (mSeriesID e))"
  proof -
    have "sid = mSeriesID e" if "next_in_series ud (series_of eps sid) e" for sid
      using next_in_series_in [OF that] by (simp add: series_of_def)
    moreover have "series_of eps sid \<noteq> []" if "next_in_series ud (series_of eps sid) e" for sid
      using next_in_series_in [OF that] by auto
    ultimately show ?thesis unfolding group_series_in series_pick_exact by metis
  qed
  finally show ?thesis .
qed

lemma candidates_distinct: "distinct (map (mSeriesID \<circ> fst) (candidates eps ud))"
proof -
  have "distinct (map (mSeriesID \<circ> fst) (List.map_filter (\<lambda>(sid, l). series_pick ud l) gs)) \<and>
      set (map (mSeriesID \<circ> fst) (List.map_filter (\<lambda>(sid, l). series_pick ud l) gs)) \<subseteq> fst ` set gs"
    if "distinct (map fst gs)" "\<forall>(sid, l) \<in> set gs. \<forall>e \<in> set l. mSeriesID e = sid" for gs
    using that
  proof (induction gs)
    case (Cons g gs)
    obtain sid l where g: "g = (sid, l)" by fastforce
    show ?case
    proof (cases "series_pick ud l")
      case (Some et)
      obtain e t where et: "et = (e, t)" by fastforce
      have "mSeriesID e = sid" using series_pick_sound [of ud l e t] next_in_series_in [of ud l e] Some et Cons.prems(2) g by auto
      then show ?thesis using Cons g Some et by (auto simp: map_filter_simps)
    qed (use Cons g in \<open>auto simp: map_filter_simps\<close>)
  qed (simp add: map_filter_simps)
  moreover have "\<forall>(sid, l) \<in> set (group_series eps). \<forall>e \<in> set l. mSeriesID e = sid"
    by (auto simp: group_series_in series_of_def)
  ultimately show ?thesis unfolding candidates_def using group_series_spec [unfolded map_wf_def] by blast
qed

text \<open>C38. Next Up is what it says: of every series it lists the one episode that is in progress, the first if there are several, or
  else the one right after the last watched, and nothing of a series that is not started or is at its end; at most one
  episode of a series, the series played most recently first.\<close>

theorem next_up_exact:
  "(e \<in> set (nextUp eps ud) \<longleftrightarrow> next_in_series ud (series_of eps (mSeriesID e)) e) \<and>
   distinct (map mSeriesID (nextUp eps ud)) \<and>
   sorted_wrt (\<lambda>a b. last_seen ud (series_of eps (mSeriesID b)) \<le> last_seen ud (series_of eps (mSeriesID a))) (nextUp eps ud)"
proof -
  let ?c = "candidates eps ud" and ?lt = "\<lambda>a b :: MediaItem \<times> time. After (snd a) (snd b)"
  have n: "nextUp eps ud = map fst (SliceStable ?lt ?c)" by (simp add: nextUp_def candidates_def)
  have "e \<in> set (nextUp eps ud) \<longleftrightarrow> (\<exists>t. (e, t) \<in> set ?c)" unfolding n by force
  moreover have "distinct (map mSeriesID (nextUp eps ud))"
  proof -
    have "mset (map (mSeriesID \<circ> fst) (SliceStable ?lt ?c)) = mset (map (mSeriesID \<circ> fst) ?c)" by simp
    with candidates_distinct [of eps ud] show ?thesis unfolding n by (metis mset_eq_imp_distinct_iff map_map)
  qed
  moreover have "sorted_wrt (\<lambda>a b. last_seen ud (series_of eps (mSeriesID b)) \<le> last_seen ud (series_of eps (mSeriesID a))) (nextUp eps ud)"
  proof -
    have "sorted_wrt (\<lambda>a b. \<not> ?lt b a) (SliceStable ?lt ?c)" by (rule SliceStable_sorted) (auto simp: After_def)
    then have "sorted_wrt (\<lambda>a b. last_seen ud (series_of eps (mSeriesID (fst b))) \<le> last_seen ud (series_of eps (mSeriesID (fst a)))) (SliceStable ?lt ?c)"
      by (rule sorted_wrt_mono_rel [rotated]) (auto simp: After_def candidates_in)
    then show ?thesis by (simp add: n sorted_wrt_map)
  qed
  ultimately show ?thesis by (simp add: candidates_in)
qed

section \<open>Latest items\<close>

text \<open>A limit of zero or less, no limit to the other handlers, leaves at most the newest item.\<close>

lemma latest_zero_limit:
  assumes "limit \<le> 0"
  shows "latest_loop limit (it # its) [] = (if isFolderType (mType it) then [] else [it])"
  using assms by (simp add: Let_def)

text \<open>With a positive limit the newest playable items are taken.\<close>

lemma latest_limit:
  assumes "int (length acc) < limit"
  shows "latest_loop limit its acc = acc @ take (nat limit - length acc) (filter (\<lambda>it. \<not> isFolderType (mType it)) its)"
  using assms
proof (induction its arbitrary: acc)
  case (Cons it its)
  show ?case
  proof (cases "isFolderType (mType it)")
    case True
    with Cons show ?thesis by (simp add: Let_def)
  next
    case False
    show ?thesis
    proof (cases "int (length acc) + 1 \<ge> limit")
      case True
      with Cons.prems have "nat limit - length acc = 1" by simp
      with True False show ?thesis by (simp add: Let_def)
    next
      case more: False
      then have "nat limit - length acc = Suc (nat limit - length (acc @ [it]))" by simp
      with more False Cons.IH [of "acc @ [it]"] show ?thesis by (simp add: Let_def)
    qed
  qed
qed simp

end
