(* ===== verification/HandlersTv.thy ===== *)
theory HandlersTv
  imports HandlersMedia
begin

text \<open>
  The handlers of \<open>handlers_hls.go\<close>, \<open>handlers_livetv.go\<close>, \<open>handlers_livetv_stream.go\<close> and
  \<open>handlers_dvr.go\<close>. Readings of the clock from 1 on, in the order the code asks for them; \<open>seMkdir i\<close>,
  \<open>seStart i\<close> and \<open>sePlaylist i\<close> are the answers to the first (0) and the second (1) session of a request.
\<close>

section \<open>Adaptive streams\<close>

definition hlsStartTicks :: "request \<Rightarrow> int" where
  "hlsStartTicks r =
     (let v = QueryGet r ''StartTimeTicks''; v = (if v = [] then QueryGet r ''startTimeTicks'' else v); n = fst (ParseInt v)
      in if n < 0 then 0 else n)"

definition hlsSessionKey :: "string \<Rightarrow> int \<Rightarrow> string \<Rightarrow> string" where
  "hlsSessionKey item startTicks quality = item @ '':'' @ Itoa startTicks @ '':'' @ quality"

definition url_suffix :: "string \<Rightarrow> int \<Rightarrow> string" where
  "url_suffix token startTicks = ''?api_key='' @ QueryEscape token @
     (if startTicks > 0 then ''&StartTimeTicks='' @ Itoa startTicks else [])"

definition playlist_header :: "string gomap" where
  "playlist_header = [(''Content-Type'', ''application/vnd.apple.mpegurl''), (''Cache-Control'', ''no-cache'')]"

definition writePlaylist :: "string \<Rightarrow> reply" where
  "writePlaylist d = bytes_reply playlist_header d"

definition newline :: string where "newline = [CHR 0x0A]"

definition master_entry :: "string \<Rightarrow> int \<Rightarrow> Rendition \<Rightarrow> string" where
  "master_entry token startTicks rd =
     ''#EXT-X-STREAM-INF:BANDWIDTH='' @ Itoa (rdBandwidth rd) @
     (if rdWidth rd > 0 \<and> rdHeight rd > 0 then '',RESOLUTION='' @ Itoa (rdWidth rd) @ ''x'' @ Itoa (rdHeight rd) else []) @
     newline @ ''hls/'' @ PathEscape (rdName rd) @ ''/main.m3u8'' @ url_suffix token startTicks @ newline"

definition master_playlist :: "string \<Rightarrow> int \<Rightarrow> Rendition list \<Rightarrow> string" where
  "master_playlist token startTicks rds =
     ''#EXTM3U'' @ newline @ ''#EXT-X-VERSION:3'' @ newline @ concat (map (master_entry token startTicks) rds)"

definition handleHlsMaster :: "'s senv \<Rightarrow> rctx \<Rightarrow> 's server \<Rightarrow> reply \<times> 's server" where
  "handleHlsMaster E c sv =
     (if svTranscoder sv = None then (writeError 404, sv)
      else case media_Item (seStore E) (PathValue c ''id'') (svc_media sv) of
        Inl e \<Rightarrow> (writeError 404, sv)
      | Inr it \<Rightarrow> (writePlaylist (master_playlist (caToken (cxAuth c)) (hlsStartTicks (cxReq c))
            (SelectRenditions (mWidth it) (mHeight it) (mBitrate it))), sv))"

definition findRendition :: "Rendition list \<Rightarrow> string \<Rightarrow> Rendition option" where
  "findRendition rs name = find (\<lambda>rd. rdName rd = name) rs"

definition rewrite_line :: "string \<Rightarrow> string \<Rightarrow> string \<Rightarrow> string" where
  "rewrite_line pre q line =
     (let trimmed = TrimSpace line in
      if trimmed = [] \<or> HasPrefix trimmed ''#'' then line else pre @ PathEscape trimmed @ q)"

definition rewriteSegments :: "string \<Rightarrow> string \<Rightarrow> string \<Rightarrow> int \<Rightarrow> string" where
  "rewriteSegments playlist pre token startTicks =
     Join (map (rewrite_line pre (url_suffix token startTicks)) (Split playlist (CHR 0x0A))) newline"

text \<open>Starting a session and answering its playlist, as both playlist handlers do.\<close>

definition playlist_reply :: "'s senv \<Rightarrow> rctx \<Rightarrow> 's server \<Rightarrow> hlsManager \<Rightarrow> string \<Rightarrow> string \<Rightarrow> string \<Rightarrow> Rendition \<Rightarrow> reply \<times> 's server" where
  "playlist_reply E c sv m key input pre rd =
     (let ticks = hlsStartTicks (cxReq c) in
      case EnsureSession (seMkdir E 0) (seStart E 0) (seClk E 1) key input (ticksToSeconds ticks) rd m of
        (Inl e, m1) \<Rightarrow> (writeError 500, sv\<lparr>svTranscoder := Some m1\<rparr>)
      | (Inr s, m1) \<Rightarrow>
          (case Playlist (seClk E 2) (seClk E 3) (sePlaylist E 0) key m1 of (res, m2) \<Rightarrow>
             (case res of
                None \<Rightarrow> still_waiting
              | Some (Inl e) \<Rightarrow> writeError 503
              | Some (Inr d) \<Rightarrow> writePlaylist (rewriteSegments d pre (caToken (cxAuth c)) ticks),
              sv\<lparr>svTranscoder := Some m2\<rparr>)))"

definition handleHlsVariant :: "'s senv \<Rightarrow> rctx \<Rightarrow> 's server \<Rightarrow> reply \<times> 's server" where
  "handleHlsVariant E c sv =
     (case svTranscoder sv of
        None \<Rightarrow> (writeError 404, sv)
      | Some m \<Rightarrow>
          let k = PathValue c ''id''; quality = PathValue c ''quality'' in
          (case media_Item (seStore E) k (svc_media sv) of
             Inl e \<Rightarrow> (writeError 404, sv)
           | Inr it \<Rightarrow> (case findRendition (SelectRenditions (mWidth it) (mHeight it) (mBitrate it)) quality of
               None \<Rightarrow> (writeError 404, sv)
             | Some rd \<Rightarrow> (case ItemStream (seStore E) k (svc_media sv) of
                 Inl e \<Rightarrow> (writeError 404, sv)
               | Inr st \<Rightarrow> playlist_reply E c sv m (hlsSessionKey k (hlsStartTicks (cxReq c)) quality) (stPath st) [] rd))))"

definition handleHlsPlaylist :: "'s senv \<Rightarrow> rctx \<Rightarrow> 's server \<Rightarrow> reply \<times> 's server" where
  "handleHlsPlaylist E c sv =
     (case svTranscoder sv of
        None \<Rightarrow> (writeError 404, sv)
      | Some m \<Rightarrow>
          let k = PathValue c ''id'' in
          (case ItemStream (seStore E) k (svc_media sv) of
             Inl e \<Rightarrow> (writeError 404, sv)
           | Inr st \<Rightarrow> playlist_reply E c sv m (hlsSessionKey k (hlsStartTicks (cxReq c)) (rdName AutoRendition))
                 (stPath st) ''hls/'' AutoRendition))"

definition serveSegment :: "'s senv \<Rightarrow> 's server \<Rightarrow> hlsManager \<Rightarrow> string \<Rightarrow> string \<Rightarrow> reply \<times> 's server" where
  "serveSegment E sv m key seg =
     (case Segment (seClk E 1) (seClk E 2) (seSegment E) key seg m of (res, m1) \<Rightarrow>
        (case res of
           None \<Rightarrow> still_waiting
         | Some (Inl e) \<Rightarrow> writeError 404
         | Some (Inr path) \<Rightarrow> serveFile E path [(''Content-Type'', ''video/mp2t''), (''Cache-Control'', ''no-cache'')],
         sv\<lparr>svTranscoder := Some m1\<rparr>))"

definition handleHlsVariantSegment :: "'s senv \<Rightarrow> rctx \<Rightarrow> 's server \<Rightarrow> reply \<times> 's server" where
  "handleHlsVariantSegment E c sv =
     (case svTranscoder sv of
        None \<Rightarrow> (writeError 404, sv)
      | Some m \<Rightarrow> serveSegment E sv m
          (hlsSessionKey (PathValue c ''id'') (hlsStartTicks (cxReq c)) (PathValue c ''quality'')) (PathValue c ''seg''))"

definition handleHlsSegment :: "'s senv \<Rightarrow> rctx \<Rightarrow> 's server \<Rightarrow> reply \<times> 's server" where
  "handleHlsSegment E c sv =
     (case svTranscoder sv of
        None \<Rightarrow> (writeError 404, sv)
      | Some m \<Rightarrow> serveSegment E sv m
          (hlsSessionKey (PathValue c ''id'') (hlsStartTicks (cxReq c)) (rdName AutoRendition)) (PathValue c ''seg''))"

section \<open>Live streams\<close>

definition liveSessionKey :: "string \<Rightarrow> bool \<Rightarrow> string" where
  "liveSessionKey cid reencode = (if reencode then ''livetc:'' @ cid else ''live:'' @ cid)"

definition liveReencode :: "'s server \<Rightarrow> string \<Rightarrow> bool" where
  "liveReencode sv cid \<longleftrightarrow> cid \<in> set (svReencode sv)"

definition setLiveReencode :: "string \<Rightarrow> 's server \<Rightarrow> 's server" where
  "setLiveReencode cid sv = sv\<lparr>svReencode := cid # svReencode sv\<rparr>"

text \<open>The \<open>i\<close>-th attempt; \<open>None\<close> while its playlist is being waited for.\<close>

definition startLive :: "'s senv \<Rightarrow> nat \<Rightarrow> string \<Rightarrow> string \<Rightarrow> bool \<Rightarrow> hlsManager \<Rightarrow> (err + string) option \<times> hlsManager" where
  "startLive E i cid upstream reencode m =
     (let key = liveSessionKey cid reencode; now = seClk E (1 + 3 * i) in
      case (if reencode then EnsureLiveTranscodeSession (seMkdir E i) (seStart E i) now key upstream m
            else EnsureLiveSession (seMkdir E i) (seStart E i) now key upstream m) of
        (Inl e, m1) \<Rightarrow> (Some (Inl e), m1)
      | (Inr s, m1) \<Rightarrow> Playlist (seClk E (2 + 3 * i)) (seClk E (3 + 3 * i)) (sePlaylist E i) key m1)"

definition live_reply :: "rctx \<Rightarrow> (err + string) option \<Rightarrow> reply" where
  "live_reply c res =
     (case res of
        None \<Rightarrow> still_waiting
      | Some (Inl e) \<Rightarrow> writeError 503
      | Some (Inr d) \<Rightarrow> writePlaylist (rewriteSegments d ''live/'' (caToken (cxAuth c)) 0))"

definition handleLiveStream :: "'s senv \<Rightarrow> rctx \<Rightarrow> 's server \<Rightarrow> reply \<times> 's server" where
  "handleLiveStream E c sv =
     (case (svTranscoder sv, svLiveTv sv) of
        (Some m, Some l) \<Rightarrow>
          let k = PathValue c ''id'' in
          (case StreamURL k l of
             None \<Rightarrow> (writeError 404, sv)
           | Some upstream \<Rightarrow>
               (case startLive E 0 k upstream (liveReencode sv k) m of (res, m1) \<Rightarrow>
                  if res = Some (Inl ErrSessionFailed) \<and> \<not> liveReencode sv k then
                    (case startLive E 1 k upstream True (hls_Stop (liveSessionKey k False) m1) of (res2, m2) \<Rightarrow>
                       (live_reply c res2, (setLiveReencode k sv)\<lparr>svTranscoder := Some m2\<rparr>))
                  else (live_reply c res, sv\<lparr>svTranscoder := Some m1\<rparr>)))
      | _ \<Rightarrow> (writeError 404, sv))"

definition handleLiveSegment :: "'s senv \<Rightarrow> rctx \<Rightarrow> 's server \<Rightarrow> reply \<times> 's server" where
  "handleLiveSegment E c sv =
     (case svTranscoder sv of
        None \<Rightarrow> (writeError 404, sv)
      | Some m \<Rightarrow>
          let k = PathValue c ''id''
          in serveSegment E sv m (liveSessionKey k (liveReencode sv k)) (PathValue c ''seg''))"

section \<open>Channels and the guide\<close>

definition programToDto :: "'s senv \<Rightarrow> 's server \<Rightarrow> GuideEntry \<Rightarrow> 'p ItemDto" where
  "programToDto E sv e = zeroItemDto\<lparr>biName := pgTitle (geProgram e), biServerID := server_id E sv,
     biID := pgID (geProgram e), biType := ''Program'', biMediaType := ''Video'', biChannelID := geChannelID e,
     biOverview := pgDescription (geProgram e), biStartDate := seFormat E (pgStart (geProgram e)),
     biEndDate := seFormat E (pgStop (geProgram e))\<rparr>"

definition channelToDto :: "'s senv \<Rightarrow> time \<Rightarrow> 's server \<Rightarrow> Channel \<Rightarrow> BaseItemDto" where
  "channelToDto E now sv c =
     (let dto = zeroItemDto\<lparr>biName := chName c, biServerID := server_id E sv, biID := chID c, biType := ''TvChannel'',
            biMediaType := ''Video'', biChannelType := ''TV'', biNumber := chNumber c, biIsFolder := False\<rparr>;
          dto = (if chLogo c \<noteq> [] then dto\<lparr>biImageTags := [(''Primary'', chID c)]\<rparr> else dto)
      in case svLiveTv sv of
           None \<Rightarrow> dto
         | Some l \<Rightarrow> (case CurrentProgram (chID c) now l of
             None \<Rightarrow> dto
           | Some prog \<Rightarrow> dto\<lparr>biCurrentProgram := Some (programToDto E sv prog)\<rparr>))"

definition handleLiveTvInfo :: "'s senv \<Rightarrow> rctx \<Rightarrow> 's server \<Rightarrow> reply \<times> 's server" where
  "handleLiveTvInfo E c sv =
     (writeJSON 200 (TvInfo \<lparr>ltIsEnabled = liveTVEnabled sv, ltEnabledUsers = [],
        ltServices = [\<lparr>lsName = ''Cubozoa IPTV'', lsIsVisible = True, lsHasUpdateAvailable = False, lsStatus = ''Ok''\<rparr>]\<rparr>), sv)"

definition emptyResult :: reply where
  "emptyResult = writeJSON 200 (ItemPage (page_of [] 0 0))"

definition clamp :: "int \<Rightarrow> int \<Rightarrow> int \<Rightarrow> int" where
  "clamp v lo hi = (if v < lo then lo else if v > hi then hi else v)"

text \<open>The \<open>i\<close>-th channel of a page reads the clock as \<open>seClk (1 + i)\<close>.\<close>

definition handleLiveTvChannels :: "'s senv \<Rightarrow> rctx \<Rightarrow> 's server \<Rightarrow> reply \<times> 's server" where
  "handleLiveTvChannels E c sv =
     (case svLiveTv sv of
        None \<Rightarrow> (emptyResult, sv)
      | Some l \<Rightarrow>
          let channels = lv_Channels l; n = length channels;
              start = clamp (parseInt (QueryGet (cxReq c) ''StartIndex'') 0) 0 (int n);
              channels = drop (nat start) channels; limit = parseInt (QueryGet (cxReq c) ''Limit'') 0;
              channels = (if limit > 0 \<and> limit < int (length channels) then take (nat limit) channels else channels);
              items = map (\<lambda>(i, ch). channelToDto E (seClk E (1 + i)) sv ch) (enumerate 0 channels)
          in (writeJSON 200 (ItemPage (page_of items n start)), sv))"

definition handleLiveTvChannel :: "'s senv \<Rightarrow> rctx \<Rightarrow> 's server \<Rightarrow> reply \<times> 's server" where
  "handleLiveTvChannel E c sv =
     (case live_channel sv (PathValue c ''id'') of
        None \<Rightarrow> (writeError 404, sv)
      | Some ch \<Rightarrow> (writeJSON 200 (OneItem (channelToDto E (seClk E 1) sv ch)), sv))"

definition handleGuideInfo :: "'s senv \<Rightarrow> rctx \<Rightarrow> 's server \<Rightarrow> reply \<times> 's server" where
  "handleGuideInfo E c sv =
     (let now = seClk E 1;
          (start, stop) = (case svLiveTv sv of
              None \<Rightarrow> (now, now + 24 * Hour)
            | Some l \<Rightarrow> (case GuideWindow l of (gs, ge) \<Rightarrow>
                if \<not> IsZero gs \<and> \<not> IsZero ge then (gs, ge) else (now, now + 24 * Hour)))
      in (writeJSON 200 (Guide \<lparr>giStartDate = seFormat E start, giEndDate = seFormat E stop\<rparr>), sv))"

definition parseTimeOr :: "'s senv \<Rightarrow> string \<Rightarrow> time \<Rightarrow> time" where
  "parseTimeOr E s def = (case seParseTime E s of None \<Rightarrow> def | Some t \<Rightarrow> t)"

definition handlePrograms :: "'s senv \<Rightarrow> rctx \<Rightarrow> 's server \<Rightarrow> reply \<times> 's server" where
  "handlePrograms E c sv =
     (case svLiveTv sv of
        None \<Rightarrow> (emptyResult, sv)
      | Some l \<Rightarrow>
          let channelIDs = splitCSV (QueryGet (cxReq c) ''ChannelIds'');
              start = parseTimeOr E (QueryGet (cxReq c) ''MinStartDate'') (seClk E 1 - 6 * Hour);
              stop = parseTimeOr E (QueryGet (cxReq c) ''MaxStartDate'') (seClk E 2 + 24 * Hour);
              items = map (programToDto E sv) (Programs channelIDs start stop l)
          in (writeJSON 200 (ItemPage (page_of items (length items) 0)), sv))"

section \<open>Recordings and timers\<close>

definition jellyfinTimerStatus :: "string \<Rightarrow> string" where
  "jellyfinTimerStatus status =
     (if status = RecScheduled then ''New'' else if status = RecRecording then ''InProgress''
      else if status = RecCompleted then ''Completed'' else if status = RecCancelled then ''Cancelled'' else ''Error'')"

definition timerToDto :: "'s senv \<Rightarrow> 's server \<Rightarrow> Recording \<Rightarrow> TimerInfoDto" where
  "timerToDto E sv rec = \<lparr>tiID = rID rec, tiType = ''Timer'', tiServerID = server_id E sv, tiChannelID = rChannelID rec,
     tiProgramID = rProgramID rec, tiName = rName rec, tiStartDate = seFormat E (rStartAt rec),
     tiEndDate = seFormat E (rEndAt rec), tiStatus = jellyfinTimerStatus (rStatus rec)\<rparr>"

definition recordingToDto :: "'s senv \<Rightarrow> 's server \<Rightarrow> Recording \<Rightarrow> BaseItemDto" where
  "recordingToDto E sv rec =
     (let dto = zeroItemDto\<lparr>biName := rName rec, biServerID := server_id E sv, biID := rID rec, biType := ''Recording'',
            biMediaType := ''Video'', biChannelID := rChannelID rec, biStartDate := seFormat E (rStartAt rec),
            biEndDate := seFormat E (rEndAt rec), biLocationType := ''FileSystem''\<rparr>;
          d = TimeSub (rEndAt rec) (rStartAt rec)
      in if d > 0 then dto\<lparr>biRunTimeTicks := wrap64 (\<lfloor>Seconds d\<rfloor> * 10000000)\<rparr> else dto)"

definition maxTimerBody :: nat where "maxTimerBody = 64 * 2 ^ 10"

text \<open>The name of the channel of a timer and the name of the recording; \<open>None\<close> when Live TV does not know the
  channel.\<close>

definition timer_names :: "'s server \<Rightarrow> string \<Rightarrow> string \<Rightarrow> (string \<times> string) option" where
  "timer_names sv cid name =
     (case svLiveTv sv of
        None \<Rightarrow> Some ([], name)
      | Some l \<Rightarrow> (case lv_Channel cid l of
          None \<Rightarrow> None
        | Some ch \<Rightarrow> Some (chName ch, if name = [] then chName ch else name)))"

definition handleCreateTimer :: "'s senv \<Rightarrow> rctx \<Rightarrow> 's server \<Rightarrow> reply \<times> 's server" where
  "handleCreateTimer E c sv =
     (case svRecorder sv of
        None \<Rightarrow> (writeError 404, sv)
      | Some r \<Rightarrow> (case seTimerBody E (take maxTimerBody (rqBody (cxReq c))) of
          None \<Rightarrow> (writeError 400, sv)
        | Some req \<Rightarrow> (case (seParseTime E (ctStartDate req), seParseTime E (ctEndDate req)) of
            (Some start, Some stop) \<Rightarrow>
              if ctChannelID req = [] then (writeError 400, sv)
              else (case timer_names sv (ctChannelID req) (ctName req) of
                 None \<Rightarrow> (writeError 404, sv)
               | Some (chn, name) \<Rightarrow>
                   (case Schedule (dvr_env E sv) (seStore E) (\<lambda>i. seClk E (1 + i)) (seRnd E 1) (ctChannelID req) chn
                          (ctProgramID req) (if name = [] then ''Recording'' else name) start stop (svc_dvr sv r) of
                      (Inl e, r') \<Rightarrow> (writeError 400, put_dvr r' sv)
                    | (Inr rec, r') \<Rightarrow> (writeJSON 200 (OneTimer (timerToDto E sv rec)), put_dvr r' sv)))
          | _ \<Rightarrow> (writeError 400, sv))))"

definition handleTimers :: "'s senv \<Rightarrow> rctx \<Rightarrow> 's server \<Rightarrow> reply \<times> 's server" where
  "handleTimers E c sv =
     (let items = (case svRecorder sv of None \<Rightarrow> []
          | Some r \<Rightarrow> map (timerToDto E sv) (Timers (seStore E) (svc_dvr sv r)))
      in (writeJSON 200 (TimerPage (page_of items (length items) 0)), sv))"

definition handleCancelTimer :: "'s senv \<Rightarrow> rctx \<Rightarrow> 's server \<Rightarrow> reply \<times> 's server" where
  "handleCancelTimer E c sv =
     (case svRecorder sv of
        None \<Rightarrow> (writeError 404, sv)
      | Some r \<Rightarrow> (case dvr_Cancel (seStore E) (PathValue c ''id'') (svc_dvr sv r) of
          (e, r') \<Rightarrow> (if e \<noteq> None then writeError 404 else noContent, put_dvr r' sv)))"

definition seriesTimerToDto :: "'s senv \<Rightarrow> 's server \<Rightarrow> SeriesTimer \<Rightarrow> SeriesTimerInfoDto" where
  "seriesTimerToDto E sv st = \<lparr>srID = tID st, srType = ''SeriesTimer'', srServerID = server_id E sv,
     srChannelID = tChannelID st, srChannelName = tChannelName st, srName = tName st,
     srRecordAnyChannel = tRecordAnyChannel st, srRecordAnyTime = True\<rparr>"

text \<open>The source of programs \<open>main.go\<close> gives the recorder: the guide of all channels.\<close>

definition guide_airings :: "liveTv \<Rightarrow> time \<Rightarrow> time \<Rightarrow> Airing list" where
  "guide_airings l start stop =
     map (\<lambda>e. \<lparr>aiProgramID = pgID (geProgram e), aiChannelID = geChannelID e,
        aiChannelName = (case lv_Channel (geChannelID e) l of None \<Rightarrow> [] | Some ch \<Rightarrow> chName ch),
        aiTitle = pgTitle (geProgram e), aiStart = pgStart (geProgram e), aiStop = pgStop (geProgram e)\<rparr>)
       (Programs [] start stop l)"

definition series_names :: "'s server \<Rightarrow> CreateSeriesTimerRequest \<Rightarrow> (string \<times> string \<times> string) option" where
  "series_names sv req =
     (if csRecordAnyChannel req then Some ([], [], csName req)
      else if csChannelID req = [] then Some ([], [], csName req)
      else map_option (\<lambda>(ch, name). (csChannelID req, ch, name)) (timer_names sv (csChannelID req) (csName req)))"

definition handleCreateSeriesTimer :: "'s senv \<Rightarrow> rctx \<Rightarrow> 's server \<Rightarrow> reply \<times> 's server" where
  "handleCreateSeriesTimer E c sv =
     (case svRecorder sv of
        None \<Rightarrow> (writeError 404, sv)
      | Some r \<Rightarrow> (case seSeriesBody E (take maxTimerBody (rqBody (cxReq c))) of
          None \<Rightarrow> (writeError 400, sv)
        | Some req \<Rightarrow> (case series_names sv req of
            None \<Rightarrow> (writeError 404, sv)
          | Some (cid, chn, name) \<Rightarrow>
              if name = [] then (writeError 400, sv)
              else (case ScheduleSeries (dvr_env E sv) (seStore E) (seClk E 1) (seClk E 2) (\<lambda>i j. seClk E (3 + 4 * i + j))
                       (seRnd E 1) (\<lambda>i. seRnd E (2 + i)) (map_option guide_airings (svLiveTv sv)) cid chn name
                       (csRecordAnyChannel req) (svc_dvr sv r) of
                  (Inl e, r') \<Rightarrow> (writeError 400, put_dvr r' sv)
                | (Inr st, r') \<Rightarrow> (writeJSON 200 (OneSeries (seriesTimerToDto E sv st)), put_dvr r' sv)))))"

definition handleSeriesTimers :: "'s senv \<Rightarrow> rctx \<Rightarrow> 's server \<Rightarrow> reply \<times> 's server" where
  "handleSeriesTimers E c sv =
     (let items = (case svRecorder sv of None \<Rightarrow> []
          | Some r \<Rightarrow> map (seriesTimerToDto E sv) (SeriesTimers (seStore E) (svc_dvr sv r)))
      in (writeJSON 200 (SeriesPage (page_of items (length items) 0)), sv))"

definition handleCancelSeriesTimer :: "'s senv \<Rightarrow> rctx \<Rightarrow> 's server \<Rightarrow> reply \<times> 's server" where
  "handleCancelSeriesTimer E c sv =
     (case svRecorder sv of
        None \<Rightarrow> (writeError 404, sv)
      | Some r \<Rightarrow> (case CancelSeries (seStore E) (PathValue c ''id'') (svc_dvr sv r) of
          (e, r') \<Rightarrow> (if e \<noteq> None then writeError 404 else noContent, put_dvr r' sv)))"

definition handleRecordings :: "'s senv \<Rightarrow> rctx \<Rightarrow> 's server \<Rightarrow> reply \<times> 's server" where
  "handleRecordings E c sv =
     (case svRecorder sv of
        None \<Rightarrow> (emptyResult, sv)
      | Some r \<Rightarrow> with_user c sv (\<lambda>u.
          let recs = Recordings (seStore E) (svc_dvr sv r); udMap = user_map E u sv;
              items = map (\<lambda>rec. (recordingToDto E sv rec)\<lparr>biUserData := Some (userDataDto (rID rec) (map_get udMap (rID rec)))\<rparr>) recs
          in (writeJSON 200 (ItemPage (page_of items (length items) 0)), sv)))"

end
