(* ===== verification/Routes.thy ===== *)
theory Routes
  imports HandlersTv
begin

text \<open>
  The table of routes (\<open>routes.go\<close>) and the middleware around it (\<open>middleware.go\<close>, \<open>Server.Handler\<close>). \<open>serve\<close> is
  one request, from the outermost middleware to the handler and back. A redirect
  carries its bare path and no body. Logging is left out but for the request ID.
\<close>

section \<open>The table\<close>

text \<open>A handler by its name in the code.\<close>

datatype handler =
    HSystemInfoPublic
  | HPing
  | HHealth
  | HBrandingConfiguration
  | HBrandingCss
  | HUsersPublic
  | HAuthenticateByName
  | HQuickConnectEnabled
  | HSystemInfo
  | HUsersMe
  | HUsersList
  | HUserByID
  | HUserViews
  | HItems
  | HItemDetail
  | HItemsLatest
  | HNextUp
  | HSeasons
  | HEpisodes
  | HArtists
  | HResumeItems
  | HMarkPlayed
  | HMarkUnplayed
  | HAddFavorite
  | HRemoveFavorite
  | HPlaybackInfo
  | HHlsMaster
  | HHlsPlaylist
  | HHlsSegment
  | HHlsVariant
  | HHlsVariantSegment
  | HLiveStream
  | HLiveSegment
  | HSubtitle
  | HEmbeddedSubtitle
  | HVideoStream
  | HPlaybackReport
  | HItemImage
  | HVirtualFolders
  | HLibraryRefresh
  | HLiveTvInfo
  | HLiveTvChannels
  | HLiveTvChannel
  | HGuideInfo
  | HPrograms
  | HRecordings
  | HTimers
  | HCreateTimer
  | HCancelTimer
  | HSeriesTimers
  | HCreateSeriesTimer
  | HCancelSeriesTimer
  | HGetDisplayPreferences
  | HUpdateDisplayPreferences
  | H2FAStatus
  | H2FASetup
  | H2FAActivate
  | H2FADisable
  | H2FARecover
  | HLogout
  | HSessionCapabilities

datatype guard = Anonymous | RequireAuth | RequireAdmin

definition rt :: "string \<Rightarrow> string \<Rightarrow> guard \<Rightarrow> handler \<Rightarrow> (guard \<times> handler) route" where
  "rt meth pat g h = \<lparr>rtMethod = meth, rtPattern = pat, rtValue = (g, h)\<rparr>"

definition routes :: "(guard \<times> handler) route list" where
  "routes = [
     rt ''GET'' ''/System/Info/Public'' Anonymous HSystemInfoPublic,
     rt ''GET'' ''/System/Ping'' Anonymous HPing,
     rt ''POST'' ''/System/Ping'' Anonymous HPing,
     rt ''GET'' ''/health'' Anonymous HHealth,
     rt ''GET'' ''/Branding/Configuration'' Anonymous HBrandingConfiguration,
     rt ''GET'' ''/Branding/Css'' Anonymous HBrandingCss,
     rt ''GET'' ''/Branding/Css.css'' Anonymous HBrandingCss,
     rt ''GET'' ''/Users/Public'' Anonymous HUsersPublic,
     rt ''POST'' ''/Users/AuthenticateByName'' Anonymous HAuthenticateByName,
     rt ''GET'' ''/QuickConnect/Enabled'' Anonymous HQuickConnectEnabled,
     rt ''GET'' ''/System/Info'' RequireAuth HSystemInfo,
     rt ''GET'' ''/Users/Me'' RequireAuth HUsersMe,
     rt ''GET'' ''/Users'' RequireAdmin HUsersList,
     rt ''GET'' ''/Users/{id}'' RequireAuth HUserByID,
     rt ''GET'' ''/Users/{id}/Views'' RequireAuth HUserViews,
     rt ''GET'' ''/UserViews'' RequireAuth HUserViews,
     rt ''GET'' ''/Items'' RequireAuth HItems,
     rt ''GET'' ''/Items/{itemId}'' RequireAuth HItemDetail,
     rt ''GET'' ''/Items/Latest'' RequireAuth HItemsLatest,
     rt ''GET'' ''/Users/{userId}/Items'' RequireAuth HItems,
     rt ''GET'' ''/Users/{userId}/Items/Latest'' RequireAuth HItemsLatest,
     rt ''GET'' ''/Users/{userId}/Items/{itemId}'' RequireAuth HItemDetail,
     rt ''GET'' ''/Shows/NextUp'' RequireAuth HNextUp,
     rt ''GET'' ''/Shows/{seriesId}/Seasons'' RequireAuth HSeasons,
     rt ''GET'' ''/Shows/{seriesId}/Episodes'' RequireAuth HEpisodes,
     rt ''GET'' ''/Artists'' RequireAuth HArtists,
     rt ''GET'' ''/Artists/AlbumArtists'' RequireAuth HArtists,
     rt ''GET'' ''/Users/{userId}/Items/Resume'' RequireAuth HResumeItems,
     rt ''POST'' ''/Users/{userId}/PlayedItems/{itemId}'' RequireAuth HMarkPlayed,
     rt ''DELETE'' ''/Users/{userId}/PlayedItems/{itemId}'' RequireAuth HMarkUnplayed,
     rt ''POST'' ''/Users/{userId}/FavoriteItems/{itemId}'' RequireAuth HAddFavorite,
     rt ''DELETE'' ''/Users/{userId}/FavoriteItems/{itemId}'' RequireAuth HRemoveFavorite,
     rt ''GET'' ''/Items/{itemId}/PlaybackInfo'' RequireAuth HPlaybackInfo,
     rt ''POST'' ''/Items/{itemId}/PlaybackInfo'' RequireAuth HPlaybackInfo,
     rt ''GET'' ''/Videos/{id}/master.m3u8'' RequireAuth HHlsMaster,
     rt ''GET'' ''/Videos/{id}/main.m3u8'' RequireAuth HHlsPlaylist,
     rt ''GET'' ''/Videos/{id}/hls/{seg}'' RequireAuth HHlsSegment,
     rt ''GET'' ''/Videos/{id}/hls/{quality}/main.m3u8'' RequireAuth HHlsVariant,
     rt ''GET'' ''/Videos/{id}/hls/{quality}/{seg}'' RequireAuth HHlsVariantSegment,
     rt ''GET'' ''/Videos/{id}/live.m3u8'' RequireAuth HLiveStream,
     rt ''GET'' ''/Videos/{id}/live/{seg}'' RequireAuth HLiveSegment,
     rt ''GET'' ''/Videos/{id}/Subtitles/{index}/{file}'' RequireAuth HSubtitle,
     rt ''GET'' ''/Videos/{id}/Subtitles/embedded/{index}/{file}'' RequireAuth HEmbeddedSubtitle,
     rt ''GET'' ''/Videos/{id}/{file}'' RequireAuth HVideoStream,
     rt ''POST'' ''/Sessions/Playing'' RequireAuth HPlaybackReport,
     rt ''POST'' ''/Sessions/Playing/Progress'' RequireAuth HPlaybackReport,
     rt ''POST'' ''/Sessions/Playing/Stopped'' RequireAuth HPlaybackReport,
     rt ''GET'' ''/Items/{id}/Images/{type}'' RequireAuth HItemImage,
     rt ''GET'' ''/Items/{id}/Images/{type}/{index}'' RequireAuth HItemImage,
     rt ''GET'' ''/Library/VirtualFolders'' RequireAdmin HVirtualFolders,
     rt ''POST'' ''/Library/Refresh'' RequireAdmin HLibraryRefresh,
     rt ''GET'' ''/LiveTv/Info'' RequireAuth HLiveTvInfo,
     rt ''GET'' ''/LiveTv/Channels'' RequireAuth HLiveTvChannels,
     rt ''GET'' ''/LiveTv/Channels/{id}'' RequireAuth HLiveTvChannel,
     rt ''GET'' ''/LiveTv/GuideInfo'' RequireAuth HGuideInfo,
     rt ''GET'' ''/LiveTv/Programs'' RequireAuth HPrograms,
     rt ''POST'' ''/LiveTv/Programs'' RequireAuth HPrograms,
     rt ''GET'' ''/LiveTv/Recordings'' RequireAuth HRecordings,
     rt ''GET'' ''/LiveTv/Timers'' RequireAuth HTimers,
     rt ''POST'' ''/LiveTv/Timers'' RequireAuth HCreateTimer,
     rt ''DELETE'' ''/LiveTv/Timers/{id}'' RequireAuth HCancelTimer,
     rt ''GET'' ''/LiveTv/SeriesTimers'' RequireAuth HSeriesTimers,
     rt ''POST'' ''/LiveTv/SeriesTimers'' RequireAuth HCreateSeriesTimer,
     rt ''DELETE'' ''/LiveTv/SeriesTimers/{id}'' RequireAuth HCancelSeriesTimer,
     rt ''GET'' ''/DisplayPreferences/{id}'' RequireAuth HGetDisplayPreferences,
     rt ''POST'' ''/DisplayPreferences/{id}'' RequireAuth HUpdateDisplayPreferences,
     rt ''GET'' ''/Cubozoa/2FA/Status'' RequireAuth H2FAStatus,
     rt ''POST'' ''/Cubozoa/2FA/Setup'' RequireAuth H2FASetup,
     rt ''POST'' ''/Cubozoa/2FA/Activate'' RequireAuth H2FAActivate,
     rt ''POST'' ''/Cubozoa/2FA/Disable'' RequireAuth H2FADisable,
     rt ''POST'' ''/Cubozoa/2FA/Recover'' Anonymous H2FARecover,
     rt ''POST'' ''/Sessions/Logout'' RequireAuth HLogout,
     rt ''POST'' ''/Sessions/Capabilities/Full'' RequireAuth HSessionCapabilities]"

fun run_handler :: "handler \<Rightarrow> 's senv \<Rightarrow> rctx \<Rightarrow> 's server \<Rightarrow> reply \<times> 's server" where
  "run_handler HSystemInfoPublic = handleSystemInfoPublic"
| "run_handler HPing = handlePing"
| "run_handler HHealth = handleHealth"
| "run_handler HBrandingConfiguration = handleBrandingConfiguration"
| "run_handler HBrandingCss = handleBrandingCss"
| "run_handler HUsersPublic = handleUsersPublic"
| "run_handler HAuthenticateByName = handleAuthenticateByName"
| "run_handler HQuickConnectEnabled = handleQuickConnectEnabled"
| "run_handler HSystemInfo = handleSystemInfo"
| "run_handler HUsersMe = handleUsersMe"
| "run_handler HUsersList = handleUsersList"
| "run_handler HUserByID = handleUserByID"
| "run_handler HUserViews = handleUserViews"
| "run_handler HItems = handleItems"
| "run_handler HItemDetail = handleItemDetail"
| "run_handler HItemsLatest = handleItemsLatest"
| "run_handler HNextUp = handleNextUp"
| "run_handler HSeasons = handleSeasons"
| "run_handler HEpisodes = handleEpisodes"
| "run_handler HArtists = handleArtists"
| "run_handler HResumeItems = handleResumeItems"
| "run_handler HMarkPlayed = handleMarkPlayed"
| "run_handler HMarkUnplayed = handleMarkUnplayed"
| "run_handler HAddFavorite = handleAddFavorite"
| "run_handler HRemoveFavorite = handleRemoveFavorite"
| "run_handler HPlaybackInfo = handlePlaybackInfo"
| "run_handler HHlsMaster = handleHlsMaster"
| "run_handler HHlsPlaylist = handleHlsPlaylist"
| "run_handler HHlsSegment = handleHlsSegment"
| "run_handler HHlsVariant = handleHlsVariant"
| "run_handler HHlsVariantSegment = handleHlsVariantSegment"
| "run_handler HLiveStream = handleLiveStream"
| "run_handler HLiveSegment = handleLiveSegment"
| "run_handler HSubtitle = handleSubtitle"
| "run_handler HEmbeddedSubtitle = handleEmbeddedSubtitle"
| "run_handler HVideoStream = handleVideoStream"
| "run_handler HPlaybackReport = handlePlaybackReport"
| "run_handler HItemImage = handleItemImage"
| "run_handler HVirtualFolders = handleVirtualFolders"
| "run_handler HLibraryRefresh = handleLibraryRefresh"
| "run_handler HLiveTvInfo = handleLiveTvInfo"
| "run_handler HLiveTvChannels = handleLiveTvChannels"
| "run_handler HLiveTvChannel = handleLiveTvChannel"
| "run_handler HGuideInfo = handleGuideInfo"
| "run_handler HPrograms = handlePrograms"
| "run_handler HRecordings = handleRecordings"
| "run_handler HTimers = handleTimers"
| "run_handler HCreateTimer = handleCreateTimer"
| "run_handler HCancelTimer = handleCancelTimer"
| "run_handler HSeriesTimers = handleSeriesTimers"
| "run_handler HCreateSeriesTimer = handleCreateSeriesTimer"
| "run_handler HCancelSeriesTimer = handleCancelSeriesTimer"
| "run_handler HGetDisplayPreferences = handleGetDisplayPreferences"
| "run_handler HUpdateDisplayPreferences = handleUpdateDisplayPreferences"
| "run_handler H2FAStatus = handle2FAStatus"
| "run_handler H2FASetup = handle2FASetup"
| "run_handler H2FAActivate = handle2FAActivate"
| "run_handler H2FADisable = handle2FADisable"
| "run_handler H2FARecover = handle2FARecover"
| "run_handler HLogout = handleLogout"
| "run_handler HSessionCapabilities = handleSessionCapabilities"

section \<open>Middleware\<close>

definition requireAuth :: "('s senv \<Rightarrow> rctx \<Rightarrow> 's server \<Rightarrow> reply \<times> 's server) \<Rightarrow> 's senv \<Rightarrow> rctx \<Rightarrow> 's server \<Rightarrow> reply \<times> 's server" where
  "requireAuth nxt E c sv = (if cxUser c = None then (writeError 401, sv) else nxt E c sv)"

definition requireAdmin :: "('s senv \<Rightarrow> rctx \<Rightarrow> 's server \<Rightarrow> reply \<times> 's server) \<Rightarrow> 's senv \<Rightarrow> rctx \<Rightarrow> 's server \<Rightarrow> reply \<times> 's server" where
  "requireAdmin nxt = requireAuth (\<lambda>E c sv.
     case cxUser c of
       None \<Rightarrow> (writeError 403, sv)
     | Some u \<Rightarrow> if \<not> uIsAdmin u then (writeError 403, sv) else nxt E c sv)"

fun guarded :: "guard \<Rightarrow> ('s senv \<Rightarrow> rctx \<Rightarrow> 's server \<Rightarrow> reply \<times> 's server) \<Rightarrow> 's senv \<Rightarrow> rctx \<Rightarrow> 's server \<Rightarrow> reply \<times> 's server" where
  "guarded Anonymous h = h"
| "guarded RequireAuth h = requireAuth h"
| "guarded RequireAdmin h = requireAdmin h"

text \<open>\<open>http.Redirect\<close> without its body, and \<open>http.Error\<close>.\<close>

definition redirect_reply :: "string \<Rightarrow> reply" where
  "redirect_reply p = \<lparr>rsStatus = 301, rsHeader = [(''Location'', p)], rsBody = NoBody\<rparr>"

definition http_error :: "int \<Rightarrow> string gomap \<Rightarrow> string \<Rightarrow> reply" where
  "http_error status hdr msg = \<lparr>rsStatus = status,
     rsHeader = hdr @ [(''Content-Type'', ''text/plain; charset=utf-8''), (''X-Content-Type-Options'', ''nosniff'')],
     rsBody = Bytes (msg @ newline)\<rparr>"

definition mux_serve :: "'s senv \<Rightarrow> rctx \<Rightarrow> 's server \<Rightarrow> reply \<times> 's server" where
  "mux_serve E c sv =
     (case find_handler routes (rqMethod (cxReq c)) (rqPath (cxReq c)) of
        Redirect p \<Rightarrow> (redirect_reply p, sv)
      | MethodNotAllowed ms \<Rightarrow> (http_error 405 [(''Allow'', Join ms '', '')] ''Method Not Allowed'', sv)
      | NoRoute \<Rightarrow> (http_error 404 [] ''404 page not found'', sv)
      | Matched r pv \<Rightarrow> guarded (fst (rtValue r)) (run_handler (snd (rtValue r))) E (c\<lparr>cxPath := pv\<rparr>) sv)"

definition withAuthContext :: "'s senv \<Rightarrow> request \<Rightarrow> string \<Rightarrow> 's server \<Rightarrow> rctx \<times> 's server" where
  "withAuthContext E rq reqID sv =
     (let ca = ParseClientAuth rq;
          c = \<lparr>cxReq = rq, cxAuth = ca, cxUser = None, cxSession = None, cxRequestID = reqID, cxPath = []\<rparr>
      in if caToken ca = [] then (c, sv)
         else case ValidateToken (seStore E) (seClk E 0) (caToken ca) (svStore sv) of
           (Inl e, st) \<Rightarrow> (c, sv\<lparr>svStore := st\<rparr>)
         | (Inr (u, sess), st) \<Rightarrow> (c\<lparr>cxUser := Some u, cxSession := Some sess\<rparr>, sv\<lparr>svStore := st\<rparr>))"

definition stripEmbyPrefix :: "request \<Rightarrow> request" where
  "stripEmbyPrefix rq =
     (let p = TrimPrefix (rqPath rq) ''/emby''
      in if p \<noteq> rqPath rq then rq\<lparr>rqPath := (if p = [] then ''/'' else p)\<rparr> else rq)"

definition securityHeaders :: "request \<Rightarrow> string gomap" where
  "securityHeaders rq =
     [(''X-Content-Type-Options'', ''nosniff''), (''X-Frame-Options'', ''SAMEORIGIN''), (''Referrer-Policy'', ''no-referrer''),
      (''Cross-Origin-Resource-Policy'', ''same-site'')] @
     (if rqTLS rq then [(''Strict-Transport-Security'', ''max-age=31536000; includeSubDomains'')] else [])"

definition request_id :: "'s senv \<Rightarrow> string" where
  "request_id E = (case NewID (seRnd E 0) of Inl e \<Rightarrow> [] | Inr i \<Rightarrow> i)"

text \<open>The headers of the middleware are in place before the handler sets its own.\<close>

definition serve :: "'s senv \<Rightarrow> request \<Rightarrow> 's server \<Rightarrow> reply \<times> 's server" where
  "serve E rq sv =
     (let rq1 = stripEmbyPrefix rq;
          (c, sv1) = withAuthContext E rq1 (request_id E) sv;
          (rep, sv2) = mux_serve E c sv1;
          hdr = (''X-Request-Id'', request_id E) # securityHeaders rq
      in (rep\<lparr>rsHeader := fold (\<lambda>(k, v). map_set k v) (rsHeader rep) hdr\<rparr>, sv2))"

end
