(* ===== verification/ServerProofs.thy ===== *)
theory ServerProofs
  imports Routes
begin

text \<open>
  What requests change. Most handlers only read; the others change the parts of the server, and of the
  store, their names suggest. The locale \<open>own_store\<close> states what the store's operations preserve while one
  user is served; its lemmas carry that through every handler.
\<close>

section \<open>Handlers that only read\<close>

named_theorems readonly "handlers that leave the server as it is"

lemma with_user_same: "(\<And>u. cxUser c = Some u \<Longrightarrow> snd (f u) = sv) \<Longrightarrow> snd (with_user c sv f) = sv"
  by (simp add: with_user_def split: option.splits)

lemma for_user_same: "(\<And>uid. snd (f uid) = sv) \<Longrightarrow> snd (for_user c sv f) = sv"
  by (simp add: for_user_def with_user_def split: option.splits)

lemma item_page_same [readonly]: "snd (item_page E c sv res) = sv"
  by (simp add: item_page_def with_user_def split: sum.splits option.splits)

lemma read_SystemInfoPublic [readonly]: "snd (handleSystemInfoPublic E c sv) = sv"
  by (simp add: handleSystemInfoPublic_def Let_def item_page_same with_user_def for_user_def split: sum.splits option.splits prod.splits)

lemma read_Ping [readonly]: "snd (handlePing E c sv) = sv"
  by (simp add: handlePing_def Let_def item_page_same with_user_def for_user_def split: sum.splits option.splits prod.splits)

lemma read_Health [readonly]: "snd (handleHealth E c sv) = sv"
  by (simp add: handleHealth_def Let_def item_page_same with_user_def for_user_def split: sum.splits option.splits prod.splits)

lemma read_BrandingConfiguration [readonly]: "snd (handleBrandingConfiguration E c sv) = sv"
  by (simp add: handleBrandingConfiguration_def Let_def item_page_same with_user_def for_user_def split: sum.splits option.splits prod.splits)

lemma read_BrandingCss [readonly]: "snd (handleBrandingCss E c sv) = sv"
  by (simp add: handleBrandingCss_def Let_def item_page_same with_user_def for_user_def split: sum.splits option.splits prod.splits)

lemma read_UsersPublic [readonly]: "snd (handleUsersPublic E c sv) = sv"
  by (simp add: handleUsersPublic_def Let_def item_page_same with_user_def for_user_def split: sum.splits option.splits prod.splits)

lemma read_QuickConnectEnabled [readonly]: "snd (handleQuickConnectEnabled E c sv) = sv"
  by (simp add: handleQuickConnectEnabled_def Let_def item_page_same with_user_def for_user_def split: sum.splits option.splits prod.splits)

lemma read_SystemInfo [readonly]: "snd (handleSystemInfo E c sv) = sv"
  by (simp add: handleSystemInfo_def Let_def item_page_same with_user_def for_user_def split: sum.splits option.splits prod.splits)

lemma read_UsersMe [readonly]: "snd (handleUsersMe E c sv) = sv"
  by (simp add: handleUsersMe_def Let_def item_page_same with_user_def for_user_def split: sum.splits option.splits prod.splits)

lemma read_UsersList [readonly]: "snd (handleUsersList E c sv) = sv"
  by (simp add: handleUsersList_def Let_def item_page_same with_user_def for_user_def split: sum.splits option.splits prod.splits)

lemma read_UserByID [readonly]: "snd (handleUserByID E c sv) = sv"
  by (simp add: handleUserByID_def Let_def item_page_same with_user_def for_user_def split: sum.splits option.splits prod.splits)

lemma read_UserViews [readonly]: "snd (handleUserViews E c sv) = sv"
  by (simp add: handleUserViews_def Let_def item_page_same with_user_def for_user_def split: sum.splits option.splits prod.splits)

lemma read_Items [readonly]: "snd (handleItems E c sv) = sv"
  by (simp add: handleItems_def Let_def item_page_same with_user_def for_user_def split: sum.splits option.splits prod.splits)

lemma read_ItemDetail [readonly]: "snd (handleItemDetail E c sv) = sv"
  by (simp add: handleItemDetail_def Let_def item_page_same with_user_def for_user_def split: sum.splits option.splits prod.splits)

lemma read_ItemsLatest [readonly]: "snd (handleItemsLatest E c sv) = sv"
  by (simp add: handleItemsLatest_def Let_def item_page_same with_user_def for_user_def split: sum.splits option.splits prod.splits)

lemma read_NextUp [readonly]: "snd (handleNextUp E c sv) = sv"
  by (simp add: handleNextUp_def Let_def item_page_same with_user_def for_user_def split: sum.splits option.splits prod.splits)

lemma read_Seasons [readonly]: "snd (handleSeasons E c sv) = sv"
  by (simp add: handleSeasons_def Let_def item_page_same with_user_def for_user_def split: sum.splits option.splits prod.splits)

lemma read_Episodes [readonly]: "snd (handleEpisodes E c sv) = sv"
  by (simp add: handleEpisodes_def Let_def item_page_same with_user_def for_user_def split: sum.splits option.splits prod.splits)

lemma read_Artists [readonly]: "snd (handleArtists E c sv) = sv"
  by (simp add: handleArtists_def Let_def item_page_same with_user_def for_user_def split: sum.splits option.splits prod.splits)

lemma read_ResumeItems [readonly]: "snd (handleResumeItems E c sv) = sv"
  by (simp add: handleResumeItems_def Let_def item_page_same with_user_def for_user_def split: sum.splits option.splits prod.splits)

lemma read_PlaybackInfo [readonly]: "snd (handlePlaybackInfo E c sv) = sv"
  by (simp add: handlePlaybackInfo_def Let_def item_page_same with_user_def for_user_def split: sum.splits option.splits prod.splits)

lemma read_HlsMaster [readonly]: "snd (handleHlsMaster E c sv) = sv"
  by (simp add: handleHlsMaster_def Let_def item_page_same with_user_def for_user_def split: sum.splits option.splits prod.splits)

lemma read_Subtitle [readonly]: "snd (handleSubtitle E c sv) = sv"
  by (simp add: handleSubtitle_def Let_def item_page_same with_user_def for_user_def split: sum.splits option.splits prod.splits)

lemma read_EmbeddedSubtitle [readonly]: "snd (handleEmbeddedSubtitle E c sv) = sv"
  by (simp add: handleEmbeddedSubtitle_def Let_def item_page_same with_user_def for_user_def split: sum.splits option.splits prod.splits)

lemma read_VideoStream [readonly]: "snd (handleVideoStream E c sv) = sv"
  by (simp add: handleVideoStream_def Let_def item_page_same with_user_def for_user_def split: sum.splits option.splits prod.splits)

lemma read_VirtualFolders [readonly]: "snd (handleVirtualFolders E c sv) = sv"
  by (simp add: handleVirtualFolders_def Let_def item_page_same with_user_def for_user_def split: sum.splits option.splits prod.splits)

lemma read_LiveTvInfo [readonly]: "snd (handleLiveTvInfo E c sv) = sv"
  by (simp add: handleLiveTvInfo_def Let_def item_page_same with_user_def for_user_def split: sum.splits option.splits prod.splits)

lemma read_LiveTvChannels [readonly]: "snd (handleLiveTvChannels E c sv) = sv"
  by (simp add: handleLiveTvChannels_def Let_def item_page_same with_user_def for_user_def split: sum.splits option.splits prod.splits)

lemma read_LiveTvChannel [readonly]: "snd (handleLiveTvChannel E c sv) = sv"
  by (simp add: handleLiveTvChannel_def Let_def item_page_same with_user_def for_user_def split: sum.splits option.splits prod.splits)

lemma read_GuideInfo [readonly]: "snd (handleGuideInfo E c sv) = sv"
  by (simp add: handleGuideInfo_def Let_def item_page_same with_user_def for_user_def split: sum.splits option.splits prod.splits)

lemma read_Programs [readonly]: "snd (handlePrograms E c sv) = sv"
  by (simp add: handlePrograms_def Let_def item_page_same with_user_def for_user_def split: sum.splits option.splits prod.splits)

lemma read_Recordings [readonly]: "snd (handleRecordings E c sv) = sv"
  by (simp add: handleRecordings_def Let_def item_page_same with_user_def for_user_def split: sum.splits option.splits prod.splits)

lemma read_Timers [readonly]: "snd (handleTimers E c sv) = sv"
  by (simp add: handleTimers_def Let_def item_page_same with_user_def for_user_def split: sum.splits option.splits prod.splits)

lemma read_SeriesTimers [readonly]: "snd (handleSeriesTimers E c sv) = sv"
  by (simp add: handleSeriesTimers_def Let_def item_page_same with_user_def for_user_def split: sum.splits option.splits prod.splits)

lemma read_GetDisplayPreferences [readonly]: "snd (handleGetDisplayPreferences E c sv) = sv"
  by (simp add: handleGetDisplayPreferences_def Let_def item_page_same with_user_def for_user_def split: sum.splits option.splits prod.splits)

lemma read_UpdateDisplayPreferences [readonly]: "snd (handleUpdateDisplayPreferences E c sv) = sv"
  by (simp add: handleUpdateDisplayPreferences_def Let_def item_page_same with_user_def for_user_def split: sum.splits option.splits prod.splits)

lemma read_2FAStatus [readonly]: "snd (handle2FAStatus E c sv) = sv"
  by (simp add: handle2FAStatus_def Let_def item_page_same with_user_def for_user_def split: sum.splits option.splits prod.splits)

lemma read_SessionCapabilities [readonly]: "snd (handleSessionCapabilities E c sv) = sv"
  by (simp add: handleSessionCapabilities_def Let_def item_page_same with_user_def for_user_def split: sum.splits option.splits prod.splits)

section \<open>Handlers that do not touch the store\<close>

definition quiet :: "'s server \<Rightarrow> 's server \<Rightarrow> bool" where
  "quiet sv sv' \<longleftrightarrow> svStore sv' = svStore sv \<and> svLimiter sv' = svLimiter sv \<and> svRecorder sv' = svRecorder sv"

named_theorems quiets "handlers that leave the store as it is"

lemma quiet_refl [simp]: "quiet sv sv"
  by (simp add: quiet_def)

lemma playlist_reply_quiet [quiets]: "quiet sv (snd (playlist_reply E c sv m key input pre rd))"
  by (simp add: playlist_reply_def quiet_def Let_def split: sum.splits prod.splits)

lemma serveSegment_quiet [quiets]: "quiet sv (snd (serveSegment E sv m key seg))"
  by (simp add: serveSegment_def quiet_def split: prod.splits)

lemma serveChannelLogo_quiet [quiets]: "quiet sv (snd (serveChannelLogo E k sv))"
  by (simp add: serveChannelLogo_def quiet_def split: prod.splits option.splits)

lemma quiet_HlsPlaylist [quiets]: "quiet sv (snd (handleHlsPlaylist E c sv))"
  by (simp add: handleHlsPlaylist_def Let_def playlist_reply_quiet serveSegment_quiet split: sum.splits option.splits)

lemma quiet_HlsVariant [quiets]: "quiet sv (snd (handleHlsVariant E c sv))"
  by (simp add: handleHlsVariant_def Let_def playlist_reply_quiet serveSegment_quiet split: sum.splits option.splits)

lemma quiet_HlsSegment [quiets]: "quiet sv (snd (handleHlsSegment E c sv))"
  by (simp add: handleHlsSegment_def Let_def playlist_reply_quiet serveSegment_quiet split: sum.splits option.splits)

lemma quiet_HlsVariantSegment [quiets]: "quiet sv (snd (handleHlsVariantSegment E c sv))"
  by (simp add: handleHlsVariantSegment_def Let_def playlist_reply_quiet serveSegment_quiet split: sum.splits option.splits)

lemma quiet_LiveSegment [quiets]: "quiet sv (snd (handleLiveSegment E c sv))"
  by (simp add: handleLiveSegment_def Let_def playlist_reply_quiet serveSegment_quiet split: sum.splits option.splits)

lemma quiet_LiveStream [quiets]: "quiet sv (snd (handleLiveStream E c sv))"
  by (simp add: handleLiveStream_def Let_def quiet_def setLiveReencode_def split: option.splits prod.splits)

lemma quiet_ItemImage [quiets]: "quiet sv (snd (handleItemImage E c sv))"
  using serveChannelLogo_quiet [of sv E "PathValue c ''id''"]
  by (auto simp: handleItemImage_def Let_def split: sum.splits option.splits prod.splits)

section \<open>The limiter\<close>

lemma audit_frame [simp]: "svStore (auditEvent_log e a sv) = svStore sv" "svLimiter (auditEvent_log e a sv) = svLimiter sv"
  "svRecorder (auditEvent_log e a sv) = svRecorder sv"
  by (simp_all add: auditEvent_log_def split: option.splits)

lemma put_dvr_frame [simp]: "svLimiter (put_dvr r sv) = svLimiter sv" "svStore (put_dvr r sv) = dvStore r"
  by (simp_all add: put_dvr_def)

lemma item_state_frame [simp]: "svLimiter (snd (item_state k sv res)) = svLimiter sv" "svStore (snd (item_state k sv res)) = snd res"
  by (simp_all add: item_state_def split: prod.splits)

named_theorems limiter_kept "handlers that leave the limiter as it is"

lemma limiter_Logout [limiter_kept]: "svLimiter (snd (handleLogout E c sv)) = svLimiter sv"
  by (simp add: handleLogout_def Let_def with_user_def for_user_def split: sum.splits option.splits prod.splits)

lemma limiter_2FASetup [limiter_kept]: "svLimiter (snd (handle2FASetup E c sv)) = svLimiter sv"
  by (simp add: handle2FASetup_def Let_def with_user_def for_user_def split: sum.splits option.splits prod.splits)

lemma limiter_2FAActivate [limiter_kept]: "svLimiter (snd (handle2FAActivate E c sv)) = svLimiter sv"
  by (simp add: handle2FAActivate_def Let_def with_user_def for_user_def split: sum.splits option.splits prod.splits)

lemma limiter_2FADisable [limiter_kept]: "svLimiter (snd (handle2FADisable E c sv)) = svLimiter sv"
  by (simp add: handle2FADisable_def Let_def with_user_def for_user_def split: sum.splits option.splits prod.splits)

lemma limiter_MarkPlayed [limiter_kept]: "svLimiter (snd (handleMarkPlayed E c sv)) = svLimiter sv"
  by (simp add: handleMarkPlayed_def Let_def with_user_def for_user_def split: sum.splits option.splits prod.splits)

lemma limiter_MarkUnplayed [limiter_kept]: "svLimiter (snd (handleMarkUnplayed E c sv)) = svLimiter sv"
  by (simp add: handleMarkUnplayed_def Let_def with_user_def for_user_def split: sum.splits option.splits prod.splits)

lemma limiter_AddFavorite [limiter_kept]: "svLimiter (snd (handleAddFavorite E c sv)) = svLimiter sv"
  by (simp add: handleAddFavorite_def srv_setFavorite_def Let_def with_user_def for_user_def split: sum.splits option.splits prod.splits)

lemma limiter_RemoveFavorite [limiter_kept]: "svLimiter (snd (handleRemoveFavorite E c sv)) = svLimiter sv"
  by (simp add: handleRemoveFavorite_def srv_setFavorite_def Let_def with_user_def for_user_def split: sum.splits option.splits prod.splits)

lemma limiter_PlaybackReport [limiter_kept]: "svLimiter (snd (handlePlaybackReport E c sv)) = svLimiter sv"
  by (simp add: handlePlaybackReport_def Let_def with_user_def for_user_def split: sum.splits option.splits prod.splits)

lemma limiter_LibraryRefresh [limiter_kept]: "svLimiter (snd (handleLibraryRefresh E c sv)) = svLimiter sv"
  by (simp add: handleLibraryRefresh_def Let_def with_user_def for_user_def split: sum.splits option.splits prod.splits)

lemma limiter_CreateTimer [limiter_kept]: "svLimiter (snd (handleCreateTimer E c sv)) = svLimiter sv"
  by (simp add: handleCreateTimer_def Let_def with_user_def for_user_def split: sum.splits option.splits prod.splits)

lemma limiter_CancelTimer [limiter_kept]: "svLimiter (snd (handleCancelTimer E c sv)) = svLimiter sv"
  by (simp add: handleCancelTimer_def Let_def with_user_def for_user_def split: sum.splits option.splits prod.splits)

lemma limiter_CreateSeriesTimer [limiter_kept]: "svLimiter (snd (handleCreateSeriesTimer E c sv)) = svLimiter sv"
  by (simp add: handleCreateSeriesTimer_def Let_def with_user_def for_user_def split: sum.splits option.splits prod.splits)

lemma limiter_CancelSeriesTimer [limiter_kept]: "svLimiter (snd (handleCancelSeriesTimer E c sv)) = svLimiter sv"
  by (simp add: handleCancelSeriesTimer_def Let_def with_user_def for_user_def split: sum.splits option.splits prod.splits)

lemma limiter_run:
  assumes "h \<noteq> HAuthenticateByName" "h \<noteq> H2FARecover"
  shows "svLimiter (snd (run_handler h E c sv)) = svLimiter sv"
  using assms by (cases h) (simp_all add: readonly limiter_kept quiets [unfolded quiet_def])

section \<open>What a user may change\<close>

text \<open>A property of the store that the operations preserve while they serve the user \<open>uid\<close>: those on accounts and
  on playback data as far as they concern that user, those on sessions, recordings and timers always.\<close>

definition serves_user :: "'s Store \<Rightarrow> ('s \<Rightarrow> bool) \<Rightarrow> string \<Rightarrow> 's senv \<Rightarrow> rctx \<Rightarrow> 's server \<Rightarrow> bool" where
  "serves_user S P uid E c sv \<longleftrightarrow> seStore E = S \<and> P (svStore sv) \<and> (\<forall>u. cxUser c = Some u \<longrightarrow> uID u = uid \<and> \<not> uIsAdmin u)"

locale own_store =
  fixes S :: "'s Store" and P :: "'s \<Rightarrow> bool" and uid :: string
  assumes get_own: "P s \<Longrightarrow> GetUserByID S uid s = Inr u \<Longrightarrow> uID u = uid"
    and update_own: "P s \<Longrightarrow> uID u = uid \<Longrightarrow> P (snd (UpdateUser S u s))"
    and get_data: "P s \<Longrightarrow> GetUserItemData S uid i s = Inr d \<Longrightarrow> userDataKey (dUserID d) (dItemID d) = userDataKey uid i"
    and upsert_own: "P s \<Longrightarrow> userDataKey (dUserID d) (dItemID d) = userDataKey uid i \<Longrightarrow> P (snd (UpsertUserItemData S d s))"
    and delete_session: "P s \<Longrightarrow> P (snd (DeleteSession S k s))"
    and touch_session: "P s \<Longrightarrow> P (snd (TouchSession S now k s))"
    and create_recording: "P s \<Longrightarrow> P (snd (CreateRecording S rec s))"
    and update_recording: "P s \<Longrightarrow> P (snd (UpdateRecording S rec s))"
    and create_series: "P s \<Longrightarrow> P (snd (CreateSeriesTimer S st s))"
    and delete_series: "P s \<Longrightarrow> P (snd (DeleteSeriesTimer S k s))"
begin

text \<open>The same with the answer split into its parts.\<close>

lemma update_ownD: "UpdateUser S u s = (e, s') \<Longrightarrow> P s \<Longrightarrow> uID u = uid \<Longrightarrow> P s'"
  and upsert_ownD: "UpsertUserItemData S d s = (e, s') \<Longrightarrow> P s \<Longrightarrow> userDataKey (dUserID d) (dItemID d) = userDataKey uid i \<Longrightarrow> P s'"
  using update_own [of s u] upsert_own [of s d i] by simp_all

lemma own_validate: "P s \<Longrightarrow> P (snd (ValidateToken S now token s))"
  by (simp add: ValidateToken_def touch_session split: sum.splits)

lemma own_logout: "P s \<Longrightarrow> P (snd (Logout S token s))"
  by (simp add: Logout_def delete_session split: sum.splits)

lemma own_begin: "P s \<Longrightarrow> P (snd (BeginTOTPSetup S rnd uid issuer account s))"
  using get_own [of s] by (auto simp: BeginTOTPSetup_def split: sum.splits prod.splits option.splits intro: update_ownD)

lemma own_activate: "P s \<Longrightarrow> P (snd (ActivateTOTP S rnd now uid code s))"
  using get_own [of s] by (auto simp: ActivateTOTP_def split: sum.splits prod.splits option.splits intro: update_ownD)

lemma own_disable: "P s \<Longrightarrow> P (snd (DisableTOTP S now uid code s))"
proof -
  assume p: "P s"
  have "P (snd (UpdateUser S (clearTOTP v) s))" if "uID v = uid" for v
    using update_own [OF p, of "clearTOTP v"] that by (simp add: clearTOTP_def)
  moreover have "uID (snd (consumeRecoveryCode u code)) = uID u" for u
    by (simp add: consumeRecoveryCode_def split: option.splits)
  ultimately show ?thesis using get_own [OF p] p
    by (fastforce simp: DisableTOTP_def split: sum.splits prod.splits bool.splits)
qed

lemma own_data: "P s \<Longrightarrow> userDataKey (dUserID (ud_Get S uid i s)) (dItemID (ud_Get S uid i s)) = userDataKey uid i"
  using get_data [of s i] by (auto simp: ud_Get_def zeroItemData_def split: sum.splits)

lemma own_played: "P s \<Longrightarrow> P (snd (MarkPlayed S now uid i s))"
  and own_unplayed: "P s \<Longrightarrow> P (snd (MarkUnplayed S uid i s))"
  and own_favorite: "P s \<Longrightarrow> P (snd (SetFavorite S uid i fav s))"
  and own_position: "P s \<Longrightarrow> P (snd (ReportPosition S now uid i ticks s))"
  using own_data [of s i] upsert_own [of s _ i]
  by (auto simp: MarkPlayed_def MarkUnplayed_def SetFavorite_def ReportPosition_def Let_def split: prod.splits intro: upsert_ownD)

lemma own_put_status: "P (dvStore r) \<Longrightarrow> P (dvStore (put_status S rec r))"
  by (simp add: put_status_def update_recording)

lemma own_maybeStart: "P (dvStore r) \<Longrightarrow> P (dvStore (snd (maybeStart ev S now later rec r)))"
  by (simp add: maybeStart_def Let_def own_put_status split: option.splits)

lemma own_Schedule: "P (dvStore r) \<Longrightarrow> P (dvStore (snd (Schedule ev S clk rnd cid cn pid name start stop r)))"
proof -
  assume p: "P (dvStore r)"
  have q: "P s'" if "CreateRecording S x (dvStore r) = (e, s')" for x e s'
    using create_recording [OF p, of x] that by simp
  have "P (dvStore r')" if "maybeStart ev S a b x (r\<lparr>dvStore := s'\<rparr>) = (y, r')" "P s'" for a b x s' y r'
    using own_maybeStart [of "r\<lparr>dvStore := s'\<rparr>" ev a b x] that by simp
  with p q show ?thesis by (force simp: Schedule_def Let_def split: sum.splits prod.splits option.splits)
qed

lemma own_airing: "P (dvStore r) \<Longrightarrow> P (dvStore (snd (scheduleFromAiring ev S clk rnd st a r)))"
  using own_Schedule [of r ev clk rnd "aiChannelID a" "aiChannelName a" "aiProgramID a" "aiTitle a" "aiStart a" "aiStop a"]
  by (cases "Schedule ev S clk rnd (aiChannelID a) (aiChannelName a) (aiProgramID a) (aiTitle a) (aiStart a) (aiStop a) r")
    (simp add: scheduleFromAiring_def Let_def own_put_status split: sum.splits)

lemma own_airings: "P (dvStore (snd (snd x))) \<Longrightarrow> P (dvStore (snd (snd (expand_airings ev S now clk rnd st as x))))"
proof (induction as arbitrary: x)
  case (Cons a as)
  obtain i recorded r where x: "x = (i, recorded, r)" by (cases x)
  have "P (dvStore (snd (scheduleFromAiring ev S (clk i) (rnd i) st a r)))" using Cons.prems own_airing by (simp add: x)
  then show ?case using Cons by (auto simp: x split: sum.splits prod.splits)
qed simp

lemma own_timers: "P (dvStore (snd (snd x))) \<Longrightarrow>
    P (dvStore (snd (snd (fold (\<lambda>st. expand_airings ev S now clk rnd st airings) timers x))))"
  by (induction timers arbitrary: x) (simp_all add: own_airings)

lemma own_expand: "P (dvStore r) \<Longrightarrow> P (dvStore (expandSeries ev S now clk rnd programs r))"
  by (simp add: expandSeries_def Let_def own_timers split: option.splits sum.splits)

lemma own_ScheduleSeries: "P (dvStore r) \<Longrightarrow>
    P (dvStore (snd (ScheduleSeries ev S created now clk idRnd rnd programs cid cn name any r)))"
proof -
  assume p: "P (dvStore r)"
  have "P s'" if "CreateSeriesTimer S x (dvStore r) = (e, s')" for x e s'
    using create_series [OF p, of x] that by simp
  with p show ?thesis
    by (simp add: ScheduleSeries_def Let_def own_expand split: sum.splits prod.splits option.splits)
qed

lemma own_Cancel: "P (dvStore r) \<Longrightarrow> P (dvStore (snd (dvr_Cancel S k r)))"
proof -
  assume p: "P (dvStore r)"
  have "P s'" if "UpdateRecording S x (dvStore r) = (e, s')" for x e s'
    using update_recording [OF p, of x] that by simp
  with p show ?thesis by (simp add: dvr_Cancel_def split: sum.splits prod.splits)
qed

lemma own_CancelSeries: "P (dvStore r) \<Longrightarrow> P (dvStore (snd (CancelSeries S k r)))"
  using delete_series [of "dvStore r" k] by (auto simp: CancelSeries_def split: prod.splits)

text \<open>Every handler but login, recovery and the rescan.\<close>

lemma own_with_user:
  assumes "serves_user S P uid E c sv" "\<And>u. cxUser c = Some u \<Longrightarrow> uID u = uid \<Longrightarrow> P (svStore (snd (f u)))"
  shows "P (svStore (snd (with_user c sv f)))"
  using assms by (simp add: with_user_def serves_user_def split: option.splits)

lemma own_for_user:
  assumes "serves_user S P uid E c sv" "P (svStore (snd (f uid)))"
  shows "P (svStore (snd (for_user c sv f)))"
  using assms by (auto simp: for_user_def with_user_def effectiveUserID_def serves_user_def split: option.splits)

lemma own_Logout: "serves_user S P uid E c sv \<Longrightarrow> P (svStore (snd (handleLogout E c sv)))"
  using own_logout [of "svStore sv"] by (simp add: handleLogout_def serves_user_def Let_def split: option.splits)

lemma own_2FASetup: "serves_user S P uid E c sv \<Longrightarrow> P (svStore (snd (handle2FASetup E c sv)))"
  unfolding handle2FASetup_def
proof (rule own_with_user, assumption)
  fix u assume s: "serves_user S P uid E c sv" "uID u = uid"
  then show "P (svStore (snd (case BeginTOTPSetup (seStore E) (seRnd E 1) (uID u) (cfServerName (seCfg E)) (uName u) (svStore sv) of
       (Inl e, st) \<Rightarrow> (writeError (if e = ErrTOTPAlreadyEnabled then 409 else 500), sv\<lparr>svStore := st\<rparr>)
     | (Inr setup, st) \<Rightarrow> (writeJSON 200 (Object [(''Secret'', JString (Secret setup)),
          (''ProvisioningUri'', JString (ProvisioningURI setup))]), sv\<lparr>svStore := st\<rparr>))))"
    using own_begin [of "svStore sv" "seRnd E 1" "cfServerName (seCfg E)" "uName u"]
    by (auto simp: serves_user_def split: prod.splits sum.splits)
qed

lemma own_2FAActivate: "serves_user S P uid E c sv \<Longrightarrow> P (svStore (snd (handle2FAActivate E c sv)))"
  using own_activate [of "svStore sv" "\<lambda>i. seRnd E (1 + i)" "seClk E 1"]
  by (auto simp: handle2FAActivate_def with_user_def serves_user_def split: option.splits prod.splits sum.splits) (metis snd_conv)+

lemma own_2FADisable: "serves_user S P uid E c sv \<Longrightarrow> P (svStore (snd (handle2FADisable E c sv)))"
  using own_disable [of "svStore sv" "seClk E 1"]
  by (auto simp: handle2FADisable_def with_user_def serves_user_def split: option.splits prod.splits sum.splits) (metis snd_conv)+

lemma own_MarkPlayed: "serves_user S P uid E c sv \<Longrightarrow> P (svStore (snd (handleMarkPlayed E c sv)))"
  and own_MarkUnplayed: "serves_user S P uid E c sv \<Longrightarrow> P (svStore (snd (handleMarkUnplayed E c sv)))"
  and own_AddFavorite: "serves_user S P uid E c sv \<Longrightarrow> P (svStore (snd (handleAddFavorite E c sv)))"
  and own_RemoveFavorite: "serves_user S P uid E c sv \<Longrightarrow> P (svStore (snd (handleRemoveFavorite E c sv)))"
  unfolding handleMarkPlayed_def handleMarkUnplayed_def handleAddFavorite_def handleRemoveFavorite_def srv_setFavorite_def Let_def
  by (rule own_for_user, assumption, simp add: serves_user_def own_played own_unplayed own_favorite)+

lemma own_PlaybackReport: "serves_user S P uid E c sv \<Longrightarrow> P (svStore (snd (handlePlaybackReport E c sv)))"
  by (simp add: handlePlaybackReport_def serves_user_def Let_def own_position split: option.splits)

lemma own_CreateTimer: "serves_user S P uid E c sv \<Longrightarrow> P (svStore (snd (handleCreateTimer E c sv)))"
proof -
  assume s: "serves_user S P uid E c sv"
  have d: "P (dvStore r')" if "Schedule ev S clk rnd cid cn pid name start stop (svc_dvr sv r) = (x, r')" for ev clk rnd cid cn pid name start stop r x r'
    using own_Schedule [of "svc_dvr sv r" ev clk rnd cid cn pid name start stop] s that by (simp add: svc_dvr_def serves_user_def)
  with s show ?thesis
    by (auto simp: handleCreateTimer_def serves_user_def split: option.splits prod.splits sum.splits)
qed

lemma own_CancelTimer: "serves_user S P uid E c sv \<Longrightarrow> P (svStore (snd (handleCancelTimer E c sv)))"
proof -
  assume s: "serves_user S P uid E c sv"
  have "P (dvStore (snd (dvr_Cancel S k (svc_dvr sv r))))" for k r
    using own_Cancel [of "svc_dvr sv r" k] s by (simp add: svc_dvr_def serves_user_def)
  with s show ?thesis by (auto simp: handleCancelTimer_def serves_user_def split: option.splits prod.splits) (metis snd_conv)
qed

lemma own_CreateSeriesTimer: "serves_user S P uid E c sv \<Longrightarrow> P (svStore (snd (handleCreateSeriesTimer E c sv)))"
proof -
  assume s: "serves_user S P uid E c sv"
  have "P (dvStore r')" if "ScheduleSeries ev S cr now clk idRnd rnd pr cid cn name any (svc_dvr sv r) = (x, r')" for ev cr now clk idRnd rnd pr cid cn name any r x r'
    using own_ScheduleSeries [of "svc_dvr sv r" ev cr now clk idRnd rnd pr cid cn name any] s that by (simp add: svc_dvr_def serves_user_def)
  with s show ?thesis
    by (auto simp: handleCreateSeriesTimer_def serves_user_def split: option.splits prod.splits sum.splits)
qed

lemma own_CancelSeriesTimer: "serves_user S P uid E c sv \<Longrightarrow> P (svStore (snd (handleCancelSeriesTimer E c sv)))"
proof -
  assume s: "serves_user S P uid E c sv"
  have "P (dvStore (snd (CancelSeries S k (svc_dvr sv r))))" for k r
    using own_CancelSeries [of "svc_dvr sv r" k] s by (simp add: svc_dvr_def serves_user_def)
  with s show ?thesis by (auto simp: handleCancelSeriesTimer_def serves_user_def split: option.splits prod.splits) (metis snd_conv)
qed

lemmas own_handlers = own_Logout own_2FASetup own_2FAActivate own_2FADisable own_MarkPlayed own_MarkUnplayed own_AddFavorite
  own_RemoveFavorite own_PlaybackReport own_CreateTimer own_CancelTimer own_CreateSeriesTimer own_CancelSeriesTimer

lemma own_run:
  assumes "serves_user S P uid E c sv" "h \<notin> {HAuthenticateByName, H2FARecover, HLibraryRefresh}"
  shows "P (svStore (snd (run_handler h E c sv)))"
  using assms(2) own_handlers [OF assms(1)] assms(1)
  by (cases h) (simp_all add: readonly quiets [unfolded quiet_def] serves_user_def)

end

section \<open>The JSON store\<close>

text \<open>The accounts and playback data of others, the libraries and the items are those of \<open>a0\<close>.\<close>

definition others_same :: "string \<Rightarrow> absstore \<Rightarrow> absstore \<Rightarrow> bool" where
  "others_same uid a0 a \<longleftrightarrow> (\<forall>k. k \<noteq> uid \<longrightarrow> aUsers a k = aUsers a0 k) \<and>
     (\<forall>k. (\<forall>i. k \<noteq> userDataKey uid i) \<longrightarrow> aUserData a k = aUserData a0 k) \<and>
     aLibraries a = aLibraries a0 \<and> aItems a = aItems a0"

definition json_own :: "string \<Rightarrow> absstore \<Rightarrow> jsonStore \<Rightarrow> bool" where
  "json_own uid a0 s \<longleftrightarrow> json_inv s \<and> others_same uid a0 (json_abs s)"

lemma json_own_step:
  assumes "json_own uid a0 s" "step_ok json_abs json_inv sp (json_abs s) p"
    "\<And>b. sp = Inr b \<Longrightarrow> others_same uid a0 (json_abs s) \<Longrightarrow> others_same uid a0 b"
  shows "json_own uid a0 (snd p)"
proof -
  have i: "json_inv (snd p)" "refines sp (json_abs s) (fst p) (json_abs (snd p))"
    using assms(2) by (simp_all add: step_ok_def)
  have o: "others_same uid a0 (json_abs s)" using assms(1) by (simp add: json_own_def)
  from i(2) have "others_same uid a0 (json_abs (snd p))"
    by (cases rule: refines_cases) (use o assms(3) in auto)
  with i(1) show ?thesis by (simp add: json_own_def)
qed

interpretation json_owner: own_store json_store "json_own uid a0" uid for uid a0
proof (unfold_locales, goal_cases)
  case (1 s u)
  then show ?case using json_users.user_key [of s uid u]
    by (auto simp: json_own_def json_GetUserByID_def get_or_lookup lookup_or_def split: option.splits)
next
  case (2 s u)
  then have "json_inv s" by (simp add: json_own_def)
  then show ?case unfolding json_store_sel
    by (rule json_own_step [OF 2(1) json_step_ok(2)]) (use 2 in \<open>auto simp: spec_UpdateUser_def others_same_def split: if_splits\<close>)
next
  case (3 s i d)
  then show ?case using json_userdata.userdata_key [of s "userDataKey uid i" d]
    by (auto simp: json_own_def json_GetUserItemData_def get_or_lookup lookup_or_def split: option.splits)
next
  case (4 s d i)
  then have "json_inv s" by (simp add: json_own_def)
  then show ?case unfolding json_store_sel
    by (rule json_own_step [OF 4(1) json_step_ok(9)]) (use 4 in \<open>auto simp: spec_UpsertUserItemData_def others_same_def\<close>)
next
  case (5 s k)
  then have "json_inv s" by (simp add: json_own_def)
  then show ?case unfolding json_store_sel
    by (rule json_own_step [OF 5 json_step_ok(4)]) (use 5 in \<open>auto simp: spec_DeleteSession_def others_same_def split: if_splits\<close>)
next
  case (6 s now k)
  then have "json_inv s" by (simp add: json_own_def)
  then show ?case unfolding json_store_sel
    by (rule json_own_step [OF 6 json_step_ok(5)]) (use 6 in \<open>auto simp: spec_TouchSession_def others_same_def split: option.splits\<close>)
next
  case (7 s rec)
  then have "json_inv s" by (simp add: json_own_def)
  then show ?case unfolding json_store_sel
    by (rule json_own_step [OF 7 json_step_ok(10)]) (use 7 in \<open>auto simp: spec_CreateRecording_def others_same_def\<close>)
next
  case (8 s rec)
  then have "json_inv s" by (simp add: json_own_def)
  then show ?case unfolding json_store_sel
    by (rule json_own_step [OF 8 json_step_ok(11)]) (use 8 in \<open>auto simp: spec_UpdateRecording_def others_same_def split: if_splits\<close>)
next
  case (9 s st)
  then have "json_inv s" by (simp add: json_own_def)
  then show ?case unfolding json_store_sel
    by (rule json_own_step [OF 9 json_step_ok(13)]) (use 9 in \<open>auto simp: spec_CreateSeriesTimer_def others_same_def\<close>)
next
  case (10 s k)
  then have "json_inv s" by (simp add: json_own_def)
  then show ?case unfolding json_store_sel
    by (rule json_own_step [OF 10 json_step_ok(14)]) (use 10 in \<open>auto simp: spec_DeleteSeriesTimer_def others_same_def split: if_splits\<close>)
qed

section \<open>From the request to the handler\<close>

definition anonymous_handlers :: "handler list" where
  "anonymous_handlers = [HSystemInfoPublic, HPing, HHealth, HBrandingConfiguration, HBrandingCss, HUsersPublic,
     HAuthenticateByName, HQuickConnectEnabled, H2FARecover]"

definition admin_handlers :: "handler list" where
  "admin_handlers = [HUsersList, HVirtualFolders, HLibraryRefresh]"

definition admitted :: "guard \<Rightarrow> User option \<Rightarrow> bool" where
  "admitted g u \<longleftrightarrow> (case g of Anonymous \<Rightarrow> True | RequireAuth \<Rightarrow> u \<noteq> None | RequireAdmin \<Rightarrow> \<exists>v. u = Some v \<and> uIsAdmin v)"

lemma guard_table: "\<forall>r \<in> set routes. fst (rtValue r) =
    (if snd (rtValue r) \<in> set anonymous_handlers then Anonymous
     else if snd (rtValue r) \<in> set admin_handlers then RequireAdmin else RequireAuth)"
  by (simp add: routes_def rt_def anonymous_handlers_def admin_handlers_def)

text \<open>The context the middleware makes of a request, and the server it passes on.\<close>

definition in_context :: "'s senv \<Rightarrow> request \<Rightarrow> 's server \<Rightarrow> rctx \<times> 's server" where
  "in_context E rq sv = withAuthContext E (stripEmbyPrefix rq) (request_id E) sv"

definition request_token :: "request \<Rightarrow> string" where
  "request_token rq = caToken (ParseClientAuth (stripEmbyPrefix rq))"

text \<open>The handler a request gets to, past its guard.\<close>

definition reached :: "'s senv \<Rightarrow> request \<Rightarrow> 's server \<Rightarrow> handler option" where
  "reached E rq sv =
     (let c = fst (in_context E rq sv) in
      case find_handler routes (rqMethod (cxReq c)) (rqPath (cxReq c)) of
        Matched r pv \<Rightarrow> if admitted (fst (rtValue r)) (cxUser c) then Some (snd (rtValue r)) else None
      | _ \<Rightarrow> None)"

lemma guarded_admitted:
  "guarded g h E c sv = (if admitted g (cxUser c) then h E c sv else (if cxUser c = None then writeError 401 else writeError 403, sv))"
  by (cases g) (auto simp: admitted_def requireAuth_def requireAdmin_def split: option.splits)

lemma writeError_status [simp]: "rsStatus (writeError n) = n"
  by (simp add: writeError_def writeJSON_def)

lemma serve_cases:
  assumes "in_context E rq sv = (c, sv1)"
  obtains (handled) h pv where "reached E rq sv = Some h" "snd (serve E rq sv) = snd (run_handler h E (c\<lparr>cxPath := pv\<rparr>) sv1)"
      "rsStatus (fst (serve E rq sv)) = rsStatus (fst (run_handler h E (c\<lparr>cxPath := pv\<rparr>) sv1))"
      "rsBody (fst (serve E rq sv)) = rsBody (fst (run_handler h E (c\<lparr>cxPath := pv\<rparr>) sv1))"
      "h \<notin> set anonymous_handlers \<Longrightarrow> cxUser c \<noteq> None" "h \<in> set admin_handlers \<Longrightarrow> \<exists>u. cxUser c = Some u \<and> uIsAdmin u"
  | (refused) "reached E rq sv = None" "snd (serve E rq sv) = sv1" "rsStatus (fst (serve E rq sv)) \<in> {301, 401, 403, 404, 405}"
proof -
  have req: "cxReq c = stripEmbyPrefix rq" using assms
    by (auto simp: in_context_def withAuthContext_def Let_def split: if_splits prod.splits sum.splits)
  have s: "snd (serve E rq sv) = snd (mux_serve E c sv1)" "rsStatus (fst (serve E rq sv)) = rsStatus (fst (mux_serve E c sv1))"
    "rsBody (fst (serve E rq sv)) = rsBody (fst (mux_serve E c sv1))"
    using assms by (simp_all add: serve_def in_context_def Let_def split: prod.splits)
  show ?thesis
  proof (cases "find_handler routes (rqMethod (cxReq c)) (rqPath (cxReq c))")
    case (Matched r pv)
    let ?h = "snd (rtValue r)"
    have g: "fst (rtValue r) = (if ?h \<in> set anonymous_handlers then Anonymous
        else if ?h \<in> set admin_handlers then RequireAdmin else RequireAuth)"
      using find_handler_sound [OF Matched] guard_table by blast
    have m: "mux_serve E c sv1 = (if admitted (fst (rtValue r)) (cxUser c) then run_handler ?h E (c\<lparr>cxPath := pv\<rparr>) sv1
        else (if cxUser c = None then writeError 401 else writeError 403, sv1))"
      by (simp add: mux_serve_def Matched guarded_admitted)
    have re: "reached E rq sv = (if admitted (fst (rtValue r)) (cxUser c) then Some ?h else None)"
      using Matched by (simp add: reached_def assms Let_def)
    have d: "h \<notin> set admin_handlers" if "h \<in> set anonymous_handlers" for h
      using that by (auto simp: anonymous_handlers_def admin_handlers_def)
    show ?thesis
    proof (cases "admitted (fst (rtValue r)) (cxUser c)")
      case True
      then have "?h \<notin> set anonymous_handlers \<Longrightarrow> cxUser c \<noteq> None" "?h \<in> set admin_handlers \<Longrightarrow> \<exists>u. cxUser c = Some u \<and> uIsAdmin u"
        using d [of ?h] unfolding g by (auto simp: admitted_def split: if_splits)
      with True m re s show ?thesis by (intro that(1)) simp_all
    next
      case False
      with m re s show ?thesis by (intro that(2)) (simp_all split: if_splits)
    qed
  qed (use that s in \<open>simp_all add: mux_serve_def reached_def assms Let_def redirect_reply_def http_error_def\<close>)
qed

lemma in_context_validate:
  "in_context E rq sv =
     (let ca = ParseClientAuth (stripEmbyPrefix rq);
          c = \<lparr>cxReq = stripEmbyPrefix rq, cxAuth = ca, cxUser = None, cxSession = None, cxRequestID = request_id E, cxPath = []\<rparr>;
          v = ValidateToken (seStore E) (seClk E 0) (caToken ca) (svStore sv)
      in (case fst v of Inl e \<Rightarrow> c | Inr (u, sess) \<Rightarrow> c\<lparr>cxUser := Some u, cxSession := Some sess\<rparr>, sv\<lparr>svStore := snd v\<rparr>))"
  by (simp add: in_context_def withAuthContext_def Let_def ValidateToken_def split: sum.splits prod.splits)

end
