(* ===== verification/LoginProofs.thy ===== *)
theory LoginProofs
  imports ServerProofs AuthProofs
begin

text \<open>
  Facts about logins over HTTP: a session opened by a login, the requests that carry its token, the limiter in front of
  \<open>handleAuthenticateByName\<close>, and a run of the server with rounds of the limiter's \<open>gc\<close> between requests.
\<close>

section \<open>A login over HTTP\<close>

text \<open>What a session is for, without its activity stamp.\<close>

definition session_facts :: "absstore \<Rightarrow> string \<Rightarrow> (string \<times> string \<times> string) option" where
  "session_facts a k = map_option (\<lambda>x. (sID x, sTokenHash x, sUserID x)) (aSessions a k)"

lemma session_facts_unique: "session_facts a = session_facts b \<Longrightarrow> tokens_unique a \<Longrightarrow> tokens_unique b"
proof -
  assume eq: "session_facts a = session_facts b" and u: "tokens_unique a"
  have *: "\<exists>x'. aSessions a k = Some x' \<and> sTokenHash x' = sTokenHash x" if "aSessions b k = Some x" for k x
    using fun_cong [OF eq, of k] that by (auto simp: session_facts_def)
  show ?thesis unfolding tokens_unique_def
  proof (intro allI impI)
    fix j k x y assume "aSessions b j = Some x" "aSessions b k = Some y" "sTokenHash x = sTokenHash y"
    with *[of j x] *[of k y] u show "j = k" unfolding tokens_unique_def by metis
  qed
qed

lemma session_facts_fresh:
  assumes "session_facts a = session_facts b" "\<forall>y \<in> ran (aSessions a). sTokenHash y \<noteq> sTokenHash x \<and> sID y \<noteq> sID x"
    "\<And>k y. aSessions b k = Some y \<Longrightarrow> sID y = k"
  shows "session_fresh x b"
proof -
  have *: "\<exists>y'. aSessions a k = Some y' \<and> sTokenHash y' = sTokenHash y \<and> sID y' = sID y" if "aSessions b k = Some y" for k y
    using fun_cong [OF assms(1), of k] that by (auto simp: session_facts_def)
  have "aSessions b (sID x) = None"
  proof (rule ccontr)
    assume "aSessions b (sID x) \<noteq> None"
    then obtain y where y: "aSessions b (sID x) = Some y" by auto
    from *[OF y] assms(3) [OF y] assms(2) show False by (auto simp: ran_def)
  qed
  moreover have "\<forall>y \<in> ran (aSessions b). sTokenHash y \<noteq> sTokenHash x"
  proof
    fix y assume "y \<in> ran (aSessions b)"
    then obtain k where "aSessions b k = Some y" by (auto simp: ran_def)
    from *[OF this] assms(2) show "sTokenHash y \<noteq> sTokenHash x" by (auto simp: ran_def)
  qed
  ultimately show ?thesis by (simp add: session_fresh_def)
qed

lemma session_facts_ran:
  assumes "session_facts a = session_facts b" "y \<in> ran (aSessions a)"
  shows "\<exists>z \<in> ran (aSessions b). sTokenHash z = sTokenHash y \<and> sID z = sID y"
proof -
  obtain k where k: "aSessions a k = Some y" using assms(2) by (auto simp: ran_def)
  with fun_cong [OF assms(1), of k] obtain z where "aSessions b k = Some z" "sTokenHash z = sTokenHash y \<and> sID z = sID y"
    by (cases "aSessions b k") (auto simp: session_facts_def)
  then show ?thesis by (auto simp: ran_def)
qed

context auth_store begin

lemma ValidateToken_facts:
  assumes "inv s"
  shows "inv (snd (ValidateToken S now token s)) \<and> session_facts (abs (snd (ValidateToken S now token s))) = session_facts (abs s) \<and>
    aUsers (abs (snd (ValidateToken S now token s))) = aUsers (abs s)"
  using ValidateToken_frame [OF assms, of now token] by (auto simp: session_facts_def fun_eq_iff)

lemma Authenticate_facts:
  assumes "inv s" "Authenticate sv A S clk name pw s = (Inr u, s')"
  shows "inv s' \<and> session_facts (abs s') = session_facts (abs s) \<and> (\<exists>v. aUsers (abs s') (uID u) = Some v \<and> uID v = uID u)"
proof -
  have f: "inv s' \<and> (abs s' = abs s \<or> (\<exists>u u'. aUsers (abs s) (uID u) = Some u \<and> EqualFold (uName u) name \<and>
       same_account u u' \<and> abs s' = (abs s)\<lparr>aUsers := (aUsers (abs s))(uID u \<mapsto> u')\<rparr>))"
    using Authenticate_frame [OF assms(1), of sv A clk name pw] assms(2) by simp
  obtain u0 where "aUsers (abs s) (uID u) = Some u0" using Authenticate_sound [OF assms] by blast
  with f have "aUsers (abs s') (uID u) \<noteq> None" by auto
  then obtain v where v: "aUsers (abs s') (uID u) = Some v" by blast
  have "aSessions (abs s') = aSessions (abs s)" using f by auto
  then have "session_facts (abs s') = session_facts (abs s)" by (simp add: session_facts_def fun_eq_iff)
  with f v user_key [of s' "uID u" v] show ?thesis by blast
qed

text \<open>The session of a login resolves its token to the account, also after its stamp has moved.\<close>

lemma login_issues:
  assumes "inv s" "tokens_unique (abs s)" "Authenticate sv A S clk name pw s = (Inr u, s1)"
    and "auth_CreateSession S tr ir now (uID u) c d di v ra s1 = (Inr tok, s2)" "Token tok \<noteq> []"
    and "\<forall>y \<in> ran (aSessions (abs s)). sTokenHash y \<noteq> HashToken (Token tok) \<and> sID y \<noteq> sID (itSession tok)"
  shows "inv s2 \<and> tokens_unique (abs s2) \<and> (\<exists>w. fst (ValidateToken S t (Token tok) s2) = Inr (w, itSession tok) \<and> uID w = uID u)"
proof -
  obtain w where s1: "inv s1" "session_facts (abs s1) = session_facts (abs s)" "aUsers (abs s1) (uID u) = Some w" "uID w = uID u"
    using Authenticate_facts [OF assms(1,3)] by blast
  have h: "sTokenHash (itSession tok) = HashToken (Token tok)"
    using assms(4) by (auto simp: auth_CreateSession_def Let_def split: sum.splits prod.splits option.splits)
  have fresh: "session_fresh (itSession tok) (abs s1)"
    by (rule session_facts_fresh [OF s1(2) [symmetric]]) (use assms(6) session_key [OF s1(1)] in \<open>auto simp: h\<close>)
  have u1: "tokens_unique (abs s1)" by (rule session_facts_unique [OF s1(2) [symmetric] assms(2)])
  note cs = CreateSession_issued [OF s1(1) assms(4) fresh]
  have u2: "tokens_unique (abs s2)" by (rule CreateSession_unique [OF s1(1) assms(4) fresh u1])
  have "fst (ValidateToken S t (Token tok) s2) = Inr (w, itSession tok)"
    by (rule ValidateToken_session [where k = "sID (itSession tok)"]) (use cs u2 assms(5) s1(3) in simp_all)
  with cs u2 s1(4) show ?thesis by blast
qed

end

section \<open>A login over HTTP\<close>

lemma header_token:
  assumes "HeaderGet rq ''Authorization'' = auth_header ca" "caToken ca \<noteq> []"
    "no_quotes (caClient ca)" "no_quotes (caDevice ca)" "no_quotes (caDeviceID ca)" "no_quotes (caVersion ca)" "no_quotes (caToken ca)"
  shows "ParseClientAuth rq = ca"
proof -
  have "auth_header ca \<noteq> []" by (simp add: auth_header_def)
  then show ?thesis using assms parse_auth_header [OF assms(3-7)] by (simp add: ParseClientAuth_def Let_def)
qed

lemma stripped: "\<not> HasPrefix (rqPath rq) ''/emby'' \<Longrightarrow> stripEmbyPrefix rq = rq"
  by (simp add: stripEmbyPrefix_def TrimPrefix_def)

lemma me_route: "find_handler routes ''GET'' ''/Users/Me'' = Matched (rt ''GET'' ''/Users/Me'' RequireAuth HUsersMe) []"
  by code_simp

lemma logout_route: "find_handler routes ''POST'' ''/Sessions/Logout'' = Matched (rt ''POST'' ''/Sessions/Logout'' RequireAuth HLogout) []"
  by code_simp

lemma context_fields:
  "cxReq (fst (in_context E rq sv)) = stripEmbyPrefix rq" "cxAuth (fst (in_context E rq sv)) = ParseClientAuth (stripEmbyPrefix rq)"
  "cxUser (fst (in_context E rq sv)) = (case fst (ValidateToken (seStore E) (seClk E 0) (request_token rq) (svStore sv)) of
      Inl e \<Rightarrow> None | Inr (u, x) \<Rightarrow> Some u)"
  "snd (in_context E rq sv) = sv\<lparr>svStore := snd (ValidateToken (seStore E) (seClk E 0) (request_token rq) (svStore sv))\<rparr>"
  by (simp_all add: in_context_validate Let_def request_token_def split: sum.splits)

text \<open>A request whose route is known.\<close>

lemma serve_route:
  assumes "find_handler routes (rqMethod rq) (rqPath rq) = Matched (rt m p g h) pv" "\<not> HasPrefix (rqPath rq) ''/emby''"
    "in_context E rq sv = (c, sv1)"
  shows "snd (serve E rq sv) = snd (guarded g (run_handler h) E (c\<lparr>cxPath := pv\<rparr>) sv1)"
    "rsStatus (fst (serve E rq sv)) = rsStatus (fst (guarded g (run_handler h) E (c\<lparr>cxPath := pv\<rparr>) sv1))"
    "rsBody (fst (serve E rq sv)) = rsBody (fst (guarded g (run_handler h) E (c\<lparr>cxPath := pv\<rparr>) sv1))"
proof -
  have "cxReq c = rq" using context_fields(1) [of E rq sv] assms(3) stripped [OF assms(2)] by simp
  with assms have "mux_serve E c sv1 = guarded g (run_handler h) E (c\<lparr>cxPath := pv\<rparr>) sv1"
    by (simp add: mux_serve_def rt_def)
  then show "snd (serve E rq sv) = snd (guarded g (run_handler h) E (c\<lparr>cxPath := pv\<rparr>) sv1)"
    "rsStatus (fst (serve E rq sv)) = rsStatus (fst (guarded g (run_handler h) E (c\<lparr>cxPath := pv\<rparr>) sv1))"
    "rsBody (fst (serve E rq sv)) = rsBody (fst (guarded g (run_handler h) E (c\<lparr>cxPath := pv\<rparr>) sv1))"
    using assms(3) by (simp_all add: serve_def in_context_def Let_def split: prod.splits)
qed

lemma me_serves:
  assumes "rqMethod rq = ''GET''" "rqPath rq = ''/Users/Me''"
  shows "case fst (ValidateToken (seStore E) (seClk E 0) (request_token rq) (svStore sv)) of
      Inl e \<Rightarrow> rsStatus (fst (serve E rq sv)) = 401
    | Inr (u, x) \<Rightarrow> rsStatus (fst (serve E rq sv)) = 200 \<and> (\<exists>d. rsBody (fst (serve E rq sv)) = OneUser d \<and> utID d = uID u)"
proof -
  obtain c sv1 where i: "in_context E rq sv = (c, sv1)" by fastforce
  have p: "\<not> HasPrefix (rqPath rq) ''/emby''" by (simp add: assms HasPrefix_def)
  have m: "find_handler routes (rqMethod rq) (rqPath rq) = Matched (rt ''GET'' ''/Users/Me'' RequireAuth HUsersMe) []"
    using me_route assms by simp
  note s = serve_route [OF m p i]
  have "cxUser c = (case fst (ValidateToken (seStore E) (seClk E 0) (request_token rq) (svStore sv)) of Inl e \<Rightarrow> None | Inr (u, x) \<Rightarrow> Some u)"
    using context_fields(3) [of E rq sv] i by simp
  with s show ?thesis
    by (auto simp: requireAuth_def handleUsersMe_def with_user_def writeJSON_def toUserDto_def Let_def split: sum.splits)
qed

lemma no_quotes_hex: "no_quotes (hex_encode b)"
  using set_hex_encode [of b] by (auto simp: no_quotes_def hex_alphabet_def)

lemma auditEvent_log_store [simp]: "svStore (auditEvent_log e l sv) = svStore sv"
  by (simp add: auditEvent_log_def split: option.splits)

lemma refusal_body [simp]: "rsBody (writeError n) \<noteq> Authenticated a" "rsBody tooMany \<noteq> Authenticated a"
  by (simp_all add: writeError_def writeJSON_def tooMany_def)

lemma login_cases:
  assumes "rsBody (fst (handleAuthenticateByName E c sv)) = Authenticated a"
  obtains req :: AuthenticateRequest and u st tok st' where
    "Authenticate (seAuth E) (seArgon E) (seStore E) (\<lambda>i. seClk E (2 + i)) (arUsername req) (arPw req) (svStore sv) = (Inr u, st)"
    "auth_CreateSession (seStore E) (seRnd E 1) (seRnd E 2) (seClk E 6) (uID u) (caClient (cxAuth c)) (caDevice (cxAuth c))
       (caDeviceID (cxAuth c)) (caVersion (cxAuth c)) (client_ip E c) st = (Inr tok, st')"
    "svStore (snd (handleAuthenticateByName E c sv)) = st'"
    "Token tok = atAccessToken a" "sID (itSession tok) = seID (atSessionInfo a)" "utID (atUser a) = uID u"
proof -
  obtain ok sv1 where l: "limit_key E (''auth:'' @ client_ip E c) sv = (ok, sv1)" by fastforce
  then have st: "svStore sv1 = svStore sv" by (auto simp: limit_key_def split: prod.splits)
  from assms l obtain req where ok: ok "seAuthBody E (take maxAuthBody (rqBody (cxReq c))) = Some req"
    by (auto simp: handleAuthenticateByName_def Let_def split: if_splits option.splits)
  let ?au = "Authenticate (seAuth E) (seArgon E) (seStore E) (\<lambda>i. seClk E (2 + i)) (arUsername req) (arPw req) (svStore sv)"
  obtain x s1 where au: "?au = (x, s1)" by fastforce
  from assms l ok au st obtain u where x: "x = Inr u"
    by (cases x) (auto simp: handleAuthenticateByName_def Let_def split: if_splits)
  let ?cs = "auth_CreateSession (seStore E) (seRnd E 1) (seRnd E 2) (seClk E 6) (uID u) (caClient (cxAuth c)) (caDevice (cxAuth c))
       (caDeviceID (cxAuth c)) (caVersion (cxAuth c)) (client_ip E c) s1"
  obtain y s2 where cs: "?cs = (y, s2)" by fastforce
  from assms l ok au st x cs obtain tok where y: "y = Inr tok"
    by (cases y) (auto simp: handleAuthenticateByName_def Let_def)
  from assms l ok au st x cs y show ?thesis
    by (intro that [of req u s1 tok s2])
      (auto simp: handleAuthenticateByName_def Let_def writeJSON_def login_result_def toUserDto_def)
qed

lemma token_is_hex:
  "auth_CreateSession S tr ir now uid c d di v ra s = (Inr tok, s') \<Longrightarrow> no_quotes (Token tok)"
  by (auto simp: auth_CreateSession_def NewToken_def randomHex_def Let_def no_quotes_hex split: sum.splits prod.splits option.splits if_splits)

lemma in_logout: "rqMethod rq = ''POST'' \<Longrightarrow> rqPath rq = ''/Sessions/Logout'' \<Longrightarrow>
    svStore (snd (serve E rq sv)) = (if cxUser (fst (in_context E rq sv)) = None then svStore (snd (in_context E rq sv))
      else snd (Logout (seStore E) (request_token rq) (svStore (snd (in_context E rq sv)))))"
proof -
  assume a: "rqMethod rq = ''POST''" "rqPath rq = ''/Sessions/Logout''"
  obtain c sv1 where i: "in_context E rq sv = (c, sv1)" by fastforce
  have p: "\<not> HasPrefix (rqPath rq) ''/emby''" by (simp add: a HasPrefix_def)
  have m: "find_handler routes (rqMethod rq) (rqPath rq) = Matched (rt ''POST'' ''/Sessions/Logout'' RequireAuth HLogout) []"
    using logout_route a by simp
  have "cxAuth c = ParseClientAuth (stripEmbyPrefix rq)" using context_fields(2) [of E rq sv] i by simp
  with serve_route(1) [OF m p i] i show ?thesis
    by (auto simp: requireAuth_def handleLogout_def request_token_def Let_def)
qed

text \<open>The state after a login: its token is that user's at any time, and a logout with it ends that.\<close>

lemma login_state:
  assumes "json_inv (svStore sv)" "tokens_unique (json_abs (svStore sv))" "seStore E = json_store"
    and "reached E rq sv = Some HAuthenticateByName" "serve E rq sv = (rep, sv1)" "rsBody rep = Authenticated a" "atAccessToken a \<noteq> []"
    and "\<forall>y \<in> ran (aSessions (json_abs (svStore sv))). sTokenHash y \<noteq> HashToken (atAccessToken a) \<and> sID y \<noteq> seID (atSessionInfo a)"
  shows "json_inv (svStore sv1) \<and> tokens_unique (json_abs (svStore sv1)) \<and> no_quotes (atAccessToken a) \<and>
    (\<exists>w x. fst (ValidateToken json_store t (atAccessToken a) (svStore sv1)) = Inr (w, x) \<and> uID w = utID (atUser a))"
proof -
  let ?s = "svStore sv" and ?tok = "atAccessToken a"
  obtain c sv0 where i: "in_context E rq sv = (c, sv0)" by fastforce
  define s0 where "s0 = svStore sv0"
  have v: "s0 = snd (ValidateToken json_store (seClk E 0) (request_token rq) ?s)"
    using context_fields(4) [of E rq sv] i assms(3) by (simp add: s0_def)
  note vf = json_auth.ValidateToken_facts [OF assms(1), of "seClk E 0" "request_token rq", folded v]
  obtain pv where h: "sv1 = snd (handleAuthenticateByName E (c\<lparr>cxPath := pv\<rparr>) sv0)"
    "rsBody (fst (handleAuthenticateByName E (c\<lparr>cxPath := pv\<rparr>) sv0)) = Authenticated a"
    by (rule serve_cases [OF i]) (use assms(4-6) in auto)
  obtain req :: AuthenticateRequest and u st tok st' where login:
    "Authenticate (seAuth E) (seArgon E) json_store (\<lambda>i. seClk E (2 + i)) (arUsername req) (arPw req) s0 = (Inr u, st)"
    "auth_CreateSession json_store (seRnd E 1) (seRnd E 2) (seClk E 6) (uID u) (caClient (cxAuth c)) (caDevice (cxAuth c))
       (caDeviceID (cxAuth c)) (caVersion (cxAuth c)) (client_ip E (c\<lparr>cxPath := pv\<rparr>)) st = (Inr tok, st')"
    "svStore sv1 = st'" "Token tok = ?tok" "sID (itSession tok) = seID (atSessionInfo a)" "utID (atUser a) = uID u"
    by (rule login_cases [OF h(2), unfolded assms(3), folded h(1) s0_def]) (rule that, simp_all)
  have fresh: "\<forall>y \<in> ran (aSessions (json_abs s0)). sTokenHash y \<noteq> HashToken (Token tok) \<and> sID y \<noteq> sID (itSession tok)"
    using session_facts_ran [of "json_abs s0" "json_abs ?s"] vf assms(8) login(4,5) by metis
  have "tokens_unique (json_abs s0)" using session_facts_unique vf assms(2) by metis
  from json_auth.login_issues [OF conjunct1 [OF vf] this login(1,2) _ fresh, unfolded login(3) [symmetric] login(4)]
  have "json_inv (svStore sv1) \<and> tokens_unique (json_abs (svStore sv1)) \<and>
    (\<exists>w. fst (ValidateToken json_store t ?tok (svStore sv1)) = Inr (w, itSession tok) \<and> uID w = uID u)" using assms(7) by blast
  then show ?thesis using login(6) token_is_hex [OF login(2)] unfolding login(4) by metis
qed

lemma logged_out:
  assumes "json_inv (svStore sv)" "tokens_unique (json_abs (svStore sv))" "seStore E = json_store"
    and "fst (ValidateToken json_store (seClk E 0) tok (svStore sv)) = Inr ux" "request_token out = tok"
    and "rqMethod out = ''POST''" "rqPath out = ''/Sessions/Logout''"
    and "fst (Logout json_store tok (svStore (snd (in_context E out sv)))) = None"
  shows "fst (ValidateToken json_store t tok (svStore (snd (serve E out sv)))) = Inl ErrInvalidCredentials"
proof -
  let ?s = "svStore (snd (in_context E out sv))"
  have s: "?s = snd (ValidateToken json_store (seClk E 0) tok (svStore sv))"
    using context_fields(4) [of E out sv] assms(3,5) by simp
  have inv: "json_inv ?s" "tokens_unique (json_abs ?s)"
    using json_auth.ValidateToken_facts [OF assms(1), of "seClk E 0" tok] session_facts_unique assms(2) s by metis+
  have "svStore (snd (serve E out sv)) = snd (Logout json_store tok ?s)"
    using in_logout [OF assms(6,7), of E sv] context_fields(3) [of E out sv] assms(3-5) by (simp split: prod.splits)
  then show ?thesis using json_auth.Logout_revokes [OF inv, of tok] assms(8) by (metis prod.collapse)
qed

section \<open>The limiter in a run of the server\<close>

definition request_ip :: "'s senv \<Rightarrow> request \<Rightarrow> string" where
  "request_ip E rq = clientIP (cfTrustedProxies (seCfg E)) (HeaderGet rq ''X-Forwarded-For'') (HeaderGet rq ''X-Real-Ip'') (rqRemoteAddr rq)"

lemma strip_fields: "rqHeader (stripEmbyPrefix rq) = rqHeader rq" "rqRemoteAddr (stripEmbyPrefix rq) = rqRemoteAddr rq"
  by (simp_all add: stripEmbyPrefix_def Let_def)

lemma context_ip: "in_context E rq sv = (c, sv1) \<Longrightarrow> client_ip E (c\<lparr>cxPath := pv\<rparr>) = request_ip E rq"
  using context_fields(1) [of E rq sv] by (simp add: client_ip_def request_ip_def HeaderGet_def strip_fields)

text \<open>What a request does to the limiter.\<close>

definition limiter_key :: "'s senv \<Rightarrow> request \<Rightarrow> 's server \<Rightarrow> string option" where
  "limiter_key E rq sv = (case reached E rq sv of
      Some HAuthenticateByName \<Rightarrow> Some (''auth:'' @ request_ip E rq)
    | Some H2FARecover \<Rightarrow> Some (''2fa-recover:'' @ request_ip E rq)
    | _ \<Rightarrow> None)"

lemma auditEvent_log_limiter [simp]: "svLimiter (auditEvent_log e l sv) = svLimiter sv"
  by (simp add: auditEvent_log_def split: option.splits)

lemma limit_key_eq: "limit_key E key sv = (fst (allow (seClk E 1) key (svLimiter sv)), sv\<lparr>svLimiter := snd (allow (seClk E 1) key (svLimiter sv))\<rparr>)"
  by (simp add: limit_key_def split: prod.splits)

lemma refusal_status [simp]: "rsStatus tooMany = 429" "rsStatus (writeJSON n b) = n"
  by (simp_all add: tooMany_def writeError_def writeJSON_def)

lemma limiter_login: "svLimiter (snd (handleAuthenticateByName E c sv)) = snd (allow (seClk E 1) (''auth:'' @ client_ip E c) (svLimiter sv))"
  unfolding handleAuthenticateByName_def Let_def limit_key_eq by (auto split: prod.splits option.splits sum.splits)

lemma limiter_recover: "svLimiter (snd (handle2FARecover E c sv)) = snd (allow (seClk E 1) (''2fa-recover:'' @ client_ip E c) (svLimiter sv))"
  unfolding handle2FARecover_def Let_def limit_key_eq by (auto split: prod.splits option.splits)

lemma login_status: "rsStatus (fst (handleAuthenticateByName E c sv)) = 429 \<longleftrightarrow>
    \<not> fst (allow (seClk E 1) (''auth:'' @ client_ip E c) (svLimiter sv))"
  unfolding handleAuthenticateByName_def Let_def limit_key_eq by (auto split: prod.splits option.splits sum.splits)

lemma limiter_serve:
  "svLimiter (snd (serve E rq sv)) =
     (case limiter_key E rq sv of None \<Rightarrow> svLimiter sv | Some k \<Rightarrow> snd (allow (seClk E 1) k (svLimiter sv)))"
  "reached E rq sv = Some HAuthenticateByName \<Longrightarrow>
     rsStatus (fst (serve E rq sv)) = 429 \<longleftrightarrow> \<not> fst (allow (seClk E 1) (''auth:'' @ request_ip E rq) (svLimiter sv))"
proof -
  obtain c sv1 where i: "in_context E rq sv = (c, sv1)" by fastforce
  have l: "svLimiter sv1 = svLimiter sv" using context_fields(4) [of E rq sv] i by simp
  note ip = context_ip [OF i]
  show "svLimiter (snd (serve E rq sv)) =
     (case limiter_key E rq sv of None \<Rightarrow> svLimiter sv | Some k \<Rightarrow> snd (allow (seClk E 1) k (svLimiter sv)))"
  proof (rule serve_cases [OF i], goal_cases handled refused)
    case (handled h pv)
    consider "h = HAuthenticateByName" | "h = H2FARecover" | "h \<noteq> HAuthenticateByName" "h \<noteq> H2FARecover" by blast
    then show ?case
      by cases (use handled l ip in \<open>auto simp: limiter_key_def limiter_login limiter_recover limiter_run split: handler.splits\<close>)
  qed (simp add: limiter_key_def l)
  show "rsStatus (fst (serve E rq sv)) = 429 \<longleftrightarrow> \<not> fst (allow (seClk E 1) (''auth:'' @ request_ip E rq) (svLimiter sv))"
    if "reached E rq sv = Some HAuthenticateByName"
  proof (rule serve_cases [OF i], goal_cases handled refused)
    case (handled h pv)
    then show ?case using that l ip login_status [of E "c\<lparr>cxPath := pv\<rparr>" sv1] by simp
  qed (use that in simp)
qed

text \<open>Requests, and rounds of \<open>gc\<close> between them.\<close>

datatype 's happening = Request "'s senv" request | GcRound time

fun happens_at :: "'s happening \<Rightarrow> time" where
  "happens_at (Request E rq) = seClk E 1"
| "happens_at (GcRound t) = t"

fun happen :: "'s happening \<Rightarrow> 's server \<Rightarrow> 's server" where
  "happen (Request E rq) sv = snd (serve E rq sv)"
| "happen (GcRound t) sv = sv\<lparr>svLimiter := gc_round t (svLimiter sv)\<rparr>"

text \<open>The logins from an address that the limiter lets through to the password check.\<close>

definition login_tried :: "string \<Rightarrow> 's happening \<Rightarrow> 's server \<Rightarrow> bool" where
  "login_tried ip ev sv = (case ev of
      Request E rq \<Rightarrow> request_ip E rq = ip \<and> reached E rq sv = Some HAuthenticateByName \<and> rsStatus (fst (serve E rq sv)) \<noteq> 429
    | GcRound t \<Rightarrow> False)"

fun logins_tried :: "string \<Rightarrow> 's happening list \<Rightarrow> 's server \<Rightarrow> nat" where
  "logins_tried ip [] sv = 0"
| "logins_tried ip (ev # evs) sv = (if login_tried ip ev sv then 1 else 0) + logins_tried ip evs (happen ev sv)"

definition limiter_ok :: "time \<Rightarrow> time \<Rightarrow> string \<Rightarrow> bucket gomap \<Rightarrow> bool" where
  "limiter_ok start now key bs \<longleftrightarrow> map_wf bs \<and> bucket_by now (map_get bs key) \<and> (\<forall>b. map_get bs key = Some b \<longrightarrow> start \<le> bkLastSeen b)"

lemma happen_worth:
  assumes "limiter_ok start now (''auth:'' @ ip) (svLimiter sv)" "happens_at ev = now" "start \<le> now" "now - start < 2 ^ 63"
  shows "limiter_ok start now (''auth:'' @ ip) (svLimiter (happen ev sv)) \<and>
    (if login_tried ip ev sv then 1 else 0) + worth now (map_get (svLimiter (happen ev sv)) (''auth:'' @ ip))
      \<le> worth now (map_get (svLimiter sv) (''auth:'' @ ip)) + 2 * slack"
proof (cases ev)
  case (GcRound t)
  then show ?thesis using assms worth_gc [of "svLimiter sv" t "''auth:'' @ ip"]
    by (auto simp: limiter_ok_def login_tried_def map_get_gc slack_def split: option.splits if_splits)
next
  case (Request E rq)
  let ?bs = "svLimiter sv" and ?k = "''auth:'' @ ip"
  have t: "seClk E 1 = now" using Request assms(2) by simp
  show ?thesis
  proof (cases "limiter_key E rq sv = Some ?k")
    case True
    then have r: "reached E rq sv = Some HAuthenticateByName" "request_ip E rq = ip"
      by (auto simp: limiter_key_def split: option.splits handler.splits)
    have "now - bkLastSeen b < 2 ^ 63" if "map_get ?bs ?k = Some b" for b using assms(1,4) that by (force simp: limiter_ok_def)
    with allow_worth [of now ?bs ?k] have w: "bucket_by now (map_get (snd (allow now ?k ?bs)) ?k) \<and>
      (if fst (allow now ?k ?bs) then 1 else 0) + worth now (map_get (snd (allow now ?k ?bs)) ?k) \<le> worth now (map_get ?bs ?k) + 2 * slack"
      using assms(1) by (simp add: limiter_ok_def)
    have "\<forall>b. map_get (snd (allow now ?k ?bs)) ?k = Some b \<longrightarrow> start \<le> bkLastSeen b"
      using assms(3) by (auto simp: allow_def Let_def split: option.splits)
    with w assms(1) r limiter_serve [of E rq sv] True t Request show ?thesis
      by (auto simp: login_tried_def limiter_ok_def)
  next
    case False
    then have "\<not> login_tried ip ev sv" using Request by (auto simp: login_tried_def limiter_key_def)
    moreover have "map_get (svLimiter (happen ev sv)) ?k = map_get ?bs ?k" "map_wf (svLimiter (happen ev sv))"
      using False Request limiter_serve(1) [of E rq sv] assms(1) by (auto simp: limiter_ok_def split: option.splits)
    ultimately show ?thesis using assms(1) by (simp add: limiter_ok_def slack_def)
  qed
qed

lemma logins_bound:
  assumes "limiter_ok start now (''auth:'' @ ip) (svLimiter sv)" "sorted (now # map happens_at evs)" "start \<le> now"
    and "\<forall>ev \<in> set evs. happens_at ev \<le> stop" "stop - start < 2 ^ 63" "now \<le> stop"
  shows "of_nat (logins_tried ip evs sv) \<le> worth now (map_get (svLimiter sv) (''auth:'' @ ip)) +
    of_int (stop - now) / 5000000000 * (1 + slack) + of_nat (length evs) * (2 * slack)"
  using assms
proof (induction evs arbitrary: now sv)
  case Nil
  then have "0 \<le> worth now (map_get (svLimiter sv) (''auth:'' @ ip))" by (intro worth_pos) (simp add: limiter_ok_def)
  moreover have "(0 :: rat) \<le> of_int (stop - now) / 5000000000 * (1 + slack)" using Nil.prems(6) by (simp add: slack_def)
  ultimately show ?case by simp
next
  case (Cons ev evs)
  let ?t = "happens_at ev" and ?k = "''auth:'' @ ip"
  let ?w = "\<lambda>t sv. worth t (map_get (svLimiter sv) ?k)"
  have t: "now \<le> ?t" "?t \<le> stop" "start \<le> ?t" using Cons.prems by simp_all
  have ok: "limiter_ok start ?t ?k (svLimiter sv)" using Cons.prems(1) t(1) by (auto simp: limiter_ok_def bucket_by_def split: option.splits)
  note h = happen_worth [OF ok refl t(3)]
  have h: "limiter_ok start ?t ?k (svLimiter (happen ev sv))"
    "(if login_tried ip ev sv then 1 else 0) + ?w ?t (happen ev sv) \<le> ?w ?t sv + 2 * slack"
    using h t(2) Cons.prems(5) by simp_all
  have "of_nat (logins_tried ip evs (happen ev sv)) \<le>
      ?w ?t (happen ev sv) + of_int (stop - ?t) / 5000000000 * (1 + slack) + of_nat (length evs) * (2 * slack)"
    using Cons.IH [OF h(1)] Cons.prems(2,4,5) t by simp
  moreover have "?w ?t sv \<le> ?w now sv + of_int (?t - now) / 5000000000 * (1 + slack)" by (rule worth_mono [OF t(1)])
  moreover have "of_int (?t - now) / 5000000000 * (1 + slack) + of_int (stop - ?t) / 5000000000 * (1 + slack)
      = (of_int (stop - now) / 5000000000 * (1 + slack) :: rat)" by (simp add: field_simps)
  moreover have "of_nat (length (ev # evs)) * (2 * slack) = 2 * slack + of_nat (length evs) * (2 * slack)" by (simp add: distrib_right)
  moreover have "of_nat (logins_tried ip (ev # evs) sv) = (if login_tried ip ev sv then 1 else 0) + (of_nat (logins_tried ip evs (happen ev sv)) :: rat)"
    by simp
  ultimately show ?case using h(2) by linarith
qed

end
