(* ===== verification/ServerProps.thy ===== *)
theory ServerProps
  imports LoginProofs AccountProps
begin

text \<open>
  The properties of the server as a whole, over the JSON store: who reaches which handler, what a request may
  change, the life of a login over HTTP, the limiter, and the request and playlist formats; each followed by an
  instance.
\<close>

section \<open>Concrete data\<close>

text \<open>An environment in which nothing is configured and nothing answers.\<close>

definition cfg0 :: Config where
  "cfg0 = \<lparr>cfBindAddress = '':8096'', cfDataDir = ''/d'', cfStoreBackend = ''json'', cfDatabaseURL = [], cfMediaDir = [],
     cfServerName = ''s'', cfPublicBaseURL = [], cfAdminUsername = ''admin'', cfAdminPassword = [], cfTrustedProxies = False,
     cfFFmpegPath = [], cfFFprobePath = [], cfTMDbAPIKey = [], cfTMDbBaseURL = [], cfTMDbImageBase = [], cfTLSCertFile = [],
     cfTLSKeyFile = [], cfAuditLogFile = [], cfLockoutThreshold = 5, cfLockoutDuration = 15 * Minute, cfIPTVPlaylist = [],
     cfIPTVGuide = [], cfIPTVRefresh = 12 * Hour, cfIPTVAliases = []\<rparr>"

definition env0 :: "jsonStore senv" where
  "env0 = \<lparr>seCfg = cfg0, seStore = json_store, seArgon = refArgon, seAuth = auth_New, seClk = (\<lambda>_. totp_now),
     seRnd = (\<lambda>i. if i = 1 then Some ''tttttttttttttttt'' else Some ''iiiiiiii''),
     seMedia = \<lparr>meFs = \<lparr>mfLstat = (\<lambda>_. None), mfListing = (\<lambda>_. None), mfStat = (\<lambda>_. None), mfExts = (\<lambda>_ _. [])\<rparr>, meGet = (\<lambda>_. None), meCreate = (\<lambda>_. False), meCwd = None\<rparr>,
     seNet = \<lparr>neGet = (\<lambda>_. None), neReadFile = (\<lambda>_. None), neGunzip = (\<lambda>_. None), neUnmarshal = (\<lambda>_. None)\<rparr>,
     seDvr = \<lparr>deDir = ''/d/recordings'', deStreamURL = (\<lambda>_. None), deCmdStart = (\<lambda>_. False), deStat = (\<lambda>_. None)\<rparr>,
     seFile = (\<lambda>_. None), seMkdir = (\<lambda>_. False), seStart = (\<lambda>_. False), sePlaylist = (\<lambda>_ _. []), seSegment = (\<lambda>_. []),
     seRun = (\<lambda>_. None), seLogoWrite = False, seLogoRename = False, seLogoOpen = False, seFormat = (\<lambda>_. []),
     seFormatNano = (\<lambda>_. []), seParseTime = (\<lambda>_. None), seAuthBody = (\<lambda>_. None), seCodeBody = (\<lambda>_. None),
     seRecoverBody = (\<lambda>_. None), seTimerBody = (\<lambda>_. None), seSeriesBody = (\<lambda>_. None),
     seProgressBody = (\<lambda>_. \<lparr>ppItemID = [], ppMediaSourceID = [], ppPlaySessionID = [], ppPositionTicks = 0, ppIsPaused = False\<rparr>)\<rparr>"

definition call :: "string \<Rightarrow> string \<Rightarrow> string gomap \<Rightarrow> request" where
  "call meth path hdr = \<lparr>rqMethod = meth, rqPath = path, rqQuery = [], rqHeader = hdr, rqHost = ''h'', rqTLS = False,
     rqRemoteAddr = ''10.0.0.1:5000'', rqBody = []\<rparr>"

definition server0 :: "jsonStore \<Rightarrow> jsonStore server" where
  "server0 st = srv_New st (media_New st)"

lemma server0_unaudited [simp]: "(server0 st)\<lparr>svAudit := None\<rparr> = server0 st"
  by (simp add: server0_def srv_New_def)

text \<open>A user with a session whose token is \<open>tok\<close>.\<close>

definition session0 :: Session where
  "session0 = \<lparr>sID = ''s'', sUserID = ''u'', sTokenHash = HashToken ''tok'', sClient = [], sDevice = [], sDeviceID = [],
     sAppVersion = [], sRemoteAddr = [], sCreatedAt = 1, sLastActivity = 1\<rparr>"

definition json_session0 :: jsonStore where
  "json_session0 = json_user0\<lparr>jSessions := [(''s'', session0)]\<rparr>"

lemma json_session0_inv: "json_inv json_session0"
  by (simp add: json_inv_def json_session0_def json_user0_def json0_def keyed_def map_wf_def session0_def user0_def new_user_def)

lemma json_session0_valid: "fst (ValidateToken json_store t ''tok'' json_session0) = Inr (user0, session0)"
  by (simp add: ValidateToken_def json_GetSessionByTokenHash_def json_session0_def map_find_def map_vals_def session0_def
      json_GetUserByID_def json_user0_def find_or_def get_or_def)

lemma env0_store: "seStore env0 = json_store"
  by (simp add: env0_def)

section \<open>Who reaches what\<close>

text \<open>C1. Handlers are reached only by those they are for: a request either reaches a handler, and then the handler is one of
  the nine open ones, or the request's token belongs to a stored session of a stored user, who is
  an administrator if the handler lists users or folders or rescans; or it is answered with a redirect or a refusal and
  changes nothing but the activity stamp of its session.\<close>

theorem protected_handlers:
  assumes "json_inv (svStore sv)" "seStore E = json_store"
  shows "case reached E rq sv of
      Some h \<Rightarrow> h \<in> set anonymous_handlers \<or>
        (\<exists>u x. aSessions (json_abs (svStore sv)) (sID x) = Some x \<and> sTokenHash x = HashToken (request_token rq) \<and>
           aUsers (json_abs (svStore sv)) (sUserID x) = Some u \<and> request_token rq \<noteq> [] \<and>
           (h \<in> set admin_handlers \<longrightarrow> uIsAdmin u) \<and>
           (\<exists>c. cxUser c = Some u \<and> cxSession c = Some x \<and>
              rsBody (fst (serve E rq sv)) = rsBody (fst (run_handler h E c (snd (in_context E rq sv))))))
    | None \<Rightarrow> rsStatus (fst (serve E rq sv)) \<in> {301, 401, 403, 404, 405} \<and>
        snd (serve E rq sv) = sv\<lparr>svStore := snd (ValidateToken json_store (seClk E 0) (request_token rq) (svStore sv))\<rparr>"
proof -
  let ?v = "ValidateToken json_store (seClk E 0) (request_token rq) (svStore sv)"
  obtain c sv1 where i: "in_context E rq sv = (c, sv1)" by fastforce
  then have sv1: "sv1 = sv\<lparr>svStore := snd ?v\<rparr>"
    and cu: "\<And>u x. fst ?v = Inr (u, x) \<Longrightarrow> cxUser c = Some u \<and> cxSession c = Some x" "\<And>e. fst ?v = Inl e \<Longrightarrow> cxUser c = None"
    unfolding in_context_validate Let_def request_token_def assms(2) by (auto split: sum.splits)
  show ?thesis
  proof (rule serve_cases [OF i], goal_cases handled refused)
    case (handled h pv)
    show ?thesis
    proof (cases "h \<in> set anonymous_handlers")
      case False
      then obtain u x where v: "fst ?v = Inr (u, x)" using handled(5) cu by (cases "fst ?v") auto
      have "h \<in> set admin_handlers \<longrightarrow> uIsAdmin u" using handled(6) cu(1) [OF v] by auto
      with json_auth.ValidateToken_sound [OF assms(1) v] cu(1) [OF v] handled i False show ?thesis
        by (auto intro!: exI [of _ u] exI [of _ x] exI [of _ "c\<lparr>cxPath := pv\<rparr>"])
    qed (simp add: handled)
  next
    case refused
    then show ?thesis by (simp add: sv1)
  qed
qed

lemma protected_handlers_witness:
  "rsStatus (fst (serve env0 (call ''GET'' ''/emby/Users'' [(''X-Emby-Token'', ''tok'')]) (server0 json_session0))) \<in> {301, 401, 403, 404, 405}"
proof -
  let ?rq = "call ''GET'' ''/emby/Users'' [(''X-Emby-Token'', ''tok'')]"
  have strip: "stripEmbyPrefix ?rq = call ''GET'' ''/Users'' [(''X-Emby-Token'', ''tok'')]"
    by (simp add: stripEmbyPrefix_def call_def TrimPrefix_def HasPrefix_def)
  have tok: "caToken (ParseClientAuth (stripEmbyPrefix ?rq)) = ''tok''"
    unfolding strip by (simp add: ParseClientAuth_def call_def HeaderGet_def get_value_def emptyAuth_def)
  have m: "find_handler routes ''GET'' ''/Users'' = Matched (rt ''GET'' ''/Users'' RequireAdmin HUsersList) []"
    by code_simp
  have "cxUser (fst (in_context env0 ?rq (server0 json_session0))) = Some user0"
    using json_session0_valid by (simp add: in_context_validate tok env0_def server0_def srv_New_def Let_def)
  moreover have "cxReq (fst (in_context env0 ?rq (server0 json_session0))) = call ''GET'' ''/Users'' [(''X-Emby-Token'', ''tok'')]"
    by (simp add: in_context_validate strip Let_def split: sum.splits)
  ultimately have "reached env0 ?rq (server0 json_session0) = None"
    using m by (auto simp: reached_def Let_def call_def rt_def admitted_def user0_def new_user_def)
  moreover have "json_inv (svStore (server0 json_session0))" by (simp add: server0_def srv_New_def json_session0_inv)
  moreover have "seStore env0 = json_store" by (simp add: env0_def)
  ultimately show ?thesis using protected_handlers [of "server0 json_session0" env0 ?rq] by simp
qed

section \<open>What a request may change\<close>

text \<open>C2. One user cannot touch another's things: whatever a request asks for, unless it is a login or a recovery, and
  unless its user is an administrator, it leaves every other account, the playback data of every other user,
  the libraries and the items as they are; also a request without a user does.\<close>

theorem user_isolation:
  assumes "json_inv (svStore sv)" "seStore E = json_store"
    and "\<And>u x. fst (ValidateToken json_store (seClk E 0) (request_token rq) (svStore sv)) = Inr (u, x) \<Longrightarrow> uID u = uid \<and> \<not> uIsAdmin u"
    and "reached E rq sv \<noteq> Some HAuthenticateByName" "reached E rq sv \<noteq> Some H2FARecover"
    and "serve E rq sv = (rep, sv')"
  shows "(\<forall>k. k \<noteq> uid \<longrightarrow> aUsers (json_abs (svStore sv')) k = aUsers (json_abs (svStore sv)) k) \<and>
    (\<forall>k. (\<forall>i. k \<noteq> userDataKey uid i) \<longrightarrow> aUserData (json_abs (svStore sv')) k = aUserData (json_abs (svStore sv)) k) \<and>
    aLibraries (json_abs (svStore sv')) = aLibraries (json_abs (svStore sv)) \<and>
    aItems (json_abs (svStore sv')) = aItems (json_abs (svStore sv))"
proof -
  let ?v = "ValidateToken json_store (seClk E 0) (request_token rq) (svStore sv)" and ?a = "json_abs (svStore sv)"
  obtain c sv1 where i: "in_context E rq sv = (c, sv1)" by fastforce
  then have sv1: "svStore sv1 = snd ?v"
    and cu: "cxUser c = (case fst ?v of Inl e \<Rightarrow> None | Inr (u, x) \<Rightarrow> Some u)"
    unfolding in_context_validate Let_def request_token_def assms(2) by (auto split: sum.splits)
  have plain_user: "cxUser c = Some u \<Longrightarrow> uID u = uid \<and> \<not> uIsAdmin u" for u
    using assms(3) cu by (auto split: sum.splits)
  have start: "json_own uid ?a (svStore sv)" using assms(1) by (simp add: json_own_def others_same_def)
  from json_owner.own_validate [OF start, of "seClk E 0" "request_token rq"] have P1: "json_own uid ?a (svStore sv1)" by (simp add: sv1)
  have "json_own uid ?a (svStore sv')"
  proof (rule serve_cases [OF i], goal_cases handled refused)
    case (handled h pv)
    have "h \<notin> set admin_handlers" using handled(6) plain_user by auto
    then have h: "h \<notin> {HAuthenticateByName, H2FARecover, HLibraryRefresh}"
      using handled(1) assms(4,5) by (auto simp: admin_handlers_def)
    have "serves_user json_store (json_own uid ?a) uid E (c\<lparr>cxPath := pv\<rparr>) sv1"
      using P1 plain_user assms(2) by (simp add: serves_user_def)
    from json_owner.own_run [OF this h] show ?thesis using handled(2) assms(6) by simp
  next
    case refused
    then show ?thesis using P1 assms(6) by simp
  qed
  then show ?thesis by (simp add: json_own_def others_same_def)
qed

lemma user_isolation_witness:
  "aItems (json_abs (svStore (snd (serve env0 (call ''POST'' ''/Users/u/PlayedItems/i'' [(''X-Emby-Token'', ''tok'')]) (server0 json_session0)))))
     = aItems (json_abs json_session0)"
proof -
  let ?rq = "call ''POST'' ''/Users/u/PlayedItems/i'' [(''X-Emby-Token'', ''tok'')]" and ?sv = "server0 json_session0"
  have strip: "stripEmbyPrefix ?rq = ?rq"
    by (simp add: stripEmbyPrefix_def call_def TrimPrefix_def HasPrefix_def)
  have tok: "request_token ?rq = ''tok''"
    unfolding request_token_def strip by (simp add: ParseClientAuth_def call_def HeaderGet_def get_value_def emptyAuth_def)
  have r: "cxReq (fst (in_context env0 ?rq ?sv)) = ?rq" by (simp add: in_context_validate strip Let_def split: sum.splits)
  have m: "find_handler routes ''POST'' ''/Users/u/PlayedItems/i'' =
      Matched (rt ''POST'' ''/Users/{userId}/PlayedItems/{itemId}'' RequireAuth HMarkPlayed) [(''userId'', ''u''), (''itemId'', ''i'')]"
    by code_simp
  have "reached env0 ?rq ?sv \<noteq> Some HAuthenticateByName" "reached env0 ?rq ?sv \<noteq> Some H2FARecover"
    using m r by (auto simp: reached_def Let_def call_def rt_def)
  moreover have "uID u = ''u'' \<and> \<not> uIsAdmin u"
    if "fst (ValidateToken json_store (seClk env0 0) (request_token ?rq) (svStore ?sv)) = Inr (u, x)" for u x
    using that json_session0_valid by (auto simp: tok server0_def srv_New_def user0_def new_user_def)
  moreover have "json_inv (svStore ?sv)" "seStore env0 = json_store" by (simp_all add: server0_def srv_New_def json_session0_inv env0_def)
  moreover obtain rep sv' where "serve env0 ?rq ?sv = (rep, sv')" by fastforce
  ultimately show ?thesis using user_isolation [of ?sv env0 ?rq "''u''" rep sv'] by (simp add: server0_def srv_New_def)
qed

section \<open>A login over HTTP\<close>


definition json_pw :: jsonStore where
  "json_pw = json0\<lparr>jUsers := [(''u'', user0\<lparr>uPasswordHash := hash0\<rparr>)]\<rparr>"

definition env_login :: "jsonStore senv" where
  "env_login = env0\<lparr>seAuthBody := (\<lambda>_. Some \<lparr>arUsername = ''alice'', arPw = ''secret-pw''\<rparr>)\<rparr>"

definition token0 :: ClientAuth where
  "token0 = \<lparr>caToken = hex_encode ''tttttttttttttttt'', caClient = ''c'', caDevice = ''d'', caDeviceID = ''1'', caVersion = ''2''\<rparr>"

lemma json_pw_inv: "json_inv json_pw" "names_unique (json_abs json_pw)" "aUsers (json_abs json_pw) ''u'' = Some (user0\<lparr>uPasswordHash := hash0\<rparr>)"
  "aSessions (json_abs json_pw) = Map.empty"
  by (simp_all add: json_inv_def json_pw_def json0_def keyed_def map_wf_def user0_def new_user_def names_unique_def fun_eq_iff)

lemma json_pw_login:
  "fst (Authenticate auth_New refArgon json_store (\<lambda>i. totp_now) ''alice'' ''secret-pw'' json_pw)
     = Inr (user0\<lparr>uPasswordHash := hash0, uFailedLoginAttempts := 0, uLockedUntil := zeroTime, uLastLoginAt := totp_now\<rparr>)"
proof -
  have "fst (Authenticate auth_New refArgon json_store (\<lambda>i. totp_now) ''alice'' ''secret-pw'' json_pw)
     = Inr ((user0\<lparr>uPasswordHash := hash0\<rparr>)\<lparr>uFailedLoginAttempts := 0, uLockedUntil := zeroTime, uLastLoginAt := totp_now\<rparr>)"
    by (rule json_users.Authenticate_good [OF json_pw_inv(1-3)])
      (simp_all add: user0_def new_user_def isLocked_def IsZero_def verifyCredentials_def hash0_verifies)
  then show ?thesis by simp
qed

lemma env_login_fields: "seAuth env_login = auth_New" "seArgon env_login = refArgon" "seStore env_login = json_store"
  "seClk env_login i = totp_now" "seRnd env_login (Suc 0) = Some ''tttttttttttttttt''" "seRnd env_login 2 = Some ''iiiiiiii''"
  "seAuthBody env_login b = Some \<lparr>arUsername = ''alice'', arPw = ''secret-pw''\<rparr>"
  by (simp_all add: env_login_def env0_def)

lemma json_quiet_login: "jEnv s = [] \<Longrightarrow> jEnv (snd (Authenticate sv A json_store clk name pw s)) = []"
  by (auto simp: Authenticate_def recordFailure_def json_UpdateUser_def flushLocked_def Let_def split: sum.splits)

lemma login_call:
  "\<exists>a. rsBody (fst (serve env_login (call ''POST'' ''/Users/AuthenticateByName'' []) ((server0 json_pw)\<lparr>svAudit := au\<rparr>))) = Authenticated a \<and>
     atAccessToken a = caToken token0 \<and> utID (atUser a) = ''u'' \<and>
     rsStatus (fst (serve env_login (call ''POST'' ''/Users/AuthenticateByName'' []) ((server0 json_pw)\<lparr>svAudit := au\<rparr>))) = 200"
proof -
  let ?rq = "call ''POST'' ''/Users/AuthenticateByName'' []" and ?sv = "(server0 json_pw)\<lparr>svAudit := au\<rparr>"
  obtain c sv1 where i: "in_context env_login ?rq ?sv = (c, sv1)" by fastforce
  have m: "find_handler routes (rqMethod ?rq) (rqPath ?rq) =
      Matched (rt ''POST'' ''/Users/AuthenticateByName'' Anonymous HAuthenticateByName) []" unfolding call_def by code_simp
  have p: "\<not> HasPrefix (rqPath ?rq) ''/emby''" by (simp add: call_def HasPrefix_def)
  have tok: "request_token ?rq = []"
    by (simp add: request_token_def stripped [OF p]) (simp add: ParseClientAuth_def call_def HeaderGet_def QueryGet_def get_value_def emptyAuth_def)
  have sv: "sv1 = ?sv\<lparr>svStore := json_pw\<rparr>"
    using context_fields(4) [of env_login ?rq ?sv] i tok by (simp add: ValidateToken_def server0_def srv_New_def)
  obtain st where au: "Authenticate auth_New refArgon json_store (\<lambda>i. totp_now) ''alice'' ''secret-pw'' json_pw
     = (Inr (user0\<lparr>uPasswordHash := hash0, uFailedLoginAttempts := 0, uLockedUntil := zeroTime, uLastLoginAt := totp_now\<rparr>), st)"
    using json_pw_login by (metis prod.collapse)
  have "jEnv st = []" using json_quiet_login [of json_pw auth_New refArgon "\<lambda>i. totp_now" "''alice''" "''secret-pw''"] au
    by (simp add: json_pw_def json0_def)
  let ?c = "c\<lparr>cxPath := []\<rparr>"
  from \<open>jEnv st = []\<close> obtain tok st' where cs: "auth_CreateSession json_store (Some ''tttttttttttttttt'') (Some ''iiiiiiii'') totp_now ''u'' (caClient (cxAuth c))
      (caDevice (cxAuth c)) (caDeviceID (cxAuth c)) (caVersion (cxAuth c)) (client_ip env_login ?c) st = (Inr tok, st')" "Token tok = caToken token0"
    by (auto simp: auth_CreateSession_def NewToken_def NewID_def randomHex_def json_CreateSession_def flushLocked_def token0_def Let_def)
  have "\<exists>a. rsBody (fst (handleAuthenticateByName env_login ?c sv1)) = Authenticated a \<and> atAccessToken a = caToken token0 \<and>
      utID (atUser a) = ''u'' \<and> rsStatus (fst (handleAuthenticateByName env_login ?c sv1)) = 200"
    using au cs by (simp add: handleAuthenticateByName_def limit_key_def sv env_login_fields allow_def server0_def srv_New_def
        user0_def new_user_def writeJSON_def login_result_def toUserDto_def Let_def)
  then show ?thesis using serve_route(2,3) [OF m p i] by simp
qed

lemma login_reached: "reached E (call ''POST'' ''/Users/AuthenticateByName'' []) sv = Some HAuthenticateByName"
proof -
  let ?rq = "call ''POST'' ''/Users/AuthenticateByName'' []"
  have m: "find_handler routes ''POST'' ''/Users/AuthenticateByName'' =
      Matched (rt ''POST'' ''/Users/AuthenticateByName'' Anonymous HAuthenticateByName) []" by code_simp
  have "\<not> HasPrefix (rqPath ?rq) ''/emby''" by (simp add: call_def HasPrefix_def)
  from stripped [OF this] show ?thesis
    using m by (simp add: reached_def context_fields Let_def) (simp add: call_def rt_def admitted_def)
qed


section \<open>Guessing is slow\<close>

text \<open>C12. Guessing over the network is slow: however requests and collections of idle buckets interleave, of the logins from one
  address at most six, and one more for each five seconds that pass, get to the check of a password; the others
  are answered 429.\<close>

theorem login_throttled:
  assumes "svLimiter sv = []" "sorted (start # map happens_at evs)" "\<forall>ev \<in> set evs. happens_at ev \<le> stop" "start \<le> stop"
    and "stop - start < 2 ^ 63" "length evs \<le> 2 ^ 40"
  shows "int (logins_tried ip evs sv) \<le> 6 + (stop - start) div (5 * Second)"
proof -
  define T x where "T = stop - start" and "x = (of_int T / 5000000000 :: rat)"
  have "limiter_ok start start (''auth:'' @ ip) (svLimiter sv)" using assms(1) by (simp add: limiter_ok_def bucket_by_def)
  from logins_bound [OF this assms(2) order_refl assms(3,5,4)]
  have "of_nat (logins_tried ip evs sv) \<le> 5 + x * (1 + slack) + of_nat (length evs) * (2 * slack)"
    using assms(1) by (simp add: worth_def T_def x_def)
  then have b: "of_nat (logins_tried ip evs sv) \<le> 5 + (x + x * slack) + of_nat (length evs) * (2 * slack)" by (simp add: distrib_left)
  have "(of_int T :: rat) \<le> of_int (2 ^ 63)" using assms(5) unfolding T_def of_int_le_iff by simp
  then have "x * slack \<le> 1 / 4" by (simp add: slack_def x_def)
  moreover have "of_nat (length evs) * (2 * slack) \<le> 1 / 4"
  proof -
    have "of_nat (length evs) \<le> (of_nat (2 ^ 40) :: rat)" using assms(6) by (simp only: of_nat_le_iff)
    then show ?thesis by (simp add: slack_def)
  qed
  moreover have "x < of_int (T div 5000000000) + 1"
  proof -
    have "(of_int T :: rat) < of_int (5000000000 * (T div 5000000000) + 5000000000)" unfolding of_int_less_iff by simp
    then show ?thesis by (simp add: x_def)
  qed
  ultimately have "of_nat (logins_tried ip evs sv) < 7 + (of_int (T div 5000000000) :: rat)" using b by linarith
  then have "(of_int (int (logins_tried ip evs sv)) :: rat) < of_int (7 + T div 5000000000)" by simp
  then show ?thesis unfolding of_int_less_iff T_def by (simp add: Second_def)
qed

lemma login_throttled_witness:
  "int (logins_tried ''10.0.0.1'' (replicate 9 (Request env_login (call ''POST'' ''/Users/AuthenticateByName'' [])) @ [GcRound (totp_now + Hour)])
     (server0 json_pw)) \<le> 6 + Hour div (5 * Second)"
  using login_throttled [of "server0 json_pw" totp_now "replicate 9 (Request env_login (call ''POST'' ''/Users/AuthenticateByName'' [])) @ [GcRound (totp_now + Hour)]"
      "totp_now + Hour" "''10.0.0.1''"]
  by (simp add: server0_def srv_New_def env_login_fields sorted_append Hour_def Minute_def Second_def)

text \<open>C35. Collecting idle buckets is invisible: an attempt gets the answer it would get from a limiter that never forgets a
  key, at whatever times the collector runs.\<close>

theorem limiter_gc_unobservable:
  assumes "sorted (map op_time ops)" "\<forall>o1 \<in> set ops. start \<le> op_time o1 \<and> op_time o1 < start + 2 ^ 63"
  shows "answers ops [] = answers (filter is_Attempt ops) []"
  by (rule answers_alike [of start _ _ _ start]) (use assms in \<open>simp_all add: kept_alike_def bucket_by_def\<close>)

lemma limiter_gc_unobservable_witness:
  "answers [Attempt 0 ''k'', Collect (31 * Minute), Attempt (31 * Minute) ''k''] [] = answers [Attempt 0 ''k'', Attempt (31 * Minute) ''k''] []"
  using limiter_gc_unobservable [of "[Attempt 0 ''k'', Collect (31 * Minute), Attempt (31 * Minute) ''k'']" 0]
  by (simp add: Minute_def Second_def)

section \<open>The authorization header\<close>



section \<open>The configuration\<close>

lemma config_ok_loaded:
  assumes "Load sy = Inr c" "\<And>wd. syGetwd sy = Some wd \<Longrightarrow> IsAbs wd"
  shows "config_ok c"
proof (rule Load_result [OF assms(1)], goal_cases)
  case (1 ap m)
  have ap: "IsAbs ap \<and> Clean ap = ap" using sysAbs_ok [OF 1(1)] assms(2) by blast
  have durations: "cfLockoutDuration c = wrap64 (envInt sy ''CUBOZOA_LOCKOUT_MINUTES'' 15 * Minute)"
    "cfIPTVRefresh c = wrap64 (envInt sy ''CUBOZOA_IPTV_REFRESH_HOURS'' 12 * Hour)" "cfDataDir c = ap"
    by (simp_all add: 1(2) raw_config_def)
  show ?case unfolding config_ok_def durations using ap 1(4-7) wrap64_bounds by blast
qed



end
