(* ===== verification/AuditProps.thy ===== *)
theory AuditProps
  imports ServerProps
begin

text \<open>
  The audit log (\<open>internal/audit\<close>) of the server. Which events the handlers promise is a table over handlers and the
  status of the reply (\<open>expects\<close>); over any run of requests, what is appended to the log is one entry for each
  request the table names, in their order.
\<close>

section \<open>Handlers that log nothing\<close>

named_theorems audit_kept "handlers that leave the audit log as it is"

lemma audit_parts [simp]:
  "svAudit (put_dvr r sv) = svAudit sv" "svAudit (snd (item_state k sv res)) = svAudit sv"
  "svAudit (snd (limit_key E key sv)) = svAudit sv"
  by (simp_all add: put_dvr_def item_state_def limit_key_def split: prod.splits)

lemma audit_playlist_reply [audit_kept]: "svAudit (snd (playlist_reply E c sv m key input pre rd)) = svAudit sv"
  by (simp add: playlist_reply_def Let_def split: sum.splits prod.splits)

lemma audit_serveSegment [audit_kept]: "svAudit (snd (serveSegment E sv m key seg)) = svAudit sv"
  by (simp add: serveSegment_def split: prod.splits)

lemma audit_serveChannelLogo [audit_kept]: "svAudit (snd (serveChannelLogo E k sv)) = svAudit sv"
  by (simp add: serveChannelLogo_def split: prod.splits option.splits)

lemma audit_setFavorite [audit_kept]: "svAudit (snd (srv_setFavorite fav E c sv)) = svAudit sv"
  by (simp add: srv_setFavorite_def Let_def with_user_def for_user_def split: sum.splits option.splits prod.splits)

lemma audit_streams [audit_kept]:
  "svAudit (snd (handleHlsPlaylist E c sv)) = svAudit sv" "svAudit (snd (handleHlsVariant E c sv)) = svAudit sv"
  "svAudit (snd (handleHlsSegment E c sv)) = svAudit sv" "svAudit (snd (handleHlsVariantSegment E c sv)) = svAudit sv"
  "svAudit (snd (handleLiveSegment E c sv)) = svAudit sv" "svAudit (snd (handleLiveStream E c sv)) = svAudit sv"
  by (simp_all add: handleHlsPlaylist_def handleHlsVariant_def handleHlsSegment_def handleHlsVariantSegment_def
      handleLiveSegment_def handleLiveStream_def setLiveReencode_def audit_kept Let_def split: sum.splits option.splits prod.splits)

lemma audit_ItemImage [audit_kept]: "svAudit (snd (handleItemImage E c sv)) = svAudit sv"
  using audit_serveChannelLogo [of E "PathValue c ''id''" sv]
  by (auto simp: handleItemImage_def Let_def split: sum.splits option.splits prod.splits)

lemma audit_user_data [audit_kept]:
  "svAudit (snd (handleMarkPlayed E c sv)) = svAudit sv" "svAudit (snd (handleMarkUnplayed E c sv)) = svAudit sv"
  "svAudit (snd (handleAddFavorite E c sv)) = svAudit sv" "svAudit (snd (handleRemoveFavorite E c sv)) = svAudit sv"
  "svAudit (snd (handlePlaybackReport E c sv)) = svAudit sv"
  by (simp_all add: handleMarkPlayed_def handleMarkUnplayed_def handleAddFavorite_def handleRemoveFavorite_def handlePlaybackReport_def
      audit_kept Let_def with_user_def for_user_def split: sum.splits option.splits prod.splits)

lemma audit_timers [audit_kept]:
  "svAudit (snd (handleCreateTimer E c sv)) = svAudit sv" "svAudit (snd (handleCancelTimer E c sv)) = svAudit sv"
  "svAudit (snd (handleCreateSeriesTimer E c sv)) = svAudit sv" "svAudit (snd (handleCancelSeriesTimer E c sv)) = svAudit sv"
  by (simp_all add: handleCreateTimer_def handleCancelTimer_def handleCreateSeriesTimer_def handleCancelSeriesTimer_def
      Let_def with_user_def for_user_def split: sum.splits option.splits prod.splits)

lemma audit_rest [audit_kept]:
  "svAudit (snd (handleLibraryRefresh E c sv)) = svAudit sv" "svAudit (snd (handle2FASetup E c sv)) = svAudit sv"
  by (simp_all add: handleLibraryRefresh_def handle2FASetup_def Let_def with_user_def split: sum.splits option.splits prod.splits)

section \<open>What is promised\<close>

text \<open>A request that ends with this status is logged under one of these names; not at all if there is none.\<close>

fun expects :: "handler \<Rightarrow> int \<Rightarrow> string set" where
  "expects HAuthenticateByName s = (if s = 200 then {LoginSuccess} else if s = 401 then {LoginFailure, AccountLocked} else {})"
| "expects HLogout s = {LogoutEvent}"
| "expects H2FAActivate s = (if s = 200 then {TwoFAEnabled} else {})"
| "expects H2FADisable s = (if s = 204 then {TwoFADisabled} else {})"
| "expects H2FARecover s = (if s = 204 then {TwoFARecover} else {})"
| "expects _ s = {}"

text \<open>An entry names the event, the address the request counts for and, for a login that succeeded, the user the
  reply is about; it has no other attributes than the four.\<close>

fun accounts_for :: "auditEvent \<Rightarrow> handler \<times> string \<times> reply \<Rightarrow> bool" where
  "accounts_for ev (h, ip, rep) \<longleftrightarrow>
     aeName ev \<in> expects h (rsStatus rep) \<and> map_get (aeAttrs ev) ''remote'' = Some ip \<and>
     set (map fst (aeAttrs ev)) \<subseteq> {''user'', ''remote'', ''client'', ''device''} \<and>
     (\<forall>a. rsBody rep = Authenticated a \<longrightarrow> map_get (aeAttrs ev) ''user'' = Some (utName (atUser a)))"

definition logged_as :: "handler \<Rightarrow> string \<Rightarrow> reply \<Rightarrow> auditEvent list \<Rightarrow> 's server \<Rightarrow> bool" where
  "logged_as h ip rep l sv' \<longleftrightarrow>
     (if expects h (rsStatus rep) = {} then svAudit sv' = Some l
      else \<exists>ev. svAudit sv' = Some (l @ [ev]) \<and> accounts_for ev (h, ip, rep))"

lemma auditEvent_log_some: "svAudit sv = Some l \<Longrightarrow> svAudit (auditEvent_log e a sv) = Some (l @ [\<lparr>aeName = e, aeAttrs = a\<rparr>])"
  by (simp add: auditEvent_log_def audit_Event_def)

lemma plain_replies [simp]: "rsStatus noContent = 204" "rsStatus panicked = 500" "rsBody (writeError n) \<noteq> Authenticated a" "rsBody noContent \<noteq> Authenticated a"
  "rsBody (writeJSON n (JTexts p)) \<noteq> Authenticated a" "rsBody (writeJSON n b) = b"
  by (simp_all add: noContent_def writeError_def writeJSON_def panicked_def)

lemma login_logged:
  assumes "svAudit sv = Some l"
  shows "logged_as HAuthenticateByName (client_ip E c) (fst (handleAuthenticateByName E c sv)) l (snd (handleAuthenticateByName E c sv))"
  using assms
  by (auto simp: handleAuthenticateByName_def limit_key_eq logged_as_def auditEvent_log_some login_result_def toUserDto_def Let_def
      split: prod.splits option.splits sum.splits)

lemma recover_logged:
  assumes "svAudit sv = Some l"
  shows "logged_as H2FARecover (client_ip E c) (fst (handle2FARecover E c sv)) l (snd (handle2FARecover E c sv))"
  using assms by (auto simp: handle2FARecover_def limit_key_eq logged_as_def auditEvent_log_some Let_def split: prod.splits option.splits)

lemma second_factor_logged:
  assumes "svAudit sv = Some l"
  shows "logged_as H2FAActivate (client_ip E c) (fst (handle2FAActivate E c sv)) l (snd (handle2FAActivate E c sv))"
    "logged_as H2FADisable (client_ip E c) (fst (handle2FADisable E c sv)) l (snd (handle2FADisable E c sv))"
  using assms
  by (auto simp: handle2FAActivate_def handle2FADisable_def with_user_def logged_as_def auditEvent_log_some
      split: prod.splits option.splits sum.splits)

lemma logout_logged:
  assumes "svAudit sv = Some l" "cxUser c \<noteq> None"
  shows "logged_as HLogout (client_ip E c) (fst (handleLogout E c sv)) l (snd (handleLogout E c sv))"
  using assms by (auto simp: handleLogout_def logged_as_def auditEvent_log_some Let_def)

lemma handler_logged:
  assumes "svAudit sv = Some l" "h \<notin> set anonymous_handlers \<Longrightarrow> cxUser c \<noteq> None"
  shows "logged_as h (client_ip E c) (fst (run_handler h E c sv)) l (snd (run_handler h E c sv))"
proof -
  have "cxUser c \<noteq> None" if "h = HLogout" using assms(2) that by (simp add: anonymous_handlers_def)
  with assms(1) show ?thesis
    by (cases h) (simp_all add: login_logged recover_logged second_factor_logged logout_logged,
        simp_all add: logged_as_def readonly audit_kept)
qed

section \<open>Runs\<close>

definition to_log :: "'s senv \<Rightarrow> request \<Rightarrow> 's server \<Rightarrow> (handler \<times> string \<times> reply) list" where
  "to_log E rq sv =
     (case reached E rq sv of
        None \<Rightarrow> []
      | Some h \<Rightarrow> (let rep = fst (serve E rq sv) in
          if expects h (rsStatus rep) = {} then [] else [(h, request_ip E rq, rep)]))"

fun to_log_run :: "'s happening list \<Rightarrow> 's server \<Rightarrow> (handler \<times> string \<times> reply) list" where
  "to_log_run [] sv = []"
| "to_log_run (Request E rq # evs) sv = to_log E rq sv @ to_log_run evs (snd (serve E rq sv))"
| "to_log_run (GcRound t # evs) sv = to_log_run evs (happen (GcRound t) sv)"

lemma request_logged:
  assumes "svAudit sv = Some l"
  shows "\<exists>tr. svAudit (snd (serve E rq sv)) = Some (l @ tr) \<and> list_all2 accounts_for tr (to_log E rq sv)"
proof -
  obtain c sv1 where i: "in_context E rq sv = (c, sv1)" by fastforce
  have l: "svAudit sv1 = Some l" using context_fields(4) [of E rq sv] i assms by simp
  show ?thesis
  proof (rule serve_cases [OF i], goal_cases handled refused)
    case (handled h pv)
    let ?c = "c\<lparr>cxPath := pv\<rparr>"
    from handler_logged [OF l, of h ?c E] handled(5)
    have "logged_as h (request_ip E rq) (fst (run_handler h E ?c sv1)) l (snd (serve E rq sv))"
      using handled(2) context_ip [OF i] by simp
    then show ?case using handled(1,3,4)
      by (cases "expects h (rsStatus (fst (serve E rq sv))) = {}") (auto simp: logged_as_def to_log_def intro: exI [of _ "[x]" for x])
  qed (simp add: to_log_def l)
qed

text \<open>C13. The audit log tells the truth: over any run of requests and collector rounds, the log only grows, by exactly one
  entry, in order, for each login that succeeds or is refused for its credentials, each logout, and each change of
  a second factor; no other request adds one. Each entry names what happened, the address of the request, and after
  a login the user signed in, and holds no attribute but user, address, client and device.\<close>

theorem audit_trail:
  assumes "svAudit sv = Some l"
  shows "\<exists>tr. svAudit (fold happen evs sv) = Some (l @ tr) \<and> list_all2 accounts_for tr (to_log_run evs sv)"
  using assms
proof (induction evs sv arbitrary: l rule: to_log_run.induct)
  case (2 E rq evs sv)
  from request_logged [OF 2(2)] obtain tr where tr: "svAudit (snd (serve E rq sv)) = Some (l @ tr)"
    "list_all2 accounts_for tr (to_log E rq sv)" by blast
  from 2(1) [OF tr(1)] tr(2) show ?case by (auto intro: list_all2_appendI)
qed simp_all

lemma audit_trail_witness:
  "\<exists>ev. svAudit (happen (Request env_login (call ''POST'' ''/Users/AuthenticateByName'' [])) ((server0 json_pw)\<lparr>svAudit := Some []\<rparr>)) = Some [ev] \<and>
     aeName ev = LoginSuccess \<and> (\<exists>a. rsBody (fst (serve env_login (call ''POST'' ''/Users/AuthenticateByName'' []) ((server0 json_pw)\<lparr>svAudit := Some []\<rparr>))) = Authenticated a \<and>
       map_get (aeAttrs ev) ''user'' = Some (utName (atUser a)))"
proof -
  let ?rq = "call ''POST'' ''/Users/AuthenticateByName'' []" and ?sv = "(server0 json_pw)\<lparr>svAudit := Some []\<rparr>"
  obtain a where a: "rsBody (fst (serve env_login ?rq ?sv)) = Authenticated a" "rsStatus (fst (serve env_login ?rq ?sv)) = 200"
    using login_call by blast
  then have "to_log_run [Request env_login ?rq] ?sv = [(HAuthenticateByName, request_ip env_login ?rq, fst (serve env_login ?rq ?sv))]"
    by (simp add: to_log_def login_reached)
  with audit_trail [of ?sv "[]" "[Request env_login ?rq]"] a show ?thesis
    by (auto simp: list_all2_Cons2)
qed

end
