(* ===== verification/Tmdb.thy ===== *)
theory Tmdb
  imports Config Media
begin

text \<open>
  \<open>internal/metadata\<close>: the provider interface and its client of The Movie Database. The answer to a GET
  (\<open>None\<close>: no response) and the JSON decoder are arguments; a rating is the bit pattern of its
  \<open>float64\<close>. Titles and years go into the query as \<open>url.Values\<close> encodes them.
\<close>

record tmdbDetails =
  tdTitle :: string
  tdName :: string
  tdOverview :: string
  tdVoteAverage :: "64 word"
  tdReleaseDate :: string
  tdFirstAirDate :: string
  tdPosterPath :: string
  tdBackdropPath :: string
  tdGenres :: "string list"

record tmdbNet =
  tnGet :: "string \<Rightarrow> (int \<times> string) option"
  tnSearch :: "string \<Rightarrow> int list option"
  tnDetails :: "string \<Rightarrow> tmdbDetails option"

record TMDb =
  tmApiKey :: string
  tmBaseURL :: string
  tmImageBase :: string

definition WithBaseURL :: "string \<Rightarrow> TMDb \<Rightarrow> TMDb" where
  "WithBaseURL u t = t\<lparr>tmBaseURL := TrimRightSlash u\<rparr>"

definition WithImageBase :: "string \<Rightarrow> TMDb \<Rightarrow> TMDb" where
  "WithImageBase u t = t\<lparr>tmImageBase := TrimRightSlash u\<rparr>"

definition NewTMDb :: "string \<Rightarrow> (TMDb \<Rightarrow> TMDb) list \<Rightarrow> TMDb option" where
  "NewTMDb apiKey opts =
     (if TrimSpace apiKey = [] then None
      else Some (fold (\<lambda>o1 t. o1 t) opts \<lparr>tmApiKey = apiKey, tmBaseURL = ''https://api.themoviedb.org/3'',
        tmImageBase = ''https://image.tmdb.org/t/p/w780''\<rparr>))"

section \<open>Requests\<close>

text \<open>\<open>url.Values.Encode\<close> of one value per key, in the order of the keys.\<close>

definition ValuesEncode :: "string gomap \<Rightarrow> string" where
  "ValuesEncode m = Join (map (\<lambda>(k, v). QueryEscape k @ ''='' @ QueryEscape v) (sort_key fst m)) ''&''"

definition getJSON :: "tmdbNet \<Rightarrow> (string \<Rightarrow> 'a option) \<Rightarrow> TMDb \<Rightarrow> string \<Rightarrow> err + 'a" where
  "getJSON N dec t path =
     (case tnGet N (tmBaseURL t @ path) of
        None \<Rightarrow> Inl (ErrIO ''metadata: request failed'')
      | Some (status, body) \<Rightarrow>
          if status = 404 then Inl ErrNotFound
          else if status \<noteq> 200 then Inl (ErrIO ''metadata: unexpected status'')
          else (case dec body of None \<Rightarrow> Inl (ErrIO ''json'') | Some v \<Rightarrow> Inr v))"

definition tmdb_search_query :: "TMDb \<Rightarrow> string \<Rightarrow> string \<Rightarrow> int \<Rightarrow> string gomap" where
  "tmdb_search_query t kind title year =
     (let q = [(''api_key'', tmApiKey t), (''query'', title)]
      in if year > 0 then map_set (if kind = ''tv'' then ''first_air_date_year'' else ''year'') (Itoa year) q else q)"

definition tmdb_search :: "tmdbNet \<Rightarrow> TMDb \<Rightarrow> string \<Rightarrow> string \<Rightarrow> int \<Rightarrow> err + int" where
  "tmdb_search N t kind title year =
     and_then (getJSON N (tnSearch N) t (''/search/'' @ kind @ ''?'' @ ValuesEncode (tmdb_search_query t kind title year)))
       (\<lambda>results. case results of [] \<Rightarrow> Inl ErrNotFound | i # _ \<Rightarrow> Inr i)"

definition parseYear :: "string \<Rightarrow> int" where
  "parseYear date = (if length date \<ge> 4 then (case Atoi (take 4 date) of (y, None) \<Rightarrow> y | (_, Some e) \<Rightarrow> 0) else 0)"

fun firstNonEmpty :: "string list \<Rightarrow> string" where
  "firstNonEmpty [] = []"
| "firstNonEmpty (v # vs) = (if v \<noteq> [] then v else firstNonEmpty vs)"

definition tmdb_details :: "tmdbNet \<Rightarrow> TMDb \<Rightarrow> string \<Rightarrow> int \<Rightarrow> err + metaResult" where
  "tmdb_details N t kind k =
     and_then (getJSON N (tnDetails N) t (''/'' @ kind @ ''/'' @ Itoa k @ ''?api_key='' @ QueryEscape (tmApiKey t))) (\<lambda>d.
       Inr \<lparr>mrTitle = firstNonEmpty [tdTitle d, tdName d], mrOverview = tdOverview d,
         mrYear = parseYear (firstNonEmpty [tdReleaseDate d, tdFirstAirDate d]), mrRating = tdVoteAverage d,
         mrGenres = tdGenres d,
         mrPrimaryImageURL = (if tdPosterPath d \<noteq> [] then tmImageBase t @ tdPosterPath d else []),
         mrBackdropImageURL = (if tdBackdropPath d \<noteq> [] then tmImageBase t @ tdBackdropPath d else [])\<rparr>)"

definition tmdb_lookup :: "tmdbNet \<Rightarrow> TMDb \<Rightarrow> string \<Rightarrow> string \<Rightarrow> int \<Rightarrow> err + metaResult" where
  "tmdb_lookup N t kind title year = and_then (tmdb_search N t kind title year) (tmdb_details N t kind)"

definition tmdb_Movie :: "tmdbNet \<Rightarrow> TMDb \<Rightarrow> string \<Rightarrow> int \<Rightarrow> err + metaResult" where
  "tmdb_Movie N t title year = tmdb_lookup N t ''movie'' title year"

definition tmdb_Series :: "tmdbNet \<Rightarrow> TMDb \<Rightarrow> string \<Rightarrow> int \<Rightarrow> err + metaResult" where
  "tmdb_Series N t title year = tmdb_lookup N t ''tv'' title year"

definition tmdb_provider :: "tmdbNet \<Rightarrow> TMDb \<Rightarrow> metaProvider" where
  "tmdb_provider N t = \<lparr>pvMovie = tmdb_Movie N t, pvSeries = tmdb_Series N t\<rparr>"

section \<open>What a lookup gives\<close>

text \<open>A match is the first of the search, an answer without one is \<open>ErrNotFound\<close>, and every URL of an image lies
  below the image base.\<close>

lemma tmdb_lookup_cases:
  "case tmdb_lookup N t kind title year of
     Inr r \<Rightarrow> (\<exists>i rest. tmdb_search N t kind title year = Inr i \<and>
        getJSON N (tnSearch N) t (''/search/'' @ kind @ ''?'' @ ValuesEncode (tmdb_search_query t kind title year)) = Inr (i # rest)) \<and>
        (mrPrimaryImageURL r = [] \<or> HasPrefix (mrPrimaryImageURL r) (tmImageBase t)) \<and>
        (mrBackdropImageURL r = [] \<or> HasPrefix (mrBackdropImageURL r) (tmImageBase t))
   | Inl e \<Rightarrow> e = ErrNotFound \<or> io_error e"
  by (auto simp: tmdb_lookup_def tmdb_search_def tmdb_details_def getJSON_def and_then_def HasPrefix_def Let_def
      split: sum.splits option.splits list.splits if_splits)

lemma tmdb_no_match:
  assumes "tnGet N (tmBaseURL t @ ''/search/'' @ kind @ ''?'' @ ValuesEncode (tmdb_search_query t kind title year)) = Some (200, body)"
    "tnSearch N body = Some []"
  shows "tmdb_lookup N t kind title year = Inl ErrNotFound"
  using assms by (simp add: tmdb_lookup_def tmdb_search_def getJSON_def and_then_def)

end
