(* ===== verification/Loops.thy ===== *)
theory Loops
  imports DvrSeries LiveTvService
begin

text \<open>
  The background loops: the refresh of Live TV (\<open>Start\<close> and \<open>loop\<close> of \<open>internal/livetv/service.go\<close>) and the scheduler of the
  recorder (\<open>Start\<close> and \<open>loop\<close> of \<open>internal/dvr/recorder.go\<close>). What the \<open>select\<close> of a loop receives is a list of events,
  in the order received; a loop ends at the event \<open>Stopped\<close>. A refresh keeps what the last good fetch gave; whatever the timers
  do, the scheduler's run is a history of the recorder.
\<close>

datatype 'a loopEvent = Fires 'a | Stopped

section \<open>Live TV\<close>

text \<open>Each reload finds the network as it is then, and reads the clock.\<close>

fun lv_loop :: "(netEnv \<times> time) loopEvent list \<Rightarrow> liveTv \<Rightarrow> liveTv" where
  "lv_loop [] s = s"
| "lv_loop (Stopped # es) s = s"
| "lv_loop (Fires (env, now) # es) s = lv_loop es (snd (reload env now s))"

definition lv_Start :: "netEnv \<Rightarrow> time \<Rightarrow> (netEnv \<times> time) loopEvent list \<Rightarrow> liveTv \<Rightarrow> liveTv" where
  "lv_Start env now es s = lv_loop es (snd (reload env now s))"

text \<open>The last reload before the stop whose playlist could be fetched.\<close>

fun last_good :: "string \<Rightarrow> (netEnv \<times> time) loopEvent list \<Rightarrow> (netEnv \<times> time) option" where
  "last_good url [] = None"
| "last_good url (Stopped # es) = None"
| "last_good url (Fires (env, now) # es) =
     (case last_good url es of
        Some g \<Rightarrow> Some g
      | None \<Rightarrow> (case fetch env url of Inl e \<Rightarrow> None | Inr d \<Rightarrow> Some (env, now)))"

lemma last_good_fetch: "last_good url es = Some (env, now) \<Longrightarrow> \<exists>d. fetch env url = Inr d"
  by (induction url es rule: last_good.induct) (auto split: option.splits sum.splits)

lemma reload_failed: "fetch env (lvPlaylist s) = Inl e \<Longrightarrow> reload env now s = (Some e, s)"
  by (simp add: reload_def)

lemma reload_playlist: "lvPlaylist (snd (reload env now s)) = lvPlaylist s"
  by (simp add: reload_def Let_def split: sum.splits)

text \<open>A reload that succeeds depends only on the configuration, not on what an earlier one loaded.\<close>

lemma reload_again:
  assumes "fetch env (lvPlaylist s) = Inr d"
  shows "snd (reload env now (snd (reload env0 now0 s))) = snd (reload env now s)"
  using assms by (simp add: reload_def Let_def split: sum.splits)

lemma lv_loop_last_good:
  "lv_loop es s = (case last_good (lvPlaylist s) es of None \<Rightarrow> s | Some (env, now) \<Rightarrow> snd (reload env now s))"
proof (induction es s rule: lv_loop.induct)
  case (3 env now es s)
  show ?case
  proof (cases "last_good (lvPlaylist s) es")
    case None
    with 3 show ?thesis
      by (cases "fetch env (lvPlaylist s)") (simp_all add: reload_playlist reload_failed)
  next
    case (Some g)
    obtain env1 now1 where g: "g = (env1, now1)" by (cases g)
    with Some last_good_fetch obtain d where "fetch env1 (lvPlaylist s) = Inr d" by blast
    with 3 Some g show ?thesis by (simp add: reload_playlist reload_again)
  qed
qed simp_all


section \<open>The recorder\<close>

text \<open>The two timers: a tick with its readings of the clock, an expansion of the series timers with its readings, its
  draws, and the programs as they are then.\<close>

datatype dvrTimer =
    TickFires "nat \<Rightarrow> time"
  | SeriesFires time "nat \<Rightarrow> nat \<Rightarrow> time" "nat \<Rightarrow> string option" "(time \<Rightarrow> time \<Rightarrow> Airing list) option"

fun timer_step :: "dvrEnv \<Rightarrow> 's Store \<Rightarrow> dvrTimer \<Rightarrow> 's dvr \<Rightarrow> 's dvr" where
  "timer_step env S (TickFires clk) r = tick env S clk r"
| "timer_step env S (SeriesFires now clk rnd programs) r = expandSeries env S now clk rnd programs r"

fun dvr_select :: "dvrEnv \<Rightarrow> 's Store \<Rightarrow> dvrTimer loopEvent list \<Rightarrow> 's dvr \<Rightarrow> 's dvr" where
  "dvr_select env S [] r = r"
| "dvr_select env S (Stopped # es) r = r"
| "dvr_select env S (Fires t # es) r = dvr_select env S es (timer_step env S t r)"

text \<open>The loop expands once at startup; \<open>Start\<close> resumes what was interrupted and begins the loop.\<close>

definition dvr_loop :: "dvrEnv \<Rightarrow> 's Store \<Rightarrow> time \<Rightarrow> (nat \<Rightarrow> nat \<Rightarrow> time) \<Rightarrow> (nat \<Rightarrow> string option) \<Rightarrow>
    (time \<Rightarrow> time \<Rightarrow> Airing list) option \<Rightarrow> dvrTimer loopEvent list \<Rightarrow> 's dvr \<Rightarrow> 's dvr" where
  "dvr_loop env S now clk rnd programs es r = dvr_select env S es (expandSeries env S now clk rnd programs r)"

definition dvr_Start :: "dvrEnv \<Rightarrow> 's Store \<Rightarrow> (nat \<Rightarrow> time) \<Rightarrow> time \<Rightarrow> (nat \<Rightarrow> nat \<Rightarrow> time) \<Rightarrow> (nat \<Rightarrow> string option) \<Rightarrow>
    (time \<Rightarrow> time \<Rightarrow> Airing list) option \<Rightarrow> dvrTimer loopEvent list \<Rightarrow> 's dvr \<Rightarrow> 's dvr" where
  "dvr_Start env S rclk now clk rnd programs es r = dvr_loop env S now clk rnd programs es (resume env S rclk r)"

text \<open>The draws of each expansion are identifiers no recording has then.\<close>

fun timer_fresh :: "('s \<Rightarrow> absstore) \<Rightarrow> dvrTimer \<Rightarrow> 's dvr \<Rightarrow> bool" where
  "timer_fresh af (TickFires clk) r = True"
| "timer_fresh af (SeriesFires now clk rnd programs) r = fresh_from rnd 0 (recs af r)"

fun timers_fresh :: "dvrEnv \<Rightarrow> 's Store \<Rightarrow> ('s \<Rightarrow> absstore) \<Rightarrow> dvrTimer loopEvent list \<Rightarrow> 's dvr \<Rightarrow> bool" where
  "timers_fresh env S af [] r = True"
| "timers_fresh env S af (Stopped # es) r = True"
| "timers_fresh env S af (Fires t # es) r \<longleftrightarrow> timer_fresh af t r \<and> timers_fresh env S af es (timer_step env S t r)"

lemma timer_step_history: "timer_fresh af t r \<Longrightarrow> dvr_step env S af r (timer_step env S t r)"
  by (cases t) (auto intro: dvr_step.tick dvr_step.expand)

lemma dvr_select_history: "timers_fresh env S af es r \<Longrightarrow> (dvr_step env S af)\<^sup>*\<^sup>* r (dvr_select env S es r)"
  by (induction env S es r rule: dvr_select.induct) (auto intro: timer_step_history converse_rtranclp_into_rtranclp)

text \<open>A recorder that \<open>New\<close> just made has nothing to forget, so \<open>Start\<close> is a restart followed by timers.\<close>

lemma dvr_Start_history:
  assumes "dvActive r = []" "dvProcs r = []" "dvCancelled r = []" "\<not> dvStopped r"
    and "timers_fresh env S af (Fires (SeriesFires now clk rnd programs) # es) (resume env S rclk r)"
  shows "(dvr_step env S af)\<^sup>*\<^sup>* r (dvr_Start env S rclk now clk rnd programs es r)"
proof -
  have "r\<lparr>dvActive := [], dvProcs := [], dvCancelled := [], dvStopped := False\<rparr> = r" using assms(1-4) by simp
  with dvr_step.restart [of env S af r rclk] have "dvr_step env S af r (resume env S rclk r)" by simp
  with dvr_select_history [OF assms(5)] show ?thesis
    by (simp add: dvr_Start_def dvr_loop_def converse_rtranclp_into_rtranclp)
qed

end
