(* ===== verification/Startup.thy ===== *)
theory Startup
  imports Routes Tmdb Loops
begin

text \<open>
  \<open>cmd/cubozoa/main.go\<close> up to the point where the server listens: the store chosen, the services made and
  handed to the server, the administrator seeded. What the system answers is \<open>bootEnv\<close>; the readings of the
  clock are numbered in the order of the calls. The first scan, which \<open>run\<close> starts in the background, is taken to end
  before the first request. Listening, signals and draining are not modelled.
\<close>

record bootEnv =
  boLookPath :: "string \<Rightarrow> string option"
  boMkdir :: "string \<Rightarrow> bool"
  boAppend :: "string \<Rightarrow> bool"
  boReadFile :: "string \<Rightarrow> string option"
  boUnmarshal :: "string \<Rightarrow> string gomap option"
  boProbe :: "string \<Rightarrow> string \<Rightarrow> err + ProbeResult"
  boTmdb :: tmdbNet
  boMedia :: mediaEnv
  boNet :: netEnv
  boDvr :: dvrEnv
  boArgon :: argon2lib
  boDraws :: "nat \<Rightarrow> nat option"
  boSalt :: "string option"
  boID :: "string option"
  boClk :: "nat \<Rightarrow> time"
  boSeriesClk :: "nat \<Rightarrow> nat \<Rightarrow> time"
  boSeriesRnd :: "nat \<Rightarrow> string option"

section \<open>Helpers\<close>

datatype ('j, 'b, 'p) opened = OpenedJSON 'j | OpenedBolt 'b | OpenedPostgres 'p

definition openStore :: "(string \<Rightarrow> err + 'j) \<Rightarrow> (string \<Rightarrow> err + 'b) \<Rightarrow> (string \<Rightarrow> err + 'p) \<Rightarrow> Config \<Rightarrow> err + ('j, 'b, 'p) opened" where
  "openStore openJson openBolt openPg cfg =
     (if cfStoreBackend cfg = ''json'' then map_sum id OpenedJSON (openJson (cfDataDir cfg))
      else if cfStoreBackend cfg = ''bolt'' then map_sum id OpenedBolt (openBolt (cfDataDir cfg))
      else if cfStoreBackend cfg = ''postgres'' then map_sum id OpenedPostgres (openPg (cfDatabaseURL cfg))
      else Inl (ErrMsg ''unknown store backend''))"

text \<open>The writer is the file, or the standard output.\<close>

definition openAuditWriter :: "bootEnv \<Rightarrow> string \<Rightarrow> err + string option" where
  "openAuditWriter B path =
     (if path = [] then Inr None
      else if \<not> boAppend B path then Inl (ErrIO ''opening audit log'')
      else Inr (Some path))"

definition loadAliases :: "bootEnv \<Rightarrow> string \<Rightarrow> err + string gomap" where
  "loadAliases B path =
     (case boReadFile B path of
        None \<Rightarrow> Inl (ErrIO ''read'')
      | Some d \<Rightarrow> (case boUnmarshal B d of None \<Rightarrow> Inl (ErrIO ''json'') | Some m \<Rightarrow> Inr m))"

definition newTMDb :: "Config \<Rightarrow> TMDb option" where
  "newTMDb cfg = NewTMDb (cfTMDbAPIKey cfg)
     ((if cfTMDbBaseURL cfg \<noteq> [] then [WithBaseURL (cfTMDbBaseURL cfg)] else []) @
      (if cfTMDbImageBase cfg \<noteq> [] then [WithImageBase (cfTMDbImageBase cfg)] else []))"

text \<open>What is printed of a generated password, once, past the log.\<close>

definition announceAdmin :: "string \<Rightarrow> string \<Rightarrow> string" where
  "announceAdmin username generated =
     (if generated = [] then []
      else let nl = [CHR 0x0A]; banner = replicate 64 (CHR ''='') in
        nl @ banner @ nl @ ''  Cubozoa initial administrator credentials'' @ nl @ ''  username: '' @ username @ nl @
        ''  password: '' @ generated @ nl @
        ''  (shown once '' @ map char_of [226 :: nat, 128, 148] @ '' store it now; set CUBOZOA_ADMIN_PASSWORD to override)'' @ nl @
        banner @ nl @ nl)"

section \<open>Wiring\<close>

definition boot_auth :: "Config \<Rightarrow> authService" where
  "boot_auth cfg = SetLockoutPolicy (cfLockoutThreshold cfg) (cfLockoutDuration cfg) auth_New"

text \<open>The media service, its libraries synced and scanned.\<close>

definition boot_media :: "'s Store \<Rightarrow> bootEnv \<Rightarrow> Config \<Rightarrow> 's \<Rightarrow> 's media" where
  "boot_media S B cfg st =
     (let m = media_New st;
          m = (case NewProber (boLookPath B) (cfFFprobePath cfg) of None \<Rightarrow> m | Some bin \<Rightarrow> SetProber (Some (boProbe B bin)) m);
          m = (case newTMDb cfg of None \<Rightarrow> m
               | Some t \<Rightarrow> SetEnricher (Some (tmdb_provider (boTmdb B) t)) (JoinPath [cfDataDir cfg, ''metadata-images'']) m);
          m = (if cfMediaDir cfg \<noteq> [] then snd (SyncLibrariesFromMediaDir S (boMedia B) (boClk B 1) (cfMediaDir cfg) m) else m)
      in snd (ScanAll S (boMedia B) (boClk B 2) m))"

definition boot_livetv :: "bootEnv \<Rightarrow> Config \<Rightarrow> liveTv option" where
  "boot_livetv B cfg =
     map_option (\<lambda>l.
       let l = (if cfIPTVGuide cfg \<noteq> [] then SetGuide (cfIPTVGuide cfg) l else l);
           l = SetLogoCache (JoinPath [cfDataDir cfg, ''livetv-logos'']) l;
           l = (if cfIPTVAliases cfg \<noteq> [] then
                  (case loadAliases B (cfIPTVAliases cfg) of Inl e \<Rightarrow> l | Inr m \<Rightarrow> SetAliases m l)
                else l)
       in lv_Start (boNet B) (boClk B 3) [] l) (NewService (cfIPTVPlaylist cfg) (cfIPTVRefresh cfg))"

text \<open>The recorder, over the channels of Live TV: the interrupted recordings resumed, the series timers expanded once
  over the guide. The timers of both loops fire later, between requests.\<close>

definition boot_recorder :: "'s Store \<Rightarrow> bootEnv \<Rightarrow> Config \<Rightarrow> liveTv \<Rightarrow> 's \<Rightarrow> 's dvr option" where
  "boot_recorder S B cfg l st =
     (let dir = JoinPath [cfDataDir cfg, ''recordings'']
      in map_option (dvr_Start ((boDvr B)\<lparr>deDir := dir, deStreamURL := (\<lambda>k. StreamURL k l)\<rparr>) S
             (\<lambda>i. boClk B (5 + i)) (boClk B 4) (boSeriesClk B) (boSeriesRnd B) (Some (guide_airings l)) [])
           (dvr_New (boLookPath B) (boMkdir B dir) (cfFFmpegPath cfg) st))"

definition wire_recorder :: "'s dvr \<Rightarrow> 's server \<Rightarrow> 's server" where
  "wire_recorder r sv = put_dvr r (SetRecorder (Some r) sv)"

definition boot_server :: "'s Store \<Rightarrow> bootEnv \<Rightarrow> Config \<Rightarrow> 's \<Rightarrow> 's server" where
  "boot_server S B cfg st =
     (let m = boot_media S B cfg st;
          sv = SetAudit audit_New (srv_New (mvStore m) m);
          sv = (let dir = JoinPath [cfDataDir cfg, ''transcodes''] in
                case NewManager (boLookPath B) (boMkdir B dir) (cfFFmpegPath cfg) dir of
                  None \<Rightarrow> sv | Some mgr \<Rightarrow> SetTranscoder (Some mgr) sv)
      in case boot_livetv B cfg of
           None \<Rightarrow> sv
         | Some l \<Rightarrow>
             let sv = SetLiveTV (Some l) sv
             in case boot_recorder S B cfg l (svStore sv) of None \<Rightarrow> sv | Some r \<Rightarrow> wire_recorder r sv)"

text \<open>\<open>run\<close> on an opened store: the password it announces, if any, and the server.\<close>

definition run_setup :: "'s Store \<Rightarrow> bootEnv \<Rightarrow> Config \<Rightarrow> 's \<Rightarrow> err + string option \<times> 's server" where
  "run_setup S B cfg st =
     and_then (openAuditWriter B (cfAuditLogFile cfg)) (\<lambda>w.
       case SeedAdmin (boArgon B) S (boDraws B) (boSalt B) (boID B) (boClk B 0) (cfAdminUsername cfg) (cfAdminPassword cfg) st of
         (Inl e, st1) \<Rightarrow> Inl e
       | (Inr (generated, created), st1) \<Rightarrow>
           Inr (if created then Some generated else None, boot_server S B cfg st1))"

definition tls_enabled :: "Config \<Rightarrow> bool" where
  "tls_enabled cfg \<longleftrightarrow> cfTLSCertFile cfg \<noteq> [] \<and> cfTLSKeyFile cfg \<noteq> []"

section \<open>The accounts survive the wiring\<close>

text \<open>The accounts are the same, and where no write was going to fail, none is.\<close>

definition accounts_kept :: "jsonStore \<Rightarrow> jsonStore \<Rightarrow> bool" where
  "accounts_kept s s' \<longleftrightarrow> jUsers s' = jUsers s \<and> (jEnv s = [] \<longrightarrow> jEnv s' = [])"

lemma kept_refl [simp]: "accounts_kept s s"
  by (simp add: accounts_kept_def)

lemma kept_trans: "accounts_kept s s1 \<Longrightarrow> accounts_kept s1 s2 \<Longrightarrow> accounts_kept s s2"
  by (simp add: accounts_kept_def)

lemma kept_flush: "jUsers s1 = jUsers s \<Longrightarrow> jEnv s1 = jEnv s \<Longrightarrow> accounts_kept s (snd (flushLocked s1))"
  by (simp add: accounts_kept_def flushLocked_def Let_def split: flush_outcome.splits)

lemma kept_fold: "(\<And>x m. accounts_kept (mvStore m) (mvStore (f x m))) \<Longrightarrow> accounts_kept (mvStore m) (mvStore (fold f xs m))"
  by (induction xs arbitrary: m) (auto intro: kept_trans)

lemma kept_writes: "accounts_kept s (snd (json_ReplaceLibraryItems now k items s))" "accounts_kept s (snd (json_CreateLibrary l s))"
  "accounts_kept s (snd (json_TouchSession now k s))"
  by (simp_all add: json_ReplaceLibraryItems_def json_CreateLibrary_def json_TouchSession_def kept_flush split: option.splits)

lemma kept_ScanLibrary: "accounts_kept (mvStore m) (mvStore (snd (ScanLibrary json_store menv now k m)))"
  using kept_writes(1) by (auto simp: ScanLibrary_def split: sum.splits prod.splits) (metis snd_conv)

lemma kept_ScanAll: "accounts_kept (mvStore m) (mvStore (snd (ScanAll json_store menv now m)))"
  by (auto simp: ScanAll_def kept_ScanLibrary intro!: kept_fold split: sum.splits)

lemma kept_Register: "accounts_kept (mvStore m) (mvStore (snd (RegisterLibrary json_store menv now name libType path m)))"
  using kept_writes(2) by (auto simp: RegisterLibrary_def Let_def split: sum.splits prod.splits option.splits) (metis snd_conv)+

lemma kept_Sync: "accounts_kept (mvStore m) (mvStore (snd (SyncLibrariesFromMediaDir json_store menv now dir m)))"
  by (auto simp: SyncLibrariesFromMediaDir_def sync_entry_def kept_Register Let_def intro!: kept_fold split: option.splits prod.splits sum.splits)

lemma kept_ValidateToken: "accounts_kept s (snd (ValidateToken json_store now tok s))"
  by (simp add: ValidateToken_def kept_writes split: sum.splits option.splits)

lemma kept_boot_media: "accounts_kept st (mvStore (boot_media json_store B cfg st))"
proof -
  have kept: "accounts_kept st (mvStore (snd (ScanAll json_store (boMedia B) (boClk B 2)
      (if cfMediaDir cfg \<noteq> [] then snd (SyncLibrariesFromMediaDir json_store (boMedia B) (boClk B 1) (cfMediaDir cfg) m) else m))))"
    if "mvStore m = st" for m
    using kept_trans [OF kept_Sync kept_ScanAll, of m] kept_ScanAll [of m] that by (auto split: if_splits)
  show ?thesis unfolding boot_media_def Let_def
    by (rule kept) (simp add: SetProber_def SetEnricher_def media_New_def split: option.splits)
qed

lemma boot_server_fresh:
  assumes "TrimSpace (cfIPTVPlaylist cfg) = []"
  shows "accounts_kept st (svStore (boot_server json_store B cfg st))" "svLimiter (boot_server json_store B cfg st) = []"
proof -
  have "boot_livetv B cfg = None" using assms by (simp add: boot_livetv_def NewService_def)
  then show "accounts_kept st (svStore (boot_server json_store B cfg st))" "svLimiter (boot_server json_store B cfg st) = []"
    by (simp_all add: boot_server_def SetAudit_def SetTranscoder_def srv_New_def kept_boot_media Let_def split: option.splits)
qed

text \<open>A login depends on the accounts alone.\<close>

lemma login_by_users:
  assumes "jUsers s = jUsers s'"
  shows "fst (Authenticate sv A json_store clk name pw s) = fst (Authenticate sv A json_store clk name pw s')"
proof -
  have "GetUserByName json_store name s = GetUserByName json_store name s'" using assms by (simp add: json_GetUserByName_def)
  then show ?thesis by (auto simp: Authenticate_def recordFailure_def Let_def split: sum.splits prod.splits)
qed

end
