(* ===== verification/BootProps.thy ===== *)
theory BootProps
  imports ServerProps Startup
begin

text \<open>
  From the environment to a login: what \<open>run\<close> sets up on a fresh JSON store serves its administrator.
\<close>

lemma quiet_SeedAdmin:
  "jEnv s = [] \<Longrightarrow> jEnv (snd (SeedAdmin A json_store draws saltRnd idRnd now name pw s)) = []"
  by (auto simp: SeedAdmin_def auth_CreateUser_def json_CreateUser_def flushLocked_def Let_def split: sum.splits)

lemma quiet_session:
  assumes "jEnv s = []" "tr \<noteq> None" "ir \<noteq> None"
  shows "\<exists>tok. fst (auth_CreateSession json_store tr ir now uid c d di v ra s) = Inr tok"
  using assms by (auto simp: auth_CreateSession_def NewToken_def NewID_def randomHex_def json_CreateSession_def flushLocked_def Let_def)

lemma login_answers:
  assumes "svLimiter sv = []" "seAuthBody E (take maxAuthBody (rqBody (cxReq c))) = Some body" "seStore E = json_store"
    "fst (Authenticate (seAuth E) (seArgon E) json_store (\<lambda>i. seClk E (2 + i)) (arUsername body) (arPw body) (svStore sv)) = Inr u"
    "jEnv (svStore sv) = []" "seRnd E 1 \<noteq> None" "seRnd E 2 \<noteq> None"
  shows "rsStatus (fst (handleAuthenticateByName E c sv)) = 200 \<and> (\<exists>a. rsBody (fst (handleAuthenticateByName E c sv)) = Authenticated a \<and>
    upIsAdministrator (utPolicy (atUser a)) = uIsAdmin u)"
proof -
  obtain st where au: "Authenticate (seAuth E) (seArgon E) json_store (\<lambda>i. seClk E (2 + i)) (arUsername body) (arPw body) (svStore sv) = (Inr u, st)"
    using assms(4) by (metis prod.collapse)
  then have "jEnv st = []" using json_quiet_login [OF assms(5)] by (metis snd_conv)
  let ?cs = "auth_CreateSession json_store (seRnd E 1) (seRnd E 2) (seClk E 6) (uID u) (caClient (cxAuth c)) (caDevice (cxAuth c))
       (caDeviceID (cxAuth c)) (caVersion (cxAuth c)) (client_ip E c) st"
  obtain tok s2 where cs: "?cs = (Inr tok, s2)" using quiet_session [OF \<open>jEnv st = []\<close> assms(6,7)] by (metis prod.collapse)
  show ?thesis
    unfolding handleAuthenticateByName_def Let_def limit_key_eq assms(3)
    using au cs assms(1,2) by (simp add: allow_def writeJSON_def login_result_def toUserDto_def Let_def)
qed


definition cfg_boot :: Config where "cfg_boot = cfg0\<lparr>cfAdminPassword := ''secret-pw''\<rparr>"

definition boot0 :: bootEnv where
  "boot0 = \<lparr>boLookPath = (\<lambda>_. None), boMkdir = (\<lambda>_. False), boAppend = (\<lambda>_. False), boReadFile = (\<lambda>_. None),
     boUnmarshal = (\<lambda>_. None), boProbe = (\<lambda>_ _. Inl ErrNotFound),
     boTmdb = \<lparr>tnGet = (\<lambda>_. None), tnSearch = (\<lambda>_. None), tnDetails = (\<lambda>_. None)\<rparr>,
     boMedia = seMedia env0, boNet = seNet env0, boDvr = seDvr env0, boArgon = refArgon, boDraws = (\<lambda>_. None),
     boSalt = Some ''0123456789abcdef'', boID = Some ''0123456789abcdef'', boClk = (\<lambda>_. totp_now),
     boSeriesClk = (\<lambda>_ _. totp_now), boSeriesRnd = (\<lambda>_. None)\<rparr>"

definition env_admin :: "jsonStore senv" where
  "env_admin = env0\<lparr>seAuthBody := (\<lambda>_. Some \<lparr>arUsername = ''admin'', arPw = ''secret-pw''\<rparr>)\<rparr>"


end
