(* ===== verification/Run.thy ===== *)
theory Run
  imports Startup PgBackend
begin

text \<open>
  \<open>run\<close> and \<open>main\<close> of \<open>cmd/cubozoa/main.go\<close> from end to end: the configuration, the backend it names, the server on
  it, and how serving ends. \<open>storeEnv\<close> is what the data directory and the connection string lead to, with the two
  engines that are not in the repository. The background loops are those of \<open>Loops\<close>.
\<close>

record ('bk, 'b, 'db, 'e) storeEnv =
  steMkdir :: "string \<Rightarrow> bool"
  steNewID :: "string option"
  steJson :: "string \<Rightarrow> diskfile option"
  steJsonTmp :: "string \<Rightarrow> diskfile option"
  steFlushes :: "flush_outcome list"
  steBolt :: "('bk, 'b) engine"
  steBoltFile :: "string \<Rightarrow> 'bk boltTx option"
  stePg :: "('db, 'e) pgEngine"
  stePgConn :: "string \<Rightarrow> 'db option"

definition open_backend :: "('bk, 'b, 'db, 'e) storeEnv \<Rightarrow> Config \<Rightarrow>
    err + (jsonStore, 'bk boltStore, 'db pgStore) opened" where
  "open_backend Z = openStore
     (\<lambda>dir. OpenJSON (steMkdir Z dir) (steNewID Z) (steJson Z dir) (steJsonTmp Z dir) (steFlushes Z))
     (\<lambda>dir. OpenBolt (steBolt Z) (steMkdir Z dir) (steBoltFile Z dir) (steNewID Z))
     (\<lambda>url. OpenPostgres (stePg Z) (stePgConn Z url) (steNewID Z))"

datatype ('j, 'b, 'p) booted = ServesJSON 'j | ServesBolt 'b | ServesPostgres 'p

text \<open>The services are wired the same way whatever the store.\<close>

fun setup_on :: "('bk, 'b, 'db, 'e) storeEnv \<Rightarrow> bootEnv \<Rightarrow> Config \<Rightarrow> (jsonStore, 'bk boltStore, 'db pgStore) opened \<Rightarrow>
    err + string option \<times> (jsonStore server, 'bk boltStore server, 'db pgStore server) booted" where
  "setup_on Z B cfg (OpenedJSON s) = map_sum id (map_prod id ServesJSON) (run_setup json_store B cfg s)"
| "setup_on Z B cfg (OpenedBolt s) = map_sum id (map_prod id ServesBolt) (run_setup (bolt_store (steBolt Z)) B cfg s)"
| "setup_on Z B cfg (OpenedPostgres s) = map_sum id (map_prod id ServesPostgres) (run_setup (pg_store (stePg Z)) B cfg s)"

definition boot :: "('bk, 'b, 'db, 'e) storeEnv \<Rightarrow> bootEnv \<Rightarrow> Config \<Rightarrow>
    err + string option \<times> (jsonStore server, 'bk boltStore server, 'db pgStore server) booted" where
  "boot Z B cfg = and_then (open_backend Z cfg) (setup_on Z B cfg)"

text \<open>What the \<open>select\<close> of \<open>run\<close> receives: the error of a listener that failed, or a signal, after which \<open>Shutdown\<close>
  answers.\<close>

datatype serveEnd = ListenFailed err | Signalled "err option"

fun serve_end :: "serveEnd \<Rightarrow> err option" where
  "serve_end (ListenFailed e) = Some e"
| "serve_end (Signalled shutdown) = shutdown"

definition run :: "sysEnv \<Rightarrow> ('bk, 'b, 'db, 'e) storeEnv \<Rightarrow> bootEnv \<Rightarrow> serveEnd \<Rightarrow> err option" where
  "run sy Z B fin =
     (case Load sy of
        Inl e \<Rightarrow> Some e
      | Inr cfg \<Rightarrow> (case boot Z B cfg of Inl e \<Rightarrow> Some e | Inr (announced, sv) \<Rightarrow> serve_end fin))"

definition main_status :: "err option \<Rightarrow> int" where
  "main_status e = (case e of None \<Rightarrow> 0 | Some _ \<Rightarrow> 1)"

text \<open>A configuration that loads never reaches the default arm of \<open>openStore\<close>.\<close>

lemma open_known:
  assumes "Load sy = Inr cfg" "open_backend Z cfg = Inr o'"
  shows "case o' of OpenedJSON s \<Rightarrow> cfStoreBackend cfg = ''json'' | OpenedBolt s \<Rightarrow> cfStoreBackend cfg = ''bolt''
    | OpenedPostgres s \<Rightarrow> cfStoreBackend cfg = ''postgres'' \<and> cfDatabaseURL cfg \<noteq> []"
  by (rule Load_result [OF assms(1)])
    (use assms(2) in \<open>auto simp: open_backend_def openStore_def map_sum_def split: if_splits sum.splits\<close>)

text \<open>The process exits with status 0 only after a clean shutdown of a server that was set up.\<close>

lemma clean_exit:
  assumes "main_status (run sy Z B fin) = 0"
  shows "fin = Signalled None \<and> (\<exists>cfg g sv. Load sy = Inr cfg \<and> boot Z B cfg = Inr (g, sv))"
  using assms by (cases fin) (auto simp: main_status_def run_def split: option.splits sum.splits prod.splits)

end
