(* ===== verification/Spec2Isabelle.thy ===== *)
theory Spec2Isabelle
  imports StoreProps PgProps AccountProps DvrProps TranscodeProps GuideProps MediaProps ShowProps ServerProps AuditProps BootProps Run
begin

text \<open>
  A model of Cubozoa, a media server in Go that speaks the Jellyfin protocol (\<open>src/cmd\<close>,
  \<open>src/internal\<close>), from the environment it is configured by to the reply of every HTTP handler, with the
  properties that make its parts correct. Each theory opens with what it holds and which files it models.

  \<^bold>\<open>The program and the theories.\<close>

  The library every component shares is \<open>Prelude\<close>: time as nanoseconds, the errors of the code as
  a datatype \<open>err\<close>, the functions of the package \<open>strings\<close> that the code calls, and Go's maps as
  association lists (\<open>gomap\<close>), since ranging over one visits its entries in some order. A Go error
  result is \<open>err + 'a\<close> where a value comes with it and \<open>err option\<close> where none does. A method that
  changes state takes it and returns it; a reading of the clock and a draw of the random source is
  an argument (\<open>None\<close>: the source failed). Strings are byte strings, with the case folding of
  ASCII. \<open>Numbers\<close> has \<open>strconv\<close> and the arithmetic of \<open>float64\<close>, \<open>Paths\<close> \<open>path/filepath\<close>,
  \<open>Regex\<close> the regular expressions, \<open>Http\<close> requests and the choice of a handler by \<open>ServeMux\<close>.

  Persistence (\<open>internal/store\<close>). \<open>Models\<close> has the records of the data. \<open>StoreSpec\<close> has the interface
  \<open>Store\<close> as a record of operations, an abstract store (partial maps) with the effect each
  operation promises on it, and one locale per part of the interface; \<open>JsonStore\<close> models
  \<open>jsonstore.go\<close> with the failures of each flush and interprets the locales; \<open>BoltStore\<close>,
  \<open>BoltRefine\<close>, \<open>BoltItems\<close> and \<open>BoltContract\<close> model \<open>boltstore.go\<close> over a bbolt engine that is a
  parameter, prove that each transaction refines the abstract effect and that the three indexes
  stay right, and discharge the same locales. \<open>StoreOps\<close> makes an operation a value, so that whole
  histories are lists, and states once what follows for histories (\<open>op_store\<close>) and reads (\<open>read_store\<close>); \<open>StoreProps\<close>
  has the properties: recovery after a crash, agreement of the two stores, rollback.
  \<open>PgStore\<close> models \<open>pgstore.go\<close>: the statements it sends are values of a small SQL syntax, the server that runs them is a
  parameter. \<open>PgEngine\<close> gives the statements their meaning on tables with unique constraints and states what is relied on of a
  server, \<open>PgTables\<close> says what each statement does to a table of records (locale \<open>pg_entity\<close>, one instance per table),
  \<open>PgContract\<close>, \<open>PgSteps\<close>, \<open>PgOps\<close>, \<open>PgTx\<close> and \<open>PgBackend\<close> prove every operation against its meaning, \<open>PgOpen\<close> the
  schema and the server's identity; \<open>PgProps\<close> has the agreement with the other stores and where it ends.

  Accounts (\<open>internal/security\<close>, \<open>internal/auth\<close>, \<open>internal/userdata\<close>). \<open>Crypto\<close> has SHA-1, SHA-256,
  HMAC and the radix encodings of the Go library; \<open>Security\<close> password hashes, tokens and one-time
  codes, with Argon2 (not in the repository) as a parameter that is only assumed to return as many
  bytes as asked for; \<open>Auth\<close> the service with lockout, sessions and the second factor over an
  arbitrary \<open>Store\<close>; \<open>AuthProofs\<close> and \<open>TwoFactor\<close> its lemmas, inside the store's locales; \<open>UserData\<close>
  the watch state. \<open>AuthProps\<close> and \<open>AccountProps\<close> have the properties over the JSON store.

  Recording (\<open>internal/dvr\<close>). \<open>Dvr\<close> is the recorder, whose capture processes, channel addresses and
  files are a parameter and whose process exits are steps; \<open>DvrProofs\<close> and \<open>DvrSeries\<close> have the
  invariant, the step relation and the lemmas; \<open>DvrProps\<close> the properties.

  Streaming (\<open>internal/transcode\<close>). \<open>Transcode\<close> has the adaptive ladder, the command lines, and the
  sessions with their processes and directories; \<open>TranscodeProps\<close> the invariant over all histories, the
  confinement of segments, and the end of the waiting loops.

  Live TV (\<open>internal/livetv\<close>). \<open>LiveTv\<close> parses playlists and guides, \<open>LiveTvService\<close> is the service with its
  reloads and lookups; \<open>LiveTvProps\<close> and \<open>GuideProps\<close> have the round trip and the properties of
  the guide.

  Media (\<open>internal/media\<close>, \<open>internal/metadata\<close>). \<open>Naming\<close> reads names, \<open>Scan\<close> and \<open>Sidecars\<close> walk a library
  and build its items, \<open>Media\<close> is the service with probing, enrichment, browsing and the files behind
  items, \<open>Tmdb\<close> the client of The Movie Database; \<open>ScanProofs\<close>, \<open>MediaProofs\<close> and \<open>MediaProps\<close> prove the
  hierarchy, the confinement of paths and the pages of a query.

  The server (\<open>internal/server\<close>, \<open>internal/jellyfin\<close>, \<open>internal/config\<close>). \<open>Config\<close> reads the environment,
  \<open>Wire\<close> has the records that go over the wire, \<open>AuthHeader\<close> the header of the clients, \<open>RateLimit\<close> the
  token buckets. \<open>ServerState\<close> is the server: the state of all services, of which the store is shared,
  the answers of the system while one request is served (\<open>senv\<close>), and the replies.
  \<open>HandlersAccount\<close>, \<open>HandlersMedia\<close> and \<open>HandlersTv\<close> are the handlers, each one step of the server; \<open>Routes\<close>
  has the table of routes with their guards, the middleware, and \<open>serve\<close>, which takes a request to a reply
  and the next server. \<open>ServerProofs\<close> shows for every handler what it leaves alone, in a locale of
  store properties that operations for one user keep (\<open>own_store\<close>), interpreted on the JSON store;
  \<open>LoginProofs\<close> follows a login, its token and the limiter through runs of requests; \<open>ServerProps\<close> and \<open>ShowProps\<close>
  have the properties, \<open>AuditProps\<close> what the audit log holds after any run of requests. \<open>Loops\<close> has the background loops of Live TV and the recorder, over the events their \<open>select\<close> receives.
  \<open>Startup\<close> is \<open>cmd/cubozoa/main.go\<close> up to the listening server, \<open>Run\<close> the whole of \<open>run\<close> on whichever of the three stores the
  configuration names, \<open>BootProps\<close> the first login on a fresh install.

  \<^bold>\<open>Bounds and fuel.\<close> No definition needs fuel: loops are structural recursions over the lists the
  code ranges over, and a waiting loop runs over the polls it is given, so that not having answered yet
  is a value (\<open>StillWaiting\<close>, \<open>None\<close>). Counters that the code keeps in an \<open>int\<close> are unbounded
  here; durations read from the environment, \<open>Unix\<close> and the TOTP counter wrap at 64 bits, the digests work on
  32-bit words, the limiter rounds to 53 bits.

  \<^bold>\<open>Not modelled.\<close> What a Postgres server does beyond the laws in \<open>PgEngine\<close> (indexes, locks of concurrent connections); logging and the text
  of audit lines; the JSON encoding of replies and the decoding of bodies, a parameter; ranges and conditional
  requests of \<open>ServeContent\<close>; encoded slashes in paths; what \<open>http.Server\<close> does while it listens and drains (\<open>Run\<close> has how it ends), and the deferred
  calls of \<open>Close\<close> as the process exits; the timing of
  comparisons. Each call is one step: the stores hold one lock or one transaction per call, and a
  request is one step of the server, with background scans and captures between requests. \<open>DvrProps\<close>
  treats the one place where two steps of the recorder interleave to an effect the code does not intend.
\<close>

end
